(* ===== verification/Prelude.thy ===== *)
theory Prelude
  imports Main "HOL-Library.Word" "HOL-Library.AList"
begin

text \<open>
  Shared ground of the development.

  \<^item> Names for the machine integers of the Rust sources (\<open>u8\<close>, \<open>u16\<close>, \<open>u32\<close>, \<open>u64\<close>).
  \<^item> \<open>outcome\<close>: what a Rust call gives back. \<open>Ok\<close> and \<open>Err\<close> are the two constructors of
    \<open>Result\<close>; \<open>Panic\<close> is an unwinding call (a failed \<open>assert!\<close>, \<open>unwrap\<close>,
    \<open>expect\<close> or \<open>unimplemented!\<close>).
  \<^item> \<open>proc\<close>: a method with \<open>&mut self\<close>. The state is returned on every path, because a
    Rust method that returns \<open>Err\<close> keeps the assignments it made before.
  \<^item> \<open>checked_add\<close> at any width, \<open>HashMap\<close> as an association list, \<open>min_by_key\<close>
    and \<open>dedup\<close> of the Rust standard library, and \<open>{:#04x}\<close> formatting.
  \<^item> \<open>preserves\<close> and \<open>wp\<close>: the two judgements through which the component theories
    prove invariants and freedom from panics, with one rule per combinator.
\<close>

section \<open>Machine integers\<close>

type_synonym u8 = "8 word"
type_synonym u16 = "16 word"
type_synonym u32 = "32 word"
type_synonym u64 = "64 word"
type_synonym byte = u8

definition checked_add :: "'a::len word \<Rightarrow> 'a word \<Rightarrow> 'a word option" where
  "checked_add a b = (if uint a + uint b < 2 ^ LENGTH('a) then Some (a + b) else None)"

lemma checked_add_unat:
  "checked_add a b = (if unat a + unat b < 2 ^ LENGTH('a) then Some (a + b) else None)"
  for a b :: "'a::len word"
proof -
  have "uint a + uint b < 2 ^ LENGTH('a) \<longleftrightarrow> int (unat a + unat b) < int (2 ^ LENGTH('a))"
    by simp
  then show ?thesis unfolding checked_add_def by (simp only: of_nat_less_iff)
qed

lemma checked_add_SomeD:
  "checked_add a b = Some c \<Longrightarrow> unat c = unat a + unat b"
  by (auto simp: checked_add_unat unat_word_ariths split: if_splits)

lemma checked_add_one_None_iff:
  "checked_add (a :: 'a::len word) 1 = None \<longleftrightarrow> unat a = 2 ^ LENGTH('a) - 1"
proof -
  have "unat a < 2 ^ LENGTH('a)" by (rule unsigned_less)
  then have "\<not> Suc (unat a) < 2 ^ LENGTH('a) \<longleftrightarrow> unat a = 2 ^ LENGTH('a) - 1" by linarith
  then show ?thesis unfolding checked_add_unat by (simp split: if_split) blast
qed

section \<open>Outcomes of calls\<close>

datatype ('e, 'a) outcome = Ok 'a | Err 'e | Panic string

primrec bindO :: "('e, 'a) outcome \<Rightarrow> ('a \<Rightarrow> ('e, 'b) outcome) \<Rightarrow> ('e, 'b) outcome" where
  "bindO (Ok x) k = k x"
| "bindO (Err e) k = Err e"
| "bindO (Panic p) k = Panic p"

primrec map_err :: "('e \<Rightarrow> 'f) \<Rightarrow> ('e, 'a) outcome \<Rightarrow> ('f, 'a) outcome" where
  "map_err f (Ok x) = Ok x"
| "map_err f (Err e) = Err (f e)"
| "map_err f (Panic p) = Panic p"

primrec map_ok :: "('a \<Rightarrow> 'b) \<Rightarrow> ('e, 'a) outcome \<Rightarrow> ('e, 'b) outcome" where
  "map_ok f (Ok x) = Ok (f x)"
| "map_ok f (Err e) = Err e"
| "map_ok f (Panic p) = Panic p"

primrec ok_or :: "'e \<Rightarrow> 'a option \<Rightarrow> ('e, 'a) outcome" where
  "ok_or e None = Err e"
| "ok_or e (Some x) = Ok x"

primrec is_panic :: "('e, 'a) outcome \<Rightarrow> bool" where
  "is_panic (Ok x) = False"
| "is_panic (Err e) = False"
| "is_panic (Panic p) = True"

lemma bindO_eq_Ok_iff:
  "bindO m k = Ok y \<longleftrightarrow> (\<exists>x. m = Ok x \<and> k x = Ok y)"
  by (cases m) auto

lemma ok_or_eq_iff [simp]:
  "ok_or e opt = Ok x \<longleftrightarrow> opt = Some x"
  "ok_or e opt = Err f \<longleftrightarrow> opt = None \<and> f = e"
  "ok_or e opt \<noteq> Panic p"
  by (cases opt; auto)+

lemma map_err_eq_iff [simp]:
  "map_err f m = Ok x \<longleftrightarrow> m = Ok x"
  "map_err f m = Err e \<longleftrightarrow> (\<exists>d. m = Err d \<and> e = f d)"
  "map_err f m = Panic p \<longleftrightarrow> m = Panic p"
  by (cases m; auto)+

lemma map_ok_eq_iff [simp]:
  "map_ok f m = Ok x \<longleftrightarrow> (\<exists>y. m = Ok y \<and> x = f y)"
  "map_ok f m = Err e \<longleftrightarrow> m = Err e"
  "map_ok f m = Panic p \<longleftrightarrow> m = Panic p"
  by (cases m; auto)+

lemma is_panic_ok_or [simp]: "\<not> is_panic (ok_or e opt)"
  by (cases opt) auto

lemma is_panic_map_err [simp]: "is_panic (map_err f m) = is_panic m"
  by (cases m) auto

lemma is_panic_map_ok [simp]: "is_panic (map_ok f m) = is_panic m"
  by (cases m) auto

section \<open>Methods with mutable state\<close>

type_synonym ('s, 'e, 'a) proc = "'s \<Rightarrow> ('e, 'a) outcome \<times> 's"

definition returnS :: "'a \<Rightarrow> ('s, 'e, 'a) proc" where
  "returnS x s = (Ok x, s)"

definition failS :: "'e \<Rightarrow> ('s, 'e, 'a) proc" where
  "failS e s = (Err e, s)"

definition panicS :: "string \<Rightarrow> ('s, 'e, 'a) proc" where
  "panicS p s = (Panic p, s)"

definition bindS :: "('s, 'e, 'a) proc \<Rightarrow> ('a \<Rightarrow> ('s, 'e, 'b) proc) \<Rightarrow> ('s, 'e, 'b) proc" where
  "bindS m k s = (case m s of
     (Ok x, s') \<Rightarrow> k x s'
   | (Err e, s') \<Rightarrow> (Err e, s')
   | (Panic p, s') \<Rightarrow> (Panic p, s'))"

text \<open>Sequencing a call whose result is \<open>()\<close>.\<close>

definition thenS :: "('s, 'e, 'a) proc \<Rightarrow> ('s, 'e, 'b) proc \<Rightarrow> ('s, 'e, 'b) proc" where
  "thenS m k = bindS m (\<lambda>_. k)"

text \<open>Reading, assigning, and embedding a call that does not touch the state.\<close>

definition getS :: "('s \<Rightarrow> 'a) \<Rightarrow> ('s, 'e, 'a) proc" where
  "getS f s = (Ok (f s), s)"

definition modifyS :: "('s \<Rightarrow> 's) \<Rightarrow> ('s, 'e, unit) proc" where
  "modifyS f s = (Ok (), f s)"

definition liftO :: "('e, 'a) outcome \<Rightarrow> ('s, 'e, 'a) proc" where
  "liftO r s = (r, s)"

text \<open>An early \<open>return Err(e)\<close> when a check fails.\<close>

definition guardS :: "bool \<Rightarrow> 'e \<Rightarrow> ('s, 'e, unit) proc" where
  "guardS b e s = (if b then (Ok (), s) else (Err e, s))"

text \<open>Running a method of a field of the state.\<close>

definition zoomS :: "('s \<Rightarrow> 'c) \<Rightarrow> (('c \<Rightarrow> 'c) \<Rightarrow> 's \<Rightarrow> 's) \<Rightarrow> ('c, 'e, 'a) proc \<Rightarrow> ('s, 'e, 'a) proc" where
  "zoomS get upd m s = (case m (get s) of (r, c) \<Rightarrow> (r, upd (\<lambda>_. c) s))"

text \<open>Running a method of a local variable: the result carries its new value.\<close>

definition localS :: "('c, 'e, 'a) proc \<Rightarrow> 'c \<Rightarrow> ('s, 'e, 'a \<times> 'c) proc" where
  "localS m c s = (case m c of
     (Ok x, c') \<Rightarrow> (Ok (x, c'), s)
   | (Err e, c') \<Rightarrow> (Err e, s)
   | (Panic p, c') \<Rightarrow> (Panic p, s))"

text \<open>A \<open>for\<close> loop whose body may fail; the results are collected in order.\<close>

primrec mapS :: "('a \<Rightarrow> ('s, 'e, 'b) proc) \<Rightarrow> 'a list \<Rightarrow> ('s, 'e, 'b list) proc" where
  "mapS f [] = returnS []"
| "mapS f (x # xs) = bindS (f x) (\<lambda>y. bindS (mapS f xs) (\<lambda>ys. returnS (y # ys)))"

lemmas proc_defs =
  returnS_def failS_def panicS_def bindS_def thenS_def getS_def modifyS_def liftO_def guardS_def

lemma bindS_Ok: "m s = (Ok x, s') \<Longrightarrow> bindS m k s = k x s'"
  by (simp add: bindS_def)

lemma bindS_Err: "m s = (Err e, s') \<Longrightarrow> bindS m k s = (Err e, s')"
  by (simp add: bindS_def)

lemma bindS_Panic: "m s = (Panic p, s') \<Longrightarrow> bindS m k s = (Panic p, s')"
  by (simp add: bindS_def)

lemmas bindS_run = bindS_Ok bindS_Err bindS_Panic

lemma bindS_eq_Ok_iff:
  "bindS m k s = (Ok y, t) \<longleftrightarrow> (\<exists>x s'. m s = (Ok x, s') \<and> k x s' = (Ok y, t))"
  by (auto simp: bindS_def split: prod.splits outcome.splits)

lemma thenS_eq_Ok_iff:
  "thenS m k s = (Ok y, t) \<longleftrightarrow> (\<exists>x s'. m s = (Ok x, s') \<and> k s' = (Ok y, t))"
  by (simp add: thenS_def bindS_eq_Ok_iff)

lemma basic_eq_Ok_iff [simp]:
  "returnS x s = (Ok y, t) \<longleftrightarrow> y = x \<and> t = s"
  "failS e s \<noteq> (Ok y, t)"
  "panicS p s \<noteq> (Ok y, t)"
  "getS f s = (Ok y, t) \<longleftrightarrow> y = f s \<and> t = s"
  "modifyS g s = (Ok u, t) \<longleftrightarrow> t = g s"
  "liftO r s = (Ok y, t) \<longleftrightarrow> r = Ok y \<and> t = s"
  "guardS b e s = (Ok u, t) \<longleftrightarrow> b \<and> t = s"
  by (auto simp: proc_defs)

lemma zoomS_eq_Ok_iff:
  "zoomS get upd m s = (Ok y, t) \<longleftrightarrow> (\<exists>c. m (get s) = (Ok y, c) \<and> t = upd (\<lambda>_. c) s)"
  by (auto simp: zoomS_def split: prod.splits)

lemma localS_eq_Ok_iff:
  "localS m c s = (Ok y, t) \<longleftrightarrow> m c = (Ok (fst y), snd y) \<and> t = s"
  by (cases y) (auto simp: localS_def split: prod.splits outcome.splits)

lemmas ok_iffs = bindS_eq_Ok_iff thenS_eq_Ok_iff zoomS_eq_Ok_iff localS_eq_Ok_iff

lemma bindS_assoc: "bindS (bindS m f) g = bindS m (\<lambda>x. bindS (f x) g)"
  by (rule ext) (auto simp: bindS_def split: prod.splits outcome.splits)

lemma bindS_return_left [simp]: "bindS (returnS x) k = k x"
  by (rule ext) (simp add: proc_defs)

lemma liftO_Ok: "liftO (Ok x) = returnS x"
  by (rule ext) (simp add: proc_defs)

lemma bindS_return_right [simp]: "bindS m returnS = m"
  by (rule ext) (auto simp: bindS_def returnS_def split: prod.splits outcome.splits)

section \<open>Invariants of methods\<close>

named_theorems pres_rules \<open>rules that reduce an invariant of a method to its calls\<close>

text \<open>
  \<open>preserves I m\<close>: the invariant \<open>I\<close> survives \<open>m\<close> on every path, the failing ones
  included.
\<close>

definition preserves :: "('s \<Rightarrow> bool) \<Rightarrow> ('s, 'e, 'a) proc \<Rightarrow> bool" where
  "preserves I m \<longleftrightarrow> (\<forall>s. I s \<longrightarrow> I (snd (m s)))"

lemma preservesI: "(\<And>s. I s \<Longrightarrow> I (snd (m s))) \<Longrightarrow> preserves I m"
  by (simp add: preserves_def)

lemma preservesD: "preserves I m \<Longrightarrow> I s \<Longrightarrow> m s = (r, t) \<Longrightarrow> I t"
  by (metis preserves_def snd_conv)

lemma preserves_bindS [pres_rules]:
  assumes "preserves I m" and "\<And>x. preserves I (k x)"
  shows "preserves I (bindS m k)"
proof (rule preservesI)
  fix s assume "I s"
  obtain r t where "m s = (r, t)" by fastforce
  with \<open>I s\<close> assms show "I (snd (bindS m k s))"
    by (cases r) (auto simp: bindS_def dest: preservesD simp: preserves_def)
qed

lemma preserves_thenS [pres_rules]:
  "preserves I m \<Longrightarrow> preserves I k \<Longrightarrow> preserves I (thenS m k)"
  by (simp add: thenS_def preserves_bindS)

lemma preserves_pure [pres_rules]:
  "preserves I (returnS x)" "preserves I (failS e)" "preserves I (panicS p)"
  "preserves I (getS f)" "preserves I (liftO r)" "preserves I (guardS b e)"
  by (simp_all add: preserves_def proc_defs)

lemma preserves_localS [pres_rules]: "preserves I (localS m c)"
  by (auto simp: preserves_def localS_def split: prod.splits outcome.splits)

lemma preserves_modifyS [pres_rules]:
  "(\<And>s. I s \<Longrightarrow> I (f s)) \<Longrightarrow> preserves I (modifyS f)"
  by (simp add: preserves_def modifyS_def)

lemma preserves_if [pres_rules]:
  "(b \<Longrightarrow> preserves I m) \<Longrightarrow> (\<not> b \<Longrightarrow> preserves I k) \<Longrightarrow> preserves I (if b then m else k)"
  by simp

lemma preserves_case_option [pres_rules]:
  "(x = None \<Longrightarrow> preserves I m) \<Longrightarrow> (\<And>y. x = Some y \<Longrightarrow> preserves I (k y)) \<Longrightarrow>
   preserves I (case x of None \<Rightarrow> m | Some y \<Rightarrow> k y)"
  by (cases x) auto

lemma preserves_case_prod [pres_rules]:
  "(\<And>a b. x = (a, b) \<Longrightarrow> preserves I (k a b)) \<Longrightarrow> preserves I (case x of (a, b) \<Rightarrow> k a b)"
  by (cases x) auto

lemma preserves_case_outcome [pres_rules]:
  "(\<And>y. x = Ok y \<Longrightarrow> preserves I (f y)) \<Longrightarrow> (\<And>e. x = Err e \<Longrightarrow> preserves I (g e)) \<Longrightarrow>
   (\<And>p. x = Panic p \<Longrightarrow> preserves I (h p)) \<Longrightarrow>
   preserves I (case x of Ok y \<Rightarrow> f y | Err e \<Rightarrow> g e | Panic p \<Rightarrow> h p)"
  by (cases x) auto

lemma preserves_zoomS [pres_rules]:
  "(\<And>s. I s \<Longrightarrow> I (upd (\<lambda>_. snd (m (get s))) s)) \<Longrightarrow> preserves I (zoomS get upd m)"
  unfolding preserves_def zoomS_def by (simp add: case_prod_beta)

lemma preserves_mapS [pres_rules]:
  "(\<And>x. preserves I (f x)) \<Longrightarrow> preserves I (mapS f xs)"
  by (induction xs) (auto intro!: pres_rules)

section \<open>Weakest preconditions\<close>

text \<open>
  \<open>wp m Q R N s\<close>: run in state \<open>s\<close>, an \<open>Ok\<close> result of \<open>m\<close> and its state
  satisfy \<open>Q\<close>, an \<open>Err\<close> and its state \<open>R\<close>, a panic and its state \<open>N\<close>. The
  equations in \<open>wp_simps\<close> compute it through the combinators, so that the obligations of a
  method are those of its calls, with the conditions of the branches at hand.
\<close>

named_theorems wp_simps \<open>equations that push a weakest precondition through a combinator\<close>

definition wp ::
  "('s, 'e, 'a) proc \<Rightarrow> ('a \<Rightarrow> 's \<Rightarrow> bool) \<Rightarrow> ('e \<Rightarrow> 's \<Rightarrow> bool) \<Rightarrow> (string \<Rightarrow> 's \<Rightarrow> bool) \<Rightarrow>
   's \<Rightarrow> bool" where
  "wp m Q R N s =
     (case m s of (Ok x, t) \<Rightarrow> Q x t | (Err e, t) \<Rightarrow> R e t | (Panic p, t) \<Rightarrow> N p t)"

lemma wp_bindS [wp_simps]: "wp (bindS m k) Q R N s = wp m (\<lambda>x. wp (k x) Q R N) R N s"
  by (cases "m s") (simp add: wp_def bindS_def split: outcome.split)

lemma wp_thenS [wp_simps]: "wp (thenS m k) Q R N s = wp m (\<lambda>x. wp k Q R N) R N s"
  by (simp add: thenS_def wp_bindS)

lemma wp_returnS [wp_simps]: "wp (returnS x) Q R N s = Q x s"
  by (simp add: wp_def returnS_def)

lemma wp_failS [wp_simps]: "wp (failS e) Q R N s = R e s"
  by (simp add: wp_def failS_def)

lemma wp_panicS [wp_simps]: "wp (panicS p) Q R N s = N p s"
  by (simp add: wp_def panicS_def)

lemma wp_getS [wp_simps]: "wp (getS f) Q R N s = Q (f s) s"
  by (simp add: wp_def getS_def)

lemma wp_modifyS [wp_simps]: "wp (modifyS f) Q R N s = Q () (f s)"
  by (simp add: wp_def modifyS_def)

lemma wp_guardS [wp_simps]: "wp (guardS b e) Q R N s = (if b then Q () s else R e s)"
  by (simp add: wp_def guardS_def)

lemma wp_liftO [wp_simps]:
  "wp (liftO r) Q R N s = (case r of Ok x \<Rightarrow> Q x s | Err e \<Rightarrow> R e s | Panic p \<Rightarrow> N p s)"
  by (simp add: wp_def liftO_def)

lemma wp_zoomS [wp_simps]:
  "wp (zoomS get upd m) Q R N s =
     wp m (\<lambda>x c. Q x (upd (\<lambda>_. c) s)) (\<lambda>e c. R e (upd (\<lambda>_. c) s)) (\<lambda>p c. N p (upd (\<lambda>_. c) s)) (get s)"
  by (cases "m (get s)") (simp add: wp_def zoomS_def split: outcome.split)

lemma wp_localS [wp_simps]:
  "wp (localS m c) Q R N s = wp m (\<lambda>x c'. Q (x, c') s) (\<lambda>e c'. R e s) (\<lambda>p c'. N p s) c"
  by (cases "m c") (simp add: wp_def localS_def split: outcome.split)

lemma wp_mono:
  assumes "wp m Q R N s" and "\<And>x t. Q x t \<Longrightarrow> Q' x t" and "\<And>e t. R e t \<Longrightarrow> R' e t"
    and "\<And>p t. N p t \<Longrightarrow> N' p t"
  shows "wp m Q' R' N' s"
  using assms by (cases "m s") (auto simp: wp_def split: outcome.splits)

lemma wp_conj:
  assumes "wp m Q R N s" and "wp m Q' R' N' s"
  shows "wp m (\<lambda>x t. Q x t \<and> Q' x t) (\<lambda>e t. R e t \<and> R' e t) (\<lambda>p t. N p t \<and> N' p t) s"
  using assms by (cases "m s") (auto simp: wp_def split: outcome.splits)

lemma wpI:
  assumes "\<And>x t. m s = (Ok x, t) \<Longrightarrow> Q x t" and "\<And>e t. m s = (Err e, t) \<Longrightarrow> R e t"
    and "\<And>p t. m s = (Panic p, t) \<Longrightarrow> N p t"
  shows "wp m Q R N s"
  using assms by (cases "m s") (auto simp: wp_def split: outcome.split)

lemma wp_OkD: "wp m Q R N s \<Longrightarrow> m s = (Ok x, t) \<Longrightarrow> Q x t"
  by (simp add: wp_def)

lemma wp_ErrD: "wp m Q R N s \<Longrightarrow> m s = (Err e, t) \<Longrightarrow> R e t"
  by (simp add: wp_def)

lemma wp_no_panic: "wp m Q R (\<lambda>_ _. False) s \<Longrightarrow> \<not> is_panic (fst (m s))"
  by (cases "m s") (auto simp: wp_def split: outcome.splits)

lemma wp_snd: "I (snd (m s)) \<Longrightarrow> wp m (\<lambda>_. I) (\<lambda>_. I) (\<lambda>_. I) s"
  by (cases "m s") (simp add: wp_def split: outcome.split)

lemma wp_sndD: "wp m (\<lambda>_. I) (\<lambda>_. I) (\<lambda>_. I) s \<Longrightarrow> I (snd (m s))"
  by (cases "m s") (simp add: wp_def split: outcome.splits)

lemma wp_mapS:
  assumes "\<And>x s. x \<in> set xs \<Longrightarrow> I s \<Longrightarrow> wp (f x) (\<lambda>_. I) R N s" and "I s"
    and "\<And>ys t. I t \<Longrightarrow> Q ys t"
  shows "wp (mapS f xs) Q R N s"
  using assms
proof (induction xs arbitrary: s Q)
  case (Cons x xs)
  have "wp (f x) (\<lambda>_. I) R N s" using Cons.prems by simp
  then have "wp (f x) (\<lambda>y. wp (bindS (mapS f xs) (\<lambda>ys. returnS (y # ys))) Q R N) R N s"
  proof (rule wp_mono)
    fix y t assume "I t"
    then show "wp (bindS (mapS f xs) (\<lambda>ys. returnS (y # ys))) Q R N t"
      unfolding wp_simps by (intro Cons.IH) (use Cons.prems in auto)
  qed
  then show ?case by (simp add: wp_bindS)
qed (simp add: wp_returnS)

lemma preserves_wp: "preserves I m \<longleftrightarrow> (\<forall>s. I s \<longrightarrow> wp m (\<lambda>_. I) (\<lambda>_. I) (\<lambda>_. I) s)"
proof -
  have "I (snd (m s)) \<longleftrightarrow> wp m (\<lambda>_. I) (\<lambda>_. I) (\<lambda>_. I) s" for s
    by (cases "m s") (simp add: wp_def split: outcome.split)
  then show ?thesis by (simp add: preserves_def)
qed

lemma wp_preserves:
  assumes "preserves I m" and "I s" and "\<And>x t. I t \<Longrightarrow> Q x t" and "\<And>e t. I t \<Longrightarrow> R e t"
    and "\<And>p t. I t \<Longrightarrow> N p t"
  shows "wp m Q R N s"
  using assms(1,2) by (auto simp: preserves_wp intro: wp_mono assms(3,4,5))

section \<open>Hash maps\<close>

text \<open>
  A Rust \<open>HashMap\<close> is an association list with distinct keys (\<open>hm_wf\<close>). Its iteration
  order is not specified: where the sources iterate, the model takes the order from a
  parameter, so nothing depends on the order of the list.
\<close>

type_synonym ('k, 'v) hashmap = "('k \<times> 'v) list"

definition hm_wf :: "('k, 'v) hashmap \<Rightarrow> bool" where
  "hm_wf m \<longleftrightarrow> distinct (map fst m)"

definition hm_empty :: "('k, 'v) hashmap" where
  "hm_empty = []"

definition hm_get :: "('k, 'v) hashmap \<Rightarrow> 'k \<Rightarrow> 'v option" where
  "hm_get m k = map_of m k"

definition hm_insert :: "'k \<Rightarrow> 'v \<Rightarrow> ('k, 'v) hashmap \<Rightarrow> ('k, 'v) hashmap" where
  "hm_insert k v m = AList.update k v m"

definition hm_remove :: "'k \<Rightarrow> ('k, 'v) hashmap \<Rightarrow> ('k, 'v) hashmap" where
  "hm_remove k m = AList.delete k m"

definition hm_keys :: "('k, 'v) hashmap \<Rightarrow> 'k list" where
  "hm_keys m = map fst m"

definition hm_contains_key :: "('k, 'v) hashmap \<Rightarrow> 'k \<Rightarrow> bool" where
  "hm_contains_key m k \<longleftrightarrow> hm_get m k \<noteq> None"

definition hm_len :: "('k, 'v) hashmap \<Rightarrow> nat" where
  "hm_len m = length m"

text \<open>The contract the components rely on, and its clients' lemmas.\<close>

locale finite_map =
  fixes empty :: "'m"
    and get :: "'m \<Rightarrow> 'k \<Rightarrow> 'v option"
    and insert_entry :: "'k \<Rightarrow> 'v \<Rightarrow> 'm \<Rightarrow> 'm"
    and remove :: "'k \<Rightarrow> 'm \<Rightarrow> 'm"
    and len :: "'m \<Rightarrow> nat"
    and wf :: "'m \<Rightarrow> bool"
  assumes wf_empty: "wf empty"
    and wf_insert: "wf m \<Longrightarrow> wf (insert_entry k v m)"
    and wf_remove: "wf m \<Longrightarrow> wf (remove k m)"
    and get_empty: "get empty k = None"
    and get_insert: "get (insert_entry k v m) k' = (if k' = k then Some v else get m k')"
    and get_remove: "get (remove k m) k' = (if k' = k then None else get m k')"
    and finite_dom: "finite (dom (get m))"
    and len_card: "wf m \<Longrightarrow> len m = card (dom (get m))"
begin

lemma dom_insert: "dom (get (insert_entry k v m)) = insert k (dom (get m))"
  by (auto simp: dom_def get_insert)

lemma dom_remove: "dom (get (remove k m)) = dom (get m) - {k}"
  by (auto simp: dom_def get_remove)

lemma len_insert_new:
  assumes "wf m" "get m k = None"
  shows "len (insert_entry k v m) = Suc (len m)"
  using assms finite_dom [of m]
  by (simp add: len_card wf_insert dom_insert domIff)

lemma len_insert_old:
  assumes "wf m" "get m k = Some w"
  shows "len (insert_entry k v m) = len m"
  using assms by (simp add: len_card wf_insert dom_insert insert_absorb domI)

lemma len_remove_present:
  assumes "wf m" "get m k = Some v"
  shows "Suc (len (remove k m)) = len m"
proof -
  from assms(2) have "k \<in> dom (get m)" by (rule domI)
  then have "card (dom (get m)) = Suc (card (dom (get m) - {k}))"
    by (rule card.remove [OF finite_dom])
  with assms(1) show ?thesis by (simp add: len_card wf_remove dom_remove)
qed

lemma get_remove_insert:
  "get (remove k (insert_entry k v m)) k' = (if k' = k then None else get m k')"
  by (simp add: get_insert get_remove)

lemma len_le_card:
  assumes "wf m" "finite K" "dom (get m) \<subseteq> K"
  shows "len m \<le> card K"
  using assms by (simp add: len_card card_mono)

end

lemma hm_get_insert: "hm_get (hm_insert k v m) k' = (if k' = k then Some v else hm_get m k')"
  by (simp add: hm_get_def hm_insert_def update_conv')

lemma hm_get_remove: "hm_get (hm_remove k m) k' = (if k' = k then None else hm_get m k')"
  by (simp add: hm_get_def hm_remove_def delete_conv')

lemma hm_get_dom: "dom (hm_get m) = fst ` set m"
  by (simp add: hm_get_def [abs_def] dom_map_of_conv_image_fst)

interpretation hm: finite_map hm_empty hm_get hm_insert hm_remove hm_len hm_wf
proof unfold_locales
  fix m :: "('k, 'v) hashmap" and k v k'
  show "hm_wf m \<Longrightarrow> hm_wf (hm_insert k v m)"
    by (simp add: hm_wf_def hm_insert_def distinct_update)
  show "hm_wf m \<Longrightarrow> hm_wf (hm_remove k m)"
    by (simp add: hm_wf_def hm_remove_def distinct_delete)
  show "finite (dom (hm_get m))"
    by (simp add: hm_get_dom)
  show "hm_wf m \<Longrightarrow> hm_len m = card (dom (hm_get m))"
    by (simp only: hm_get_dom) (metis distinct_card hm_len_def hm_wf_def length_map set_map)
qed (simp_all add: hm_wf_def hm_empty_def hm_get_def hm_get_insert [unfolded hm_get_def]
       hm_get_remove [unfolded hm_get_def])

lemmas hm_simps [simp] = hm.get_empty hm_get_insert hm_get_remove

lemma hm_keys_insert_set [simp]: "set (hm_keys (hm_insert k v m)) = insert k (set (hm_keys m))"
  by (auto simp: hm_keys_def hm_insert_def dom_update)

lemma hm_keys_iff: "k \<in> set (hm_keys m) \<longleftrightarrow> hm_get m k \<noteq> None"
  using hm_get_dom [of m] by (auto simp: hm_keys_def dom_def)

lemma hm_len_keys: "hm_len m = length (hm_keys m)"
  by (simp add: hm_len_def hm_keys_def)

section \<open>Iterator and slice methods of the standard library\<close>

text \<open>\<open>Iterator::min_by_key\<close>: the first of the least elements.\<close>

fun min_by_key :: "('a \<Rightarrow> 'k::linorder) \<Rightarrow> 'a list \<Rightarrow> 'a option" where
  "min_by_key f [] = None"
| "min_by_key f (x # xs) = (case min_by_key f xs of
     None \<Rightarrow> Some x
   | Some y \<Rightarrow> if f x \<le> f y then Some x else Some y)"

lemma min_by_key_None [simp]: "min_by_key f xs = None \<longleftrightarrow> xs = []"
  by (cases xs) (auto split: option.splits if_splits)

lemma min_by_key_in: "min_by_key f xs = Some x \<Longrightarrow> x \<in> set xs"
  by (induction xs arbitrary: x) (auto split: option.splits if_splits)

lemma min_by_key_least: "min_by_key f xs = Some x \<Longrightarrow> y \<in> set xs \<Longrightarrow> f x \<le> f y"
  by (induction xs arbitrary: x y) (fastforce split: option.splits if_splits)+

text \<open>\<open>Vec::dedup\<close>: drop each element equal to the one kept before it.\<close>

fun dedup :: "'a list \<Rightarrow> 'a list" where
  "dedup (x # y # ys) = (if x = y then dedup (y # ys) else x # dedup (y # ys))"
| "dedup xs = xs"

lemma length_dedup_le: "length (dedup xs) \<le> length xs"
  by (induction xs rule: dedup.induct) auto

lemma length_dedup_sorted:
  fixes xs :: "'a::linorder list"
  assumes "sorted xs"
  shows "length (dedup xs) = length xs \<longleftrightarrow> distinct xs"
  using assms
proof (induction xs rule: dedup.induct)
  case (1 x y ys)
  have "length (dedup (y # ys)) \<le> length (y # ys)" by (rule length_dedup_le)
  with 1 show ?case by (auto)
qed auto

section \<open>Formatting\<close>

text \<open>\<open>{:#04x}\<close> of a byte: the prefix \<open>0x\<close> and two lower-case digits.\<close>

definition hex_digit :: "nat \<Rightarrow> char" where
  "hex_digit n = ''0123456789abcdef'' ! (n mod 16)"

definition fmt_04x :: "u8 \<Rightarrow> string" where
  "fmt_04x b = ''0x'' @ [hex_digit (unat b div 16), hex_digit (unat b mod 16)]"

text \<open>Decimal \<open>{}\<close> of an unsigned integer.\<close>

fun fmt_nat :: "nat \<Rightarrow> string" where
  "fmt_nat n = (if n < 10 then [hex_digit n] else fmt_nat (n div 10) @ [hex_digit (n mod 10)])"

declare fmt_nat.simps [simp del]

end
