(* ===== verification/Types.thy ===== *)
theory Types
  imports Prelude
begin

text \<open>
  Roles, identities and addresses (\<open>src/protocol/types.rs\<close>). An address is one byte; the
  two identity types give it a meaning. The conversions from an identity to an address panic
  on a responder number below 2, exactly as the \<open>assert!\<close> in the source does.
\<close>

datatype role = RoleInitiator | RoleResponder

definition role_is_initiator :: "role \<Rightarrow> bool" where
  "role_is_initiator r \<longleftrightarrow> r = RoleInitiator"

definition role_is_responder :: "role \<Rightarrow> bool" where
  "role_is_responder r \<longleftrightarrow> r = RoleResponder"

fun fmt_role :: "role \<Rightarrow> string" where
  "fmt_role RoleInitiator = ''Initiator''"
| "fmt_role RoleResponder = ''Responder''"

type_synonym address = u8

datatype identity = IdServer | IdInitiator | IdResponder u8

definition identity_from_address :: "address \<Rightarrow> identity" where
  "identity_from_address val =
     (if val = 0 then IdServer else if val = 1 then IdInitiator else IdResponder val)"

fun fmt_identity :: "identity \<Rightarrow> string" where
  "fmt_identity IdInitiator = ''initiator''"
| "fmt_identity (IdResponder i) = ''responder '' @ fmt_04x i"
| "fmt_identity IdServer = ''server''"

datatype client_identity = ClientUnknown | ClientInitiator | ClientResponder u8

fun fmt_client_identity :: "client_identity \<Rightarrow> string" where
  "fmt_client_identity ClientUnknown = ''unknown''"
| "fmt_client_identity ClientInitiator = ''initiator''"
| "fmt_client_identity (ClientResponder v) = ''responder '' @ fmt_04x v"

definition is_server :: "address \<Rightarrow> bool" where
  "is_server a \<longleftrightarrow> a = 0"

definition is_unknown :: "address \<Rightarrow> bool" where
  "is_unknown a \<longleftrightarrow> a = 0"

definition is_initiator :: "address \<Rightarrow> bool" where
  "is_initiator a \<longleftrightarrow> a = 1"

definition is_responder :: "address \<Rightarrow> bool" where
  "is_responder a \<longleftrightarrow> 2 \<le> a"

definition fmt_address :: "address \<Rightarrow> string" where
  "fmt_address a = fmt_04x a"

definition fmt_debug_address :: "address \<Rightarrow> string" where
  "fmt_debug_address a = ''Address('' @ fmt_04x a @ '')''"

text \<open>The message of the two assertions.\<close>

definition m_address_le_1 :: string where
  "m_address_le_1 = ''address <= 0x01''"

fun address_from_client_identity :: "client_identity \<Rightarrow> ('e, address) outcome" where
  "address_from_client_identity ClientUnknown = Ok 0"
| "address_from_client_identity ClientInitiator = Ok 1"
| "address_from_client_identity (ClientResponder a) =
     (if 1 < a then Ok a else Panic m_address_le_1)"

fun address_from_identity :: "identity \<Rightarrow> ('e, address) outcome" where
  "address_from_identity IdServer = Ok 0"
| "address_from_identity IdInitiator = Ok 1"
| "address_from_identity (IdResponder a) = (if 1 < a then Ok a else Panic m_address_le_1)"

text \<open>The \<open>serde\<close> visitor of an address: any byte is an address.\<close>

definition address_visit_u8 :: "u8 \<Rightarrow> ('e, address) outcome" where
  "address_visit_u8 v = Ok v"

subsection \<open>Facts\<close>

lemma byte_gt_1_iff: "1 < (a :: u8) \<longleftrightarrow> a \<noteq> 0 \<and> a \<noteq> 1"
  by unat_arith

lemma byte_ge_2_iff: "2 \<le> (a :: u8) \<longleftrightarrow> a \<noteq> 0 \<and> a \<noteq> 1"
  by unat_arith

lemma is_responder_iff: "is_responder a \<longleftrightarrow> a \<noteq> 0 \<and> a \<noteq> 1"
  by (simp add: is_responder_def byte_ge_2_iff)

lemmas address_class_defs = is_server_def is_unknown_def is_initiator_def is_responder_iff

lemma card_responder_addresses: "card {a. is_responder a} = 254"
proof -
  have "{a :: u8. is_responder a} = UNIV - {0, 1}" by (auto simp: is_responder_iff)
  then show ?thesis by (simp add: card_Diff_subset card_word)
qed

text \<open>The client identities a client can hold: a responder number is at least 2.\<close>

fun client_identity_ok :: "client_identity \<Rightarrow> bool" where
  "client_identity_ok (ClientResponder a) = is_responder a"
| "client_identity_ok _ = True"

lemma address_from_client_identity_panic_iff:
  "is_panic (address_from_client_identity i) \<longleftrightarrow> \<not> client_identity_ok i"
  by (cases i) (auto simp: is_responder_iff byte_gt_1_iff)

text \<open>
  Addresses and identities are in bijection: converting an address to an identity and
  back gives the address, with no panic; and an identity that converts to an address is the
  identity of that address, which is a server, initiator or responder address as the
  identity says.
\<close>

theorem address_identity_bijection:
  "address_from_identity (identity_from_address a) = Ok a \<and>
   (case address_from_identity i of
      Ok b \<Rightarrow> identity_from_address b = i \<and>
        (case i of IdServer \<Rightarrow> is_server b | IdInitiator \<Rightarrow> is_initiator b
         | IdResponder _ \<Rightarrow> is_responder b)
    | Err e \<Rightarrow> False
    | Panic p \<Rightarrow> (\<exists>v. i = IdResponder v \<and> \<not> is_responder v))"
  by (cases i) (auto simp: identity_from_address_def byte_gt_1_iff address_class_defs)

end
