(* ===== verification/Errors.thy ===== *)
theory Errors
  imports Types
begin

text \<open>
  The error types (\<open>src/errors.rs\<close>): what signaling reports internally, what the user of
  the library sees, and the result of a nonce validation, with the conversions and the
  \<open>Display\<close> texts of the source. The locks around the cookie and sequence number pairs are
  never contended: every guard is a temporary of a single statement. The lock around the client,
  which a panic poisons, is part of the theory \<open>Client\<close>.
\<close>

datatype signaling_error =
    SigDecode string
  | SigInvalidNonce string
  | SigCrypto string
  | SigCsnOverflow
  | SigInvalidStateTransition string
  | SigInvalidMessage string
  | SigProtocol string
  | SigSendError
  | SigNoSharedTask
  | SigNoPeer
  | SigTaskInitialization string
  | SigInitiatorCouldNotDecrypt
  | SigCrash string

datatype salty_error =
    SaltyCrypto string
  | SaltyDecode string
  | SaltyNetwork string
  | SaltyProtocol string
  | SaltyNoSharedTask
  | SaltyNoPeer
  | SaltyTask string
  | SaltyCrash string
  | SaltyTimeout

datatype validation_error = ValDropMsg string | ValFail string | ValCrash string

datatype builder_error = MissingTask

text \<open>The \<open>Display\<close> implementation derived by the \<open>fail(display)\<close> attributes.\<close>

definition m_indicates_bug :: string where
  "m_indicates_bug = ''. This indicates a bug and should be reported!''"

primrec fmt_signaling_error :: "signaling_error \<Rightarrow> string" where
  "fmt_signaling_error (SigDecode m) = ''Decoding error: '' @ m"
| "fmt_signaling_error (SigInvalidNonce m) = ''Invalid nonce: '' @ m"
| "fmt_signaling_error (SigCrypto m) = ''Crypto error: '' @ m"
| "fmt_signaling_error SigCsnOverflow = ''CSN overflow''"
| "fmt_signaling_error (SigInvalidStateTransition m) = ''Invalid state transition: '' @ m"
| "fmt_signaling_error (SigInvalidMessage m) = ''Invalid message: '' @ m"
| "fmt_signaling_error (SigProtocol m) = ''A protocol error occurred: '' @ m"
| "fmt_signaling_error SigSendError = ''Server could not relay message''"
| "fmt_signaling_error SigNoSharedTask = ''No shared task found''"
| "fmt_signaling_error SigNoPeer = ''Peer has not (yet) been determined''"
| "fmt_signaling_error (SigTaskInitialization m) = ''Task initialization failed: '' @ m"
| "fmt_signaling_error SigInitiatorCouldNotDecrypt = ''Initiator could not decrypt key message''"
| "fmt_signaling_error (SigCrash m) = ''An unexpected error occurred: '' @ m @ m_indicates_bug"

primrec fmt_salty_error :: "salty_error \<Rightarrow> string" where
  "fmt_salty_error (SaltyCrypto m) = ''Crypto error: '' @ m"
| "fmt_salty_error (SaltyDecode m) = ''Decoding error: '' @ m"
| "fmt_salty_error (SaltyNetwork m) = ''Network error: '' @ m"
| "fmt_salty_error (SaltyProtocol m) = ''Protocol error: '' @ m"
| "fmt_salty_error SaltyNoSharedTask = ''No shared task found''"
| "fmt_salty_error SaltyNoPeer = ''Peer has not (yet) been determined''"
| "fmt_salty_error (SaltyTask m) = ''Task error: '' @ m"
| "fmt_salty_error (SaltyCrash m) = ''An unexpected error occurred: '' @ m @ m_indicates_bug"
| "fmt_salty_error SaltyTimeout = ''Future timed out''"

primrec salty_from_signaling :: "signaling_error \<Rightarrow> salty_error" where
  "salty_from_signaling (SigCrash m) = SaltyCrash (''Signaling error: '' @ m)"
| "salty_from_signaling (SigCrypto m) = SaltyCrypto m"
| "salty_from_signaling SigCsnOverflow = SaltyCrypto (fmt_signaling_error SigCsnOverflow)"
| "salty_from_signaling (SigDecode m) = SaltyDecode m"
| "salty_from_signaling SigInitiatorCouldNotDecrypt =
     SaltyCrypto (fmt_signaling_error SigInitiatorCouldNotDecrypt)"
| "salty_from_signaling (SigInvalidMessage m) =
     SaltyProtocol (fmt_signaling_error (SigInvalidMessage m))"
| "salty_from_signaling (SigInvalidNonce m) =
     SaltyProtocol (fmt_signaling_error (SigInvalidNonce m))"
| "salty_from_signaling (SigInvalidStateTransition m) =
     SaltyCrash (fmt_signaling_error (SigInvalidStateTransition m))"
| "salty_from_signaling SigNoSharedTask = SaltyNoSharedTask"
| "salty_from_signaling SigNoPeer = SaltyNoPeer"
| "salty_from_signaling (SigProtocol m) = SaltyProtocol m"
| "salty_from_signaling SigSendError = SaltyNetwork (fmt_signaling_error SigSendError)"
| "salty_from_signaling (SigTaskInitialization m) =
     SaltyTask (fmt_signaling_error (SigTaskInitialization m))"

text \<open>\<open>From<SerdeDecodeError>\<close>: the argument is the text of the decoder's error.\<close>

definition signaling_from_serde :: "string \<Rightarrow> signaling_error" where
  "signaling_from_serde e = SigDecode (''Could not decode msgpack data: '' @ e)"

text \<open>The other conversions: an expired timer, and a lock that could not be taken.\<close>

definition salty_from_timeout :: "'f \<Rightarrow> salty_error" where
  "salty_from_timeout _ = SaltyTimeout"

definition salty_from_try_lock :: "string \<Rightarrow> salty_error" where
  "salty_from_try_lock e = SaltyCrash (''Could not acquire lock: '' @ e)"

definition signaling_from_try_lock :: "string \<Rightarrow> signaling_error" where
  "signaling_from_try_lock e = SigCrash (''Could not acquire lock: '' @ e)"

definition validation_from_try_lock :: "string \<Rightarrow> validation_error" where
  "validation_from_try_lock e = ValCrash (''Could not acquire lock: '' @ e)"

end
