(* ===== verification/Libs.thy ===== *)
theory Libs
  imports Prelude
begin

text \<open>
  The third-party code the crate calls, as a record of functions. Nothing is assumed about
  these functions by the definitions that use them; the predicates below name the documented
  behaviour the properties rely on.

  \<^item> \<open>byteorder\<close>: \<open>BigEndian::read_u16/read_u32/write_u16/write_u32\<close>.
  \<^item> \<open>rust_sodium\<close>: initialisation, random bytes, key generation, authenticated
    public-key encryption (\<open>box_\<close>), secret-key encryption (\<open>secretbox\<close>), and the
    \<open>from_slice\<close> constructors of its key and nonce types. The generator is a sequence:
    draw number \<open>i\<close> is an argument, and the caller threads the next draw number.
  \<^item> \<open>data_encoding\<close>: \<open>HEXLOWER.encode\<close> and \<open>HEXLOWER_PERMISSIVE.decode\<close>.
\<close>

record libs =
  be_read_u16 :: "byte list \<Rightarrow> u16"
  be_read_u32 :: "byte list \<Rightarrow> u32"
  be_write_u16 :: "u16 \<Rightarrow> byte list"
  be_write_u32 :: "u32 \<Rightarrow> byte list"
  sodium_init :: bool
  randombytes :: "nat \<Rightarrow> nat \<Rightarrow> byte list"
  gen_keypair :: "nat \<Rightarrow> byte list \<times> byte list"
  gen_key :: "nat \<Rightarrow> byte list"
  scalarmult_base :: "byte list \<Rightarrow> byte list"
  box_seal :: "byte list \<Rightarrow> byte list \<Rightarrow> byte list \<Rightarrow> byte list \<Rightarrow> byte list"
  box_open :: "byte list \<Rightarrow> byte list \<Rightarrow> byte list \<Rightarrow> byte list \<Rightarrow> byte list option"
  secretbox_seal :: "byte list \<Rightarrow> byte list \<Rightarrow> byte list \<Rightarrow> byte list"
  secretbox_open :: "byte list \<Rightarrow> byte list \<Rightarrow> byte list \<Rightarrow> byte list option"
  public_key_from_slice :: "byte list \<Rightarrow> byte list option"
  private_key_from_slice :: "byte list \<Rightarrow> byte list option"
  secret_key_from_slice :: "byte list \<Rightarrow> byte list option"
  box_nonce_from_slice :: "byte list \<Rightarrow> byte list option"
  hexlower_encode :: "byte list \<Rightarrow> string"
  hexlower_permissive_decode :: "string \<Rightarrow> string + byte list"

section \<open>Big-endian integers\<close>

definition be16 :: "u16 \<Rightarrow> byte list" where
  "be16 x = [ucast (drop_bit 8 x), ucast x]"

definition be32 :: "u32 \<Rightarrow> byte list" where
  "be32 x = [ucast (drop_bit 24 x), ucast (drop_bit 16 x), ucast (drop_bit 8 x), ucast x]"

definition of_be16 :: "byte \<Rightarrow> byte \<Rightarrow> u16" where
  "of_be16 a b = push_bit 8 (ucast a) + ucast b"

definition of_be32 :: "byte \<Rightarrow> byte \<Rightarrow> byte \<Rightarrow> byte \<Rightarrow> u32" where
  "of_be32 a b c d =
     push_bit 24 (ucast a) + push_bit 16 (ucast b) + push_bit 8 (ucast c) + ucast d"

definition byteorder_laws :: "'z libs_scheme \<Rightarrow> bool" where
  "byteorder_laws L \<longleftrightarrow>
     be_write_u16 L = be16 \<and> be_write_u32 L = be32 \<and>
     (\<forall>a b. be_read_u16 L [a, b] = of_be16 a b) \<and>
     (\<forall>a b c d. be_read_u32 L [a, b, c, d] = of_be32 a b c d)"

lemma unat_ucast: "unat (ucast (x :: 'a::len word) :: 'b::len word) = unat x mod 2 ^ LENGTH('b)"
  by (simp add: unsigned_ucast_eq take_bit_eq_mod)

lemma unat_push_bit: "unat (push_bit n (x :: 'a::len word)) = unat x * 2 ^ n mod 2 ^ LENGTH('a)"
  unfolding unsigned_push_bit_eq by (simp add: take_bit_eq_mod push_bit_eq_mult)

lemma unat_byte_less: "unat (a :: byte) < 256"
  using unsigned_less [of a] by simp

lemma of_be16_unat: "unat (of_be16 a b) = unat a * 2 ^ 8 + unat b"
  using unat_byte_less [of a] unat_byte_less [of b]
  by (simp add: of_be16_def unat_word_ariths unat_push_bit unat_ucast)

lemma of_be32_unat:
  "unat (of_be32 a b c d) = unat a * 2 ^ 24 + unat b * 2 ^ 16 + unat c * 2 ^ 8 + unat d"
proof -
  note less = unat_byte_less [of a] unat_byte_less [of b] unat_byte_less [of c] unat_byte_less [of d]
  let ?a = "push_bit 24 (ucast a) :: u32" and ?b = "push_bit 16 (ucast b) :: u32"
  let ?c = "push_bit 8 (ucast c) :: u32" and ?d = "ucast d :: u32"
  have parts: "unat ?a = unat a * 2 ^ 24" "unat ?b = unat b * 2 ^ 16" "unat ?c = unat c * 2 ^ 8"
    "unat ?d = unat d"
    using less by (simp_all add: unat_push_bit unat_ucast)
  have "unat ?a + unat ?b + unat ?c + unat ?d < 2 ^ 32"
    using less unfolding parts by simp
  then show ?thesis
    unfolding of_be32_def parts [symmetric] by (simp add: unat_word_ariths del: push_bit_of_nat)
qed

lemma unat_drop_bit: "unat (drop_bit n (x :: 'a::len word)) = unat x div 2 ^ n"
  unfolding unat_drop_bit_eq by (simp add: drop_bit_eq_div)

lemma unat_low_byte: "unat (ucast (x :: 'a::len word) :: byte) = unat x mod 2 ^ 8"
  by (simp add: unat_ucast)

lemma div_mod_256:
  "(r :: nat) < 256 \<Longrightarrow> (q * 256 + r) div 256 = q" "r < 256 \<Longrightarrow> (q * 256 + r) mod 256 = r"
  by simp_all

lemma of_be16_be16 [simp]: "of_be16 (ucast (drop_bit 8 x)) (ucast x) = x"
proof -
  have "unat x < 2 ^ 16" using unsigned_less [of x] by simp
  then have "unat x div 2 ^ 8 mod 2 ^ 8 = unat x div 2 ^ 8"
    by (simp add: less_mult_imp_div_less)
  then have "unat (of_be16 (ucast (drop_bit 8 x)) (ucast x)) = unat x"
    by (simp only: of_be16_unat unat_drop_bit unat_low_byte div_mult_mod_eq)
  then show ?thesis by (simp only: word_unat_eq_iff)
qed

lemma be32_digits:
  fixes x :: nat
  assumes "x < 2 ^ 32"
  shows "x div 2 ^ 24 mod 2 ^ 8 * 2 ^ 24 + x div 2 ^ 16 mod 2 ^ 8 * 2 ^ 16
       + x div 2 ^ 8 mod 2 ^ 8 * 2 ^ 8 + x mod 2 ^ 8 = x" (is "?lhs = x")
proof -
  define y z w where "y = x div 256" and "z = y div 256" and "w = z div 256"
  have x: "x = y * 256 + x mod 256" and y: "y = z * 256 + y mod 256" and z: "z = w * 256 + z mod 256"
    by (simp_all add: y_def z_def w_def)
  have parts: "x div 2 ^ 8 = y" "x div 2 ^ 16 = z" "x div 2 ^ 24 = w"
    by (simp_all add: y_def z_def w_def div_mult2_eq [symmetric])
  have "w mod 256 = w"
    using assms by (simp add: w_def z_def y_def div_mult2_eq [symmetric] less_mult_imp_div_less)
  then have "?lhs = w * 16777216 + z mod 256 * 65536 + y mod 256 * 256 + x mod 256"
    unfolding parts by simp
  also have "\<dots> = x" using x y z by linarith
  finally show ?thesis .
qed

lemma of_be32_be32 [simp]:
  "of_be32 (ucast (drop_bit 24 x)) (ucast (drop_bit 16 x)) (ucast (drop_bit 8 x)) (ucast x) = x"
proof -
  have "unat x < 2 ^ 32" using unsigned_less [of x] by simp
  then have "unat (of_be32 (ucast (drop_bit 24 x)) (ucast (drop_bit 16 x)) (ucast (drop_bit 8 x))
      (ucast x)) = unat x"
    by (simp only: of_be32_unat unat_drop_bit unat_low_byte be32_digits)
  then show ?thesis by (simp only: word_unat_eq_iff)
qed

lemma be16_of_be16 [simp]: "be16 (of_be16 a b) = [a, b]"
proof -
  have "unat (of_be16 a b) div 2 ^ 8 mod 2 ^ 8 = unat a" "unat (of_be16 a b) mod 2 ^ 8 = unat b"
    using unat_byte_less [of a] unat_byte_less [of b] by (simp_all add: of_be16_unat)
  then show ?thesis by (simp only: be16_def word_unat_eq_iff unat_drop_bit unat_low_byte list.inject simp_thms)
qed

lemma be32_of_be32 [simp]: "be32 (of_be32 a b c d) = [a, b, c, d]"
proof -
  note less = unat_byte_less [of a] unat_byte_less [of b] unat_byte_less [of c] unat_byte_less [of d]
  define n where "n = unat (of_be32 a b c d)"
  have n: "n = ((unat a * 256 + unat b) * 256 + unat c) * 256 + unat d"
    by (simp add: n_def of_be32_unat)
  have 1: "n div 256 = (unat a * 256 + unat b) * 256 + unat c" and d: "n mod 256 = unat d"
    unfolding n by (rule div_mod_256 less)+
  have 2: "n div 256 div 256 = unat a * 256 + unat b" and c: "n div 256 mod 256 = unat c"
    unfolding 1 by (rule div_mod_256 less)+
  have 3: "n div 256 div 256 div 256 = unat a" and b: "n div 256 div 256 mod 256 = unat b"
    unfolding 2 by (rule div_mod_256 less)+
  have "n div 2 ^ 24 mod 2 ^ 8 = unat a" "n div 2 ^ 16 mod 2 ^ 8 = unat b"
    using 3 b less(1) by (simp_all add: div_mult2_eq [symmetric])
  moreover have "n div 2 ^ 8 mod 2 ^ 8 = unat c" "n mod 2 ^ 8 = unat d"
    using c d by simp_all
  ultimately show ?thesis
    by (simp only: be32_def word_unat_eq_iff unat_drop_bit unat_low_byte list.inject n_def simp_thms)
qed

lemma length_be [simp]: "length (be16 x) = 2" "length (be32 y) = 4"
  by (simp_all add: be16_def be32_def)

lemma byteorder_write [simp]:
  "byteorder_laws L \<Longrightarrow> be_write_u16 L x = be16 x"
  "byteorder_laws L \<Longrightarrow> be_write_u32 L y = be32 y"
  by (simp_all add: byteorder_laws_def)

lemma byteorder_read [simp]:
  "byteorder_laws L \<Longrightarrow> be_read_u16 L [a, b] = of_be16 a b"
  "byteorder_laws L \<Longrightarrow> be_read_u32 L [a, b, c, d] = of_be32 a b c d"
  by (simp_all add: byteorder_laws_def)

section \<open>Documented behaviour of the cryptographic library\<close>

text \<open>Random bytes: the requested number of them, and never a cookie of zeroes.\<close>

definition random_laws :: "'z libs_scheme \<Rightarrow> bool" where
  "random_laws L \<longleftrightarrow> sodium_init L \<and>
     (\<forall>i n. length (randombytes L i n) = n) \<and>
     (\<forall>i. randombytes L i 16 \<noteq> replicate 16 0)"

text \<open>The \<open>from_slice\<close> constructors accept exactly the slices of the type's length.\<close>

definition from_slice_laws :: "'z libs_scheme \<Rightarrow> bool" where
  "from_slice_laws L \<longleftrightarrow>
     (\<forall>bs. public_key_from_slice L bs = (if length bs = 32 then Some bs else None)) \<and>
     (\<forall>bs. private_key_from_slice L bs = (if length bs = 32 then Some bs else None)) \<and>
     (\<forall>bs. secret_key_from_slice L bs = (if length bs = 32 then Some bs else None)) \<and>
     (\<forall>bs. box_nonce_from_slice L bs = (if length bs = 24 then Some bs else None))"

text \<open>Opening a box removes the 16 bytes of the authenticator.\<close>

definition box_open_length :: "'z libs_scheme \<Rightarrow> bool" where
  "box_open_length L \<longleftrightarrow>
     (\<forall>c n pk sk m. box_open L c n pk sk = Some m \<longrightarrow> length c = length m + 16)"

section \<open>An instance\<close>

text \<open>
  Functions that satisfy the laws above, to evaluate the model at concrete inputs: big-endian
  integers, a counting generator, and a cipher that only prepends an authenticator of zeroes.
  \<open>m\<close> fills the fields of later extensions of the record.
\<close>

definition sample_random :: "nat \<Rightarrow> nat \<Rightarrow> byte list" where
  "sample_random i n = map (\<lambda>k. of_nat (i + k)) [0..<n]"

definition sample_open :: "byte list \<Rightarrow> byte list option" where
  "sample_open c = (if length c < 16 then None else Some (drop 16 c))"

definition sample_libs :: "'m \<Rightarrow> 'm libs_scheme" where
  "sample_libs m = \<lparr>
     be_read_u16 = (\<lambda>bs. case bs of [a, b] \<Rightarrow> of_be16 a b | _ \<Rightarrow> 0),
     be_read_u32 = (\<lambda>bs. case bs of [a, b, c, d] \<Rightarrow> of_be32 a b c d | _ \<Rightarrow> 0),
     be_write_u16 = be16,
     be_write_u32 = be32,
     sodium_init = True,
     randombytes = sample_random,
     gen_keypair = (\<lambda>i. (replicate 32 (of_nat i), replicate 32 (of_nat i))),
     gen_key = (\<lambda>i. replicate 32 (of_nat i)),
     scalarmult_base = (\<lambda>sk. sk),
     box_seal = (\<lambda>p n pk sk. replicate 16 0 @ p),
     box_open = (\<lambda>c n pk sk. sample_open c),
     secretbox_seal = (\<lambda>p n k. replicate 16 0 @ p),
     secretbox_open = (\<lambda>c n k. sample_open c),
     public_key_from_slice = (\<lambda>bs. if length bs = 32 then Some bs else None),
     private_key_from_slice = (\<lambda>bs. if length bs = 32 then Some bs else None),
     secret_key_from_slice = (\<lambda>bs. if length bs = 32 then Some bs else None),
     box_nonce_from_slice = (\<lambda>bs. if length bs = 24 then Some bs else None),
     hexlower_encode = (\<lambda>bs. concat (map (\<lambda>b. [hex_digit (unat b div 16), hex_digit (unat b mod 16)]) bs)),
     hexlower_permissive_decode = (\<lambda>s. if s = [] then Inr [] else Inl ''invalid''),
     \<dots> = m\<rparr>"

lemma sample_random_not_zero: "sample_random i 16 \<noteq> replicate 16 0"
proof
  assume "sample_random i 16 = replicate 16 0"
  then have "sample_random i 16 ! 0 = 0" "sample_random i 16 ! 1 = 0" by simp_all
  then have "(of_nat i :: byte) = 0" "(of_nat (i + 1) :: byte) = 0"
    by (simp_all add: sample_random_def)
  then show False by simp
qed

lemma sample_libs_laws:
  "byteorder_laws (sample_libs m)" "random_laws (sample_libs m)"
  "from_slice_laws (sample_libs m)" "box_open_length (sample_libs m)"
  using sample_random_not_zero
  by (auto simp: sample_libs_def byteorder_laws_def random_laws_def from_slice_laws_def
      box_open_length_def sample_open_def sample_random_def split: if_splits)

end
