(* ===== verification/Csn.thy ===== *)
theory Csn
  imports Errors Libs
begin

text \<open>
  Combined sequence numbers (\<open>src/protocol/csn.rs\<close>): a 16 bit overflow number and a 32 bit
  sequence number that form a 48 bit counter. \<open>combined_sequence\<close> is the mutable counter of
  outgoing messages, \<open>csn_snapshot\<close> the immutable value placed in a nonce.
\<close>

record combined_sequence =
  cs_overflow :: u16
  cs_sequence :: u32

datatype csn_snapshot = CombinedSequenceSnapshot (overflow_number: u16) (sequence_number: u32)

record csn_pair =
  csn_ours :: combined_sequence
  csn_theirs :: "csn_snapshot option"

record peer_sequence_numbers =
  incoming :: u64
  outgoing :: u64

definition combined_sequence_number :: "combined_sequence \<Rightarrow> u64" where
  "combined_sequence_number c = push_bit 32 (ucast (cs_overflow c)) + ucast (cs_sequence c)"

definition snapshot_number :: "csn_snapshot \<Rightarrow> u64" where
  "snapshot_number s = push_bit 32 (ucast (overflow_number s)) + ucast (sequence_number s)"

text \<open>\<open>impl Ord for CombinedSequenceSnapshot\<close> compares the 48 bit numbers.\<close>

datatype ordering = OrderLess | OrderEqual | OrderGreater

definition snapshot_cmp :: "csn_snapshot \<Rightarrow> csn_snapshot \<Rightarrow> ordering" where
  "snapshot_cmp s t =
     (if snapshot_number s < snapshot_number t then OrderLess
      else if snapshot_number s = snapshot_number t then OrderEqual
      else OrderGreater)"

text \<open>The comparisons of a counter with a snapshot, in both directions.\<close>

definition number_cmp :: "u64 \<Rightarrow> u64 \<Rightarrow> ordering" where
  "number_cmp m n = (if m < n then OrderLess else if m = n then OrderEqual else OrderGreater)"

definition sequence_eq_snapshot :: "combined_sequence \<Rightarrow> csn_snapshot \<Rightarrow> bool" where
  "sequence_eq_snapshot c s \<longleftrightarrow> combined_sequence_number c = snapshot_number s"

definition sequence_cmp_snapshot :: "combined_sequence \<Rightarrow> csn_snapshot \<Rightarrow> ordering option" where
  "sequence_cmp_snapshot c s = Some (number_cmp (combined_sequence_number c) (snapshot_number s))"

definition snapshot_eq_sequence :: "csn_snapshot \<Rightarrow> combined_sequence \<Rightarrow> bool" where
  "snapshot_eq_sequence s c \<longleftrightarrow> snapshot_number s = combined_sequence_number c"

definition snapshot_cmp_sequence :: "csn_snapshot \<Rightarrow> combined_sequence \<Rightarrow> ordering option" where
  "snapshot_cmp_sequence s c = Some (number_cmp (snapshot_number s) (combined_sequence_number c))"

definition snapshot_of :: "combined_sequence \<Rightarrow> csn_snapshot" where
  "snapshot_of c = CombinedSequenceSnapshot (cs_overflow c) (cs_sequence c)"

definition sequence_of :: "csn_snapshot \<Rightarrow> combined_sequence" where
  "sequence_of s = \<lparr>cs_overflow = overflow_number s, cs_sequence = sequence_number s\<rparr>"

text \<open>
  \<open>CombinedSequence::random\<close>: four random bytes, most significant first. Indexing the vector
  panics if the library returns fewer than four bytes.
\<close>

definition libsodium_init_or_panic :: "'z libs_scheme \<Rightarrow> ('s, 'e, unit) proc" where
  "libsodium_init_or_panic L =
     (if sodium_init L then returnS () else panicS ''Could not initialize libsodium'')"

definition random_sequence :: "'z libs_scheme \<Rightarrow> (nat, 'e, combined_sequence) proc" where
  "random_sequence L =
     thenS (libsodium_init_or_panic L)
     (bindS (getS (\<lambda>i. randombytes L i 4)) (\<lambda>rand.
      thenS (modifyS Suc)
      (case rand of
         a # b # c # d # _ \<Rightarrow> returnS \<lparr>cs_overflow = 0,
           cs_sequence = push_bit 24 (ucast a) + push_bit 16 (ucast b) + push_bit 8 (ucast c) + ucast d\<rparr>
       | _ \<Rightarrow> panicS ''index out of bounds'')))"

definition increment :: "(combined_sequence, signaling_error, csn_snapshot) proc" where
  "increment c =
     (case checked_add (cs_sequence c) 1 of
        Some incremented \<Rightarrow>
          (let nxt = \<lparr>cs_overflow = cs_overflow c, cs_sequence = incremented\<rparr>
           in (Ok (snapshot_of nxt), nxt))
      | None \<Rightarrow>
          (case checked_add (cs_overflow c) 1 of
             Some incremented \<Rightarrow>
               (let nxt = \<lparr>cs_overflow = incremented, cs_sequence = 0\<rparr>
                in (Ok (snapshot_of nxt), nxt))
           | None \<Rightarrow> (Err SigCsnOverflow, c)))"

definition new_csn_pair :: "'z libs_scheme \<Rightarrow> (nat, 'e, csn_pair) proc" where
  "new_csn_pair L = bindS (random_sequence L) (\<lambda>c. returnS \<lparr>csn_ours = c, csn_theirs = None\<rparr>)"

text \<open>The increment of our counter in a pair: \<open>csn_pair().try_write()?.ours.increment()?\<close>.\<close>

definition increment_ours :: "(csn_pair, signaling_error, csn_snapshot) proc" where
  "increment_ours = zoomS csn_ours csn_ours_update increment"

subsection \<open>The 48 bit number\<close>

lemma unat_number:
  fixes o' :: u16 and s :: u32
  shows "unat (push_bit 32 (ucast o') + ucast s :: u64) = unat o' * 2 ^ 32 + unat s"
proof -
  have o': "unat o' < 2 ^ 16" and s: "unat s < 2 ^ 32"
    using unsigned_less [of o'] unsigned_less [of s] by simp_all
  have "unat (push_bit 32 (ucast o') :: u64) = unat o' * 2 ^ 32"
    using o' by (simp add: unat_push_bit unat_ucast)
  moreover have "unat (ucast s :: u64) = unat s"
    using s by (simp add: unat_ucast)
  ultimately show ?thesis
    using o' s by (simp add: unat_word_ariths)
qed

lemma unat_combined_sequence_number:
  "unat (combined_sequence_number c) = unat (cs_overflow c) * 2 ^ 32 + unat (cs_sequence c)"
  by (simp add: combined_sequence_number_def unat_number)

lemma unat_snapshot_number:
  "unat (snapshot_number s) = unat (overflow_number s) * 2 ^ 32 + unat (sequence_number s)"
  by (simp add: snapshot_number_def unat_number)

lemma snapshot_number_of [simp]: "snapshot_number (snapshot_of c) = combined_sequence_number c"
  by (simp add: snapshot_number_def snapshot_of_def combined_sequence_number_def)

lemma sequence_of_snapshot_of [simp]: "sequence_of (snapshot_of c) = c"
  by (simp add: sequence_of_def snapshot_of_def)

lemma snapshot_of_sequence_of [simp]: "snapshot_of (sequence_of s) = s"
  by (simp add: sequence_of_def snapshot_of_def)

lemma snapshot_number_less: "unat (snapshot_number s) < 2 ^ 48"
proof -
  have "unat (overflow_number s) < 2 ^ 16" "unat (sequence_number s) < 2 ^ 32"
    using unsigned_less [of "overflow_number s"] unsigned_less [of "sequence_number s"] by simp_all
  then show ?thesis unfolding unat_snapshot_number by simp
qed

lemma base_digits_eq:
  fixes a b c d :: nat
  assumes "b < m" "d < m" "a * m + b = c * m + d"
  shows "a = c \<and> b = d"
proof -
  have "(a * m + b) div m = a" "(c * m + d) div m = c" using assms(1,2) by simp_all
  with assms(3) show ?thesis by simp
qed

lemma snapshot_number_inject: "snapshot_number s = snapshot_number t \<longleftrightarrow> s = t"
proof
  assume "snapshot_number s = snapshot_number t"
  then have "unat (overflow_number s) * 2 ^ 32 + unat (sequence_number s)
      = unat (overflow_number t) * 2 ^ 32 + unat (sequence_number t)"
    by (simp only: unat_snapshot_number [symmetric])
  moreover have "unat (sequence_number s) < 2 ^ 32" "unat (sequence_number t) < 2 ^ 32"
    using unsigned_less [of "sequence_number s"] unsigned_less [of "sequence_number t"] by simp_all
  ultimately have "unat (overflow_number s) = unat (overflow_number t)
      \<and> unat (sequence_number s) = unat (sequence_number t)"
    by (intro base_digits_eq)
  then show "s = t" by (cases s; cases t) (simp add: word_unat_eq_iff)
qed simp

subsection \<open>Ordering of snapshots\<close>

text \<open>
  The operators \<open><\<close> and \<open><=\<close> are those that \<open>PartialOrd\<close> derives from \<open>cmp\<close>. That this is a linear
  order in which equal means equal fields is what the instance proof below shows.
\<close>

lemma snapshot_cmp_iff:
  "snapshot_cmp s t = OrderLess \<longleftrightarrow> snapshot_number s < snapshot_number t"
  "snapshot_cmp s t = OrderGreater \<longleftrightarrow> snapshot_number t < snapshot_number s"
  by (auto simp: snapshot_cmp_def)

instantiation csn_snapshot :: linorder
begin

definition less_eq_csn_snapshot :: "csn_snapshot \<Rightarrow> csn_snapshot \<Rightarrow> bool" where
  "less_eq_csn_snapshot s t \<longleftrightarrow> snapshot_cmp s t \<noteq> OrderGreater"

definition less_csn_snapshot :: "csn_snapshot \<Rightarrow> csn_snapshot \<Rightarrow> bool" where
  "less_csn_snapshot s t \<longleftrightarrow> snapshot_cmp s t = OrderLess"

instance
  by standard
    (auto simp: less_eq_csn_snapshot_def less_csn_snapshot_def snapshot_cmp_iff less_le snapshot_number_inject)

end

lemma snapshot_less_iff_unat: "s < t \<longleftrightarrow> unat (snapshot_number s) < unat (snapshot_number t)"
  by (simp add: less_csn_snapshot_def snapshot_cmp_iff word_less_nat_alt)

text \<open>
  Comparing two snapshots by their combined 48 bit numbers is the lexicographic
  comparison of overflow number and sequence number, and the combined number stays below
  2 to the 48.
\<close>

theorem snapshot_order_lexicographic:
  "(s < t \<longleftrightarrow> overflow_number s < overflow_number t \<or>
      (overflow_number s = overflow_number t \<and> sequence_number s < sequence_number t)) \<and>
   unat (snapshot_number s) < 2 ^ 48"
proof -
  have less: "unat (sequence_number s) < 2 ^ 32" "unat (sequence_number t) < 2 ^ 32"
    using unsigned_less [of "sequence_number s"] unsigned_less [of "sequence_number t"] by simp_all
  let ?a = "unat (overflow_number s)" and ?c = "unat (overflow_number t)"
  have "s < t \<longleftrightarrow> ?a * 2 ^ 32 + unat (sequence_number s) < ?c * 2 ^ 32 + unat (sequence_number t)"
    by (simp only: snapshot_less_iff_unat unat_snapshot_number)
  also have "\<dots> \<longleftrightarrow> ?a < ?c \<or> (?a = ?c \<and> unat (sequence_number s) < unat (sequence_number t))"
    using less by (cases "?a" "?c" rule: linorder_cases) auto
  finally show ?thesis
    using snapshot_number_less [of s] by (simp add: word_less_nat_alt word_unat_eq_iff)
qed

text \<open>Comparing a counter with a snapshot is comparing the snapshot of the counter with it.\<close>

lemma snapshot_of_number [simp]: "snapshot_number (snapshot_of c) = combined_sequence_number c"
  by (simp add: snapshot_number_def combined_sequence_number_def snapshot_of_def)

lemma mixed_comparisons:
  "sequence_cmp_snapshot c s = Some (snapshot_cmp (snapshot_of c) s)"
  "snapshot_cmp_sequence s c = Some (snapshot_cmp s (snapshot_of c))"
  "sequence_eq_snapshot c s \<longleftrightarrow> snapshot_cmp (snapshot_of c) s = OrderEqual"
  "snapshot_eq_sequence s c \<longleftrightarrow> snapshot_cmp s (snapshot_of c) = OrderEqual"
  by (simp_all add: sequence_cmp_snapshot_def snapshot_cmp_sequence_def sequence_eq_snapshot_def
      snapshot_eq_sequence_def snapshot_cmp_def number_cmp_def)

subsection \<open>Incrementing\<close>

lemma increment_cases:
  obtains (ok) s where "increment c = (Ok s, sequence_of s)"
      "unat (snapshot_number s) = unat (combined_sequence_number c) + 1"
  | (overflow) "increment c = (Err SigCsnOverflow, c)"
      "unat (combined_sequence_number c) = 2 ^ 48 - 1"
proof (cases "checked_add (cs_sequence c) 1")
  case (Some i)
  define s where "s = CombinedSequenceSnapshot (cs_overflow c) i"
  from Some have "increment c = (Ok s, sequence_of s)"
    by (simp add: increment_def Let_def s_def snapshot_of_def sequence_of_def)
  moreover have "unat (snapshot_number s) = unat (combined_sequence_number c) + 1"
    using checked_add_SomeD [OF Some]
    by (simp add: unat_snapshot_number unat_combined_sequence_number s_def)
  ultimately show ?thesis by (rule ok)
next
  case None
  then have seq: "unat (cs_sequence c) = 2 ^ 32 - 1" by (simp add: checked_add_one_None_iff)
  show ?thesis
  proof (cases "checked_add (cs_overflow c) 1")
    case (Some i)
    define s where "s = CombinedSequenceSnapshot i 0"
    from None Some have "increment c = (Ok s, sequence_of s)"
      by (simp add: increment_def Let_def s_def snapshot_of_def sequence_of_def)
    moreover have "unat (snapshot_number s) = unat (combined_sequence_number c) + 1"
      using checked_add_SomeD [OF Some] seq
      by (simp add: unat_snapshot_number unat_combined_sequence_number s_def)
    ultimately show ?thesis by (rule ok)
  next
    case none': None
    then have "unat (cs_overflow c) = 2 ^ 16 - 1" by (simp add: checked_add_one_None_iff)
    with seq have "unat (combined_sequence_number c) = 2 ^ 48 - 1"
      by (simp add: unat_combined_sequence_number)
    moreover have "increment c = (Err SigCsnOverflow, c)"
      using None none' by (simp add: increment_def)
    ultimately show ?thesis by (intro overflow)
  qed
qed

lemma increment_OkD:
  assumes "increment c = (Ok s, c')"
  shows "c' = sequence_of s" "unat (snapshot_number s) = unat (combined_sequence_number c) + 1"
  using assms by (cases c rule: increment_cases; simp)+

lemma increment_ErrD: "increment c = (Err e, c') \<Longrightarrow> e = SigCsnOverflow \<and> c' = c"
  by (cases c rule: increment_cases) auto

lemma increment_no_panic: "increment c \<noteq> (Panic p, c')"
  by (cases c rule: increment_cases) auto

text \<open>
  C33. \<open>increment\<close> either moves the counter to the next 48 bit number and returns exactly the
  new value as a snapshot, or, at the largest number only, returns the overflow error and
  leaves the counter as it was. It never wraps around and never panics.
\<close>

theorem increment_spec:
  "case increment c of
     (Ok s, c') \<Rightarrow> unat (snapshot_number s) = unat (combined_sequence_number c) + 1 \<and>
        snapshot_of c' = s
   | (Err e, c') \<Rightarrow> e = SigCsnOverflow \<and> c' = c \<and> unat (combined_sequence_number c) = 2 ^ 48 - 1
   | (Panic p, c') \<Rightarrow> False"
  by (cases c rule: increment_cases) auto

text \<open>Taking \<open>n\<close> numbers in a row, as the methods that send messages do.\<close>

definition increments :: "nat \<Rightarrow> (combined_sequence, signaling_error, csn_snapshot list) proc" where
  "increments n = mapS (\<lambda>_. increment) [0..<n]"

lemma mapS_increment_Ok:
  assumes "mapS (\<lambda>_. increment) xs c = (Ok ss, c')"
  shows "map (\<lambda>s. unat (snapshot_number s)) ss =
           map (\<lambda>i. unat (combined_sequence_number c) + 1 + i) [0..<length xs] \<and>
         unat (combined_sequence_number c') = unat (combined_sequence_number c) + length xs"
  using assms
proof (induction xs arbitrary: c ss)
  case Nil
  then show ?case by simp
next
  case (Cons x xs)
  from Cons.prems obtain s ss' where s: "increment c = (Ok s, sequence_of s)"
    and rest: "mapS (\<lambda>_. increment) xs (sequence_of s) = (Ok ss', c')" and ss: "ss = s # ss'"
    by (auto simp: ok_iffs dest: increment_OkD)
  have n: "unat (snapshot_number s) = unat (combined_sequence_number c) + 1"
    using s by (rule increment_OkD)
  have [simp]: "combined_sequence_number (sequence_of s) = snapshot_number s"
    using snapshot_number_of [of "sequence_of s"] by simp
  show ?case
    using Cons.IH [OF rest] n
    by (simp add: ss upt_conv_Cons map_Suc_upt [symmetric] del: upt_Suc)
qed

text \<open>
  Numbers taken from one counter are consecutive, hence pairwise different: \<open>n\<close>
  successful increments return the \<open>n\<close> numbers that follow the counter, in order.
\<close>

theorem increments_consecutive:
  assumes "increments n c = (Ok ss, c')"
  shows "map (\<lambda>s. unat (snapshot_number s)) ss =
           [unat (combined_sequence_number c) + 1 ..< unat (combined_sequence_number c) + 1 + n] \<and>
         distinct ss"
proof -
  let ?m = "unat (combined_sequence_number c) + 1"
  have "map (\<lambda>s. unat (snapshot_number s)) ss = map (\<lambda>i. ?m + i) [0..<n]"
    using mapS_increment_Ok [OF assms [unfolded increments_def]] by simp
  also have "\<dots> = [?m ..< ?m + n]"
    using map_add_upt [of ?m n] by (simp only: add.commute)
  finally have eq: "map (\<lambda>s. unat (snapshot_number s)) ss = [?m ..< ?m + n]" .
  have "distinct (map (\<lambda>s. unat (snapshot_number s)) ss)" unfolding eq by (rule distinct_upt)
  then have "distinct ss" by (simp only: distinct_map)
  with eq show ?thesis by blast
qed

theorem increments_consecutive_witness:
  "increments 2 \<lparr>cs_overflow = 0, cs_sequence = 4294967294\<rparr> =
     (Ok [CombinedSequenceSnapshot 0 4294967295, CombinedSequenceSnapshot 1 0],
      \<lparr>cs_overflow = 1, cs_sequence = 0\<rparr>) \<and>
   distinct [CombinedSequenceSnapshot 0 4294967295, CombinedSequenceSnapshot 1 0]"
proof -
  have run: "increments 2 \<lparr>cs_overflow = 0, cs_sequence = 4294967294\<rparr> =
     (Ok [CombinedSequenceSnapshot 0 4294967295, CombinedSequenceSnapshot 1 0],
      \<lparr>cs_overflow = 1, cs_sequence = 0\<rparr>)"
    by code_simp
  show ?thesis using run increments_consecutive [OF run] by blast
qed

subsection \<open>Random starting points\<close>

lemma random_sequence_ok:
  assumes "random_laws L"
  shows "\<exists>c. random_sequence L i = (Ok c, Suc i) \<and> cs_overflow c = 0"
proof -
  from assms have "length (randombytes L i 4) = 4" by (simp add: random_laws_def)
  then obtain a b c d where "randombytes L i 4 = [a, b, c, d]"
    by (auto simp: numeral_eq_Suc length_Suc_conv)
  then show ?thesis
    using assms by (simp add: random_sequence_def libsodium_init_or_panic_def random_laws_def
        thenS_def bindS_def returnS_def getS_def modifyS_def)
qed

text \<open>
  The snapshot that \<open>increment\<close> returns is greater than the counter before the call and equal to the
  counter after it.
\<close>

lemma increment_compared:
  assumes "increment c = (Ok s, c')"
  shows "sequence_cmp_snapshot c s = Some OrderLess" "snapshot_eq_sequence s c'"
proof -
  from assms have s: "c' = sequence_of s" "unat (snapshot_number s) = unat (combined_sequence_number c) + 1"
    by (cases c rule: increment_cases; simp)+
  then show "sequence_cmp_snapshot c s = Some OrderLess"
    by (simp add: sequence_cmp_snapshot_def number_cmp_def word_less_nat_alt)
  show "snapshot_eq_sequence s c'"
    using s(1) by (simp add: snapshot_eq_sequence_def snapshot_number_def combined_sequence_number_def sequence_of_def)
qed

end
