(* ===== verification/Cookie.thy ===== *)
theory Cookie
  imports Csn
begin

text \<open>
  Cookies (\<open>src/protocol/cookie.rs\<close>): 16 bytes. A cookie is a byte list; \<open>cookie_wf\<close> is
  what the array type \<open>[u8; 16]\<close> guarantees. The \<open>serde\<close> visitor is modelled because
  it decides which received byte strings become cookies.
\<close>

type_synonym cookie = "byte list"

definition cookie_bytes :: nat where
  "cookie_bytes = 16"

definition cookie_wf :: "cookie \<Rightarrow> bool" where
  "cookie_wf c \<longleftrightarrow> length c = cookie_bytes"

record cookie_pair =
  cookie_ours :: cookie
  cookie_theirs :: "cookie option"

text \<open>
  \<open>Cookie::random\<close>: panics when the library cannot be initialised, and when the random bytes
  are all zero.
\<close>

definition random_cookie :: "'z libs_scheme \<Rightarrow> (nat, 'e, cookie) proc" where
  "random_cookie L =
     thenS (libsodium_init_or_panic L)
     (bindS (getS (\<lambda>i. randombytes L i 16)) (\<lambda>rand.
      thenS (modifyS Suc)
      (if list_all (\<lambda>x. x = 0) rand then panicS ''assertion failed'' else returnS rand)))"

definition new_cookie_pair :: "'z libs_scheme \<Rightarrow> (nat, 'e, cookie_pair) proc" where
  "new_cookie_pair L =
     bindS (random_cookie L) (\<lambda>c. returnS \<lparr>cookie_ours = c, cookie_theirs = None\<rparr>)"

text \<open>\<open>CookieVisitor::visit_bytes\<close>; the error is the length \<open>serde\<close> reports.\<close>

definition cookie_visit_bytes :: "byte list \<Rightarrow> (nat, cookie) outcome" where
  "cookie_visit_bytes v = (if length v \<noteq> 16 then Err (length v) else Ok v)"

definition cookie_visit_byte_buf :: "byte list \<Rightarrow> (nat, cookie) outcome" where
  "cookie_visit_byte_buf v = cookie_visit_bytes v"

definition cookie_as_bytes :: "cookie \<Rightarrow> byte list" where
  "cookie_as_bytes c = c"

section \<open>Fixed-width encodings\<close>

text \<open>
  The contract shared by the encodings of this program that have a fixed number of bytes
  (cookies, nonces, the identifier of a \<open>send-error\<close> message, signed keys): an encoder that
  always writes \<open>width\<close> bytes and a decoder that inverts it and rejects every other length.
\<close>

locale fixed_width_codec =
  fixes width :: nat
    and wf :: "'a \<Rightarrow> bool"
    and enc :: "'a \<Rightarrow> byte list"
    and dec :: "byte list \<Rightarrow> ('e, 'a) outcome"
  assumes length_enc: "wf x \<Longrightarrow> length (enc x) = width"
    and dec_enc: "wf x \<Longrightarrow> dec (enc x) = Ok x"
    and dec_total: "length bs = width \<Longrightarrow> \<exists>x. dec bs = Ok x \<and> wf x \<and> enc x = bs"
    and dec_reject: "length bs \<noteq> width \<Longrightarrow> \<exists>e. dec bs = Err e"
begin

lemma enc_inject: "wf x \<Longrightarrow> wf y \<Longrightarrow> enc x = enc y \<longleftrightarrow> x = y"
  by (metis dec_enc outcome.inject(1))

lemma dec_Ok_iff: "dec bs = Ok x \<longleftrightarrow> wf x \<and> enc x = bs"
proof
  assume ok: "dec bs = Ok x"
  with dec_reject have "length bs = width" by fastforce
  with dec_total ok show "wf x \<and> enc x = bs" by fastforce
qed (auto simp: dec_enc)

lemma dec_no_panic: "dec bs \<noteq> Panic p"
  by (cases "length bs = width") (use dec_total dec_reject in fastforce)+

lemma dec_inject: "dec bs = Ok x \<Longrightarrow> dec bs' = Ok x \<Longrightarrow> bs = bs'"
  by (simp add: dec_Ok_iff)

lemma dec_Ok_length: "(\<exists>x. dec bs = Ok x) \<longleftrightarrow> length bs = width"
  using dec_total dec_reject by fastforce

text \<open>A message: an encoded header of fixed width followed by any bytes.\<close>

lemma split_header:
  assumes "wf x"
  shows "dec (take width (enc x @ rest)) = Ok x" "drop width (enc x @ rest) = rest"
  using assms by (simp_all add: length_enc dec_enc)

end

interpretation cookie_codec: fixed_width_codec 16 cookie_wf cookie_as_bytes cookie_visit_bytes
  by unfold_locales (auto simp: cookie_wf_def cookie_bytes_def cookie_as_bytes_def
      cookie_visit_bytes_def)

lemma random_cookie_ok:
  assumes "random_laws L"
  shows "random_cookie L i = (Ok (randombytes L i 16), Suc i)"
    and "cookie_wf (randombytes L i 16)"
proof -
  from assms have len: "length (randombytes L i 16) = 16"
    and nz: "randombytes L i 16 \<noteq> replicate 16 0"
    by (simp_all add: random_laws_def)
  have "\<not> list_all (\<lambda>x. x = 0) (randombytes L i 16)"
  proof
    assume "list_all (\<lambda>x. x = 0) (randombytes L i 16)"
    then have "randombytes L i 16 = replicate (length (randombytes L i 16)) 0"
      by (simp add: list_all_iff replicate_length_same)
    with len nz show False by simp
  qed
  then show "random_cookie L i = (Ok (randombytes L i 16), Suc i)"
    using assms by (simp add: random_cookie_def libsodium_init_or_panic_def random_laws_def
        thenS_def bindS_def returnS_def getS_def modifyS_def)
  show "cookie_wf (randombytes L i 16)" using len by (simp add: cookie_wf_def cookie_bytes_def)
qed

end
