(* ===== verification/Nonce.thy ===== *)
theory Nonce
  imports Cookie
begin

text \<open>
  The nonce (\<open>src/protocol/nonce.rs\<close>): 24 bytes, the cookie (16), source and destination
  address (1 each), overflow number (2) and sequence number (4), integers big-endian.
\<close>

record nonce =
  nonce_cookie :: cookie
  nonce_source :: address
  nonce_destination :: address
  nonce_csn :: csn_snapshot

definition new_nonce :: "cookie \<Rightarrow> address \<Rightarrow> address \<Rightarrow> csn_snapshot \<Rightarrow> nonce" where
  "new_nonce c src dst csn =
     \<lparr>nonce_cookie = c, nonce_source = src, nonce_destination = dst, nonce_csn = csn\<rparr>"

definition nonce_wf :: "nonce \<Rightarrow> bool" where
  "nonce_wf n \<longleftrightarrow> cookie_wf (nonce_cookie n)"

definition m_nonce_length :: "nat \<Rightarrow> string" where
  "m_nonce_length n = ''Byte slice must be exactly 24 bytes, not '' @ fmt_nat n"

definition nonce_from_bytes :: "'z libs_scheme \<Rightarrow> byte list \<Rightarrow> (signaling_error, nonce) outcome" where
  "nonce_from_bytes L bytes =
     (if length bytes \<noteq> 24 then Err (SigDecode (m_nonce_length (length bytes)))
      else
        let overflow = be_read_u16 L (take 2 (drop 18 bytes));
            seqno = be_read_u32 L (take 4 (drop 20 bytes));
            csn = CombinedSequenceSnapshot overflow seqno
        in Ok \<lparr>nonce_cookie = take 16 bytes,
               nonce_source = bytes ! 16,
               nonce_destination = bytes ! 17,
               nonce_csn = csn\<rparr>)"

text \<open>
  \<open>into_bytes\<close> writes the cookie, the two addresses and the two integers at their offsets of
  a 24 byte array.
\<close>

definition nonce_into_bytes :: "'z libs_scheme \<Rightarrow> nonce \<Rightarrow> byte list" where
  "nonce_into_bytes L n =
     nonce_cookie n
     @ [nonce_source n]
     @ [nonce_destination n]
     @ be_write_u16 L (overflow_number (nonce_csn n))
     @ be_write_u32 L (sequence_number (nonce_csn n))"

definition source_identity :: "nonce \<Rightarrow> identity" where
  "source_identity n = identity_from_address (nonce_source n)"

lemma length_nonce_into_bytes:
  assumes "byteorder_laws L" "nonce_wf n"
  shows "length (nonce_into_bytes L n) = 24"
  using assms by (simp add: nonce_into_bytes_def nonce_wf_def cookie_wf_def cookie_bytes_def)

lemma nonce_from_into_bytes:
  assumes "byteorder_laws L" "nonce_wf n"
  shows "nonce_from_bytes L (nonce_into_bytes L n) = Ok n"
proof -
  have len: "length (nonce_cookie n) = 16"
    using assms(2) by (simp add: nonce_wf_def cookie_wf_def cookie_bytes_def)
  have bytes: "nonce_into_bytes L n = nonce_cookie n @ nonce_source n # nonce_destination n #
      be16 (overflow_number (nonce_csn n)) @ be32 (sequence_number (nonce_csn n))"
    using assms(1) by (simp add: nonce_into_bytes_def)
  show ?thesis
    using assms len length_nonce_into_bytes [OF assms] unfolding nonce_from_bytes_def bytes
    by (simp add: Let_def nth_append be16_def be32_def)
qed

lemma list24_cases:
  assumes "length bs = 24"
  obtains c a b o1 o2 s1 s2 s3 s4 where "length c = 16"
    "bs = c @ [a, b, o1, o2, s1, s2, s3, s4]"
proof -
  define ds where "ds = drop 16 bs"
  have "length ds = 8" using assms by (simp add: ds_def)
  then obtain a b o1 o2 s1 s2 s3 s4 where "ds = [a, b, o1, o2, s1, s2, s3, s4]"
    by (auto simp: numeral_eq_Suc length_Suc_conv)
  then have "bs = take 16 bs @ [a, b, o1, o2, s1, s2, s3, s4]"
    by (metis append_take_drop_id ds_def)
  moreover have "length (take 16 bs) = 16" using assms by simp
  ultimately show thesis by (rule that [rotated])
qed

lemma nonce_into_from_bytes:
  assumes "byteorder_laws L" "length bs = 24"
  shows "\<exists>n. nonce_from_bytes L bs = Ok n \<and> nonce_wf n \<and> nonce_into_bytes L n = bs"
proof -
  from assms(2) obtain c a b o1 o2 s1 s2 s3 s4 where c: "length c = 16"
    and bs: "bs = c @ [a, b, o1, o2, s1, s2, s3, s4]" by (rule list24_cases)
  show ?thesis
    using assms(1) c
    by (simp add: bs nonce_from_bytes_def Let_def nth_append nonce_into_bytes_def nonce_wf_def
        cookie_wf_def cookie_bytes_def)
qed

lemma nonce_codec:
  assumes "byteorder_laws L"
  shows "fixed_width_codec 24 nonce_wf (nonce_into_bytes L) (nonce_from_bytes L)"
proof
  fix bs :: "byte list" assume "length bs \<noteq> 24"
  then show "\<exists>e. nonce_from_bytes L bs = Err e" by (simp add: nonce_from_bytes_def)
qed (use assms in \<open>auto simp: length_nonce_into_bytes nonce_from_into_bytes nonce_into_from_bytes\<close>)

text \<open>
  C34. The 24 byte encoding of nonces is exact: every nonce decodes from its encoding, every
  24 byte slice is the encoding of the nonce it decodes to, and a slice of any other length is
  a decoding error. In particular different nonces have different encodings.
\<close>

theorem nonce_bytes_roundtrip:
  assumes "byteorder_laws L" and "nonce_wf n"
  shows "nonce_from_bytes L (nonce_into_bytes L n) = Ok n \<and>
    length (nonce_into_bytes L n) = 24 \<and>
    (\<forall>m. nonce_from_bytes L bs = Ok m \<longleftrightarrow> nonce_wf m \<and> nonce_into_bytes L m = bs) \<and>
    (length bs \<noteq> 24 \<longrightarrow> nonce_from_bytes L bs = Err (SigDecode (m_nonce_length (length bs))))"
  using assms fixed_width_codec.dec_Ok_iff [OF nonce_codec [OF assms(1)]]
  by (simp add: nonce_from_into_bytes length_nonce_into_bytes) (simp add: nonce_from_bytes_def)

text \<open>The nonce of the unit tests of \<open>nonce.rs\<close>, and its 24 bytes.\<close>

definition test_nonce :: nonce where
  "test_nonce = \<lparr>nonce_cookie = [1, 2, 3, 4, 5, 6, 7, 8, 9, 10, 11, 12, 13, 14, 15, 16],
     nonce_source = 17, nonce_destination = 18, nonce_csn = CombinedSequenceSnapshot 258 50595078\<rparr>"

definition test_nonce_bytes :: "byte list" where
  "test_nonce_bytes =
     [1, 2, 3, 4, 5, 6, 7, 8, 9, 10, 11, 12, 13, 14, 15, 16, 17, 18, 1, 2, 3, 4, 5, 6]"

lemma test_nonce_into_bytes: "nonce_into_bytes (sample_libs ()) test_nonce = test_nonce_bytes"
  by code_simp

theorem nonce_bytes_roundtrip_witness:
  "nonce_from_bytes (sample_libs ()) test_nonce_bytes = Ok test_nonce \<and>
   nonce_into_bytes (sample_libs ()) test_nonce = test_nonce_bytes"
proof -
  have wf: "nonce_wf test_nonce" by code_simp
  show ?thesis
    using nonce_bytes_roundtrip [OF sample_libs_laws(1) wf, of "()" "[]"]
    by (simp add: test_nonce_into_bytes)
qed

end
