(* ===== verification/Crypto_Types.thy ===== *)
theory Crypto_Types
  imports Nonce
begin

text \<open>
  Key material (\<open>src/crypto_types.rs\<close>): key pairs, authentication tokens and the signed
  keys of the \<open>server-auth\<close> message. Keys are byte lists of 32 bytes; the ciphers are
  parameters of the model (theory \<open>Libs\<close>).
\<close>

type_synonym public_key = "byte list"
type_synonym private_key = "byte list"
type_synonym secret_key = "byte list"
type_synonym auth_token = secret_key
type_synonym signed_keys = "byte list"

record key_pair =
  public_key :: public_key
  private_key :: private_key

definition public_key_from_hex_str ::
  "'z libs_scheme \<Rightarrow> string \<Rightarrow> (salty_error, public_key) outcome" where
  "public_key_from_hex_str L hex_str =
     (case hexlower_permissive_decode L hex_str of
        Inl _ \<Rightarrow> Err (SaltyDecode ''Could not decode public key hex string'')
      | Inr bytes \<Rightarrow> ok_or (SaltyDecode ''Invalid public key hex string'') (public_key_from_slice L bytes))"

definition private_key_from_hex_str ::
  "'z libs_scheme \<Rightarrow> string \<Rightarrow> (salty_error, private_key) outcome" where
  "private_key_from_hex_str L hex_str =
     (case hexlower_permissive_decode L hex_str of
        Inl _ \<Rightarrow> Err (SaltyDecode ''Could not decode private key hex string'')
      | Inr bytes \<Rightarrow> ok_or (SaltyDecode ''Invalid private key hex string'') (private_key_from_slice L bytes))"

section \<open>Key pairs\<close>

definition new_key_pair :: "'z libs_scheme \<Rightarrow> (nat, 'e, key_pair) proc" where
  "new_key_pair L =
     thenS (libsodium_init_or_panic L)
     (bindS (getS (gen_keypair L)) (\<lambda>(pk, sk).
      thenS (modifyS Suc)
      (returnS \<lparr>public_key = pk, private_key = sk\<rparr>)))"

definition key_pair_from_private_key :: "'z libs_scheme \<Rightarrow> private_key \<Rightarrow> key_pair" where
  "key_pair_from_private_key L sk = \<lparr>public_key = scalarmult_base L sk, private_key = sk\<rparr>"

definition key_pair_from_keypair :: "public_key \<Rightarrow> private_key \<Rightarrow> key_pair" where
  "key_pair_from_keypair pk sk = \<lparr>public_key = pk, private_key = sk\<rparr>"

definition public_key_hex :: "'z libs_scheme \<Rightarrow> key_pair \<Rightarrow> string" where
  "public_key_hex L kp = hexlower_encode L (public_key kp)"

definition private_key_hex :: "'z libs_scheme \<Rightarrow> key_pair \<Rightarrow> string" where
  "private_key_hex L kp = hexlower_encode L (private_key kp)"

definition m_could_not_decrypt_data :: string where
  "m_could_not_decrypt_data = ''Could not decrypt data''"

definition key_pair_encrypt ::
  "'z libs_scheme \<Rightarrow> key_pair \<Rightarrow> byte list \<Rightarrow> nonce \<Rightarrow> public_key \<Rightarrow> byte list" where
  "key_pair_encrypt L kp data n other_key =
     box_seal L data (nonce_into_bytes L n) other_key (private_key kp)"

definition key_pair_decrypt ::
  "'z libs_scheme \<Rightarrow> key_pair \<Rightarrow> byte list \<Rightarrow> nonce \<Rightarrow> public_key \<Rightarrow>
   (signaling_error, byte list) outcome" where
  "key_pair_decrypt L kp data n other_key =
     ok_or (SigCrypto m_could_not_decrypt_data)
       (box_open L data (nonce_into_bytes L n) other_key (private_key kp))"

text \<open>
  The documented correctness of \<open>crypto_box\<close>: what \<open>a\<close> seals for the public key of
  \<open>b\<close>, \<open>b\<close> opens with the public key of \<open>a\<close>, under the same nonce.
\<close>

definition box_correct :: "'z libs_scheme \<Rightarrow> key_pair \<Rightarrow> key_pair \<Rightarrow> bool" where
  "box_correct L a b \<longleftrightarrow>
     (\<forall>m n. box_open L (box_seal L m n (public_key b) (private_key a)) n (public_key a) (private_key b)
        = Some m)"

section \<open>Authentication tokens\<close>

definition new_auth_token :: "'z libs_scheme \<Rightarrow> (nat, 'e, auth_token) proc" where
  "new_auth_token L =
     thenS (libsodium_init_or_panic L)
     (bindS (getS (gen_key L)) (\<lambda>key. thenS (modifyS Suc) (returnS key)))"

definition auth_token_from_hex_str ::
  "'z libs_scheme \<Rightarrow> string \<Rightarrow> (salty_error, auth_token) outcome" where
  "auth_token_from_hex_str L hex_str =
     (case hexlower_permissive_decode L hex_str of
        Inl e \<Rightarrow> Err (SaltyDecode (''Could not decode auth token hex string: '' @ e))
      | Inr bytes \<Rightarrow> ok_or (SaltyDecode ''Invalid auth token hex string'') (secret_key_from_slice L bytes))"

definition auth_token_from_slice ::
  "'z libs_scheme \<Rightarrow> byte list \<Rightarrow> (salty_error, auth_token) outcome" where
  "auth_token_from_slice L bytes =
     (if length bytes \<noteq> 32
      then Err (SaltyDecode ''Invalid auth token bytes: Slice must be 32 bytes long'')
      else ok_or (SaltyDecode ''Invalid auth token bytes: Could not create SecretKey'')
             (secret_key_from_slice L bytes))"

definition auth_token_encrypt :: "'z libs_scheme \<Rightarrow> auth_token \<Rightarrow> byte list \<Rightarrow> nonce \<Rightarrow> byte list" where
  "auth_token_encrypt L tok plaintext n = secretbox_seal L plaintext (nonce_into_bytes L n) tok"

definition auth_token_decrypt ::
  "'z libs_scheme \<Rightarrow> auth_token \<Rightarrow> byte list \<Rightarrow> nonce \<Rightarrow> (signaling_error, byte list) outcome" where
  "auth_token_decrypt L tok ciphertext n =
     ok_or (SigCrypto m_could_not_decrypt_data)
       (secretbox_open L ciphertext (nonce_into_bytes L n) tok)"

definition secretbox_correct :: "'z libs_scheme \<Rightarrow> secret_key \<Rightarrow> bool" where
  "secretbox_correct L k \<longleftrightarrow> (\<forall>m n. secretbox_open L (secretbox_seal L m n k) n k = Some m)"

section \<open>Signed keys\<close>

definition signed_keys_bytes :: nat where
  "signed_keys_bytes = 2 * 32 + 16"

record unsigned_keys =
  server_public_session_key :: public_key
  client_public_permanent_key :: public_key

text \<open>
  \<open>UnsignedKeys::sign\<close>, compiled for the tests only, plays the server: the concatenated keys,
  sealed for the client. It asserts the length of the result.
\<close>

definition unsigned_keys_sign ::
  "'z libs_scheme \<Rightarrow> unsigned_keys \<Rightarrow> key_pair \<Rightarrow> public_key \<Rightarrow> nonce \<Rightarrow>
   (signaling_error, signed_keys) outcome" where
  "unsigned_keys_sign L u server_session_keypair client_key n =
     (let bytes = server_public_session_key u @ client_public_permanent_key u;
          vec = box_seal L bytes (nonce_into_bytes L n) client_key (private_key server_session_keypair)
      in if length vec = signed_keys_bytes then Ok vec else Panic ''assertion failed'')"

definition m_could_not_decrypt_signed_keys :: string where
  "m_could_not_decrypt_signed_keys = ''Could not decrypt signed keys''"

text \<open>
  \<open>SignedKeys::decrypt\<close>. The length assertion and the two \<open>unwrap\<close> calls are panics.
\<close>

definition signed_keys_decrypt ::
  "'z libs_scheme \<Rightarrow> signed_keys \<Rightarrow> key_pair \<Rightarrow> public_key \<Rightarrow> nonce \<Rightarrow>
   (signaling_error, unsigned_keys) outcome" where
  "signed_keys_decrypt L sk permanent_key server_public_permanent_key n =
     bindO (ok_or (SigCrypto m_could_not_decrypt_signed_keys)
       (box_open L sk (nonce_into_bytes L n) server_public_permanent_key (private_key permanent_key)))
     (\<lambda>decrypted.
        if length decrypted \<noteq> 32 * 2 then Panic ''assertion failed''
        else
          (case (public_key_from_slice L (take 32 decrypted),
                 public_key_from_slice L (take 32 (drop 32 decrypted))) of
             (Some a, Some b) \<Rightarrow>
               Ok \<lparr>server_public_session_key = a, client_public_permanent_key = b\<rparr>
           | _ \<Rightarrow> Panic ''called Option::unwrap() on a None value''))"

definition signed_keys_visit_bytes :: "byte list \<Rightarrow> (nat, signed_keys) outcome" where
  "signed_keys_visit_bytes v =
     (if length v \<noteq> signed_keys_bytes then Err (length v) else Ok v)"

definition signed_keys_wf :: "signed_keys \<Rightarrow> bool" where
  "signed_keys_wf k \<longleftrightarrow> length k = signed_keys_bytes"

definition signed_keys_serialize :: "signed_keys \<Rightarrow> byte list" where
  "signed_keys_serialize k = k"

interpretation signed_keys_codec:
  fixed_width_codec signed_keys_bytes signed_keys_wf signed_keys_serialize signed_keys_visit_bytes
  by unfold_locales (auto simp: signed_keys_wf_def signed_keys_serialize_def signed_keys_visit_bytes_def)

section \<open>Properties\<close>

text \<open>
  Public-key encryption of message payloads round-trips: what one key pair encrypts for
  another, the other decrypts with the same nonce; the same holds for authentication tokens.
\<close>

theorem payload_encryption_roundtrip:
  assumes "box_correct L a b" and "secretbox_correct L tok"
  shows "key_pair_decrypt L b (key_pair_encrypt L a data n (public_key b)) n (public_key a) = Ok data \<and>
    auth_token_decrypt L tok (auth_token_encrypt L tok data n) n = Ok data"
  using assms by (simp add: key_pair_decrypt_def key_pair_encrypt_def auth_token_decrypt_def
      auth_token_encrypt_def box_correct_def secretbox_correct_def)

definition sample_key_pair :: "byte \<Rightarrow> key_pair" where
  "sample_key_pair b = \<lparr>public_key = replicate 32 b, private_key = replicate 32 b\<rparr>"

lemma sample_box_correct: "box_correct (sample_libs m) a b" "secretbox_correct (sample_libs m) k"
  by (simp_all add: box_correct_def secretbox_correct_def sample_libs_def sample_open_def)

theorem payload_encryption_roundtrip_witness:
  "key_pair_decrypt (sample_libs ()) (sample_key_pair 2)
     (key_pair_encrypt (sample_libs ()) (sample_key_pair 1) [7, 8] test_nonce (public_key (sample_key_pair 2)))
     test_nonce (public_key (sample_key_pair 1)) = Ok [7, 8]"
  using payload_encryption_roundtrip [of "sample_libs ()", OF sample_box_correct(1) sample_box_correct(2)]
  by blast

lemma signed_keys_decrypt_no_panic:
  assumes "from_slice_laws L" "box_open_length L" "signed_keys_wf sk"
  shows "\<not> is_panic (signed_keys_decrypt L sk kp pk n)"
proof (cases "box_open L sk (nonce_into_bytes L n) pk (private_key kp)")
  case (Some m)
  then have "length sk = length m + 16" using assms(2) by (auto simp: box_open_length_def)
  with assms(3) have "length m = 64" by (simp add: signed_keys_wf_def signed_keys_bytes_def)
  with Some assms(1) show ?thesis by (simp add: signed_keys_decrypt_def from_slice_laws_def)
qed (simp add: signed_keys_decrypt_def)

text \<open>
  C35. Signed keys: for 80 byte inputs the decryption never panics; and what a server signs
  with its key pair for a client, the client decrypts to the same two keys.
\<close>

theorem signed_keys_sign_decrypt:
  assumes "from_slice_laws L" "box_open_length L"
    and "box_correct L server client"
    and "length (server_public_session_key u) = 32" "length (client_public_permanent_key u) = 32"
  shows "(signed_keys_wf sk \<longrightarrow> \<not> is_panic (signed_keys_decrypt L sk kp pk n)) \<and>
    (\<exists>signed. unsigned_keys_sign L u server (public_key client) n = Ok signed \<and> signed_keys_wf signed \<and>
       signed_keys_decrypt L signed client (public_key server) n = Ok u)"
proof -
  let ?bytes = "server_public_session_key u @ client_public_permanent_key u"
  let ?c = "box_seal L ?bytes (nonce_into_bytes L n) (public_key client) (private_key server)"
  have opened: "box_open L ?c (nonce_into_bytes L n) (public_key server) (private_key client) = Some ?bytes"
    using assms(3) by (simp add: box_correct_def)
  with assms(2) have "length ?c = length ?bytes + 16" unfolding box_open_length_def by blast
  with assms(4,5) have "length ?c = signed_keys_bytes" by (simp add: signed_keys_bytes_def)
  then have "unsigned_keys_sign L u server (public_key client) n = Ok ?c \<and> signed_keys_wf ?c \<and>
       signed_keys_decrypt L ?c client (public_key server) n = Ok u"
    using opened assms(1,4,5)
    by (simp add: unsigned_keys_sign_def Let_def signed_keys_wf_def signed_keys_decrypt_def
        from_slice_laws_def)
  then show ?thesis using signed_keys_decrypt_no_panic [OF assms(1,2)] by blast
qed

theorem signed_keys_sign_decrypt_witness:
  "\<exists>signed. unsigned_keys_sign (sample_libs ())
       \<lparr>server_public_session_key = replicate 32 5, client_public_permanent_key = replicate 32 6\<rparr>
       (sample_key_pair 1) (public_key (sample_key_pair 2)) test_nonce = Ok signed \<and>
     signed_keys_decrypt (sample_libs ()) signed (sample_key_pair 2) (public_key (sample_key_pair 1))
       test_nonce = Ok \<lparr>server_public_session_key = replicate 32 5,
          client_public_permanent_key = replicate 32 6\<rparr>"
proof -
  let ?u = "\<lparr>server_public_session_key = replicate 32 5 :: byte list,
    client_public_permanent_key = replicate 32 6\<rparr>"
  have "length (server_public_session_key ?u) = 32" "length (client_public_permanent_key ?u) = 32"
    by simp_all
  from signed_keys_sign_decrypt [of "sample_libs ()", OF sample_libs_laws(3) sample_libs_laws(4) sample_box_correct(1) this]
  show ?thesis by blast
qed

end
