(* ===== verification/Close_Code.thy ===== *)
theory Close_Code
  imports Prelude
begin

text \<open>Close codes (\<open>src/close_code.rs\<close>) and their numbers.\<close>

datatype close_code =
    WsClosingNormal
  | WsGoingAway
  | WsProtocolError
  | CodePathFull
  | CodeProtocolError
  | CodeInternalError
  | CodeHandover
  | CodeDroppedByInitiator
  | CodeInitiatorCouldNotDecrypt
  | CodeNoSharedTask
  | CodeInvalidKey
  | CodeTimeout
  | CodeOther u16

primrec as_number :: "close_code \<Rightarrow> u16" where
  "as_number WsClosingNormal = 1000"
| "as_number WsGoingAway = 1001"
| "as_number WsProtocolError = 1002"
| "as_number CodePathFull = 3000"
| "as_number CodeProtocolError = 3001"
| "as_number CodeInternalError = 3002"
| "as_number CodeHandover = 3003"
| "as_number CodeDroppedByInitiator = 3004"
| "as_number CodeInitiatorCouldNotDecrypt = 3005"
| "as_number CodeNoSharedTask = 3006"
| "as_number CodeInvalidKey = 3007"
| "as_number CodeTimeout = 3008"
| "as_number (CodeOther code) = code"

definition from_number :: "u16 \<Rightarrow> close_code" where
  "from_number code =
     (if code = 1000 then WsClosingNormal
      else if code = 1001 then WsGoingAway
      else if code = 1002 then WsProtocolError
      else if code = 3000 then CodePathFull
      else if code = 3001 then CodeProtocolError
      else if code = 3002 then CodeInternalError
      else if code = 3003 then CodeHandover
      else if code = 3004 then CodeDroppedByInitiator
      else if code = 3005 then CodeInitiatorCouldNotDecrypt
      else if code = 3006 then CodeNoSharedTask
      else if code = 3007 then CodeInvalidKey
      else if code = 3008 then CodeTimeout
      else CodeOther code)"

text \<open>\<open>{:?}\<close> of a code and its \<open>Display\<close>.\<close>

primrec fmt_debug_close_code :: "close_code \<Rightarrow> string" where
  "fmt_debug_close_code WsClosingNormal = ''WsClosingNormal''"
| "fmt_debug_close_code WsGoingAway = ''WsGoingAway''"
| "fmt_debug_close_code WsProtocolError = ''WsProtocolError''"
| "fmt_debug_close_code CodePathFull = ''PathFull''"
| "fmt_debug_close_code CodeProtocolError = ''ProtocolError''"
| "fmt_debug_close_code CodeInternalError = ''InternalError''"
| "fmt_debug_close_code CodeHandover = ''Handover''"
| "fmt_debug_close_code CodeDroppedByInitiator = ''DroppedByInitiator''"
| "fmt_debug_close_code CodeInitiatorCouldNotDecrypt = ''InitiatorCouldNotDecrypt''"
| "fmt_debug_close_code CodeNoSharedTask = ''NoSharedTask''"
| "fmt_debug_close_code CodeInvalidKey = ''InvalidKey''"
| "fmt_debug_close_code CodeTimeout = ''Timeout''"
| "fmt_debug_close_code (CodeOther code) = ''Other('' @ fmt_nat (unat code) @ '')''"

definition fmt_close_code :: "close_code \<Rightarrow> string" where
  "fmt_close_code c = fmt_debug_close_code c @ '' ('' @ fmt_nat (unat (as_number c)) @ '')''"

text \<open>
  Every number survives decoding and encoding of close codes, and a close code survives
  encoding and decoding unless it is an \<open>Other\<close> that carries the number of a named code.
\<close>

theorem close_code_roundtrip:
  "as_number (from_number n) = n \<and>
   (from_number (as_number c) = c \<longleftrightarrow>
      \<not> (\<exists>m. c = CodeOther m \<and> m \<in> {1000, 1001, 1002, 3000, 3001, 3002, 3003, 3004, 3005, 3006,
          3007, 3008}))"
  by (cases c) (auto simp: from_number_def)

end
