(* ===== verification/Tasks.thy ===== *)
theory Tasks
  imports Crypto_Types Close_Code
begin

text \<open>
  Tasks (\<open>src/tasks.rs\<close>). A task is an object supplied by the application: its type \<open>'t\<close>
  and the methods of the \<open>Task\<close> trait that signaling calls are parameters. \<open>'v\<close> is the
  dynamically typed MessagePack value of the \<open>rmpv\<close> crate.
\<close>

type_synonym 'v task_data = "(string, 'v) hashmap option"

record ('t, 'v) task_libs = libs +
  task_name :: "'t \<Rightarrow> string"
  task_data :: "'t \<Rightarrow> 'v task_data"
  task_supported_types :: "'t \<Rightarrow> string list"
  task_init :: "'t \<Rightarrow> 'v task_data \<Rightarrow> (string, unit) outcome \<times> 't"

datatype 'v task_message =
    TaskValue "(string, 'v) hashmap"
  | TaskApplication 'v
  | TaskClose close_code

type_synonym 't tasks = "'t list"

definition tasks_new :: "'t \<Rightarrow> 't tasks" where
  "tasks_new t = [t]"

definition tasks_from_vec :: "'t list \<Rightarrow> (string, 't tasks) outcome" where
  "tasks_from_vec ts = (if ts = [] then Err ''Tasks vector may not be empty'' else Ok ts)"

definition m_task_added_twice :: "string \<Rightarrow> string" where
  "m_task_added_twice n = ''Task with name \"'' @ n @ ''\" cannot be added twice''"

definition tasks_add_task ::
  "('t, 'v, 'z) task_libs_scheme \<Rightarrow> 't \<Rightarrow> ('t tasks, string, unit) proc" where
  "tasks_add_task E t ts =
     (if list_ex (\<lambda>u. task_name E u = task_name E t) ts
      then (Err (m_task_added_twice (task_name E t)), ts)
      else (Ok (), ts @ [t]))"

fun choose_shared_task ::
  "('t, 'v, 'z) task_libs_scheme \<Rightarrow> 't tasks \<Rightarrow> string list \<Rightarrow> 't option" where
  "choose_shared_task E [] names = None"
| "choose_shared_task E (t # ts) names =
     (if list_ex (\<lambda>p. p = task_name E t) names then Some t else choose_shared_task E ts names)"

lemma list_ex_eq_iff [simp]: "list_ex (\<lambda>p. p = x) xs \<longleftrightarrow> x \<in> set xs"
  by (auto simp: list_ex_iff)

text \<open>
  Task negotiation on the initiator follows our own order of preference: the chosen task
  is the first of our tasks whose name the peer proposed, and none is chosen exactly when no
  name is shared.
\<close>

theorem choose_shared_task_first:
  "case choose_shared_task E ts names of
     Some t \<Rightarrow> \<exists>before after. ts = before @ t # after \<and> task_name E t \<in> set names \<and>
        (task_name E ` set before) \<inter> set names = {}
   | None \<Rightarrow> (task_name E ` set ts) \<inter> set names = {}"
proof (induction E ts names rule: choose_shared_task.induct)
  case (2 E t ts names)
  show ?case
  proof (cases "task_name E t \<in> set names")
    case True
    then have "choose_shared_task E (t # ts) names = Some t" by simp
    moreover have "\<exists>after. t # ts = [] @ t # after \<and> task_name E t \<in> set names \<and>
        (task_name E ` set []) \<inter> set names = {}" using True by simp
    ultimately show ?thesis by (simp only: option.case) (rule exI)
  next
    case False
    show ?thesis
    proof (cases "choose_shared_task E ts names")
      case (Some u)
      with False 2 obtain before after where "ts = before @ u # after"
        and u: "task_name E u \<in> set names" and dis: "(task_name E ` set before) \<inter> set names = {}"
        by auto
      then have "t # ts = (t # before) @ u # after" by simp
      moreover have "(task_name E ` set (t # before)) \<inter> set names = {}"
        using dis False by auto
      moreover have "choose_shared_task E (t # ts) names = Some u" using Some False by simp
      ultimately show ?thesis using u by (simp only: option.case) blast
    qed (use False 2 in auto)
  qed
qed simp

lemma choose_shared_task_Some:
  "choose_shared_task E ts names = Some t \<Longrightarrow> t \<in> set ts \<and> task_name E t \<in> set names"
  by (induction E ts names rule: choose_shared_task.induct) (auto split: if_splits)

lemma tasks_add_task_distinct:
  assumes "distinct (map (task_name E) ts)"
  shows "distinct (map (task_name E) (snd (tasks_add_task E t ts)))"
  using assms by (auto simp: tasks_add_task_def list_ex_iff)

end
