(* ===== verification/Send_Error.thy ===== *)
theory Send_Error
  imports Nonce
begin

text \<open>
  The identifier carried by a \<open>send-error\<close> message (\<open>src/protocol/send_error.rs\<close>): the
  last eight bytes of the nonce of the message that could not be relayed.
\<close>

record send_error_id =
  se_source :: address
  se_destination :: address
  se_csn :: csn_snapshot

definition send_error_id_as_bytes :: "'z libs_scheme \<Rightarrow> send_error_id \<Rightarrow> byte list" where
  "send_error_id_as_bytes L i =
     [se_source i] @ [se_destination i]
     @ be_write_u16 L (overflow_number (se_csn i))
     @ be_write_u32 L (sequence_number (se_csn i))"

definition m_send_error_length :: "nat \<Rightarrow> string" where
  "m_send_error_length n = ''byte slice must be exactly 8 bytes, not '' @ fmt_nat n"

definition send_error_id_from_slice ::
  "'z libs_scheme \<Rightarrow> byte list \<Rightarrow> (signaling_error, send_error_id) outcome" where
  "send_error_id_from_slice L bytes =
     (if length bytes \<noteq> 8 then Err (SigDecode (m_send_error_length (length bytes)))
      else
        let overflow = be_read_u16 L (take 2 (drop 2 bytes));
            seqno = be_read_u32 L (take 4 (drop 4 bytes))
        in Ok \<lparr>se_source = bytes ! 0, se_destination = bytes ! 1,
               se_csn = CombinedSequenceSnapshot overflow seqno\<rparr>)"

text \<open>
  The \<open>serde\<close> visitor: a wrong length is reported as such, an error of \<open>from_slice\<close> as
  an invalid value. The result here is the error text or the identifier.
\<close>

datatype visit_error = InvalidLength nat | InvalidValue string

definition send_error_id_visit_bytes ::
  "'z libs_scheme \<Rightarrow> byte list \<Rightarrow> (visit_error, send_error_id) outcome" where
  "send_error_id_visit_bytes L v =
     (if length v \<noteq> 8 then Err (InvalidLength (length v))
      else map_err (\<lambda>e. InvalidValue (fmt_signaling_error e)) (send_error_id_from_slice L v))"

lemma send_error_codec:
  assumes "byteorder_laws L"
  shows "fixed_width_codec 8 (\<lambda>_. True) (send_error_id_as_bytes L) (send_error_id_from_slice L)"
proof
  fix i :: send_error_id
  show "length (send_error_id_as_bytes L i) = 8"
    using assms by (simp add: send_error_id_as_bytes_def)
  show "send_error_id_from_slice L (send_error_id_as_bytes L i) = Ok i"
    using assms
    by (simp add: send_error_id_as_bytes_def send_error_id_from_slice_def be16_def be32_def Let_def)
next
  fix bs :: "byte list" assume "length bs = 8"
  then obtain a b o1 o2 s1 s2 s3 s4 where "bs = [a, b, o1, o2, s1, s2, s3, s4]"
    by (auto simp: numeral_eq_Suc length_Suc_conv)
  then show "\<exists>x. send_error_id_from_slice L bs = Ok x \<and> True \<and> send_error_id_as_bytes L x = bs"
    using assms by (simp add: send_error_id_as_bytes_def send_error_id_from_slice_def Let_def)
next
  fix bs :: "byte list" assume "length bs \<noteq> 8"
  then show "\<exists>e. send_error_id_from_slice L bs = Err e"
    by (simp add: send_error_id_from_slice_def)
qed

lemma send_error_visit_eq:
  assumes "byteorder_laws L"
  shows "send_error_id_visit_bytes L v = Ok i \<longleftrightarrow> send_error_id_as_bytes L i = v"
  using fixed_width_codec.dec_Ok_iff [OF send_error_codec [OF assms], of v i]
    fixed_width_codec.dec_Ok_length [OF send_error_codec [OF assms], of v]
  by (auto simp: send_error_id_visit_bytes_def)

text \<open>The identifier a server reports for a message it could not relay.\<close>

definition send_error_id_of_nonce :: "nonce \<Rightarrow> send_error_id" where
  "send_error_id_of_nonce n =
     \<lparr>se_source = nonce_source n, se_destination = nonce_destination n, se_csn = nonce_csn n\<rparr>"

text \<open>
  The identifier of a \<open>send-error\<close> message is the tail of a nonce: its encoding is the
  last eight bytes of the encoded nonce, and those bytes decode to the source, destination and
  sequence number of the message that was not relayed.
\<close>

theorem send_error_id_of_nonce_bytes:
  assumes "byteorder_laws L" and "nonce_wf n"
  shows "send_error_id_as_bytes L (send_error_id_of_nonce n) = drop 16 (nonce_into_bytes L n) \<and>
    send_error_id_visit_bytes L (drop 16 (nonce_into_bytes L n)) = Ok (send_error_id_of_nonce n)"
proof -
  have "send_error_id_as_bytes L (send_error_id_of_nonce n) = drop 16 (nonce_into_bytes L n)"
    using assms by (simp add: send_error_id_as_bytes_def send_error_id_of_nonce_def
        nonce_into_bytes_def nonce_wf_def cookie_wf_def cookie_bytes_def)
  then show ?thesis using send_error_visit_eq [OF assms(1)] by auto
qed

theorem send_error_id_of_nonce_bytes_witness:
  "send_error_id_visit_bytes (sample_libs ()) [17, 18, 1, 2, 3, 4, 5, 6] =
     Ok \<lparr>se_source = 17, se_destination = 18, se_csn = CombinedSequenceSnapshot 258 50595078\<rparr>"
proof -
  have wf: "nonce_wf test_nonce" by code_simp
  have tail: "drop 16 test_nonce_bytes = [17, 18, 1, 2, 3, 4, 5, 6]" by code_simp
  have id: "send_error_id_of_nonce test_nonce =
      \<lparr>se_source = 17, se_destination = 18, se_csn = CombinedSequenceSnapshot 258 50595078\<rparr>"
    by (simp add: send_error_id_of_nonce_def test_nonce_def)
  show ?thesis
    using send_error_id_of_nonce_bytes [OF sample_libs_laws(1) wf, of "()"]
    unfolding test_nonce_into_bytes tail id by (rule conjunct2)
qed

end
