(* ===== verification/Messages.thy ===== *)
theory Messages
  imports Tasks Send_Error "HOL-Library.List_Lexorder" "HOL-Library.Char_ord"
begin

text \<open>
  The messages of the protocol (\<open>src/protocol/messages.rs\<close>) and the two builders of
  \<open>auth\<close> messages. A message struct with the single field \<open>key\<close>, \<open>id\<close> or
  \<open>reason\<close> is the argument of its constructor; the others are records. The MessagePack
  codec (\<open>rmp_serde\<close>) is a parameter.
\<close>

record client_auth =
  ca_your_cookie :: cookie
  ca_subprotocols :: "string list"
  ca_ping_interval :: u32
  ca_your_key :: "public_key option"

record server_auth =
  sa_your_cookie :: cookie
  sa_signed_keys :: "signed_keys option"
  sa_responders :: "address list option"
  sa_initiator_connected :: "bool option"

record drop_responder =
  dr_id :: address
  dr_reason :: "u16 option"

record 'v auth =
  au_your_cookie :: cookie
  au_tasks :: "string list option"
  au_task :: "string option"
  au_data :: "(string, 'v task_data) hashmap"

datatype 'v message =
    ClientHello public_key
  | ServerHello public_key
  | ClientAuth client_auth
  | ServerAuth server_auth
  | NewInitiator
  | NewResponder address
  | DropResponder drop_responder
  | SendError send_error_id
  | Disconnected address
  | Token public_key
  | Key public_key
  | Auth "'v auth"
  | Close u16

primrec get_type :: "'v message \<Rightarrow> string" where
  "get_type (ClientHello _) = ''client-hello''"
| "get_type (ServerHello _) = ''server-hello''"
| "get_type (ClientAuth _) = ''client-auth''"
| "get_type (ServerAuth _) = ''server-auth''"
| "get_type NewInitiator = ''new-initiator''"
| "get_type (NewResponder _) = ''new-responder''"
| "get_type (DropResponder _) = ''drop-responder''"
| "get_type (SendError _) = ''send-error''"
| "get_type (Disconnected _) = ''disconnected''"
| "get_type (Token _) = ''token''"
| "get_type (Key _) = ''key''"
| "get_type (Auth _) = ''auth''"
| "get_type (Close _) = ''close''"

text \<open>
  The last layer of parameters: the MessagePack serialisation of messages and of dynamic
  values (an error is its text), the accessors and constructors of \<open>rmpv::Value\<close> that the
  sources use, and the order in which hash maps and hash sets are iterated.
\<close>

record ('t, 'v) env = "('t, 'v) task_libs" +
  rmps_to_vec_message :: "'v message \<Rightarrow> string + byte list"
  rmps_from_slice_message :: "byte list \<Rightarrow> string + 'v message"
  rmps_to_vec_value :: "'v \<Rightarrow> string + byte list"
  rmps_from_slice_value :: "byte list \<Rightarrow> string + 'v"
  value_as_map :: "'v \<Rightarrow> ('v \<times> 'v) list option"
  value_as_str :: "'v \<Rightarrow> string option"
  value_as_u64 :: "'v \<Rightarrow> u64 option"
  value_map :: "('v \<times> 'v) list \<Rightarrow> 'v"
  value_string :: "string \<Rightarrow> 'v"
  address_order :: "address list \<Rightarrow> address list"
  entry_order :: "(string \<times> 'v) list \<Rightarrow> (string \<times> 'v) list"

definition message_to_msgpack ::
  "('t, 'v, 'z) env_scheme \<Rightarrow> 'v message \<Rightarrow> ('e, byte list) outcome" where
  "message_to_msgpack E m =
     (case rmps_to_vec_message E m of Inl e \<Rightarrow> Panic ''Serialization failed'' | Inr bs \<Rightarrow> Ok bs)"

definition message_from_msgpack ::
  "('t, 'v, 'z) env_scheme \<Rightarrow> byte list \<Rightarrow> (signaling_error, 'v message) outcome" where
  "message_from_msgpack E bs =
     (case rmps_from_slice_message E bs of Inl e \<Rightarrow> Err (signaling_from_serde e) | Inr m \<Rightarrow> Ok m)"

section \<open>Drop reasons and close messages\<close>

datatype drop_reason =
  DropProtocolError | DropInternalError | DroppedByInitiator | DropInitiatorCouldNotDecrypt

primrec drop_reason_into_u16 :: "drop_reason \<Rightarrow> u16" where
  "drop_reason_into_u16 DropProtocolError = 3001"
| "drop_reason_into_u16 DropInternalError = 3002"
| "drop_reason_into_u16 DroppedByInitiator = 3004"
| "drop_reason_into_u16 DropInitiatorCouldNotDecrypt = 3005"

definition drop_responder_with_reason :: "address \<Rightarrow> drop_reason \<Rightarrow> drop_responder" where
  "drop_responder_with_reason i reason =
     \<lparr>dr_id = i, dr_reason = Some (drop_reason_into_u16 reason)\<rparr>"

definition close_from_close_code :: "close_code \<Rightarrow> 'v message" where
  "close_from_close_code c = Close (as_number c)"

section \<open>Builders of auth messages\<close>

definition initiator_auth_new :: "cookie \<Rightarrow> 'v auth" where
  "initiator_auth_new c =
     \<lparr>au_your_cookie = c, au_tasks = None, au_task = None, au_data = hm_empty\<rparr>"

definition initiator_auth_set_task :: "string \<Rightarrow> 'v task_data \<Rightarrow> 'v auth \<Rightarrow> 'v auth" where
  "initiator_auth_set_task name data a =
     a\<lparr>au_task := Some name, au_data := hm_insert name data hm_empty\<rparr>"

definition m_auth_needs_task :: string where
  "m_auth_needs_task = ''An `Auth` message must have a task set''"

definition initiator_auth_build :: "'v auth \<Rightarrow> (signaling_error, 'v auth) outcome" where
  "initiator_auth_build a =
     (if au_tasks a \<noteq> None then Panic ''tasks may not be set''
      else if au_task a \<noteq> None then Ok a
      else Err (SigInvalidMessage m_auth_needs_task))"

definition responder_auth_new :: "cookie \<Rightarrow> 'v auth" where
  "responder_auth_new c =
     \<lparr>au_your_cookie = c, au_tasks = Some [], au_task = None, au_data = hm_empty\<rparr>"

definition m_tasks_not_initialized :: string where
  "m_tasks_not_initialized = ''tasks list not initialized!''"

definition responder_auth_add_task ::
  "string \<Rightarrow> 'v task_data \<Rightarrow> 'v auth \<Rightarrow> (signaling_error, 'v auth) outcome" where
  "responder_auth_add_task name data a =
     (case au_tasks a of
        Some names \<Rightarrow> Ok (a\<lparr>au_tasks := Some (names @ [name]),
                          au_data := hm_insert name data (au_data a)\<rparr>)
      | None \<Rightarrow> Panic m_tasks_not_initialized)"

fun responder_auth_add_tasks ::
  "('t, 'v, 'z) task_libs_scheme \<Rightarrow> 't tasks \<Rightarrow> 'v auth \<Rightarrow> (signaling_error, 'v auth) outcome" where
  "responder_auth_add_tasks E [] a = Ok a"
| "responder_auth_add_tasks E (t # ts) a =
     (case au_tasks a of
        Some names \<Rightarrow>
          responder_auth_add_tasks E ts
            (a\<lparr>au_tasks := Some (names @ [task_name E t]),
               au_data := hm_insert (task_name E t) (task_data E t) (au_data a)\<rparr>)
      | None \<Rightarrow> Panic m_tasks_not_initialized)"

definition m_auth_no_task :: string where
  "m_auth_no_task = ''An `Auth` message must contain at least one task''"

definition m_auth_duplicate_tasks :: string where
  "m_auth_duplicate_tasks = ''An `Auth` message may not contain duplicate tasks''"

definition responder_auth_build :: "'v auth \<Rightarrow> (signaling_error, 'v auth) outcome" where
  "responder_auth_build a =
     (if au_task a \<noteq> None then Panic ''task may not be set''
      else case au_tasks a of
        None \<Rightarrow> Panic m_tasks_not_initialized
      | Some tasks \<Rightarrow>
          if tasks = [] then Err (SigInvalidMessage m_auth_no_task)
          else if length (dedup (sort tasks)) \<noteq> length tasks
          then Err (SigInvalidMessage m_auth_duplicate_tasks)
          else Ok a)"

section \<open>What the builders build\<close>

lemma length_dedup_sort: "length (dedup (sort xs)) = length xs \<longleftrightarrow> distinct xs"
  using length_dedup_sorted [of "sort xs"] by simp

lemma find_append:
  "find P (xs @ ys) = (case find P xs of None \<Rightarrow> find P ys | Some x \<Rightarrow> Some x)"
  by (induction xs) auto

lemma responder_auth_add_tasks_Ok:
  assumes "au_tasks a = Some names"
  shows "\<exists>b. responder_auth_add_tasks E ts a = Ok b \<and>
     au_your_cookie b = au_your_cookie a \<and> au_task b = au_task a \<and>
     au_tasks b = Some (names @ map (task_name E) ts) \<and>
     (\<forall>n. hm_get (au_data b) n = (case find (\<lambda>t. task_name E t = n) (rev ts) of
        None \<Rightarrow> hm_get (au_data a) n | Some t \<Rightarrow> Some (task_data E t)))"
  using assms
proof (induction ts arbitrary: a names)
  case Nil
  then show ?case by auto
next
  case (Cons t ts)
  let ?a = "a\<lparr>au_tasks := Some (names @ [task_name E t]),
    au_data := hm_insert (task_name E t) (task_data E t) (au_data a)\<rparr>"
  have "au_tasks ?a = Some (names @ [task_name E t])" by simp
  from Cons.IH [OF this] obtain b where b: "responder_auth_add_tasks E ts ?a = Ok b"
    "au_your_cookie b = au_your_cookie a" "au_task b = au_task a"
    "au_tasks b = Some (names @ map (task_name E) (t # ts))"
    and data: "\<And>n. hm_get (au_data b) n = (case find (\<lambda>t. task_name E t = n) (rev ts) of
        None \<Rightarrow> hm_get (au_data ?a) n | Some t \<Rightarrow> Some (task_data E t))" by (auto cong: option.case_cong)
  have "hm_get (au_data b) n = (case find (\<lambda>t. task_name E t = n) (rev (t # ts)) of
        None \<Rightarrow> hm_get (au_data a) n | Some t \<Rightarrow> Some (task_data E t))" for n
    by (simp add: data find_append split: option.split)
  then show ?case using b Cons.prems by simp
qed

lemma find_SomeD: "find P xs = Some x \<Longrightarrow> x \<in> set xs \<and> P x"
  by (induction xs) (auto split: if_splits)

lemma find_name_distinct:
  assumes "distinct (map f ts)" "t \<in> set ts"
  shows "find (\<lambda>u. f u = f t) (rev ts) = Some t"
proof (cases "find (\<lambda>u. f u = f t) (rev ts)")
  case None
  then show ?thesis using assms(2) by (auto simp: find_None_iff)
next
  case (Some u)
  then have "u \<in> set ts" "f u = f t" by (auto dest: find_SomeD)
  with assms show ?thesis using Some by (simp add: distinct_map inj_on_def)
qed

text \<open>
  C36. The \<open>auth\<close> message a responder builds from its tasks: building succeeds exactly when
  there is at least one task and no two tasks share a name; the message then lists the names
  in the order of the tasks and carries the data of every task under its name and of nothing
  else. No tasks, and duplicate names, are the two errors; no builder method panics.
\<close>

theorem responder_auth_build_spec:
  "case bindO (responder_auth_add_tasks E ts (responder_auth_new c)) responder_auth_build of
     Ok a \<Rightarrow> ts \<noteq> [] \<and> distinct (map (task_name E) ts) \<and>
       au_your_cookie a = c \<and> au_task a = None \<and> au_tasks a = Some (map (task_name E) ts) \<and>
       dom (hm_get (au_data a)) = task_name E ` set ts \<and>
       list_all (\<lambda>t. hm_get (au_data a) (task_name E t) = Some (task_data E t)) ts
   | Err e \<Rightarrow> if ts = [] then e = SigInvalidMessage m_auth_no_task
       else \<not> distinct (map (task_name E) ts) \<and> e = SigInvalidMessage m_auth_duplicate_tasks
   | Panic p \<Rightarrow> False"
proof -
  obtain b where b: "responder_auth_add_tasks E ts (responder_auth_new c) = Ok b"
    "au_your_cookie b = c" "au_task b = None" "au_tasks b = Some (map (task_name E) ts)"
    "\<And>n. hm_get (au_data b) n = (case find (\<lambda>t. task_name E t = n) (rev ts) of
        None \<Rightarrow> None | Some t \<Rightarrow> Some (task_data E t))"
    using responder_auth_add_tasks_Ok [of "responder_auth_new c" "[]" E ts]
    by (auto simp: responder_auth_new_def cong: option.case_cong)
  have dom: "dom (hm_get (au_data b)) = task_name E ` set ts"
    by (auto simp: dom_def b(5) find_None_iff image_iff split: option.splits)
  have "list_all (\<lambda>t. hm_get (au_data b) (task_name E t) = Some (task_data E t)) ts"
    if "distinct (map (task_name E) ts)"
    using find_name_distinct [OF that] by (simp add: list_all_iff b(5))
  then show ?thesis
    using dom length_dedup_sort [of "map (task_name E) ts"]
    by (simp add: b(1-4) responder_auth_build_def)
qed

lemma initiator_auth_build_set_task:
  "initiator_auth_build (initiator_auth_set_task n d (initiator_auth_new c)) =
     Ok \<lparr>au_your_cookie = c, au_tasks = None, au_task = Some n, au_data = hm_insert n d hm_empty\<rparr>"
  by (simp add: initiator_auth_build_def initiator_auth_set_task_def initiator_auth_new_def)

section \<open>An instance of the parameters\<close>

text \<open>
  For evaluation at concrete inputs: values are strings, numbers and maps, a task is its name,
  and the codecs are given by tables.
\<close>

datatype sample_value =
    SampleString string
  | SampleNumber u64
  | SampleMap "(sample_value \<times> sample_value) list"

definition table_to_vec :: "('a \<times> byte list) list \<Rightarrow> 'a \<Rightarrow> string + byte list" where
  "table_to_vec tbl x = (case map_of tbl x of None \<Rightarrow> Inl ''unknown'' | Some bs \<Rightarrow> Inr bs)"

definition table_from_slice :: "('a \<times> byte list) list \<Rightarrow> byte list \<Rightarrow> string + 'a" where
  "table_from_slice tbl bs =
     (case find (\<lambda>e. snd e = bs) tbl of None \<Rightarrow> Inl ''unknown'' | Some (x, _) \<Rightarrow> Inr x)"

definition sample_env ::
  "(sample_value message \<times> byte list) list \<Rightarrow> (sample_value \<times> byte list) list \<Rightarrow>
   (string, sample_value) env" where
  "sample_env tbl vtbl = sample_libs
     \<lparr>task_name = (\<lambda>t. t), task_data = (\<lambda>t. None), task_supported_types = (\<lambda>t. [''data'']),
      task_init = (\<lambda>t d. (Ok (), t)),
      rmps_to_vec_message = table_to_vec tbl,
      rmps_from_slice_message = table_from_slice tbl,
      rmps_to_vec_value = table_to_vec vtbl,
      rmps_from_slice_value = table_from_slice vtbl,
      value_as_map = (\<lambda>v. case v of SampleMap m \<Rightarrow> Some m | _ \<Rightarrow> None),
      value_as_str = (\<lambda>v. case v of SampleString s \<Rightarrow> Some s | _ \<Rightarrow> None),
      value_as_u64 = (\<lambda>v. case v of SampleNumber n \<Rightarrow> Some n | _ \<Rightarrow> None),
      value_map = SampleMap,
      value_string = SampleString,
      address_order = (\<lambda>as. as),
      entry_order = (\<lambda>es. es)\<rparr>"

lemma sample_env_laws:
  "byteorder_laws (sample_env tbl vtbl)" "random_laws (sample_env tbl vtbl)"
  "from_slice_laws (sample_env tbl vtbl)" "box_open_length (sample_env tbl vtbl)"
  "box_correct (sample_env tbl vtbl) a b" "secretbox_correct (sample_env tbl vtbl) k"
  unfolding sample_env_def by (rule sample_libs_laws sample_box_correct)+

end
