(* ===== verification/Boxes.thy ===== *)
theory Boxes
  imports Messages
begin

text \<open>
  Boxes (\<open>src/boxes.rs\<close>): an open box is a message with its nonce, a byte box the bytes of
  the message, encrypted or not, with the nonce; on the wire the nonce comes first. The
  logging of decrypted bytes has no effect on the result and is left out.
\<close>

record 'm open_box =
  ob_message :: 'm
  ob_nonce :: nonce

record byte_box =
  bb_bytes :: "byte list"
  bb_nonce :: nonce

definition open_box_new :: "'m \<Rightarrow> nonce \<Rightarrow> 'm open_box" where
  "open_box_new m n = \<lparr>ob_message = m, ob_nonce = n\<rparr>"

definition byte_box_new :: "byte list \<Rightarrow> nonce \<Rightarrow> byte_box" where
  "byte_box_new bs n = \<lparr>bb_bytes = bs, bb_nonce = n\<rparr>"

section \<open>Boxes of protocol messages\<close>

definition open_box_encode ::
  "('t, 'v, 'z) env_scheme \<Rightarrow> 'v message open_box \<Rightarrow> ('e, byte_box) outcome" where
  "open_box_encode E ob =
     bindO (message_to_msgpack E (ob_message ob)) (\<lambda>bytes.
       Ok (byte_box_new bytes (ob_nonce ob)))"

definition open_box_encrypt ::
  "('t, 'v, 'z) env_scheme \<Rightarrow> 'v message open_box \<Rightarrow> key_pair \<Rightarrow> public_key \<Rightarrow> ('e, byte_box) outcome" where
  "open_box_encrypt E ob keypair other_key =
     bindO (message_to_msgpack E (ob_message ob)) (\<lambda>bytes.
       Ok (byte_box_new (key_pair_encrypt E keypair bytes (ob_nonce ob) other_key) (ob_nonce ob)))"

definition open_box_encrypt_token ::
  "('t, 'v, 'z) env_scheme \<Rightarrow> 'v message open_box \<Rightarrow> auth_token \<Rightarrow> ('e, byte_box) outcome" where
  "open_box_encrypt_token E ob auth_token =
     bindO (message_to_msgpack E (ob_message ob)) (\<lambda>bytes.
       Ok (byte_box_new (auth_token_encrypt E auth_token bytes (ob_nonce ob)) (ob_nonce ob)))"

definition cannot_decode :: "signaling_error \<Rightarrow> signaling_error" where
  "cannot_decode e = SigDecode (''Cannot decode message payload: '' @ fmt_signaling_error e)"

definition cannot_decrypt :: "signaling_error \<Rightarrow> signaling_error" where
  "cannot_decrypt e = SigDecode (''Cannot decrypt message payload: '' @ fmt_signaling_error e)"

definition open_box_decode ::
  "('t, 'v, 'z) env_scheme \<Rightarrow> byte_box \<Rightarrow> (signaling_error, 'v message open_box) outcome" where
  "open_box_decode E bbox =
     bindO (map_err cannot_decode (message_from_msgpack E (bb_bytes bbox))) (\<lambda>message.
       Ok (open_box_new message (bb_nonce bbox)))"

definition open_box_decrypt ::
  "('t, 'v, 'z) env_scheme \<Rightarrow> byte_box \<Rightarrow> key_pair \<Rightarrow> public_key \<Rightarrow>
   (signaling_error, 'v message open_box) outcome" where
  "open_box_decrypt E bbox keypair other_key =
     bindO (map_err cannot_decrypt (key_pair_decrypt E keypair (bb_bytes bbox) (bb_nonce bbox) other_key))
     (\<lambda>decrypted. bindO (map_err cannot_decode (message_from_msgpack E decrypted)) (\<lambda>message.
       Ok (open_box_new message (bb_nonce bbox))))"

definition open_box_decrypt_token ::
  "('t, 'v, 'z) env_scheme \<Rightarrow> byte_box \<Rightarrow> auth_token \<Rightarrow>
   (signaling_error, 'v message open_box) outcome" where
  "open_box_decrypt_token E bbox auth_token =
     bindO (map_err cannot_decode (auth_token_decrypt E auth_token (bb_bytes bbox) (bb_nonce bbox)))
     (\<lambda>decrypted. bindO (map_err cannot_decode (message_from_msgpack E decrypted)) (\<lambda>message.
       Ok (open_box_new message (bb_nonce bbox))))"

section \<open>Boxes of task messages\<close>

definition value_box_encrypt ::
  "('t, 'v, 'z) env_scheme \<Rightarrow> 'v open_box \<Rightarrow> key_pair \<Rightarrow> public_key \<Rightarrow> ('e, byte_box) outcome" where
  "value_box_encrypt E ob keypair other_key =
     (case rmps_to_vec_value E (ob_message ob) of
        Inl e \<Rightarrow> Panic ''Failed to serialize value''
      | Inr bytes \<Rightarrow>
          Ok (byte_box_new (key_pair_encrypt E keypair bytes (ob_nonce ob) other_key) (ob_nonce ob)))"

definition value_box_decrypt ::
  "('t, 'v, 'z) env_scheme \<Rightarrow> byte_box \<Rightarrow> key_pair \<Rightarrow> public_key \<Rightarrow>
   (signaling_error, 'v open_box) outcome" where
  "value_box_decrypt E bbox keypair other_key =
     bindO (map_err cannot_decrypt (key_pair_decrypt E keypair (bb_bytes bbox) (bb_nonce bbox) other_key))
     (\<lambda>decrypted.
        case rmps_from_slice_value E decrypted of
          Inl e \<Rightarrow> Err (SigDecode (''Cannot decode message payload: '' @ e))
        | Inr message \<Rightarrow> Ok (open_box_new message (bb_nonce bbox)))"

section \<open>Byte boxes\<close>

definition m_message_too_short :: string where
  "m_message_too_short = ''Message is too short''"

definition byte_box_from_slice ::
  "'z libs_scheme \<Rightarrow> byte list \<Rightarrow> (signaling_error, byte_box) outcome" where
  "byte_box_from_slice L bytes =
     (if length bytes \<le> 24 then Err (SigDecode m_message_too_short)
      else
        bindO (map_err (\<lambda>e. SigDecode (''Cannot decode nonce: '' @ fmt_signaling_error e))
                 (nonce_from_bytes L (take 24 bytes)))
        (\<lambda>nonce. Ok (byte_box_new (drop 24 bytes) nonce)))"

definition byte_box_into_bytes :: "'z libs_scheme \<Rightarrow> byte_box \<Rightarrow> byte list" where
  "byte_box_into_bytes L b = nonce_into_bytes L (bb_nonce b) @ bb_bytes b"

section \<open>Properties\<close>

lemmas box_defs = open_box_encode_def open_box_encrypt_def open_box_encrypt_token_def
  open_box_decode_def open_box_decrypt_def open_box_decrypt_token_def value_box_encrypt_def
  value_box_decrypt_def byte_box_new_def open_box_new_def

lemma open_box_no_panic [simp]:
  "\<not> is_panic (open_box_decode E b)" "\<not> is_panic (open_box_decrypt E b kp k)"
  "\<not> is_panic (open_box_decrypt_token E b tok)" "\<not> is_panic (value_box_decrypt E b kp k)"
proof -
  have msg: "\<not> is_panic (message_from_msgpack E bs)" for bs
    by (simp add: message_from_msgpack_def split: sum.split)
  have bnd: "\<not> is_panic (bindO m k)" if "\<not> is_panic m" "\<And>x. \<not> is_panic (k x)"
    for m :: "(signaling_error, 'x) outcome" and k :: "'x \<Rightarrow> (signaling_error, 'y) outcome"
    using that by (cases m) auto
  show "\<not> is_panic (open_box_decode E b)" "\<not> is_panic (open_box_decrypt E b kp k)"
    "\<not> is_panic (open_box_decrypt_token E b tok)" "\<not> is_panic (value_box_decrypt E b kp k)"
    unfolding open_box_decode_def open_box_decrypt_def open_box_decrypt_token_def
      value_box_decrypt_def
    by (intro bnd; simp add: msg key_pair_decrypt_def auth_token_decrypt_def split: sum.split)+
qed

text \<open>
  Byte boxes on the wire: a message is accepted exactly when it is longer than a nonce;
  a box that was accepted re-encodes to the bytes received; every box with a non-empty
  payload decodes from its encoding; shorter input is the error "Message is too short".
\<close>

theorem byte_box_roundtrip:
  assumes "byteorder_laws L"
  shows "(case byte_box_from_slice L bs of
       Ok b \<Rightarrow> 24 < length bs \<and> byte_box_into_bytes L b = bs \<and> bb_bytes b \<noteq> [] \<and> nonce_wf (bb_nonce b)
     | Err e \<Rightarrow> length bs \<le> 24 \<and> e = SigDecode m_message_too_short
     | Panic p \<Rightarrow> False) \<and>
    (nonce_wf n \<and> p \<noteq> [] \<longrightarrow>
       byte_box_from_slice L (byte_box_into_bytes L (byte_box_new p n)) = Ok (byte_box_new p n))"
proof
  show "case byte_box_from_slice L bs of
       Ok b \<Rightarrow> 24 < length bs \<and> byte_box_into_bytes L b = bs \<and> bb_bytes b \<noteq> [] \<and> nonce_wf (bb_nonce b)
     | Err e \<Rightarrow> length bs \<le> 24 \<and> e = SigDecode m_message_too_short
     | Panic p \<Rightarrow> False"
  proof (cases "length bs \<le> 24")
    case True
    then show ?thesis by (simp add: byte_box_from_slice_def)
  next
    case False
    then have "length (take 24 bs) = 24" by simp
    from nonce_into_from_bytes [OF assms this] obtain m where
      "nonce_from_bytes L (take 24 bs) = Ok m" "nonce_wf m" "nonce_into_bytes L m = take 24 bs" by blast
    with False show ?thesis
      by (simp add: byte_box_from_slice_def byte_box_into_bytes_def byte_box_new_def)
  qed
  show "nonce_wf n \<and> p \<noteq> [] \<longrightarrow>
       byte_box_from_slice L (byte_box_into_bytes L (byte_box_new p n)) = Ok (byte_box_new p n)"
    using length_nonce_into_bytes [OF assms] nonce_from_into_bytes [OF assms]
    by (auto simp: byte_box_from_slice_def byte_box_into_bytes_def byte_box_new_def)
qed

theorem byte_box_roundtrip_witness:
  "byte_box_from_slice (sample_libs ()) (byte_box_into_bytes (sample_libs ()) (byte_box_new [9] test_nonce))
     = Ok (byte_box_new [9] test_nonce)"
proof -
  have "nonce_wf test_nonce" by code_simp
  with byte_box_roundtrip [of "sample_libs ()" "[]" test_nonce "[9]", OF sample_libs_laws(1)] show ?thesis by blast
qed

lemma key_pair_decrypt_encrypt:
  assumes "box_correct L a b"
  shows "key_pair_decrypt L b (key_pair_encrypt L a bs n (public_key b)) n (public_key a) = Ok bs"
  using assms by (simp add: key_pair_decrypt_def key_pair_encrypt_def box_correct_def)

lemma auth_token_decrypt_encrypt:
  assumes "secretbox_correct L tok"
  shows "auth_token_decrypt L tok (auth_token_encrypt L tok bs n) n = Ok bs"
  using assms by (simp add: auth_token_decrypt_def auth_token_encrypt_def secretbox_correct_def)

text \<open>
  C37. Sealing and opening a protocol message are inverse to each other for each of the three
  ways a message is sent: unencrypted, encrypted for a public key, and encrypted with an
  authentication token; nonce and message come back unchanged.
\<close>

theorem open_box_roundtrip:
  assumes "rmps_to_vec_message E (ob_message ob) = Inr bs"
    and "rmps_from_slice_message E bs = Inr (ob_message ob)"
    and "box_correct E a b" and "secretbox_correct E tok"
  shows "bindO (open_box_encode E ob) (open_box_decode E) = Ok ob \<and>
    bindO (open_box_encrypt E ob a (public_key b)) (\<lambda>x. open_box_decrypt E x b (public_key a)) = Ok ob \<and>
    bindO (open_box_encrypt_token E ob tok) (\<lambda>x. open_box_decrypt_token E x tok) = Ok ob"
  using assms(1,2) by (simp add: box_defs message_to_msgpack_def message_from_msgpack_def
      key_pair_decrypt_encrypt [OF assms(3)] auth_token_decrypt_encrypt [OF assms(4)])

theorem open_box_roundtrip_witness:
  "bindO (open_box_encrypt (sample_env [(Key [1], [7])] []) (open_box_new (Key [1]) test_nonce)
      (sample_key_pair 1) (public_key (sample_key_pair 2)))
     (\<lambda>x. open_box_decrypt (sample_env [(Key [1], [7])] []) x (sample_key_pair 2)
        (public_key (sample_key_pair 1))) = Ok (open_box_new (Key [1]) test_nonce)"
proof -
  let ?E = "sample_env [(Key [1], [7])] []"
  have "rmps_to_vec_message ?E (ob_message (open_box_new (Key [1]) test_nonce)) = Inr [7]"
    "rmps_from_slice_message ?E [7] = Inr (ob_message (open_box_new (Key [1]) test_nonce))"
    by (simp_all add: sample_env_def sample_libs_def table_to_vec_def table_from_slice_def open_box_new_def)
  from open_box_roundtrip [OF this sample_env_laws(5) sample_env_laws(6)] show ?thesis by blast
qed

text \<open>The same for the dynamically typed values of the task phase.\<close>

lemma value_box_roundtrip:
  assumes "rmps_to_vec_value E (ob_message ob) = Inr bs"
    and "rmps_from_slice_value E bs = Inr (ob_message ob)"
    and "box_correct E a b"
  shows "bindO (value_box_encrypt E ob a (public_key b)) (\<lambda>x. value_box_decrypt E x b (public_key a)) = Ok ob"
  using assms(1,2) by (simp add: box_defs key_pair_decrypt_encrypt [OF assms(3)])

end
