(* ===== verification/State.thy ===== *)
theory State
  imports Prelude
begin

text \<open>
  The state machines of the handshakes (\<open>src/protocol/state.rs\<close>), with the \<open>Debug\<close>
  texts that the error messages quote.
\<close>

datatype signaling_state = ServerHandshake | PeerHandshake | TaskState

fun may_transition_to :: "signaling_state \<Rightarrow> signaling_state \<Rightarrow> bool" where
  "may_transition_to ServerHandshake PeerHandshake = True"
| "may_transition_to PeerHandshake TaskState = True"
| "may_transition_to _ _ = False"

primrec fmt_signaling_state :: "signaling_state \<Rightarrow> string" where
  "fmt_signaling_state ServerHandshake = ''ServerHandshake''"
| "fmt_signaling_state PeerHandshake = ''PeerHandshake''"
| "fmt_signaling_state TaskState = ''Task''"

datatype server_handshake_state = ServerNew | ClientInfoSent | ServerDone

primrec fmt_server_handshake_state :: "server_handshake_state \<Rightarrow> string" where
  "fmt_server_handshake_state ServerNew = ''New''"
| "fmt_server_handshake_state ClientInfoSent = ''ClientInfoSent''"
| "fmt_server_handshake_state ServerDone = ''Done''"

datatype initiator_handshake_state =
  InitiatorNew | InitiatorKeySent | InitiatorKeyReceived | InitiatorAuthSent | InitiatorAuthReceived

primrec fmt_initiator_handshake_state :: "initiator_handshake_state \<Rightarrow> string" where
  "fmt_initiator_handshake_state InitiatorNew = ''New''"
| "fmt_initiator_handshake_state InitiatorKeySent = ''KeySent''"
| "fmt_initiator_handshake_state InitiatorKeyReceived = ''KeyReceived''"
| "fmt_initiator_handshake_state InitiatorAuthSent = ''AuthSent''"
| "fmt_initiator_handshake_state InitiatorAuthReceived = ''AuthReceived''"

datatype responder_handshake_state =
    ResponderNew | ResponderTokenReceived | ResponderKeyReceived | ResponderKeySent
  | ResponderAuthReceived | ResponderAuthSent

primrec fmt_responder_handshake_state :: "responder_handshake_state \<Rightarrow> string" where
  "fmt_responder_handshake_state ResponderNew = ''New''"
| "fmt_responder_handshake_state ResponderTokenReceived = ''TokenReceived''"
| "fmt_responder_handshake_state ResponderKeyReceived = ''KeyReceived''"
| "fmt_responder_handshake_state ResponderKeySent = ''KeySent''"
| "fmt_responder_handshake_state ResponderAuthReceived = ''AuthReceived''"
| "fmt_responder_handshake_state ResponderAuthSent = ''AuthSent''"

text \<open>
  The stages are ordered, and the permitted transitions are the steps to the next stage.
\<close>

primrec stage :: "signaling_state \<Rightarrow> nat" where
  "stage ServerHandshake = 0"
| "stage PeerHandshake = 1"
| "stage TaskState = 2"

primrec server_stage :: "server_handshake_state \<Rightarrow> nat" where
  "server_stage ServerNew = 0"
| "server_stage ClientInfoSent = 1"
| "server_stage ServerDone = 2"

lemma may_transition_to_stage: "may_transition_to s t \<longleftrightarrow> stage t = Suc (stage s)"
  by (cases s; cases t) simp_all

end
