(* ===== verification/Context.thy ===== *)
theory Context
  imports Boxes State
begin

text \<open>
  Peer contexts (\<open>src/protocol/context.rs\<close>): what the client stores about the server, about
  the initiator, and about each responder. \<open>peer_context\<close> is the trait object
  \<open>dyn PeerContext\<close>: one of the three. A trait method that hands out a reference to be
  mutated is a pair of a reader and an updater; the contract they satisfy is the locale
  \<open>peer_context_ops\<close>.
\<close>

record server_context =
  sc_handshake_state :: server_handshake_state
  sc_permanent_key :: "public_key option"
  sc_session_key :: "public_key option"
  sc_csn_pair :: csn_pair
  sc_cookie_pair :: cookie_pair

record initiator_context =
  ic_handshake_state :: initiator_handshake_state
  ic_permanent_key :: public_key
  ic_session_key :: "public_key option"
  ic_keypair :: key_pair
  ic_csn_pair :: csn_pair
  ic_cookie_pair :: cookie_pair

record responder_context =
  rc_handshake_state :: responder_handshake_state
  rc_counter :: u32
  rc_address :: address
  rc_permanent_key :: "public_key option"
  rc_session_key :: "public_key option"
  rc_keypair :: key_pair
  rc_csn_pair :: csn_pair
  rc_cookie_pair :: cookie_pair

section \<open>New contexts\<close>

definition server_context_new :: "'z libs_scheme \<Rightarrow> (nat, 'e, server_context) proc" where
  "server_context_new L =
     bindS (new_csn_pair L) (\<lambda>csn. bindS (new_cookie_pair L) (\<lambda>cookie.
       returnS \<lparr>sc_handshake_state = ServerNew, sc_permanent_key = None, sc_session_key = None,
         sc_csn_pair = csn, sc_cookie_pair = cookie\<rparr>))"

definition initiator_context_new ::
  "'z libs_scheme \<Rightarrow> public_key \<Rightarrow> (nat, 'e, initiator_context) proc" where
  "initiator_context_new L permanent_key =
     bindS (new_key_pair L) (\<lambda>kp. bindS (new_csn_pair L) (\<lambda>csn. bindS (new_cookie_pair L) (\<lambda>cookie.
       returnS \<lparr>ic_handshake_state = InitiatorNew, ic_permanent_key = permanent_key,
         ic_session_key = None, ic_keypair = kp, ic_csn_pair = csn, ic_cookie_pair = cookie\<rparr>)))"

definition responder_context_new ::
  "'z libs_scheme \<Rightarrow> address \<Rightarrow> u32 \<Rightarrow> (nat, 'e, responder_context) proc" where
  "responder_context_new L addr counter =
     bindS (new_key_pair L) (\<lambda>kp. bindS (new_csn_pair L) (\<lambda>csn. bindS (new_cookie_pair L) (\<lambda>cookie.
       returnS \<lparr>rc_handshake_state = ResponderNew, rc_counter = counter, rc_address = addr,
         rc_permanent_key = None, rc_session_key = None, rc_keypair = kp, rc_csn_pair = csn,
         rc_cookie_pair = cookie\<rparr>)))"

section \<open>The trait object\<close>

datatype peer_context =
    PeerServer server_context
  | PeerInitiator initiator_context
  | PeerResponder responder_context

primrec peer_identity :: "peer_context \<Rightarrow> identity" where
  "peer_identity (PeerServer c) = IdServer"
| "peer_identity (PeerInitiator c) = IdInitiator"
| "peer_identity (PeerResponder c) = IdResponder (rc_address c)"

primrec peer_permanent_key :: "peer_context \<Rightarrow> public_key option" where
  "peer_permanent_key (PeerServer c) = sc_permanent_key c"
| "peer_permanent_key (PeerInitiator c) = Some (ic_permanent_key c)"
| "peer_permanent_key (PeerResponder c) = rc_permanent_key c"

primrec peer_session_key :: "peer_context \<Rightarrow> public_key option" where
  "peer_session_key (PeerServer c) = sc_session_key c"
| "peer_session_key (PeerInitiator c) = ic_session_key c"
| "peer_session_key (PeerResponder c) = rc_session_key c"

primrec peer_keypair :: "peer_context \<Rightarrow> key_pair option" where
  "peer_keypair (PeerServer c) = None"
| "peer_keypair (PeerInitiator c) = Some (ic_keypair c)"
| "peer_keypair (PeerResponder c) = Some (rc_keypair c)"

primrec peer_csn_pair :: "peer_context \<Rightarrow> csn_pair" where
  "peer_csn_pair (PeerServer c) = sc_csn_pair c"
| "peer_csn_pair (PeerInitiator c) = ic_csn_pair c"
| "peer_csn_pair (PeerResponder c) = rc_csn_pair c"

primrec peer_csn_pair_update :: "(csn_pair \<Rightarrow> csn_pair) \<Rightarrow> peer_context \<Rightarrow> peer_context" where
  "peer_csn_pair_update f (PeerServer c) = PeerServer (sc_csn_pair_update f c)"
| "peer_csn_pair_update f (PeerInitiator c) = PeerInitiator (ic_csn_pair_update f c)"
| "peer_csn_pair_update f (PeerResponder c) = PeerResponder (rc_csn_pair_update f c)"

primrec peer_cookie_pair :: "peer_context \<Rightarrow> cookie_pair" where
  "peer_cookie_pair (PeerServer c) = sc_cookie_pair c"
| "peer_cookie_pair (PeerInitiator c) = ic_cookie_pair c"
| "peer_cookie_pair (PeerResponder c) = rc_cookie_pair c"

primrec peer_cookie_pair_update :: "(cookie_pair \<Rightarrow> cookie_pair) \<Rightarrow> peer_context \<Rightarrow> peer_context" where
  "peer_cookie_pair_update f (PeerServer c) = PeerServer (sc_cookie_pair_update f c)"
| "peer_cookie_pair_update f (PeerInitiator c) = PeerInitiator (ic_cookie_pair_update f c)"
| "peer_cookie_pair_update f (PeerResponder c) = PeerResponder (rc_cookie_pair_update f c)"

section \<open>Nonces of outgoing messages\<close>

text \<open>
  Every sender of the sources builds its nonce in the same way: our cookie for the peer, our
  identity, the address of the peer, and the next sequence number. The conversion of the
  identities comes before the increment, as in the argument list of \<open>Nonce::new\<close>.
\<close>

definition next_nonce ::
  "client_identity \<Rightarrow> identity \<Rightarrow> cookie_pair \<Rightarrow> (csn_pair, signaling_error, nonce) proc" where
  "next_nonce src dst cookies =
     bindS (liftO (address_from_client_identity src)) (\<lambda>source.
     bindS (liftO (address_from_identity dst)) (\<lambda>destination.
     bindS increment_ours (\<lambda>csn.
       returnS (new_nonce (cookie_ours cookies) source destination csn))))"

text \<open>The initiator's \<open>auth\<close> message takes the stored address of the responder as it is.\<close>

definition next_nonce_to ::
  "client_identity \<Rightarrow> address \<Rightarrow> cookie_pair \<Rightarrow> (csn_pair, signaling_error, nonce) proc" where
  "next_nonce_to src destination cookies =
     bindS (liftO (address_from_client_identity src)) (\<lambda>source.
     bindS increment_ours (\<lambda>csn.
       returnS (new_nonce (cookie_ours cookies) source destination csn)))"

section \<open>Checks of incoming messages\<close>

text \<open>
  The bodies of \<open>validate_nonce_csn\<close> and \<open>validate_nonce_cookie\<close>, once the peer is found.
\<close>

definition m_csn_lower :: "identity \<Rightarrow> string" where
  "m_csn_lower i = ''The '' @ fmt_identity i @ '' CSN is lower than last time''"

definition m_csn_not_incremented :: "identity \<Rightarrow> string" where
  "m_csn_not_incremented i = ''The '' @ fmt_identity i @ '' CSN hasn't been incremented''"

definition m_first_overflow :: "identity \<Rightarrow> string" where
  "m_first_overflow i =
     ''First message from '' @ fmt_identity i @ '' must have set the overflow number to 0''"

definition check_csn :: "identity \<Rightarrow> nonce \<Rightarrow> (csn_pair, validation_error, unit) proc" where
  "check_csn i n p =
     (case csn_theirs p of
        Some previous \<Rightarrow>
          if nonce_csn n < previous then (Err (ValFail (m_csn_lower i)), p)
          else if nonce_csn n = previous then (Err (ValFail (m_csn_not_incremented i)), p)
          else (Ok (), p\<lparr>csn_theirs := Some (nonce_csn n)\<rparr>)
      | None \<Rightarrow>
          if overflow_number (nonce_csn n) \<noteq> 0 then (Err (ValFail (m_first_overflow i)), p)
          else (Ok (), p\<lparr>csn_theirs := Some (nonce_csn n)\<rparr>))"

definition m_cookie_identical :: "identity \<Rightarrow> string" where
  "m_cookie_identical i = ''Cookie from '' @ fmt_identity i @ '' is identical to our own cookie''"

definition m_cookie_changed :: "identity \<Rightarrow> string" where
  "m_cookie_changed i = ''Cookie from '' @ fmt_identity i @ '' has changed''"

definition check_cookie :: "identity \<Rightarrow> nonce \<Rightarrow> (cookie_pair, validation_error, unit) proc" where
  "check_cookie i n p =
     (case cookie_theirs p of
        None \<Rightarrow>
          if nonce_cookie n = cookie_ours p then (Err (ValFail (m_cookie_identical i)), p)
          else (Ok (), p\<lparr>cookie_theirs := Some (nonce_cookie n)\<rparr>)
      | Some c \<Rightarrow>
          if nonce_cookie n \<noteq> c then (Err (ValFail (m_cookie_changed i)), p)
          else (Ok (), p))"

section \<open>What the checks accept\<close>

text \<open>
  A nonce is fresh for a peer when its number exceeds the last accepted one, or, for the first
  message, has overflow number 0. Its cookie is right when it is the one seen before, or, for
  the first message, not our own.
\<close>

definition csn_fresh :: "csn_pair \<Rightarrow> nonce \<Rightarrow> bool" where
  "csn_fresh p n \<longleftrightarrow> (case csn_theirs p of
     None \<Rightarrow> overflow_number (nonce_csn n) = 0 | Some previous \<Rightarrow> previous < nonce_csn n)"

definition cookie_right :: "cookie_pair \<Rightarrow> nonce \<Rightarrow> bool" where
  "cookie_right p n \<longleftrightarrow> (case cookie_theirs p of
     None \<Rightarrow> nonce_cookie n \<noteq> cookie_ours p | Some c \<Rightarrow> nonce_cookie n = c)"

lemma check_csn_Ok_iff:
  "check_csn i n p = (Ok u, p') \<longleftrightarrow> csn_fresh p n \<and> p' = p\<lparr>csn_theirs := Some (nonce_csn n)\<rparr>"
  by (auto simp: check_csn_def csn_fresh_def split: option.splits if_splits)

lemma check_csn_reject: "\<not> csn_fresh p n \<Longrightarrow> \<exists>m. check_csn i n p = (Err (ValFail m), p)"
  by (auto simp: check_csn_def csn_fresh_def split: option.splits if_splits)

lemma check_cookie_Ok_iff:
  "check_cookie i n p = (Ok u, p') \<longleftrightarrow>
     cookie_right p n \<and> p' = p\<lparr>cookie_theirs := Some (nonce_cookie n)\<rparr>"
  by (cases p) (auto simp: check_cookie_def cookie_right_def split: option.splits if_splits)

lemma check_cookie_reject:
  "\<not> cookie_right p n \<Longrightarrow> \<exists>m. check_cookie i n p = (Err (ValFail m), p)"
  by (auto simp: check_cookie_def cookie_right_def split: option.splits if_splits)

lemma check_csn_ours: "csn_ours (snd (check_csn i n p)) = csn_ours p"
  by (auto simp: check_csn_def split: option.splits)

lemma check_cookie_ours: "cookie_ours (snd (check_cookie i n p)) = cookie_ours p"
  by (auto simp: check_cookie_def split: option.splits)

lemma check_no_panic: "check_csn i n p \<noteq> (Panic x, p')" "check_cookie i n q \<noteq> (Panic x, q')"
  by (auto simp: check_csn_def check_cookie_def split: option.splits)

section \<open>The contract of a context\<close>

text \<open>
  Readers and updaters of the sequence numbers and the cookies address two separate fields,
  and neither touches the identity or the keys.
\<close>

locale peer_context_ops =
  fixes ident :: "'c \<Rightarrow> identity"
    and skey :: "'c \<Rightarrow> public_key option"
    and csn :: "'c \<Rightarrow> csn_pair"
    and csn_upd :: "(csn_pair \<Rightarrow> csn_pair) \<Rightarrow> 'c \<Rightarrow> 'c"
    and cookie :: "'c \<Rightarrow> cookie_pair"
    and cookie_upd :: "(cookie_pair \<Rightarrow> cookie_pair) \<Rightarrow> 'c \<Rightarrow> 'c"
  assumes csn_upd_same: "csn (csn_upd f c) = f (csn c)"
    and csn_upd_cookie: "cookie (csn_upd f c) = cookie c"
    and csn_upd_ident: "ident (csn_upd f c) = ident c"
    and csn_upd_skey: "skey (csn_upd f c) = skey c"
    and cookie_upd_same: "cookie (cookie_upd g c) = g (cookie c)"
    and cookie_upd_csn: "csn (cookie_upd g c) = csn c"
    and cookie_upd_ident: "ident (cookie_upd g c) = ident c"
    and cookie_upd_skey: "skey (cookie_upd g c) = skey c"
begin

lemmas context_simps = csn_upd_same csn_upd_cookie csn_upd_ident csn_upd_skey
  cookie_upd_same cookie_upd_csn cookie_upd_ident cookie_upd_skey

lemma accept_iff:
  "thenS (zoomS csn csn_upd (check_csn i n)) (zoomS cookie cookie_upd (check_cookie j n)) c = (Ok u, c') \<longleftrightarrow>
     csn_fresh (csn c) n \<and> cookie_right (cookie c) n \<and>
     c' = cookie_upd (\<lambda>_. (cookie c)\<lparr>cookie_theirs := Some (nonce_cookie n)\<rparr>)
            (csn_upd (\<lambda>_. (csn c)\<lparr>csn_theirs := Some (nonce_csn n)\<rparr>) c)"
  by (auto simp: ok_iffs check_csn_Ok_iff check_cookie_Ok_iff context_simps)

lemma not_accepted_twice:
  assumes "thenS (zoomS csn csn_upd (check_csn i n)) (zoomS cookie cookie_upd (check_cookie j n)) c = (Ok u, c')"
  shows "fst (zoomS csn csn_upd (check_csn i n) c') = Err (ValFail (m_csn_not_incremented i))"
  using assms by (auto simp: accept_iff context_simps zoomS_def check_csn_def)

lemma next_nonce_keeps:
  "let c' = snd (zoomS csn csn_upd (next_nonce src dst ck) c)
   in csn_theirs (csn c') = csn_theirs (csn c) \<and> cookie c' = cookie c \<and> ident c' = ident c \<and> skey c' = skey c"
  by (cases "next_nonce src dst ck (csn c)")
    (auto simp: Let_def zoomS_def context_simps next_nonce_def increment_ours_def proc_defs
      split: outcome.splits prod.splits)

end

interpretation server_ctx: peer_context_ops "\<lambda>_. IdServer" sc_session_key
  sc_csn_pair sc_csn_pair_update sc_cookie_pair sc_cookie_pair_update
  by unfold_locales simp_all

interpretation initiator_ctx: peer_context_ops "\<lambda>_. IdInitiator" ic_session_key
  ic_csn_pair ic_csn_pair_update ic_cookie_pair ic_cookie_pair_update
  by unfold_locales simp_all

interpretation responder_ctx: peer_context_ops "\<lambda>c. IdResponder (rc_address c)" rc_session_key
  rc_csn_pair rc_csn_pair_update rc_cookie_pair rc_cookie_pair_update
  by unfold_locales simp_all

interpretation dyn_ctx: peer_context_ops peer_identity peer_session_key
  peer_csn_pair peer_csn_pair_update peer_cookie_pair peer_cookie_pair_update
proof unfold_locales
  fix c f g
  show "peer_csn_pair (peer_csn_pair_update f c) = f (peer_csn_pair c)"
    "peer_cookie_pair (peer_csn_pair_update f c) = peer_cookie_pair c"
    "peer_identity (peer_csn_pair_update f c) = peer_identity c"
    "peer_session_key (peer_csn_pair_update f c) = peer_session_key c"
    "peer_cookie_pair (peer_cookie_pair_update g c) = g (peer_cookie_pair c)"
    "peer_csn_pair (peer_cookie_pair_update g c) = peer_csn_pair c"
    "peer_identity (peer_cookie_pair_update g c) = peer_identity c"
    "peer_session_key (peer_cookie_pair_update g c) = peer_session_key c"
    by (cases c; simp)+
qed

declare dyn_ctx.context_simps [simp]

section \<open>Facts about outgoing nonces\<close>

text \<open>The 48 bit number of the last message sent to a peer.\<close>

definition sent_number :: "csn_pair \<Rightarrow> nat" where
  "sent_number p = unat (combined_sequence_number (csn_ours p))"

lemma next_nonce_OkD:
  assumes "next_nonce src dst ck p = (Ok n, p')"
  shows "nonce_cookie n = cookie_ours ck"
    and "address_from_client_identity src = (Ok (nonce_source n) :: (signaling_error, address) outcome)"
    and "address_from_identity dst = (Ok (nonce_destination n) :: (signaling_error, address) outcome)"
    and "unat (snapshot_number (nonce_csn n)) = Suc (sent_number p)"
    and "sent_number p' = Suc (sent_number p)"
    and "csn_theirs p' = csn_theirs p"
proof -
  obtain a b csn c where parts:
    "address_from_client_identity src = (Ok a :: (signaling_error, address) outcome)"
    "address_from_identity dst = (Ok b :: (signaling_error, address) outcome)"
    "increment (csn_ours p) = (Ok csn, c)" "p' = csn_ours_update (\<lambda>_. c) p"
    "n = new_nonce (cookie_ours ck) a b csn"
    using assms by (auto simp: next_nonce_def increment_ours_def ok_iffs)
  note inc = increment_OkD [OF parts(3)]
  have "combined_sequence_number c = snapshot_number csn"
    using snapshot_number_of [of "sequence_of csn"] inc(1) by simp
  then show "nonce_cookie n = cookie_ours ck"
    "address_from_client_identity src = (Ok (nonce_source n) :: (signaling_error, address) outcome)"
    "address_from_identity dst = (Ok (nonce_destination n) :: (signaling_error, address) outcome)"
    "unat (snapshot_number (nonce_csn n)) = Suc (sent_number p)"
    "sent_number p' = Suc (sent_number p)" "csn_theirs p' = csn_theirs p"
    using parts inc by (simp_all add: new_nonce_def sent_number_def)
qed

lemma next_nonce_to_eq:
  assumes "is_responder a"
  shows "next_nonce_to src a ck = next_nonce src (IdResponder a) ck"
proof -
  have "address_from_identity (IdResponder a) = (Ok a :: (signaling_error, address) outcome)"
    using assms by (simp add: is_responder_iff byte_gt_1_iff)
  then show ?thesis by (simp add: next_nonce_to_def next_nonce_def liftO_Ok)
qed

lemma next_nonce_ErrD: "next_nonce src dst ck p = (Err e, p') \<Longrightarrow> e = SigCsnOverflow \<and> p' = p"
  by (cases p; cases "csn_ours p" rule: increment_cases; cases src; cases dst)
    (auto simp: next_nonce_def increment_ours_def proc_defs zoomS_def split: if_splits)

lemma next_nonce_no_panic:
  assumes "client_identity_ok src" "\<And>a. dst = IdResponder a \<Longrightarrow> is_responder a"
  shows "next_nonce src dst ck p \<noteq> (Panic x, p')"
  using assms
  by (cases "csn_ours p" rule: increment_cases; cases src; cases dst)
    (auto simp: next_nonce_def increment_ours_def proc_defs zoomS_def is_responder_iff byte_gt_1_iff)

lemma next_nonce_PanicD: "next_nonce src dst ck p = (Panic x, p') \<Longrightarrow> p' = p"
  by (cases p; cases "csn_ours p" rule: increment_cases; cases src; cases dst)
    (auto simp: next_nonce_def increment_ours_def proc_defs zoomS_def split: if_splits)

lemma next_nonce_sent_mono: "sent_number p \<le> sent_number (snd (next_nonce src dst ck p))"
proof (cases "next_nonce src dst ck p")
  case (Pair r p')
  then show ?thesis
    by (cases r) (auto dest: next_nonce_OkD(5) next_nonce_ErrD next_nonce_PanicD)
qed

end
