(* ===== verification/Signaling_Common.thy ===== *)
theory Signaling_Common
  imports Context
begin

text \<open>
  What both roles share (\<open>src/protocol/mod.rs\<close>): the \<open>Common\<close> struct, the actions
  that a handler returns, and those default methods of the \<open>Signaling\<close> trait that touch
  nothing but \<open>Common\<close>. The field \<open>cm_entropy\<close> is not in the source: it is the position
  in the sequence of random draws. A \<open>Duration\<close> is its number of whole seconds, the only
  part the source reads.
\<close>

datatype auth_provider = AuthProviderToken auth_token | AuthProviderTrustedKey public_key

record 't common =
  cm_signaling_state :: signaling_state
  cm_permanent_keypair :: key_pair
  cm_auth_provider :: "auth_provider option"
  cm_role :: role
  cm_identity :: client_identity
  cm_server :: server_context
  cm_tasks :: "'t tasks option"
  cm_task :: "'t option"
  cm_task_supported_types :: "string list option"
  cm_ping_interval :: "u64 option"
  cm_entropy :: nat

datatype event = ServerHandshakeDone bool | PeerHandshakeDone | EventDisconnected u8

datatype 'v handle_action =
    Reply byte_box
  | HandshakeError salty_error
  | HandshakeDone
  | ActionEvent event
  | ActionTaskMessage "'v task_message"

type_synonym ('s, 'v) handler = "('s, signaling_error, 'v handle_action list) proc"

section \<open>Common\<close>

definition m_signaling_transition :: "signaling_state \<Rightarrow> signaling_state \<Rightarrow> string" where
  "m_signaling_transition s t =
     ''Signaling state: '' @ fmt_signaling_state s @ '' -> '' @ fmt_signaling_state t"

definition set_signaling_state :: "signaling_state \<Rightarrow> ('t common, signaling_error, unit) proc" where
  "set_signaling_state state c =
     (if cm_signaling_state c = state then (Ok (), c)
      else if \<not> may_transition_to (cm_signaling_state c) state
      then (Err (SigInvalidStateTransition (m_signaling_transition (cm_signaling_state c) state)), c)
      else (Ok (), c\<lparr>cm_signaling_state := state\<rparr>))"

lemma wp_set_signaling_state [wp_simps]:
  "wp (set_signaling_state st) Q R N c =
     (if cm_signaling_state c = st then Q () c
      else if may_transition_to (cm_signaling_state c) st then Q () (c\<lparr>cm_signaling_state := st\<rparr>)
      else R (SigInvalidStateTransition (m_signaling_transition (cm_signaling_state c) st)) c)"
  by (simp add: wp_def set_signaling_state_def)

definition auth_token_of :: "'t common \<Rightarrow> auth_token option" where
  "auth_token_of c =
     (case cm_auth_provider c of Some (AuthProviderToken token) \<Rightarrow> Some token | _ \<Rightarrow> None)"

definition m_counter_overflow :: string where
  "m_counter_overflow = ''Overflow when incrementing responder counter''"

definition responder_counter_increment :: "(u32, signaling_error, u32) proc" where
  "responder_counter_increment v =
     (case checked_add v 1 of
        Some v' \<Rightarrow> (Ok v, v')
      | None \<Rightarrow> (Err (SigCrash m_counter_overflow), v))"

text \<open>Drawing from the random generator.\<close>

definition with_entropy :: "(nat, signaling_error, 'a) proc \<Rightarrow> ('t common, signaling_error, 'a) proc" where
  "with_entropy m = zoomS cm_entropy cm_entropy_update m"

text \<open>A nonce for the next message to the server.\<close>

definition server_nonce :: "('t common, signaling_error, nonce) proc" where
  "server_nonce c =
     zoomS cm_server cm_server_update (zoomS sc_csn_pair sc_csn_pair_update
       (next_nonce (cm_identity c) IdServer (sc_cookie_pair (cm_server c)))) c"

definition m_repeated_cookie :: "identity \<Rightarrow> string" where
  "m_repeated_cookie i =
     ''Repeated cookie in auth message from '' @ fmt_identity i @ '' does not match our cookie''"

definition validate_repeated_cookie ::
  "cookie \<Rightarrow> cookie \<Rightarrow> identity \<Rightarrow> ('s, signaling_error, unit) proc" where
  "validate_repeated_cookie repeated_cookie our_cookie i =
     guardS (repeated_cookie = our_cookie) (SigProtocol (m_repeated_cookie i))"

section \<open>Messages from and to the server\<close>

definition m_missing_server_session_key :: string where
  "m_missing_server_session_key = ''Missing server session key''"

definition decode_server_message ::
  "('t, 'v, 'z) env_scheme \<Rightarrow> 't common \<Rightarrow> byte_box \<Rightarrow> (signaling_error, 'v message open_box) outcome" where
  "decode_server_message E c bbox =
     (if cm_signaling_state c = ServerHandshake \<and> sc_handshake_state (cm_server c) = ServerNew
      then open_box_decode E bbox
      else case sc_session_key (cm_server c) of
             Some pubkey \<Rightarrow> open_box_decrypt E bbox (cm_permanent_keypair c) pubkey
           | None \<Rightarrow> Err (SigCrash m_missing_server_session_key))"

definition subprotocol :: string where
  "subprotocol = ''v1.saltyrtc.org''"

definition m_server_hello_again :: string where
  "m_server_hello_again = ''Got a server-hello message, but server session key is already set''"

text \<open>
  The requested ping interval in seconds, truncated to 32 bits.
\<close>

definition ping_interval_secs :: "u64 option \<Rightarrow> u32" where
  "ping_interval_secs d =
     (case d of
        None \<Rightarrow> 0
      | Some secs \<Rightarrow> if secs > 4294967295 then 4294967295 else ucast secs)"

definition send_client_hello :: "('t, 'v, 'z) env_scheme \<Rightarrow> ('t common, 'v) handler" where
  "send_client_hello E =
     bindS (getS (\<lambda>c. ClientHello (public_key (cm_permanent_keypair c)))) (\<lambda>client_hello.
     bindS server_nonce (\<lambda>nonce.
     bindS (liftO (open_box_encode E (open_box_new client_hello nonce))) (\<lambda>bbox.
       returnS [Reply bbox])))"

definition send_client_auth :: "('t, 'v, 'z) env_scheme \<Rightarrow> ('t common, 'v) handler" where
  "send_client_auth E =
     bindS (getS (\<lambda>c. cookie_theirs (sc_cookie_pair (cm_server c)))) (\<lambda>theirs.
     case theirs of
       None \<Rightarrow> panicS ''called Option::unwrap() on a None value''
     | Some cookie \<Rightarrow>
         bindS (getS (\<lambda>c. ClientAuth
           \<lparr>ca_your_cookie = cookie, ca_subprotocols = [subprotocol],
            ca_ping_interval = ping_interval_secs (cm_ping_interval c),
            ca_your_key = sc_permanent_key (cm_server c)\<rparr>)) (\<lambda>client_auth.
         bindS server_nonce (\<lambda>nonce.
         bindS (getS (\<lambda>c. (cm_permanent_keypair c, sc_session_key (cm_server c)))) (\<lambda>(keypair, session_key).
         case session_key of
           None \<Rightarrow> failS (SigCrash ''Missing server permanent key'')
         | Some pubkey \<Rightarrow>
             bindS (liftO (open_box_encrypt E (open_box_new client_auth nonce) keypair pubkey)) (\<lambda>bbox.
               returnS [Reply bbox])))))"

definition set_server_handshake_state :: "server_handshake_state \<Rightarrow> ('t common, 'e, unit) proc" where
  "set_server_handshake_state st = modifyS (cm_server_update (sc_handshake_state_update (\<lambda>_. st)))"

definition handle_server_hello ::
  "('t, 'v, 'z) env_scheme \<Rightarrow> public_key \<Rightarrow> ('t common, 'v) handler" where
  "handle_server_hello E key =
     bindS (getS (\<lambda>c. sc_session_key (cm_server c) = None)) (\<lambda>unset.
     thenS (guardS unset (SigProtocol m_server_hello_again))
     (thenS (modifyS (cm_server_update (sc_session_key_update (\<lambda>_. Some key))))
     (bindS (getS cm_role) (\<lambda>role.
      bindS (if role = RoleResponder then send_client_hello E else returnS []) (\<lambda>hello.
      bindS (send_client_auth E) (\<lambda>auth.
      thenS (set_server_handshake_state ClientInfoSent)
      (returnS (hello @ auth))))))))"

definition m_no_identity :: string where
  "m_no_identity = ''No identity assigned when receiving server-auth message''"

definition m_no_nonce_clone :: string where
  "m_no_nonce_clone = ''This is a server-auth message, but no nonce clone was passed in''"

definition m_no_signed_keys :: string where
  "m_no_signed_keys =
     ''Server's public permanent key is known, but server did not send signed keys''"

definition m_bad_server_session_key :: string where
  "m_bad_server_session_key = ''Server public session key sent in `signed_keys` is not valid''"

definition m_bad_our_permanent_key :: string where
  "m_bad_our_permanent_key = ''Our public permanent key sent in `signed_keys` is not valid''"

definition m_server_session_key_not_set :: string where
  "m_server_session_key_not_set = ''Server session key not set''"

text \<open>
  The checks of \<open>handle_server_auth\<close> that precede the role-specific part: our identity, the
  repeated cookie, and, when the permanent key of the server is known, the signed keys.
\<close>

definition check_signed_keys ::
  "('t, 'v, 'z) env_scheme \<Rightarrow> server_auth \<Rightarrow> nonce option \<Rightarrow> 't common \<Rightarrow> (signaling_error, unit) outcome" where
  "check_signed_keys E msg nonce_clone c =
     (case sc_permanent_key (cm_server c) of
        Some server_public_permanent_key \<Rightarrow>
          bindO (ok_or (SigCrash m_no_nonce_clone) nonce_clone) (\<lambda>nonce.
          bindO (ok_or (SigProtocol m_no_signed_keys) (sa_signed_keys msg)) (\<lambda>signed_keys.
          bindO (signed_keys_decrypt E signed_keys (cm_permanent_keypair c)
                   server_public_permanent_key nonce) (\<lambda>decrypted.
          bindO (ok_or (SigCrash m_server_session_key_not_set) (sc_session_key (cm_server c))) (\<lambda>session_key.
            if server_public_session_key decrypted \<noteq> session_key
            then Err (SigProtocol m_bad_server_session_key)
            else if client_public_permanent_key decrypted \<noteq> public_key (cm_permanent_keypair c)
            then Err (SigProtocol m_bad_our_permanent_key)
            else Ok ()))))
      | None \<Rightarrow> Ok ())"

definition server_auth_checks ::
  "('t, 'v, 'z) env_scheme \<Rightarrow> server_auth \<Rightarrow> nonce option \<Rightarrow> ('t common, signaling_error, unit) proc" where
  "server_auth_checks E msg nonce_clone =
     bindS (getS cm_identity) (\<lambda>identity.
     thenS (guardS (identity \<noteq> ClientUnknown) (SigCrash m_no_identity))
     (bindS (getS (\<lambda>c. cookie_ours (sc_cookie_pair (cm_server c)))) (\<lambda>ours.
      thenS (validate_repeated_cookie (sa_your_cookie msg) ours IdServer)
      (bindS (getS (check_signed_keys E msg nonce_clone)) liftO))))"

text \<open>The state transitions that end \<open>handle_server_auth\<close>.\<close>

definition server_handshake_completed :: "('t common, signaling_error, unit) proc" where
  "server_handshake_completed =
     thenS (set_server_handshake_state ServerDone) (set_signaling_state PeerHandshake)"

definition handle_send_error :: "send_error_id \<Rightarrow> ('s, 'v) handler" where
  "handle_send_error i = failS SigSendError"

definition m_non_initiator_drop :: string where
  "m_non_initiator_drop = ''Non-initiator should never need to encode a DropResponder message''"

definition send_drop_responder ::
  "('t, 'v, 'z) env_scheme \<Rightarrow> address \<Rightarrow> drop_reason \<Rightarrow>
   ('t common, signaling_error, 'v handle_action) proc" where
  "send_drop_responder E addr reason =
     bindS (getS cm_role) (\<lambda>role.
     thenS (guardS (role = RoleInitiator) (SigCrash m_non_initiator_drop))
     (bindS server_nonce (\<lambda>nonce.
      bindS (getS (\<lambda>c. (cm_permanent_keypair c, sc_session_key (cm_server c)))) (\<lambda>(keypair, session_key).
      bindS (liftO (ok_or (SigCrash m_server_session_key_not_set) session_key)) (\<lambda>key.
      bindS (liftO (open_box_encrypt E
               (open_box_new (DropResponder (drop_responder_with_reason addr reason)) nonce) keypair key)) (\<lambda>bbox.
        returnS (Reply bbox)))))))"

section \<open>Messages to the chosen peer\<close>

definition m_no_session_keypair :: string where
  "m_no_session_keypair = ''Session keypair not available''"

definition m_no_peer_session_key :: string where
  "m_no_peer_session_key = ''Peer session key not set''"

text \<open>
  The common tail of \<open>encode_task_message\<close> and \<open>encode_close_message\<close>: a nonce for the peer,
  then \<open>seal\<close> with our session key pair and the session key of the peer. It runs on the
  context of the peer, whose counter it increments.
\<close>

definition encode_for_peer ::
  "(nonce \<Rightarrow> key_pair \<Rightarrow> public_key \<Rightarrow> (signaling_error, byte_box) outcome) \<Rightarrow> client_identity \<Rightarrow>
   (peer_context, signaling_error, byte_box) proc" where
  "encode_for_peer seal identity peer =
     bindS (zoomS peer_csn_pair peer_csn_pair_update
              (next_nonce identity (peer_identity peer) (peer_cookie_pair peer))) (\<lambda>nonce.
     bindS (liftO (ok_or (SigCrash m_no_session_keypair) (peer_keypair peer))) (\<lambda>keypair.
     bindS (liftO (ok_or (SigCrash m_no_peer_session_key) (peer_session_key peer))) (\<lambda>session_key.
       liftO (seal nonce keypair session_key)))) peer"

definition encode_close_for_peer ::
  "('t, 'v, 'z) env_scheme \<Rightarrow> close_code \<Rightarrow> client_identity \<Rightarrow>
   (peer_context, signaling_error, byte_box) proc" where
  "encode_close_for_peer E reason =
     encode_for_peer (\<lambda>nonce. open_box_encrypt E (open_box_new (close_from_close_code reason) nonce))"

end
