(* ===== verification/Initiator.thy ===== *)
theory Initiator
  imports Signaling_Common
begin

text \<open>
  Signaling of the initiator (\<open>InitiatorSignaling\<close> in \<open>src/protocol/mod.rs\<close>): the
  responders that joined the path, the responder that was chosen, and the handlers of the
  messages of the server and of the responders. Methods keep the name they have in the source
  with the prefix \<open>initiator_\<close>.
\<close>

record 't initiator_signaling =
  isg_common :: "'t common"
  isg_responders :: "(address, responder_context) hashmap"
  isg_responder :: "responder_context option"
  isg_responder_counter :: u32

definition on_common :: "('t common, 'e, 'a) proc \<Rightarrow> ('t initiator_signaling, 'e, 'a) proc" where
  "on_common m = zoomS isg_common isg_common_update m"

definition initiator_new ::
  "'z libs_scheme \<Rightarrow> key_pair \<Rightarrow> 't tasks \<Rightarrow> public_key option \<Rightarrow> public_key option \<Rightarrow> u64 option \<Rightarrow>
   (nat, 'e, 't initiator_signaling) proc" where
  "initiator_new L permanent_keypair tasks responder_trusted_pubkey server_public_permanent_key ping_interval =
     bindS (case responder_trusted_pubkey of
              Some key \<Rightarrow> returnS (AuthProviderTrustedKey key)
            | None \<Rightarrow> bindS (new_auth_token L) (\<lambda>t. returnS (AuthProviderToken t))) (\<lambda>auth_provider.
     bindS (server_context_new L) (\<lambda>ctx.
     bindS (getS (\<lambda>i. i)) (\<lambda>entropy.
       returnS \<lparr>isg_common =
         \<lparr>cm_signaling_state = ServerHandshake, cm_permanent_keypair = permanent_keypair,
          cm_auth_provider = Some auth_provider, cm_role = RoleInitiator,
          cm_identity = ClientUnknown,
          cm_server = ctx\<lparr>sc_permanent_key := server_public_permanent_key\<rparr>,
          cm_tasks = Some tasks, cm_task = None, cm_task_supported_types = None,
          cm_ping_interval = ping_interval, cm_entropy = entropy\<rparr>,
        isg_responders = hm_empty, isg_responder = None, isg_responder_counter = 0\<rparr>)))"

section \<open>Peers\<close>

definition initiator_get_peer :: "'t initiator_signaling \<Rightarrow> peer_context option" where
  "initiator_get_peer s = map_option PeerResponder (isg_responder s)"

definition initiator_get_peer_with_address ::
  "'t initiator_signaling \<Rightarrow> address \<Rightarrow> ('e, peer_context option) outcome" where
  "initiator_get_peer_with_address s addr =
     (case identity_from_address addr of
        IdServer \<Rightarrow> Ok (Some (PeerServer (cm_server (isg_common s))))
      | IdInitiator \<Rightarrow> Ok None
      | IdResponder _ \<Rightarrow>
          if cm_signaling_state (isg_common s) = TaskState
          then (case isg_responder s of
                  Some p \<Rightarrow>
                    bindO (address_from_identity (peer_identity (PeerResponder p))) (\<lambda>peer_addr.
                      Ok (if peer_addr = addr then Some (PeerResponder p) else None))
                | None \<Rightarrow> Ok None)
          else Ok (map_option PeerResponder (hm_get (isg_responders s) addr)))"

text \<open>Writing through the reference that \<open>get_peer_with_address_mut\<close> returns.\<close>

fun initiator_put_peer :: "address \<Rightarrow> peer_context \<Rightarrow> 't initiator_signaling \<Rightarrow> 't initiator_signaling" where
  "initiator_put_peer addr (PeerServer c) s = s\<lparr>isg_common := (isg_common s)\<lparr>cm_server := c\<rparr>\<rparr>"
| "initiator_put_peer addr (PeerResponder r) s =
     (if cm_signaling_state (isg_common s) = TaskState then s\<lparr>isg_responder := Some r\<rparr>
      else s\<lparr>isg_responders := hm_insert addr r (isg_responders s)\<rparr>)"
| "initiator_put_peer addr (PeerInitiator c) s = s"

definition initiator_pubkey_initiator :: "'t initiator_signaling \<Rightarrow> public_key" where
  "initiator_pubkey_initiator s = public_key (cm_permanent_keypair (isg_common s))"

section \<open>Validation of nonces\<close>

definition m_cannot_assign_initiator :: "address \<Rightarrow> string" where
  "m_cannot_assign_initiator a = ''cannot assign address '' @ fmt_address a @ '' to initiator''"

definition m_bad_destination :: "address \<Rightarrow> client_identity \<Rightarrow> string" where
  "m_bad_destination a i =
     ''Bad destination: '' @ fmt_address a @ '' (our identity is '' @ fmt_client_identity i @ '')''"

definition m_bad_source :: "address \<Rightarrow> client_identity \<Rightarrow> string" where
  "m_bad_source a i =
     ''Bad source: '' @ fmt_address a @ '' (our identity is '' @ fmt_client_identity i @ '')''"

text \<open>The comparison that ends \<open>validate_nonce_destination\<close> of both roles.\<close>

definition check_destination :: "nonce \<Rightarrow> ('t common, validation_error, unit) proc" where
  "check_destination n =
     bindS (getS cm_identity) (\<lambda>identity.
     bindS (liftO (address_from_client_identity identity)) (\<lambda>our_address.
       guardS (nonce_destination n = our_address)
         (ValFail (m_bad_destination (nonce_destination n) identity))))"

definition initiator_validate_nonce_destination ::
  "nonce \<Rightarrow> ('t common, validation_error, unit) proc" where
  "initiator_validate_nonce_destination n =
     bindS (getS (\<lambda>c. cm_identity c = ClientUnknown \<and> \<not> is_unknown (nonce_destination n) \<and>
              sc_handshake_state (cm_server c) \<noteq> ServerNew)) (\<lambda>assign.
     thenS (if assign
            then (if is_initiator (nonce_destination n)
                  then modifyS (cm_identity_update (\<lambda>_. ClientInitiator))
                  else failS (ValFail (m_cannot_assign_initiator (nonce_destination n))))
            else returnS ())
     (check_destination n))"

definition initiator_validate_nonce_source ::
  "nonce \<Rightarrow> ('t common, validation_error, unit) proc" where
  "initiator_validate_nonce_source n =
     bindS (getS cm_identity) (\<lambda>identity.
       if nonce_source n = 0 then returnS ()
       else if nonce_source n = 1 then failS (ValDropMsg (m_bad_source (nonce_source n) identity))
       else guardS (identity = ClientInitiator) (ValDropMsg (m_bad_source (nonce_source n) identity)))"

section \<open>Decoding messages of responders\<close>

definition m_no_responder :: "address \<Rightarrow> string" where
  "m_no_responder a = ''Did not find responder with address '' @ fmt_address a"

definition m_no_responder_permanent_key :: "address \<Rightarrow> string" where
  "m_no_responder_permanent_key a =
     ''Did not find public permanent key for responder '' @ fmt_nat (unat a)"

definition m_no_responder_session_key :: "address \<Rightarrow> string" where
  "m_no_responder_session_key a =
     ''Did not find public session key for responder '' @ fmt_nat (unat a)"

definition m_new_with_trusted_key :: string where
  "m_new_with_trusted_key = ''Handshake state is \"New\" even though a trusted key is available''"

definition m_new_without_provider :: string where
  "m_new_without_provider = ''Handshake state is \"New\" without an auth provider available''"

definition m_invalid_responder_state :: "responder_handshake_state \<Rightarrow> string" where
  "m_invalid_responder_state st =
     ''Invalid responder handshake state: '' @ fmt_responder_handshake_state st"

primrec could_not_decrypt :: "signaling_error \<Rightarrow> signaling_error" where
  "could_not_decrypt (SigDecode m) = SigInitiatorCouldNotDecrypt"
| "could_not_decrypt (SigInvalidNonce m) = SigInvalidNonce m"
| "could_not_decrypt (SigCrypto m) = SigCrypto m"
| "could_not_decrypt SigCsnOverflow = SigCsnOverflow"
| "could_not_decrypt (SigInvalidStateTransition m) = SigInvalidStateTransition m"
| "could_not_decrypt (SigInvalidMessage m) = SigInvalidMessage m"
| "could_not_decrypt (SigProtocol m) = SigProtocol m"
| "could_not_decrypt SigSendError = SigSendError"
| "could_not_decrypt SigNoSharedTask = SigNoSharedTask"
| "could_not_decrypt SigNoPeer = SigNoPeer"
| "could_not_decrypt (SigTaskInitialization m) = SigTaskInitialization m"
| "could_not_decrypt SigInitiatorCouldNotDecrypt = SigInitiatorCouldNotDecrypt"
| "could_not_decrypt (SigCrash m) = SigCrash m"

definition initiator_decode_peer_message ::
  "('t, 'v, 'z) env_scheme \<Rightarrow> 't initiator_signaling \<Rightarrow> byte_box \<Rightarrow>
   (signaling_error, 'v message open_box) outcome" where
  "initiator_decode_peer_message E s bbox =
     (let source = nonce_source (bb_nonce bbox) in
      if \<not> is_responder source then Err (SigCrash ''Received message from an initiator'')
      else case hm_get (isg_responders s) source of
        None \<Rightarrow> Err (SigCrash (m_no_responder source))
      | Some responder \<Rightarrow>
          (case rc_handshake_state responder of
             ResponderNew \<Rightarrow>
               (case cm_auth_provider (isg_common s) of
                  Some (AuthProviderToken token) \<Rightarrow> open_box_decrypt_token E bbox token
                | Some (AuthProviderTrustedKey _) \<Rightarrow> Err (SigCrash m_new_with_trusted_key)
                | None \<Rightarrow> Err (SigCrash m_new_without_provider))
           | ResponderTokenReceived \<Rightarrow>
               bindO (ok_or (SigCrash (m_no_responder_permanent_key (rc_address responder)))
                        (rc_permanent_key responder)) (\<lambda>key.
                 map_err could_not_decrypt
                   (open_box_decrypt E bbox (cm_permanent_keypair (isg_common s)) key))
           | ResponderKeySent \<Rightarrow>
               bindO (ok_or (SigCrash (m_no_responder_session_key (rc_address responder)))
                        (rc_session_key responder)) (\<lambda>key.
                 open_box_decrypt E bbox (rc_keypair responder) key)
           | other \<Rightarrow> Err (SigCrash (m_invalid_responder_state other))))"

section \<open>Handlers of messages of responders\<close>

text \<open>
  Running a method on the responder with a given address, in place.
\<close>

definition at_responder ::
  "address \<Rightarrow> (responder_context, signaling_error, 'a) proc \<Rightarrow>
   ('t initiator_signaling, signaling_error, 'a) proc" where
  "at_responder addr m s =
     (case hm_get (isg_responders s) addr of
        None \<Rightarrow> (Err (SigCrash (m_no_responder addr)), s)
      | Some r \<Rightarrow> (case m r of (x, r') \<Rightarrow>
          (x, s\<lparr>isg_responders := hm_insert addr r' (isg_responders s)\<rparr>)))"

definition set_responder_handshake_state ::
  "responder_handshake_state \<Rightarrow> (responder_context, 'e, unit) proc" where
  "set_responder_handshake_state st = modifyS (rc_handshake_state_update (\<lambda>_. st))"

definition m_permanent_key_already_set :: string where
  "m_permanent_key_already_set = ''Responder already has a permanent key set!''"

definition m_provider_not_token :: string where
  "m_provider_not_token = ''Auth provider is not a token''"

definition initiator_handle_token ::
  "public_key \<Rightarrow> address \<Rightarrow> ('t initiator_signaling, 'v) handler" where
  "initiator_handle_token key source =
     thenS (at_responder source
       (bindS (getS rc_permanent_key) (\<lambda>pk.
        thenS (guardS (pk = None) (SigCrash m_permanent_key_already_set))
        (thenS (modifyS (rc_permanent_key_update (\<lambda>_. Some key)))
        (set_responder_handshake_state ResponderTokenReceived)))))
     (bindS (getS (\<lambda>s. auth_token_of (isg_common s) \<noteq> None)) (\<lambda>is_token.
      thenS (guardS is_token (SigCrash m_provider_not_token))
      (thenS (on_common (modifyS (cm_auth_provider_update (\<lambda>_. None))))
      (returnS []))))"

definition m_session_key_already_set :: string where
  "m_session_key_already_set = ''Responder already has a session key set!''"

definition m_session_is_permanent_key :: string where
  "m_session_is_permanent_key = ''Responder session key and permanent key are equal''"

definition m_responder_permanent_key_not_set :: string where
  "m_responder_permanent_key_not_set = ''Responder permanent key not set''"

text \<open>The part of \<open>handle_key\<close> that works on the responder, given our identity and key pair.\<close>

definition responder_key_exchange ::
  "('t, 'v, 'z) env_scheme \<Rightarrow> client_identity \<Rightarrow> key_pair \<Rightarrow> public_key \<Rightarrow>
   (responder_context, 'v) handler" where
  "responder_key_exchange E identity permanent_keypair key =
     bindS (getS (\<lambda>r. (rc_session_key r, rc_permanent_key r))) (\<lambda>(session_key, permanent_key).
     thenS (guardS (session_key = None) (SigCrash m_session_key_already_set))
     (thenS (case permanent_key of
               Some pk \<Rightarrow> guardS (pk \<noteq> key) (SigProtocol m_session_is_permanent_key)
             | None \<Rightarrow> failS (SigCrash m_responder_permanent_key_not_set))
     (thenS (modifyS (rc_session_key_update (\<lambda>_. Some key)))
     (thenS (set_responder_handshake_state ResponderKeyReceived)
     (bindS (getS (\<lambda>r. (Key (public_key (rc_keypair r)), rc_address r, rc_cookie_pair r)))
        (\<lambda>(reply, addr, cookies).
      bindS (zoomS rc_csn_pair rc_csn_pair_update (next_nonce identity (IdResponder addr) cookies)) (\<lambda>nonce.
      bindS (getS rc_permanent_key) (\<lambda>pk.
      bindS (liftO (ok_or (SigCrash m_responder_permanent_key_not_set) pk)) (\<lambda>other_key.
      bindS (liftO (open_box_encrypt E (open_box_new reply nonce) permanent_keypair other_key)) (\<lambda>bbox.
      thenS (set_responder_handshake_state ResponderKeySent)
      (returnS [Reply bbox])))))))))))"

definition initiator_handle_key ::
  "('t, 'v, 'z) env_scheme \<Rightarrow> public_key \<Rightarrow> address \<Rightarrow> ('t initiator_signaling, 'v) handler" where
  "initiator_handle_key E key source =
     bindS (getS (\<lambda>s. (cm_identity (isg_common s), cm_permanent_keypair (isg_common s))))
       (\<lambda>(identity, keypair). at_responder source (responder_key_exchange E identity keypair key))"

section \<open>The auth message of a responder\<close>

definition m_task_field_set :: string where
  "m_task_field_set = ''We're an initiator, but the `task` field in the auth message is set''"

definition m_tasks_field_not_set :: string where
  "m_tasks_field_not_set = ''The `tasks` field in the auth message is not set''"

definition m_tasks_field_empty :: string where
  "m_tasks_field_empty = ''The `tasks` field in the auth message is empty''"

definition m_tasks_data_mismatch :: string where
  "m_tasks_data_mismatch =
     ''The `tasks` and `data` fields in the auth message have a different number of entries''"

definition m_task_without_data :: "string \<Rightarrow> string" where
  "m_task_without_data t =
     ''The task \"'' @ t @ ''\" in the auth message does not have a corresponding data entry''"

text \<open>The first task without a data entry is the one the error names.\<close>

fun check_task_data :: "'v auth \<Rightarrow> string list \<Rightarrow> (signaling_error, unit) outcome" where
  "check_task_data msg [] = Ok ()"
| "check_task_data msg (t # ts) =
     (if \<not> hm_contains_key (au_data msg) t then Err (SigInvalidMessage (m_task_without_data t))
      else check_task_data msg ts)"

definition proposed_tasks :: "'v auth \<Rightarrow> (signaling_error, string list) outcome" where
  "proposed_tasks msg =
     (if au_task msg \<noteq> None then Err (SigInvalidMessage m_task_field_set)
      else case au_tasks msg of
        None \<Rightarrow> Err (SigInvalidMessage m_tasks_field_not_set)
      | Some tasks \<Rightarrow>
          if tasks = [] then Err (SigInvalidMessage m_tasks_field_empty)
          else if hm_len (au_data msg) \<noteq> length tasks then Err (SigInvalidMessage m_tasks_data_mismatch)
          else bindO (check_task_data msg tasks) (\<lambda>_. Ok tasks))"

definition m_no_tasks_defined :: string where
  "m_no_tasks_defined = ''No tasks defined''"

text \<open>\<open>mem::replace(&mut self.common_mut().tasks, None)\<close> and the check of the old value.\<close>

definition take_tasks :: "('t common, signaling_error, 't tasks) proc" where
  "take_tasks =
     bindS (getS cm_tasks) (\<lambda>tasks.
     thenS (modifyS (cm_tasks_update (\<lambda>_. None)))
     (liftO (ok_or (SigCrash m_no_tasks_defined) tasks)))"

definition init_task ::
  "('t, 'v, 'z) env_scheme \<Rightarrow> 't \<Rightarrow> 'v task_data \<Rightarrow> (signaling_error, 't) outcome" where
  "init_task E t data =
     (case task_init E t data of
        (Ok _, t') \<Rightarrow> Ok t'
      | (Err e, _) \<Rightarrow> Err (SigTaskInitialization e)
      | (Panic p, _) \<Rightarrow> Panic p)"

definition no_shared_task ::
  "('t, 'v, 'z) env_scheme \<Rightarrow> responder_context \<Rightarrow> ('t initiator_signaling, 'v) handler" where
  "no_shared_task E responder =
     bindS (getS (\<lambda>s. cm_identity (isg_common s))) (\<lambda>identity.
       case fst (encode_close_for_peer E CodeNoSharedTask identity (PeerResponder responder)) of
         Ok bbox \<Rightarrow> returnS [Reply bbox, HandshakeError SaltyNoSharedTask]
       | Err e \<Rightarrow> returnS [HandshakeError SaltyNoSharedTask]
       | Panic p \<Rightarrow> panicS p)"

definition drop_other_responders ::
  "('t, 'v, 'z) env_scheme \<Rightarrow> ('t initiator_signaling, 'v) handler" where
  "drop_other_responders E =
     bindS (getS (\<lambda>s. address_order E (hm_keys (isg_responders s)))) (\<lambda>addrs.
     bindS (mapS (\<lambda>addr. on_common (send_drop_responder E addr DroppedByInitiator)) addrs) (\<lambda>drops.
     thenS (modifyS (isg_responders_update (\<lambda>_. hm_empty)))
     (returnS drops)))"

definition m_responder_cookie_not_set :: string where
  "m_responder_cookie_not_set = ''Responder cookie not set''"

definition m_responder_session_key_not_set :: string where
  "m_responder_session_key_not_set = ''Responder session key not set''"

text \<open>Our \<open>auth\<close> message for the responder, whose counter it increments.\<close>

definition initiator_auth_reply ::
  "('t, 'v, 'z) env_scheme \<Rightarrow> client_identity \<Rightarrow> 't \<Rightarrow> (responder_context, signaling_error, byte_box) proc" where
  "initiator_auth_reply E identity chosen_task =
     thenS (set_responder_handshake_state ResponderAuthReceived)
     (bindS (getS (\<lambda>r. cookie_theirs (rc_cookie_pair r))) (\<lambda>theirs.
      bindS (liftO (ok_or (SigCrash m_responder_cookie_not_set) theirs)) (\<lambda>responder_cookie.
      bindS (liftO (initiator_auth_build (initiator_auth_set_task (task_name E chosen_task)
               (task_data E chosen_task) (initiator_auth_new responder_cookie)))) (\<lambda>auth.
      bindS (getS (\<lambda>r. (rc_address r, rc_cookie_pair r))) (\<lambda>(addr, cookies).
      bindS (zoomS rc_csn_pair rc_csn_pair_update (next_nonce_to identity addr cookies)) (\<lambda>nonce.
      bindS (getS (\<lambda>r. (rc_keypair r, rc_session_key r))) (\<lambda>(keypair, session_key).
      bindS (liftO (ok_or (SigCrash m_responder_session_key_not_set) session_key)) (\<lambda>key.
      bindS (liftO (open_box_encrypt E (open_box_new (Auth auth) nonce) keypair key)) (\<lambda>bbox.
      thenS (set_responder_handshake_state ResponderAuthSent)
      (returnS bbox))))))))))"

text \<open>
  Storing the task: \<open>task_supported_types\<close> and \<open>task\<close> of \<open>Common\<close>.
\<close>

definition store_task :: "('t, 'v, 'z) env_scheme \<Rightarrow> 't \<Rightarrow> ('t common, 'e, unit) proc" where
  "store_task E t =
     modifyS (\<lambda>c. c\<lparr>cm_task_supported_types := Some (task_supported_types E t), cm_task := Some t\<rparr>)"

text \<open>
  The end of \<open>handle_auth\<close>: our \<open>auth\<close> message, the chosen task, the transition to the
  task state, and only then the chosen responder. The state of the responder is a local
  variable until that last assignment.
\<close>

definition initiator_finish_auth ::
  "('t, 'v, 'z) env_scheme \<Rightarrow> responder_context \<Rightarrow> 't \<Rightarrow> 'v handle_action list \<Rightarrow>
   ('t initiator_signaling, 'v) handler" where
  "initiator_finish_auth E responder chosen_task drops =
     bindS (getS (\<lambda>s. cm_identity (isg_common s))) (\<lambda>identity.
     bindS (localS (initiator_auth_reply E identity chosen_task) responder) (\<lambda>(bbox, responder').
     thenS (on_common (store_task E chosen_task))
     (thenS (on_common (set_signaling_state TaskState))
     (thenS (modifyS (isg_responder_update (\<lambda>_. Some responder')))
     (returnS (drops @ [Reply bbox, HandshakeDone]))))))"

definition m_task_data_not_found :: string where
  "m_task_data_not_found = ''Task data not found''"

definition initiator_handle_auth ::
  "('t, 'v, 'z) env_scheme \<Rightarrow> 'v auth \<Rightarrow> address \<Rightarrow> ('t initiator_signaling, 'v) handler" where
  "initiator_handle_auth E msg source =
     bindS (getS (\<lambda>s. hm_get (isg_responders s) source)) (\<lambda>found.
     bindS (liftO (ok_or (SigCrash (m_no_responder source)) found)) (\<lambda>responder.
     thenS (modifyS (isg_responders_update (hm_remove source)))
     (thenS (validate_repeated_cookie (au_your_cookie msg) (cookie_ours (rc_cookie_pair responder))
               (IdResponder (rc_address responder)))
     (bindS (liftO (proposed_tasks msg)) (\<lambda>proposed.
      bindS (on_common take_tasks) (\<lambda>our_tasks.
      case choose_shared_task E our_tasks proposed of
        None \<Rightarrow> no_shared_task E responder
      | Some task \<Rightarrow>
          bindS (liftO (ok_or (SigCrash m_task_data_not_found) (hm_get (au_data msg) (task_name E task)))) (\<lambda>data.
          bindS (liftO (init_task E task data)) (\<lambda>chosen_task.
          bindS (drop_other_responders E) (\<lambda>drops.
            initiator_finish_auth E responder chosen_task drops)))))))))"

section \<open>Responders joining the path\<close>

definition m_inactive_not_found :: string where
  "m_inactive_not_found = ''Inactive responder not found anymore in responders list''"

text \<open>\<open>HashMap::values\<close>, in the order of iteration.\<close>

definition responder_values ::
  "('t, 'v, 'z) env_scheme \<Rightarrow> (address, responder_context) hashmap \<Rightarrow> responder_context list" where
  "responder_values E m = List.map_filter (hm_get m) (address_order E (hm_keys m))"

definition drop_oldest_inactive_responder ::
  "('t, 'v, 'z) env_scheme \<Rightarrow> ('t initiator_signaling, signaling_error, 'v handle_action option) proc" where
  "drop_oldest_inactive_responder E =
     bindS (getS (\<lambda>s. map_option rc_address (min_by_key rc_counter
              (filter (\<lambda>r. rc_handshake_state r = ResponderNew) (responder_values E (isg_responders s))))))
     (\<lambda>address. case address of
        Some addr \<Rightarrow>
          bindS (getS (\<lambda>s. hm_get (isg_responders s) addr)) (\<lambda>removed.
          thenS (modifyS (isg_responders_update (hm_remove addr)))
          (bindS (liftO (ok_or (SigCrash m_inactive_not_found) removed)) (\<lambda>responder.
           bindS (on_common (send_drop_responder E (rc_address responder) DroppedByInitiator)) (\<lambda>drop.
             returnS (Some drop)))))
      | None \<Rightarrow> returnS None)"

definition process_new_responder ::
  "('t, 'v, 'z) env_scheme \<Rightarrow> address \<Rightarrow>
   ('t initiator_signaling, signaling_error, 'v handle_action option) proc" where
  "process_new_responder E address =
     thenS (modifyS (isg_responders_update (hm_remove address)))
     (bindS (zoomS isg_responder_counter isg_responder_counter_update responder_counter_increment) (\<lambda>counter.
      bindS (on_common (with_entropy (responder_context_new E address counter))) (\<lambda>responder.
      bindS (getS (\<lambda>s. cm_auth_provider (isg_common s))) (\<lambda>auth_provider.
      bindS (case auth_provider of
               Some (AuthProviderTrustedKey key) \<Rightarrow>
                 (if rc_permanent_key responder \<noteq> None then failS (SigCrash m_permanent_key_already_set)
                  else returnS (responder\<lparr>rc_permanent_key := Some key,
                                          rc_handshake_state := ResponderTokenReceived\<rparr>))
             | _ \<Rightarrow> returnS responder) (\<lambda>responder'.
      thenS (modifyS (isg_responders_update (hm_insert address responder')))
      (bindS (getS (\<lambda>s. hm_len (isg_responders s))) (\<lambda>len.
         if len > 254 - 2 then drop_oldest_inactive_responder E else returnS None)))))))"

section \<open>Handlers of messages of the server\<close>

definition m_initiator_connected_set :: string where
  "m_initiator_connected_set =
     ''We're the initiator, but the `initiator_connected` field in the server-auth message is set''"

definition m_responders_not_set :: string where
  "m_responders_not_set = ''`responders` field in server-auth message not set''"

definition m_responders_low_address :: string where
  "m_responders_low_address =
     ''`responders` field in server-auth message may not contain addresses <0x02''"

definition m_responders_duplicates :: string where
  "m_responders_duplicates = ''`responders` field in server-auth message may not contain duplicates''"

definition initiator_handle_server_auth_impl ::
  "('t, 'v, 'z) env_scheme \<Rightarrow> server_auth \<Rightarrow> ('t initiator_signaling, 'v) handler" where
  "initiator_handle_server_auth_impl E msg =
     thenS (guardS (sa_initiator_connected msg = None) (SigInvalidMessage m_initiator_connected_set))
     (bindS (liftO (ok_or (SigInvalidMessage m_responders_not_set) (sa_responders msg))) (\<lambda>responders.
      let responders_set = remdups responders in
      thenS (guardS (\<not> (List.member responders_set 0 \<or> List.member responders_set 1))
               (SigInvalidMessage m_responders_low_address))
      (thenS (guardS (length responders = length responders_set) (SigInvalidMessage m_responders_duplicates))
      (bindS (mapS (process_new_responder E) (address_order E responders_set)) (\<lambda>drops.
        returnS (List.map_filter (\<lambda>d. d) drops
                 @ [ActionEvent (ServerHandshakeDone (responders = []))]))))))"

definition m_new_initiator_as_initiator :: string where
  "m_new_initiator_as_initiator = ''Received 'new-responder' message as initiator''"

definition initiator_handle_new_initiator :: "('t initiator_signaling, 'v) handler" where
  "initiator_handle_new_initiator = failS (SigProtocol m_new_initiator_as_initiator)"

definition m_new_responder_address :: string where
  "m_new_responder_address = ''`id` field in new-responder message is not a valid responder address''"

definition initiator_handle_new_responder ::
  "('t, 'v, 'z) env_scheme \<Rightarrow> address \<Rightarrow> ('t initiator_signaling, 'v) handler" where
  "initiator_handle_new_responder E i =
     thenS (guardS (is_responder i) (SigInvalidMessage m_new_responder_address))
     (bindS (process_new_responder E i) (\<lambda>drop.
        case drop of Some d \<Rightarrow> returnS [d] | None \<Rightarrow> returnS []))"

definition m_disconnected_non_responder :: string where
  "m_disconnected_non_responder = ''Received 'disconnected' message with non-responder id''"

definition initiator_handle_disconnected :: "address \<Rightarrow> ('t initiator_signaling, 'v) handler" where
  "initiator_handle_disconnected i =
     thenS (guardS (is_responder i) (SigProtocol m_disconnected_non_responder))
     (returnS [ActionEvent (EventDisconnected i)])"

definition m_responder_transition :: "string \<Rightarrow> address \<Rightarrow> responder_handshake_state \<Rightarrow> string" where
  "m_responder_transition ty a st =
     ''Got '' @ ty @ '' message from responder '' @ fmt_nat (unat a) @ '' in ''
     @ fmt_responder_handshake_state st @ '' state''"

definition initiator_handle_peer_message ::
  "('t, 'v, 'z) env_scheme \<Rightarrow> 'v message open_box \<Rightarrow> ('t initiator_signaling, 'v) handler" where
  "initiator_handle_peer_message E obox =
     (let source = nonce_source (ob_nonce obox) in
      bindS (getS (\<lambda>s. hm_get (isg_responders s) source)) (\<lambda>found.
      bindS (liftO (ok_or (SigCrash (m_no_responder source)) found)) (\<lambda>responder.
        case (rc_handshake_state responder, ob_message obox) of
          (ResponderNew, Token key) \<Rightarrow> initiator_handle_token key source
        | (ResponderTokenReceived, Key key) \<Rightarrow> initiator_handle_key E key source
        | (ResponderKeySent, Auth msg) \<Rightarrow> initiator_handle_auth E msg source
        | (st, message) \<Rightarrow>
            failS (SigInvalidStateTransition (m_responder_transition (get_type message) source st)))))"

end
