(* ===== verification/Responder.thy ===== *)
theory Responder
  imports Initiator
begin

text \<open>
  Signaling of the responder (\<open>ResponderSignaling\<close> in \<open>src/protocol/mod.rs\<close>): one peer,
  the initiator, and the handlers of the messages of the server and of the initiator. Methods
  keep their name with the prefix \<open>responder_\<close>.
\<close>

record 't responder_signaling =
  rsg_common :: "'t common"
  rsg_initiator :: initiator_context

definition on_responder_common :: "('t common, 'e, 'a) proc \<Rightarrow> ('t responder_signaling, 'e, 'a) proc" where
  "on_responder_common m = zoomS rsg_common rsg_common_update m"

definition responder_new ::
  "'z libs_scheme \<Rightarrow> key_pair \<Rightarrow> public_key \<Rightarrow> auth_token option \<Rightarrow> public_key option \<Rightarrow> 't tasks \<Rightarrow>
   u64 option \<Rightarrow> (nat, 'e, 't responder_signaling) proc" where
  "responder_new L permanent_keypair initiator_pubkey auth_token server_public_permanent_key tasks ping_interval =
     bindS (server_context_new L) (\<lambda>ctx.
     bindS (initiator_context_new L initiator_pubkey) (\<lambda>initiator.
     bindS (getS (\<lambda>i. i)) (\<lambda>entropy.
       returnS \<lparr>rsg_common =
         \<lparr>cm_signaling_state = ServerHandshake, cm_permanent_keypair = permanent_keypair,
          cm_auth_provider = Some (case auth_token of
             Some token \<Rightarrow> AuthProviderToken token
           | None \<Rightarrow> AuthProviderTrustedKey initiator_pubkey),
          cm_role = RoleResponder, cm_identity = ClientUnknown,
          cm_server = ctx\<lparr>sc_permanent_key := server_public_permanent_key\<rparr>,
          cm_tasks = Some tasks, cm_task = None, cm_task_supported_types = None,
          cm_ping_interval = ping_interval, cm_entropy = entropy\<rparr>,
        rsg_initiator = initiator\<rparr>)))"

section \<open>Peers\<close>

definition responder_get_peer :: "'t responder_signaling \<Rightarrow> peer_context option" where
  "responder_get_peer s = Some (PeerInitiator (rsg_initiator s))"

definition responder_get_peer_with_address ::
  "'t responder_signaling \<Rightarrow> address \<Rightarrow> ('e, peer_context option) outcome" where
  "responder_get_peer_with_address s addr =
     (case identity_from_address addr of
        IdServer \<Rightarrow> Ok (Some (PeerServer (cm_server (rsg_common s))))
      | IdInitiator \<Rightarrow> Ok (Some (PeerInitiator (rsg_initiator s)))
      | IdResponder _ \<Rightarrow> Ok None)"

fun responder_put_peer :: "address \<Rightarrow> peer_context \<Rightarrow> 't responder_signaling \<Rightarrow> 't responder_signaling" where
  "responder_put_peer addr (PeerServer c) s = s\<lparr>rsg_common := (rsg_common s)\<lparr>cm_server := c\<rparr>\<rparr>"
| "responder_put_peer addr (PeerInitiator c) s = s\<lparr>rsg_initiator := c\<rparr>"
| "responder_put_peer addr (PeerResponder c) s = s"

definition initiator_pubkey_responder :: "'t responder_signaling \<Rightarrow> public_key" where
  "initiator_pubkey_responder s = ic_permanent_key (rsg_initiator s)"

section \<open>Validation of nonces\<close>

definition m_cannot_assign_responder :: "address \<Rightarrow> string" where
  "m_cannot_assign_responder a = ''cannot assign address '' @ fmt_address a @ '' to a responder''"

definition responder_validate_nonce_destination ::
  "nonce \<Rightarrow> ('t common, validation_error, unit) proc" where
  "responder_validate_nonce_destination n =
     bindS (getS (\<lambda>c. cm_identity c = ClientUnknown \<and> \<not> is_unknown (nonce_destination n) \<and>
              sc_handshake_state (cm_server c) \<noteq> ServerNew)) (\<lambda>assign.
     thenS (if assign
            then (if is_responder (nonce_destination n)
                  then modifyS (cm_identity_update (\<lambda>_. ClientResponder (nonce_destination n)))
                  else failS (ValFail (m_cannot_assign_responder (nonce_destination n))))
            else returnS ())
     (check_destination n))"

definition is_responder_identity :: "client_identity \<Rightarrow> bool" where
  "is_responder_identity i = (case i of ClientResponder _ \<Rightarrow> True | _ \<Rightarrow> False)"

definition responder_validate_nonce_source ::
  "nonce \<Rightarrow> ('t common, validation_error, unit) proc" where
  "responder_validate_nonce_source n =
     bindS (getS cm_identity) (\<lambda>identity.
       if nonce_source n = 0 then returnS ()
       else if nonce_source n = 1
       then guardS (is_responder_identity identity) (ValDropMsg (m_bad_source (nonce_source n) identity))
       else failS (ValDropMsg (m_bad_source (nonce_source n) identity)))"

section \<open>Decoding messages of the initiator\<close>

definition m_initiator_session_key_not_set :: string where
  "m_initiator_session_key_not_set = ''Initiator session key not set''"

definition m_invalid_initiator_state :: "initiator_handshake_state \<Rightarrow> string" where
  "m_invalid_initiator_state st =
     ''Invalid initiator handshake state: '' @ fmt_initiator_handshake_state st"

definition responder_decode_peer_message ::
  "('t, 'v, 'z) env_scheme \<Rightarrow> 't responder_signaling \<Rightarrow> byte_box \<Rightarrow>
   (signaling_error, 'v message open_box) outcome" where
  "responder_decode_peer_message E s bbox =
     (if \<not> is_initiator (nonce_source (bb_nonce bbox))
      then Err (SigCrash ''Received message from a responder'')
      else
        (case ic_handshake_state (rsg_initiator s) of
           InitiatorKeySent \<Rightarrow>
             open_box_decrypt E bbox (cm_permanent_keypair (rsg_common s)) (ic_permanent_key (rsg_initiator s))
         | InitiatorAuthSent \<Rightarrow>
             bindO (ok_or (SigCrash m_initiator_session_key_not_set) (ic_session_key (rsg_initiator s)))
               (\<lambda>key. open_box_decrypt E bbox (ic_keypair (rsg_initiator s)) key)
         | other \<Rightarrow> Err (SigCrash (m_invalid_initiator_state other))))"

section \<open>Messages to the initiator\<close>

text \<open>A nonce for the next message to the initiator.\<close>

definition initiator_nonce :: "('t responder_signaling, signaling_error, nonce) proc" where
  "initiator_nonce s =
     zoomS rsg_initiator rsg_initiator_update (zoomS ic_csn_pair ic_csn_pair_update
       (next_nonce (cm_identity (rsg_common s)) IdInitiator (ic_cookie_pair (rsg_initiator s)))) s"

definition send_token ::
  "('t, 'v, 'z) env_scheme \<Rightarrow> auth_token \<Rightarrow>
   ('t responder_signaling, signaling_error, 'v handle_action) proc" where
  "send_token E token =
     bindS (getS (\<lambda>s. Token (public_key (cm_permanent_keypair (rsg_common s))))) (\<lambda>msg.
     bindS initiator_nonce (\<lambda>nonce.
     bindS (liftO (open_box_encrypt_token E (open_box_new msg nonce) token)) (\<lambda>bbox.
       returnS (Reply bbox))))"

definition send_key ::
  "('t, 'v, 'z) env_scheme \<Rightarrow> ('t responder_signaling, signaling_error, 'v handle_action) proc" where
  "send_key E =
     bindS (getS (\<lambda>s. Key (public_key (ic_keypair (rsg_initiator s))))) (\<lambda>msg.
     bindS initiator_nonce (\<lambda>nonce.
     bindS (getS (\<lambda>s. (cm_permanent_keypair (rsg_common s), ic_permanent_key (rsg_initiator s))))
       (\<lambda>(keypair, key).
     bindS (liftO (open_box_encrypt E (open_box_new msg nonce) keypair key)) (\<lambda>bbox.
       returnS (Reply bbox)))))"

definition set_initiator_handshake_state ::
  "initiator_handshake_state \<Rightarrow> ('t responder_signaling, 'e, unit) proc" where
  "set_initiator_handshake_state st =
     modifyS (rsg_initiator_update (ic_handshake_state_update (\<lambda>_. st)))"

definition m_no_auth_provider :: string where
  "m_no_auth_provider = ''No auth provider set''"

text \<open>
  The block shared by \<open>handle_server_auth_impl\<close> and \<open>handle_new_initiator\<close>: the token
  message if the provider is a token, which is consumed, then the key message.
\<close>

definition send_token_and_key :: "('t, 'v, 'z) env_scheme \<Rightarrow> ('t responder_signaling, 'v) handler" where
  "send_token_and_key E =
     bindS (getS (\<lambda>s. cm_auth_provider (rsg_common s))) (\<lambda>auth_provider.
     bindS (case auth_provider of
              Some (AuthProviderToken token) \<Rightarrow>
                thenS (on_responder_common (modifyS (cm_auth_provider_update (\<lambda>_. None))))
                (bindS (send_token E token) (\<lambda>a. returnS [a]))
            | Some (AuthProviderTrustedKey _) \<Rightarrow> returnS []
            | None \<Rightarrow> failS (SigCrash m_no_auth_provider)) (\<lambda>token.
     bindS (send_key E) (\<lambda>key. returnS (token @ [key]))))"

section \<open>Handlers of messages of the server\<close>

definition m_responders_set :: string where
  "m_responders_set =
     ''We're a responder, but the `responders` field in the server-auth message is set''"

definition m_initiator_connected_not_set :: string where
  "m_initiator_connected_not_set =
     ''We're a responder, but the `initiator_connected` field in the server-auth message is not set''"

definition responder_handle_server_auth_impl ::
  "('t, 'v, 'z) env_scheme \<Rightarrow> server_auth \<Rightarrow> ('t responder_signaling, 'v) handler" where
  "responder_handle_server_auth_impl E msg =
     thenS (guardS (sa_responders msg = None) (SigInvalidMessage m_responders_set))
     (case sa_initiator_connected msg of
        Some True \<Rightarrow>
          bindS (send_token_and_key E) (\<lambda>actions.
          thenS (set_initiator_handshake_state InitiatorKeySent)
          (returnS (actions @ [ActionEvent (ServerHandshakeDone True)])))
      | Some False \<Rightarrow> returnS [ActionEvent (ServerHandshakeDone False)]
      | None \<Rightarrow> failS (SigInvalidMessage m_initiator_connected_not_set))"

definition responder_handle_new_initiator ::
  "('t, 'v, 'z) env_scheme \<Rightarrow> ('t responder_signaling, 'v) handler" where
  "responder_handle_new_initiator E =
     bindS (getS (\<lambda>s. ic_permanent_key (rsg_initiator s))) (\<lambda>permanent_key.
     bindS (on_responder_common (with_entropy (initiator_context_new E permanent_key))) (\<lambda>initiator.
     thenS (modifyS (rsg_initiator_update (\<lambda>_. initiator)))
     (bindS (send_token_and_key E) (\<lambda>actions.
      thenS (set_initiator_handshake_state InitiatorKeySent)
      (returnS actions)))))"

definition m_new_responder_as_responder :: string where
  "m_new_responder_as_responder = ''Received 'new-responder' message as responder''"

definition responder_handle_new_responder :: "address \<Rightarrow> ('t responder_signaling, 'v) handler" where
  "responder_handle_new_responder i = failS (SigProtocol m_new_responder_as_responder)"

definition m_disconnected_non_initiator :: string where
  "m_disconnected_non_initiator = ''Received 'disconnected' message with non-initiator id''"

definition responder_handle_disconnected :: "address \<Rightarrow> ('t responder_signaling, 'v) handler" where
  "responder_handle_disconnected i =
     thenS (guardS (is_initiator i) (SigProtocol m_disconnected_non_initiator))
     (returnS [ActionEvent (EventDisconnected i)])"

section \<open>Handlers of messages of the initiator\<close>

definition m_initiator_session_key_set :: string where
  "m_initiator_session_key_set = ''Initiator already has a session key set!''"

definition m_tasks_not_set :: string where
  "m_tasks_not_set = ''Tasks are not set''"

definition responder_handle_key ::
  "('t, 'v, 'z) env_scheme \<Rightarrow> public_key \<Rightarrow> nonce \<Rightarrow> ('t responder_signaling, 'v) handler" where
  "responder_handle_key E key nonce =
     bindS (getS (\<lambda>s. (ic_session_key (rsg_initiator s), ic_permanent_key (rsg_initiator s))))
       (\<lambda>(session_key, permanent_key).
     thenS (guardS (session_key = None) (SigCrash m_initiator_session_key_set))
     (thenS (guardS (key \<noteq> permanent_key) (SigProtocol m_session_is_permanent_key))
     (thenS (modifyS (rsg_initiator_update (ic_session_key_update (\<lambda>_. Some key))))
     (thenS (set_initiator_handshake_state InitiatorKeyReceived)
     (bindS (getS (\<lambda>s. cm_tasks (rsg_common s))) (\<lambda>tasks_opt.
      bindS (liftO (ok_or (SigCrash m_tasks_not_set) tasks_opt)) (\<lambda>tasks.
      bindS (liftO (bindO (responder_auth_add_tasks E tasks (responder_auth_new (nonce_cookie nonce)))
                      responder_auth_build)) (\<lambda>auth.
      bindS initiator_nonce (\<lambda>auth_nonce.
      bindS (getS (\<lambda>s. (ic_keypair (rsg_initiator s), ic_session_key (rsg_initiator s))))
        (\<lambda>(keypair, initiator_session_key).
      bindS (liftO (ok_or (SigCrash m_initiator_session_key_not_set) initiator_session_key)) (\<lambda>other_key.
      bindS (liftO (open_box_encrypt E (open_box_new (Auth auth) auth_nonce) keypair other_key)) (\<lambda>bbox.
      thenS (set_initiator_handshake_state InitiatorAuthSent)
      (returnS [Reply bbox])))))))))))))"

definition m_tasks_field_set :: string where
  "m_tasks_field_set = ''We're a responder, but the `tasks` field in the auth message is set''"

definition m_task_field_not_set :: string where
  "m_task_field_not_set = ''The `task` field in the auth message is not set''"

definition m_unknown_task :: string where
  "m_unknown_task = ''The `task` field in the auth message contains an unknown task''"

definition m_data_empty :: string where
  "m_data_empty = ''The `data` field in the auth message is empty''"

definition m_data_too_many :: string where
  "m_data_too_many = ''The `data` field in the auth message contains more than one entry''"

definition m_data_missing :: string where
  "m_data_missing = ''The task in the auth message does not have a corresponding data entry''"

definition responder_handle_auth ::
  "('t, 'v, 'z) env_scheme \<Rightarrow> 'v auth \<Rightarrow> address \<Rightarrow> ('t responder_signaling, 'v) handler" where
  "responder_handle_auth E msg source =
     bindS (getS (\<lambda>s. cookie_ours (ic_cookie_pair (rsg_initiator s)))) (\<lambda>ours.
     thenS (validate_repeated_cookie (au_your_cookie msg) ours IdInitiator)
     (thenS (guardS (au_tasks msg = None) (SigInvalidMessage m_tasks_field_set))
     (bindS (case au_task msg of
               Some task \<Rightarrow>
                 bindS (on_responder_common take_tasks) (\<lambda>our_tasks.
                   liftO (ok_or (SigProtocol m_unknown_task) (find (\<lambda>t. task_name E t = task) our_tasks)))
             | None \<Rightarrow> failS (SigInvalidMessage m_task_field_not_set)) (\<lambda>task.
      thenS (guardS (hm_len (au_data msg) \<noteq> 0) (SigProtocol m_data_empty))
      (thenS (guardS (hm_len (au_data msg) \<le> 1) (SigProtocol m_data_too_many))
      (bindS (liftO (ok_or (SigProtocol m_data_missing) (hm_get (au_data msg) (task_name E task)))) (\<lambda>data.
       bindS (liftO (init_task E task data)) (\<lambda>chosen_task.
       thenS (on_responder_common (store_task E chosen_task))
       (thenS (set_initiator_handshake_state InitiatorAuthReceived)
       (thenS (on_responder_common (set_signaling_state TaskState))
       (returnS [HandshakeDone])))))))))))"

definition m_unexpected_close :: "u16 \<Rightarrow> string" where
  "m_unexpected_close reason =
     ''Received unexpected close message with code '' @ fmt_nat (unat reason) @ '' during peer handshake''"

definition responder_handle_peer_handshake_close :: "u16 \<Rightarrow> ('t responder_signaling, 'v) handler" where
  "responder_handle_peer_handshake_close reason =
     (case from_number reason of
        CodeNoSharedTask \<Rightarrow> failS SigNoSharedTask
      | _ \<Rightarrow> failS (SigProtocol (m_unexpected_close reason)))"

definition m_initiator_transition :: "string \<Rightarrow> initiator_handshake_state \<Rightarrow> string" where
  "m_initiator_transition ty st =
     ''Got '' @ ty @ '' message from initiator in '' @ fmt_initiator_handshake_state st @ '' state''"

definition responder_handle_peer_message ::
  "('t, 'v, 'z) env_scheme \<Rightarrow> 'v message open_box \<Rightarrow> ('t responder_signaling, 'v) handler" where
  "responder_handle_peer_message E obox =
     bindS (getS (\<lambda>s. ic_handshake_state (rsg_initiator s))) (\<lambda>old_state.
       case (old_state, ob_message obox) of
         (InitiatorKeySent, Key key) \<Rightarrow> responder_handle_key E key (ob_nonce obox)
       | (InitiatorAuthSent, Auth msg) \<Rightarrow> responder_handle_auth E msg (nonce_source (ob_nonce obox))
       | (InitiatorAuthSent, Close reason) \<Rightarrow> responder_handle_peer_handshake_close reason
       | (st, message) \<Rightarrow>
           failS (SigInvalidStateTransition (m_initiator_transition (get_type message) st)))"

end
