(* ===== verification/Signaling.thy ===== *)
theory Signaling
  imports Responder
begin

text \<open>
  The \<open>Signaling\<close> trait (\<open>src/protocol/mod.rs\<close>): the entry points that dispatch on the
  role. \<open>signaling\<close> is the trait object \<open>Box<dyn Signaling>\<close>, one of the two
  implementations; a default method of the trait is a function on it.
\<close>

datatype 't signaling =
    SignalingInitiator "'t initiator_signaling"
  | SignalingResponder "'t responder_signaling"

definition on_sig ::
  "('t initiator_signaling, 'e, 'a) proc \<Rightarrow> ('t responder_signaling, 'e, 'a) proc \<Rightarrow>
   ('t signaling, 'e, 'a) proc" where
  "on_sig f g s =
     (case s of
        SignalingInitiator i \<Rightarrow> (case f i of (r, i') \<Rightarrow> (r, SignalingInitiator i'))
      | SignalingResponder p \<Rightarrow> (case g p of (r, p') \<Rightarrow> (r, SignalingResponder p')))"

primrec sig_common :: "'t signaling \<Rightarrow> 't common" where
  "sig_common (SignalingInitiator i) = isg_common i"
| "sig_common (SignalingResponder p) = rsg_common p"

definition on_sig_common :: "('t common, 'e, 'a) proc \<Rightarrow> ('t signaling, 'e, 'a) proc" where
  "on_sig_common m = on_sig (on_common m) (on_responder_common m)"

primrec get_peer :: "'t signaling \<Rightarrow> peer_context option" where
  "get_peer (SignalingInitiator i) = initiator_get_peer i"
| "get_peer (SignalingResponder p) = responder_get_peer p"

primrec get_peer_with_address :: "'t signaling \<Rightarrow> address \<Rightarrow> ('e, peer_context option) outcome" where
  "get_peer_with_address (SignalingInitiator i) = initiator_get_peer_with_address i"
| "get_peer_with_address (SignalingResponder p) = responder_get_peer_with_address p"

primrec put_peer_with_address :: "address \<Rightarrow> peer_context \<Rightarrow> 't signaling \<Rightarrow> 't signaling" where
  "put_peer_with_address a c (SignalingInitiator i) = SignalingInitiator (initiator_put_peer a c i)"
| "put_peer_with_address a c (SignalingResponder p) = SignalingResponder (responder_put_peer a c p)"

text \<open>Writing through the interior mutability of the context that \<open>get_peer\<close> returns.\<close>

fun put_peer :: "peer_context \<Rightarrow> 't signaling \<Rightarrow> 't signaling" where
  "put_peer (PeerResponder r) (SignalingInitiator i) = SignalingInitiator (i\<lparr>isg_responder := Some r\<rparr>)"
| "put_peer (PeerInitiator c) (SignalingResponder p) = SignalingResponder (p\<lparr>rsg_initiator := c\<rparr>)"
| "put_peer _ s = s"

primrec initiator_pubkey :: "'t signaling \<Rightarrow> public_key" where
  "initiator_pubkey (SignalingInitiator i) = initiator_pubkey_initiator i"
| "initiator_pubkey (SignalingResponder p) = initiator_pubkey_responder p"

definition current_peer_sequence_numbers :: "'t signaling \<Rightarrow> peer_sequence_numbers option" where
  "current_peer_sequence_numbers s =
     (case get_peer s of
        None \<Rightarrow> None
      | Some peer \<Rightarrow>
          (case csn_theirs (peer_csn_pair peer) of
             Some theirs \<Rightarrow> Some \<lparr>incoming = snapshot_number theirs,
               outgoing = combined_sequence_number (csn_ours (peer_csn_pair peer))\<rparr>
           | None \<Rightarrow> None))"

section \<open>Validation of nonces\<close>

definition m_could_not_find_responder :: "address \<Rightarrow> string" where
  "m_could_not_find_responder a = ''Could not find responder with address '' @ fmt_address a"

definition m_invalid_sender :: string where
  "m_invalid_sender = ''Got message from invalid sender that wasn't dropped''"

text \<open>
  \<open>get_peer_with_address_mut\<close> and the error for an unknown sender, then a check on the
  context that was found.
\<close>

definition with_sender ::
  "nonce \<Rightarrow> (peer_context, validation_error, unit) proc \<Rightarrow> ('t signaling, validation_error, unit) proc" where
  "with_sender n m s =
     (case get_peer_with_address s (nonce_source n) of
        Ok (Some peer) \<Rightarrow> (case m peer of (r, peer') \<Rightarrow> (r, put_peer_with_address (nonce_source n) peer' s))
      | Ok None \<Rightarrow>
          (Err (if cm_role (sig_common s) = RoleInitiator \<and> is_responder (nonce_source n)
                then ValDropMsg (m_could_not_find_responder (nonce_source n))
                else ValCrash m_invalid_sender), s)
      | Err e \<Rightarrow> (Err e, s)
      | Panic p \<Rightarrow> (Panic p, s))"

definition validate_nonce_destination :: "nonce \<Rightarrow> ('t signaling, validation_error, unit) proc" where
  "validate_nonce_destination n =
     on_sig (on_common (initiator_validate_nonce_destination n))
       (on_responder_common (responder_validate_nonce_destination n))"

definition validate_nonce_source :: "nonce \<Rightarrow> ('t signaling, validation_error, unit) proc" where
  "validate_nonce_source n =
     on_sig (on_common (initiator_validate_nonce_source n))
       (on_responder_common (responder_validate_nonce_source n))"

definition validate_nonce_csn :: "nonce \<Rightarrow> ('t signaling, validation_error, unit) proc" where
  "validate_nonce_csn n =
     with_sender n (\<lambda>peer.
       zoomS peer_csn_pair peer_csn_pair_update (check_csn (peer_identity peer) n) peer)"

definition validate_nonce_cookie :: "nonce \<Rightarrow> ('t signaling, validation_error, unit) proc" where
  "validate_nonce_cookie n =
     with_sender n (\<lambda>peer.
       zoomS peer_cookie_pair peer_cookie_pair_update (check_cookie (peer_identity peer) n) peer)"

definition validate_nonce :: "nonce \<Rightarrow> ('t signaling, validation_error, unit) proc" where
  "validate_nonce n =
     thenS (validate_nonce_destination n)
     (thenS (validate_nonce_source n)
     (thenS (validate_nonce_csn n)
     (validate_nonce_cookie n)))"

section \<open>Messages of the server\<close>

definition handle_server_auth ::
  "('t, 'v, 'z) env_scheme \<Rightarrow> server_auth \<Rightarrow> nonce option \<Rightarrow> ('t signaling, 'v) handler" where
  "handle_server_auth E msg nonce_clone =
     thenS (on_sig_common (server_auth_checks E msg nonce_clone))
     (bindS (on_sig (initiator_handle_server_auth_impl E msg) (responder_handle_server_auth_impl E msg)) (\<lambda>actions.
      thenS (on_sig_common server_handshake_completed)
      (returnS actions)))"

definition m_server_transition :: "string \<Rightarrow> server_handshake_state \<Rightarrow> string" where
  "m_server_transition ty st =
     ''Got '' @ [CHR 0x27] @ ty @ [CHR 0x27] @ '' message from server in ''
     @ fmt_server_handshake_state st @ '' state''"

definition m_drop_responder_unimplemented :: string where
  "m_drop_responder_unimplemented = ''TODO (#36): Handling DropResponder messages not yet implemented''"

definition handle_server_message ::
  "('t, 'v, 'z) env_scheme \<Rightarrow> 'v message open_box \<Rightarrow> nonce option \<Rightarrow> ('t signaling, 'v) handler" where
  "handle_server_message E obox nonce_clone =
     bindS (getS (\<lambda>s. sc_handshake_state (cm_server (sig_common s)))) (\<lambda>old_state.
       case (old_state, ob_message obox) of
         (ServerNew, ServerHello key) \<Rightarrow> on_sig_common (handle_server_hello E key)
       | (ClientInfoSent, ServerAuth msg) \<Rightarrow> handle_server_auth E msg nonce_clone
       | (ServerDone, NewInitiator) \<Rightarrow>
           on_sig initiator_handle_new_initiator (responder_handle_new_initiator E)
       | (ServerDone, NewResponder i) \<Rightarrow>
           on_sig (initiator_handle_new_responder E i) (responder_handle_new_responder i)
       | (ServerDone, DropResponder msg) \<Rightarrow> panicS m_drop_responder_unimplemented
       | (ServerDone, SendError i) \<Rightarrow> handle_send_error i
       | (ServerDone, Disconnected i) \<Rightarrow>
           on_sig (initiator_handle_disconnected i) (responder_handle_disconnected i)
       | (st, message) \<Rightarrow>
           failS (SigInvalidStateTransition (m_server_transition (get_type message) st)))"

section \<open>Messages of peers during the handshake\<close>

primrec decode_peer_message ::
  "('t, 'v, 'z) env_scheme \<Rightarrow> byte_box \<Rightarrow> 't signaling \<Rightarrow> (signaling_error, 'v message open_box) outcome" where
  "decode_peer_message E bbox (SignalingInitiator i) = initiator_decode_peer_message E i bbox"
| "decode_peer_message E bbox (SignalingResponder p) = responder_decode_peer_message E p bbox"

definition m_handshake_from_server :: string where
  "m_handshake_from_server = ''Message in handle_handshake_peer_message is from server!''"

definition handle_handshake_peer_message ::
  "('t, 'v, 'z) env_scheme \<Rightarrow> byte_box \<Rightarrow> ('t signaling, 'v) handler" where
  "handle_handshake_peer_message E bbox =
     thenS (guardS (\<not> is_server (nonce_source (bb_nonce bbox))) (SigCrash m_handshake_from_server))
     (bindS (getS (decode_peer_message E bbox)) (\<lambda>decoded.
       case decoded of
         Ok obox \<Rightarrow>
           bindS (getS (\<lambda>s. cm_signaling_state (sig_common s))) (\<lambda>state.
             case state of
               ServerHandshake \<Rightarrow> failS (SigCrash ''Illegal signaling state: ServerHandshake'')
             | PeerHandshake \<Rightarrow>
                 if is_server (nonce_source (ob_nonce obox)) then handle_server_message E obox None
                 else on_sig (initiator_handle_peer_message E obox) (responder_handle_peer_message E obox)
             | TaskState \<Rightarrow> failS (SigCrash ''Illegal signaling state: Task''))
       | Err e \<Rightarrow>
           if e = SigInitiatorCouldNotDecrypt
           then bindS (on_sig_common (send_drop_responder E (nonce_source (bb_nonce bbox))
                         DropInitiatorCouldNotDecrypt)) (\<lambda>drop_responder. returnS [drop_responder])
           else failS e
       | Panic p \<Rightarrow> panicS p))"

section \<open>Messages of the peer in the task phase\<close>

definition m_peer_not_set :: string where
  "m_peer_not_set = ''Peer not set''"

definition m_peer_session_keypair :: string where
  "m_peer_session_keypair = ''Peer session keypair not available''"

definition decode_task_message ::
  "('t, 'v, 'z) env_scheme \<Rightarrow> byte_box \<Rightarrow> 't signaling \<Rightarrow> (signaling_error, 'v open_box) outcome" where
  "decode_task_message E bbox s =
     bindO (ok_or (SigCrash m_peer_not_set) (get_peer s)) (\<lambda>peer.
     bindO (ok_or (SigCrash m_no_peer_session_key) (peer_session_key peer)) (\<lambda>session_key.
     bindO (ok_or (SigCrash m_peer_session_keypair) (peer_keypair peer)) (\<lambda>keypair.
       value_box_decrypt E bbox keypair session_key)))"

definition m_non_hashable_key :: string where
  "m_non_hashable_key = ''Task message map contains non-hashable key''"

text \<open>The conversion to a \<open>HashMap\<close>; a later pair overwrites an earlier one with the same key.\<close>

fun task_message_map ::
  "('t, 'v, 'z) env_scheme \<Rightarrow> ('v \<times> 'v) list \<Rightarrow> (string, 'v) hashmap \<Rightarrow>
   (signaling_error, (string, 'v) hashmap) outcome" where
  "task_message_map E [] m = Ok m"
| "task_message_map E ((k, v) # pairs) m =
     (case value_as_str E k of
        None \<Rightarrow> Err (SigInvalidMessage m_non_hashable_key)
      | Some key \<Rightarrow> task_message_map E pairs (hm_insert key v m))"

definition m_not_a_map :: string where
  "m_not_a_map = ''Task message is not a map''"

definition m_no_type :: string where
  "m_no_type = ''Task message does not contain type field''"

definition m_type_not_string :: string where
  "m_type_not_string = ''Task message type is not a string''"

definition m_no_data :: string where
  "m_no_data = ''Application message does not contain a data field''"

definition m_no_reason :: string where
  "m_no_reason = ''Close message does not contain a reason field''"

definition m_reason_not_integer :: string where
  "m_reason_not_integer = ''Close message reason is not an integer''"

definition m_reason_too_large :: string where
  "m_reason_too_large = ''Close message reason code is too large''"

definition m_no_supported_types :: string where
  "m_no_supported_types = ''Task supported types not set''"

text \<open>From the decrypted value to the actions: lines 383 to 439 of the source.\<close>

definition interpret_task_message ::
  "('t, 'v, 'z) env_scheme \<Rightarrow> string list option \<Rightarrow> 'v \<Rightarrow> (signaling_error, 'v handle_action list) outcome" where
  "interpret_task_message E supported_types message =
     bindO (case value_as_map E message of
              Some pairs \<Rightarrow> task_message_map E pairs hm_empty
            | None \<Rightarrow> Err (SigInvalidMessage m_not_a_map)) (\<lambda>map.
     bindO (ok_or (SigInvalidMessage m_no_type) (hm_get map ''type'')) (\<lambda>ty.
     bindO (ok_or (SigInvalidMessage m_type_not_string) (value_as_str E ty)) (\<lambda>msg_type.
       if msg_type = ''application'' then
         bindO (ok_or (SigInvalidMessage m_no_data) (hm_get map ''data'')) (\<lambda>data.
           Ok [ActionTaskMessage (TaskApplication data)])
       else if msg_type = ''close'' then
         bindO (ok_or (SigInvalidMessage m_no_reason) (hm_get map ''reason'')) (\<lambda>reason.
         bindO (ok_or (SigInvalidMessage m_reason_not_integer) (value_as_u64 E reason)) (\<lambda>val.
           if val > 65535 then Err (SigInvalidMessage m_reason_too_large)
           else Ok [ActionTaskMessage (TaskClose (from_number (ucast val)))]))
       else
         bindO (ok_or (SigCrash m_no_supported_types) supported_types) (\<lambda>types.
           if list_ex (\<lambda>t. t = msg_type) types then Ok [ActionTaskMessage (TaskValue map)]
           else Ok []))))"

definition m_task_from_server :: string where
  "m_task_from_server = ''Message in handle_task_peer_message is from server!''"

definition handle_task_peer_message ::
  "('t, 'v, 'z) env_scheme \<Rightarrow> byte_box \<Rightarrow> ('t signaling, 'v) handler" where
  "handle_task_peer_message E bbox =
     thenS (guardS (\<not> is_server (nonce_source (bb_nonce bbox))) (SigCrash m_task_from_server))
     (bindS (getS (decode_task_message E bbox)) (\<lambda>decoded.
      bindS (liftO decoded) (\<lambda>obox.
      bindS (getS (\<lambda>s. cm_task_supported_types (sig_common s))) (\<lambda>types.
        liftO (interpret_task_message E types (ob_message obox))))))"

section \<open>Entry point\<close>

definition dispatch_message ::
  "('t, 'v, 'z) env_scheme \<Rightarrow> byte_box \<Rightarrow> ('t signaling, 'v) handler" where
  "dispatch_message E bbox =
     (if is_server (nonce_source (bb_nonce bbox)) then
        bindS (getS (\<lambda>s. decode_server_message E (sig_common s) bbox)) (\<lambda>decoded.
        bindS (liftO decoded) (\<lambda>obox.
          handle_server_message E obox
            (if get_type (ob_message obox) = ''server-auth'' then Some (bb_nonce bbox) else None)))
      else
        bindS (getS (\<lambda>s. cm_signaling_state (sig_common s))) (\<lambda>state.
          case state of
            ServerHandshake \<Rightarrow> handle_handshake_peer_message E bbox
          | PeerHandshake \<Rightarrow> handle_handshake_peer_message E bbox
          | TaskState \<Rightarrow> handle_task_peer_message E bbox))"

definition handle_message ::
  "('t, 'v, 'z) env_scheme \<Rightarrow> byte_box \<Rightarrow> ('t signaling, 'v) handler" where
  "handle_message E bbox s =
     (case validate_nonce (bb_nonce bbox) s of
        (Ok _, s') \<Rightarrow> dispatch_message E bbox s'
      | (Err (ValDropMsg warning), s') \<Rightarrow> (Ok [], s')
      | (Err (ValFail reason), s') \<Rightarrow> (Err (SigInvalidNonce reason), s')
      | (Err (ValCrash reason), s') \<Rightarrow> (Err (SigCrash reason), s')
      | (Panic p, s') \<Rightarrow> (Panic p, s'))"

section \<open>Messages to the chosen peer\<close>

definition with_chosen_peer ::
  "(peer_context, signaling_error, 'a) proc \<Rightarrow> ('t signaling, signaling_error, 'a) proc" where
  "with_chosen_peer m s =
     (case get_peer s of
        None \<Rightarrow> (Err (SigCrash m_peer_not_set), s)
      | Some peer \<Rightarrow> (case m peer of (r, peer') \<Rightarrow> (r, put_peer peer' s)))"

definition m_called_in_state :: "string \<Rightarrow> signaling_state \<Rightarrow> string" where
  "m_called_in_state f st = ''Called '' @ f @ '' in state '' @ fmt_signaling_state st"

definition encode_task_message ::
  "('t, 'v, 'z) env_scheme \<Rightarrow> 'v \<Rightarrow> ('t signaling, signaling_error, byte_box) proc" where
  "encode_task_message E value =
     bindS (getS (\<lambda>s. cm_signaling_state (sig_common s))) (\<lambda>state.
     thenS (guardS (state = TaskState) (SigCrash (m_called_in_state ''encode_task_message'' state)))
     (bindS (getS (\<lambda>s. cm_identity (sig_common s))) (\<lambda>identity.
        with_chosen_peer (encode_for_peer
          (\<lambda>nonce. value_box_encrypt E (open_box_new value nonce)) identity))))"

text \<open>\<open>encode_close_message\<close> with no context passed, as the task phase calls it.\<close>

definition encode_close_message ::
  "('t, 'v, 'z) env_scheme \<Rightarrow> close_code \<Rightarrow> ('t signaling, signaling_error, byte_box) proc" where
  "encode_close_message E reason =
     bindS (getS (\<lambda>s. cm_signaling_state (sig_common s))) (\<lambda>state.
     thenS (guardS (state = TaskState) (SigCrash (m_called_in_state ''encode_close_message'' state)))
     (bindS (getS (\<lambda>s. cm_identity (sig_common s))) (\<lambda>identity.
        with_chosen_peer (encode_close_for_peer E reason identity))))"

definition m_peer_session_public_key :: string where
  "m_peer_session_public_key = ''Peer session public key not set''"

definition m_our_session_private_key :: string where
  "m_our_session_private_key = ''Our session private key not set''"

definition encrypt_raw_with_session_keys ::
  "'z libs_scheme \<Rightarrow> byte list \<Rightarrow> byte list \<Rightarrow> 't signaling \<Rightarrow> (signaling_error, byte list) outcome" where
  "encrypt_raw_with_session_keys L data nonce s =
     bindO (ok_or SigNoPeer (get_peer s)) (\<lambda>peer.
     bindO (ok_or (SigCrash m_peer_session_public_key) (peer_session_key peer)) (\<lambda>pk.
     bindO (ok_or (SigCrash m_our_session_private_key) (map_option private_key (peer_keypair peer))) (\<lambda>sk.
       Ok (box_seal L data nonce pk sk))))"

definition decrypt_raw_with_session_keys ::
  "'z libs_scheme \<Rightarrow> byte list \<Rightarrow> byte list \<Rightarrow> 't signaling \<Rightarrow> (signaling_error, byte list) outcome" where
  "decrypt_raw_with_session_keys L data nonce s =
     bindO (ok_or SigNoPeer (get_peer s)) (\<lambda>peer.
     bindO (ok_or (SigCrash m_peer_session_public_key) (peer_session_key peer)) (\<lambda>pk.
     bindO (ok_or (SigCrash m_our_session_private_key) (map_option private_key (peer_keypair peer))) (\<lambda>sk.
       ok_or (SigCrypto ''Could not decrypt bytes'') (box_open L data nonce pk sk))))"

end
