(* ===== verification/Validation.thy ===== *)
theory Validation
  imports Signaling
begin

text \<open>
  What \<open>validate_nonce\<close> lets through. The two signaling structs are stores of peer contexts
  addressed by a byte; the laws of such a store are the locale \<open>peer_store\<close>, and both
  structs are instances. From the laws: an accepted message has a right destination, an
  allowed sender, a fresh sequence number and the right cookie; and no message is accepted
  twice.
\<close>

section \<open>Stores of peers\<close>

text \<open>The context behind \<open>get_peer_with_address_mut\<close>, when the lookup does not panic.\<close>

definition found :: "('e, peer_context option) outcome \<Rightarrow> peer_context option" where
  "found r = (case r of Ok p \<Rightarrow> p | _ \<Rightarrow> None)"

definition initiator_peer_at :: "'t initiator_signaling \<Rightarrow> address \<Rightarrow> peer_context option" where
  "initiator_peer_at s a = found (initiator_get_peer_with_address s a :: (unit, _) outcome)"

definition responder_peer_at :: "'t responder_signaling \<Rightarrow> address \<Rightarrow> peer_context option" where
  "responder_peer_at s a = found (responder_get_peer_with_address s a :: (unit, _) outcome)"

definition peer_at :: "'t signaling \<Rightarrow> address \<Rightarrow> peer_context option" where
  "peer_at s a = (case s of
     SignalingInitiator i \<Rightarrow> initiator_peer_at i a | SignalingResponder p \<Rightarrow> responder_peer_at p a)"

locale peer_store =
  fixes at :: "'s \<Rightarrow> address \<Rightarrow> peer_context option"
    and put :: "address \<Rightarrow> peer_context \<Rightarrow> 's \<Rightarrow> 's"
  assumes at_put_same:
      "at s a = Some p \<Longrightarrow> peer_identity p' = peer_identity p \<Longrightarrow> at (put a p' s) a = Some p'"
    and at_put_other:
      "at s a = Some p \<Longrightarrow> peer_identity p' = peer_identity p \<Longrightarrow> b \<noteq> a \<Longrightarrow> at (put a p' s) b = at s b"
    and put_put:
      "at s a = Some p \<Longrightarrow> peer_identity p' = peer_identity p \<Longrightarrow> peer_identity p'' = peer_identity p \<Longrightarrow>
       put a p'' (put a p' s) = put a p'' s"
begin

text \<open>Changing a context and changing it again is one change, seen at its own address only.\<close>

lemma at_put_put:
  assumes "at s a = Some p" "peer_identity p' = peer_identity p" "peer_identity p'' = peer_identity p"
  shows "at (put a p'' (put a p' s)) b = (if b = a then Some p'' else at s b)"
  using assms by (simp add: put_put at_put_same at_put_other)

end

lemma peer_identity_cases:
  "peer_identity p = IdServer \<longleftrightarrow> (\<exists>c. p = PeerServer c)"
  "peer_identity p = IdInitiator \<longleftrightarrow> (\<exists>c. p = PeerInitiator c)"
  "peer_identity p = IdResponder a \<longleftrightarrow> (\<exists>c. p = PeerResponder c \<and> rc_address c = a)"
  by (cases p; auto)+

lemma hm_insert_insert [simp]: "hm_insert k w (hm_insert k v m) = hm_insert k w m"
  by (induction m) (auto simp: hm_insert_def)

lemma initiator_peer_at_simps:
  "initiator_peer_at s 0 = Some (PeerServer (cm_server (isg_common s)))"
  "initiator_peer_at s 1 = None"
  "is_responder a \<Longrightarrow> cm_signaling_state (isg_common s) \<noteq> TaskState \<Longrightarrow>
     initiator_peer_at s a = map_option PeerResponder (hm_get (isg_responders s) a)"
  "is_responder a \<Longrightarrow> cm_signaling_state (isg_common s) = TaskState \<Longrightarrow>
     initiator_peer_at s a = (case isg_responder s of
       Some r \<Rightarrow> if rc_address r = a then Some (PeerResponder r) else None | None \<Rightarrow> None)"
  by (auto simp: initiator_peer_at_def found_def initiator_get_peer_with_address_def
      identity_from_address_def is_responder_iff byte_gt_1_iff split: option.splits)

lemma responder_peer_at_simps:
  "responder_peer_at s 0 = Some (PeerServer (cm_server (rsg_common s)))"
  "responder_peer_at s 1 = Some (PeerInitiator (rsg_initiator s))"
  "is_responder a \<Longrightarrow> responder_peer_at s a = None"
  by (auto simp: responder_peer_at_def found_def responder_get_peer_with_address_def
      identity_from_address_def is_responder_iff)

lemma address_cases: obtains "(a :: address) = 0" | "a = 1" | "is_responder a"
  by (auto simp: is_responder_iff)

lemma initiator_peer_at_cases:
  assumes "initiator_peer_at s a = Some p"
  obtains (server) "a = 0" "p = PeerServer (cm_server (isg_common s))"
    | (task) r where "is_responder a" "cm_signaling_state (isg_common s) = TaskState"
        "isg_responder s = Some r" "rc_address r = a" "p = PeerResponder r"
    | (listed) r where "is_responder a" "cm_signaling_state (isg_common s) \<noteq> TaskState"
        "hm_get (isg_responders s) a = Some r" "p = PeerResponder r"
  using assms
  by (cases a rule: address_cases; cases "cm_signaling_state (isg_common s) = TaskState")
    (auto simp: initiator_peer_at_simps split: option.splits if_splits)

interpretation initiator_store: peer_store initiator_peer_at initiator_put_peer
proof
  fix s :: "'t initiator_signaling" and a b p p' p''
  assume at: "initiator_peer_at s a = Some p" and id: "peer_identity p' = peer_identity p"
  show "initiator_peer_at (initiator_put_peer a p' s) a = Some p'"
    using at id
    by (cases rule: initiator_peer_at_cases)
      (auto simp: peer_identity_cases initiator_peer_at_simps)
  show "b \<noteq> a \<Longrightarrow> initiator_peer_at (initiator_put_peer a p' s) b = initiator_peer_at s b"
    using at id
    by (cases rule: initiator_peer_at_cases; cases b rule: address_cases;
        cases "cm_signaling_state (isg_common s) = TaskState")
      (auto simp: peer_identity_cases initiator_peer_at_simps)
  show "initiator_put_peer a p'' (initiator_put_peer a p' s) = initiator_put_peer a p'' s"
    if "peer_identity p'' = peer_identity p"
    using at id that
    by (cases rule: initiator_peer_at_cases) (auto simp: peer_identity_cases)
qed

interpretation responder_store: peer_store responder_peer_at responder_put_peer
proof
  fix s :: "'t responder_signaling" and a b p p' p''
  assume at: "responder_peer_at s a = Some p" and id: "peer_identity p' = peer_identity p"
  then have "a = 0 \<and> p = PeerServer (cm_server (rsg_common s)) \<or> a = 1 \<and> p = PeerInitiator (rsg_initiator s)"
    by (cases a rule: address_cases) (auto simp: responder_peer_at_simps)
  then show "responder_peer_at (responder_put_peer a p' s) a = Some p'"
    "b \<noteq> a \<Longrightarrow> responder_peer_at (responder_put_peer a p' s) b = responder_peer_at s b"
    "peer_identity p'' = peer_identity p \<Longrightarrow>
       responder_put_peer a p'' (responder_put_peer a p' s) = responder_put_peer a p'' s"
    using id
    by (cases b rule: address_cases; auto simp: responder_peer_at_simps peer_identity_cases)+
qed

interpretation sig_store: peer_store peer_at put_peer_with_address
proof
  fix s :: "'t signaling" and a b p p' p''
  assume at: "peer_at s a = Some p" and id: "peer_identity p' = peer_identity p"
  show "peer_at (put_peer_with_address a p' s) a = Some p'"
    using at id initiator_store.at_put_same responder_store.at_put_same
    by (cases s) (auto simp: peer_at_def)
  show "b \<noteq> a \<Longrightarrow> peer_at (put_peer_with_address a p' s) b = peer_at s b"
    using at id initiator_store.at_put_other responder_store.at_put_other
    by (cases s) (auto simp: peer_at_def)
  show "put_peer_with_address a p'' (put_peer_with_address a p' s) = put_peer_with_address a p'' s"
    if "peer_identity p'' = peer_identity p"
    using at id that initiator_store.put_put responder_store.put_put
    by (cases s) (auto simp: peer_at_def)
qed

section \<open>Acceptance of a nonce\<close>

lemma get_peer_with_address_iff:
  "get_peer_with_address s a = Ok (Some p) \<longleftrightarrow> peer_at s a = Some p"
  by (cases s)
    (auto simp: peer_at_def initiator_peer_at_def responder_peer_at_def found_def
      initiator_get_peer_with_address_def responder_get_peer_with_address_def
      split: identity.splits option.splits if_splits)

lemma with_sender_Ok_iff:
  "with_sender n m s = (Ok u, s') \<longleftrightarrow>
     (\<exists>p p'. peer_at s (nonce_source n) = Some p \<and> m p = (Ok u, p') \<and>
        s' = put_peer_with_address (nonce_source n) p' s)"
proof (cases "get_peer_with_address s (nonce_source n) :: (validation_error, _) outcome")
  case (Ok p)
  show ?thesis
  proof (cases p)
    case None
    with Ok have "peer_at s (nonce_source n) = None"
      by (metis get_peer_with_address_iff not_None_eq option.distinct(1) outcome.inject(1))
    with Ok None show ?thesis by (simp add: with_sender_def)
  next
    case (Some q)
    with Ok have "peer_at s (nonce_source n) = Some q" by (simp only: get_peer_with_address_iff)
    with Ok Some show ?thesis by (auto simp: with_sender_def split: prod.splits)
  qed
next
  case (Err e)
  then have "peer_at s (nonce_source n) = None"
    by (metis get_peer_with_address_iff not_None_eq outcome.distinct(1))
  with Err show ?thesis by (simp add: with_sender_def)
next
  case (Panic x)
  then have "peer_at s (nonce_source n) = None"
    by (metis get_peer_with_address_iff not_None_eq outcome.distinct(3))
  with Panic show ?thesis by (simp add: with_sender_def)
qed

text \<open>What is remembered of an accepted message.\<close>

definition note_nonce :: "nonce \<Rightarrow> peer_context \<Rightarrow> peer_context" where
  "note_nonce n p =
     peer_cookie_pair_update (\<lambda>c. c\<lparr>cookie_theirs := Some (nonce_cookie n)\<rparr>)
       (peer_csn_pair_update (\<lambda>c. c\<lparr>csn_theirs := Some (nonce_csn n)\<rparr>) p)"

lemma note_nonce_simps [simp]:
  "peer_identity (note_nonce n p) = peer_identity p"
  "peer_csn_pair (note_nonce n p) = (peer_csn_pair p)\<lparr>csn_theirs := Some (nonce_csn n)\<rparr>"
  "peer_cookie_pair (note_nonce n p) = (peer_cookie_pair p)\<lparr>cookie_theirs := Some (nonce_cookie n)\<rparr>"
  by (simp_all add: note_nonce_def)

lemma peer_update_const:
  "peer_csn_pair_update (\<lambda>_. f (peer_csn_pair p)) p = peer_csn_pair_update f p"
  "peer_cookie_pair_update (\<lambda>_. g (peer_cookie_pair p)) p = peer_cookie_pair_update g p"
  by (cases p; simp)+

lemma validate_csn_cookie_Ok_iff:
  "thenS (validate_nonce_csn n) (validate_nonce_cookie n) s = (Ok u, s') \<longleftrightarrow>
     (\<exists>p. peer_at s (nonce_source n) = Some p \<and> csn_fresh (peer_csn_pair p) n \<and>
        cookie_right (peer_cookie_pair p) n \<and>
        s' = put_peer_with_address (nonce_source n) (note_nonce n p) s)" (is "?lhs \<longleftrightarrow> ?rhs")
proof -
  let ?csn = "\<lambda>p. peer_csn_pair_update (\<lambda>_. (peer_csn_pair p)\<lparr>csn_theirs := Some (nonce_csn n)\<rparr>) p"
  have "?lhs \<longleftrightarrow> (\<exists>p q. peer_at s (nonce_source n) = Some p \<and> csn_fresh (peer_csn_pair p) n \<and>
      peer_at (put_peer_with_address (nonce_source n) (?csn p) s) (nonce_source n) = Some q \<and>
      cookie_right (peer_cookie_pair q) n \<and>
      s' = put_peer_with_address (nonce_source n)
        (peer_cookie_pair_update (\<lambda>_. (peer_cookie_pair q)\<lparr>cookie_theirs := Some (nonce_cookie n)\<rparr>) q)
        (put_peer_with_address (nonce_source n) (?csn p) s))"
    by (auto simp: validate_nonce_csn_def validate_nonce_cookie_def thenS_eq_Ok_iff with_sender_Ok_iff
        zoomS_eq_Ok_iff check_csn_Ok_iff check_cookie_Ok_iff)
  also have "\<dots> \<longleftrightarrow> ?rhs"
    by (auto simp: sig_store.at_put_same sig_store.put_put note_nonce_def peer_update_const)
  finally show ?thesis .
qed

text \<open>
  The identity after the destination check: the first message with a destination other than 0
  that arrives after the \<open>server-hello\<close> assigns it.
\<close>

definition assigned_identity :: "nonce \<Rightarrow> 't signaling \<Rightarrow> client_identity" where
  "assigned_identity n s =
     (let c = sig_common s in
      if cm_identity c = ClientUnknown \<and> \<not> is_unknown (nonce_destination n) \<and>
         sc_handshake_state (cm_server c) \<noteq> ServerNew
      then (case s of SignalingInitiator _ \<Rightarrow> ClientInitiator
            | SignalingResponder _ \<Rightarrow> ClientResponder (nonce_destination n))
      else cm_identity c)"

primrec set_identity :: "client_identity \<Rightarrow> 't signaling \<Rightarrow> 't signaling" where
  "set_identity i (SignalingInitiator s) = SignalingInitiator (s\<lparr>isg_common := (isg_common s)\<lparr>cm_identity := i\<rparr>\<rparr>)"
| "set_identity i (SignalingResponder s) = SignalingResponder (s\<lparr>rsg_common := (rsg_common s)\<lparr>cm_identity := i\<rparr>\<rparr>)"

text \<open>
  Who may send: the server always; a responder to an initiator that has its identity; the
  initiator to a responder that has its identity.
\<close>

definition sender_allowed :: "client_identity \<Rightarrow> 't signaling \<Rightarrow> address \<Rightarrow> bool" where
  "sender_allowed i s a \<longleftrightarrow> is_server a \<or>
     (case s of SignalingInitiator _ \<Rightarrow> is_responder a \<and> i = ClientInitiator
      | SignalingResponder _ \<Rightarrow> is_initiator a \<and> is_responder_identity i)"

lemma on_sig_Ok_iff:
  "on_sig f g s = (Ok x, s') \<longleftrightarrow>
     (case s of SignalingInitiator i \<Rightarrow> \<exists>i'. f i = (Ok x, i') \<and> s' = SignalingInitiator i'
      | SignalingResponder p \<Rightarrow> \<exists>p'. g p = (Ok x, p') \<and> s' = SignalingResponder p')"
  by (auto simp: on_sig_def split: signaling.splits prod.splits)

lemma if_else_proc:
  "(if b then m else k) s = (if b then m s else k s)"
  by simp

lemma validate_destination_Ok_iff:
  "validate_nonce_destination n s = (Ok u, s') \<longleftrightarrow>
     (address_from_client_identity (assigned_identity n s) :: (validation_error, address) outcome)
       = Ok (nonce_destination n) \<and>
     s' = set_identity (assigned_identity n s) s"
  by (cases s)
    (auto simp: validate_nonce_destination_def on_sig_Ok_iff on_common_def on_responder_common_def
      initiator_validate_nonce_destination_def responder_validate_nonce_destination_def
      check_destination_def ok_iffs if_else_proc assigned_identity_def Let_def address_class_defs
      byte_gt_1_iff split: if_splits)

lemma validate_source_Ok_iff:
  "validate_nonce_source n s = (Ok u, s') \<longleftrightarrow>
     sender_allowed (cm_identity (sig_common s)) s (nonce_source n) \<and> s' = s"
  by (cases s)
    (auto simp: validate_nonce_source_def on_sig_Ok_iff on_common_def on_responder_common_def
      initiator_validate_nonce_source_def responder_validate_nonce_source_def ok_iffs if_else_proc
      sender_allowed_def address_class_defs split: if_splits)

lemma initiator_peer_at_identity:
  "initiator_peer_at (s\<lparr>isg_common := (isg_common s)\<lparr>cm_identity := i\<rparr>\<rparr>) a = initiator_peer_at s a"
  by (cases a rule: address_cases; cases "cm_signaling_state (isg_common s) = TaskState")
    (simp_all add: initiator_peer_at_simps)

lemma responder_peer_at_identity:
  "responder_peer_at (s\<lparr>rsg_common := (rsg_common s)\<lparr>cm_identity := i\<rparr>\<rparr>) a = responder_peer_at s a"
  by (cases a rule: address_cases) (simp_all add: responder_peer_at_simps)

lemma set_identity_simps [simp]:
  "cm_identity (sig_common (set_identity i s)) = i"
  "peer_at (set_identity i s) a = peer_at s a"
  "sender_allowed j (set_identity i s) a = sender_allowed j s a"
  by (cases s; simp add: peer_at_def initiator_peer_at_identity responder_peer_at_identity
      sender_allowed_def)+

lemma validate_nonce_Ok_iff:
  "validate_nonce n s = (Ok u, s') \<longleftrightarrow>
     (\<exists>p. peer_at s (nonce_source n) = Some p \<and>
        (address_from_client_identity (assigned_identity n s) :: (validation_error, address) outcome)
          = Ok (nonce_destination n) \<and>
        sender_allowed (assigned_identity n s) s (nonce_source n) \<and>
        csn_fresh (peer_csn_pair p) n \<and> cookie_right (peer_cookie_pair p) n \<and>
        s' = put_peer_with_address (nonce_source n) (note_nonce n p)
               (set_identity (assigned_identity n s) s))"
  unfolding validate_nonce_def
    thenS_eq_Ok_iff [where m = "validate_nonce_destination n"]
    thenS_eq_Ok_iff [where m = "validate_nonce_source n"] validate_destination_Ok_iff
    validate_source_Ok_iff validate_csn_cookie_Ok_iff
  by auto

text \<open>
  C31. \<open>validate_nonce\<close> accepts a message exactly when: its destination is our address, where
  an identity not yet assigned is taken from the message and must fit our role; its sender may
  send to us and is known; its sequence number is fresh, that is above the last accepted one of
  that sender or with overflow number 0 for its first message; and its cookie is the one seen
  before or, for the first message, different from ours. Acceptance stores the identity, the
  sequence number and the cookie, and nothing else.
\<close>

theorem validate_nonce_accepts:
  "validate_nonce n s = (Ok u, s') \<longleftrightarrow>
     (\<exists>p. peer_at s (nonce_source n) = Some p \<and>
        (address_from_client_identity (assigned_identity n s) :: (validation_error, address) outcome)
          = Ok (nonce_destination n) \<and>
        sender_allowed (assigned_identity n s) s (nonce_source n) \<and>
        csn_fresh (peer_csn_pair p) n \<and> cookie_right (peer_cookie_pair p) n \<and>
        s' = put_peer_with_address (nonce_source n) (note_nonce n p)
               (set_identity (assigned_identity n s) s))"
  by (rule validate_nonce_Ok_iff)

lemma peer_at_validated:
  assumes "validate_nonce n s = (Ok u, s')"
  shows "\<exists>p. peer_at s (nonce_source n) = Some p \<and> csn_fresh (peer_csn_pair p) n \<and>
    (\<forall>a. peer_at s' a = (if a = nonce_source n then Some (note_nonce n p) else peer_at s a))"
  using assms
  by (auto simp: validate_nonce_Ok_iff sig_store.at_put_same)
    (metis note_nonce_simps(1) set_identity_simps(2) sig_store.at_put_other)

text \<open>
  C32. Replay protection: once a message is accepted, no message of the same sender with the
  same or a lower sequence number is accepted, and the contexts of all other peers are left as
  they were.
\<close>

theorem replay_rejected:
  assumes "validate_nonce n s = (Ok u, s')"
    and "nonce_source m = nonce_source n" and "nonce_csn m \<le> nonce_csn n"
  shows "validate_nonce m s' \<noteq> (Ok v, s'') \<and> (a \<noteq> nonce_source n \<longrightarrow> peer_at s' a = peer_at s a)"
proof -
  from peer_at_validated [OF assms(1)] obtain p where
    at: "\<And>a. peer_at s' a = (if a = nonce_source n then Some (note_nonce n p) else peer_at s a)"
    by blast
  have "\<not> csn_fresh (peer_csn_pair (note_nonce n p)) m"
    using assms(3) by (simp add: csn_fresh_def not_less)
  then have "validate_nonce m s' \<noteq> (Ok v, s'')"
    using assms(2) by (auto simp: validate_nonce_Ok_iff at)
  then show ?thesis by (simp add: at)
qed

section \<open>Concrete sessions\<close>

text \<open>States that an initiator and a responder go through, for the witnesses.\<close>

definition sample_cookie :: "byte \<Rightarrow> cookie_pair" where
  "sample_cookie b = \<lparr>cookie_ours = replicate 16 b, cookie_theirs = None\<rparr>"

definition sample_csn :: csn_pair where
  "sample_csn = \<lparr>csn_ours = \<lparr>cs_overflow = 0, cs_sequence = 100\<rparr>, csn_theirs = None\<rparr>"

definition sample_server :: "server_handshake_state \<Rightarrow> server_context" where
  "sample_server st =
     \<lparr>sc_handshake_state = st, sc_permanent_key = None,
      sc_session_key = (if st = ServerNew then None else Some (replicate 32 4)),
      sc_csn_pair = sample_csn, sc_cookie_pair = sample_cookie 1\<rparr>"

definition sample_common ::
  "role \<Rightarrow> signaling_state \<Rightarrow> server_handshake_state \<Rightarrow> client_identity \<Rightarrow> auth_provider option \<Rightarrow> string common" where
  "sample_common role st sst i provider =
     \<lparr>cm_signaling_state = st, cm_permanent_keypair = sample_key_pair 1,
      cm_auth_provider = provider, cm_role = role, cm_identity = i, cm_server = sample_server sst,
      cm_tasks = Some [''t''], cm_task = None, cm_task_supported_types = None,
      cm_ping_interval = None, cm_entropy = 0\<rparr>"

definition sample_initiator_context :: initiator_context where
  "sample_initiator_context =
     \<lparr>ic_handshake_state = InitiatorNew, ic_permanent_key = replicate 32 3, ic_session_key = None,
      ic_keypair = sample_key_pair 2, ic_csn_pair = sample_csn, ic_cookie_pair = sample_cookie 2\<rparr>"

definition sample_responder :: "string signaling" where
  "sample_responder = SignalingResponder
     \<lparr>rsg_common = sample_common RoleResponder ServerHandshake ServerNew ClientUnknown
        (Some (AuthProviderTrustedKey (replicate 32 3))),
      rsg_initiator = sample_initiator_context\<rparr>"

definition sample_nonce :: "address \<Rightarrow> address \<Rightarrow> u32 \<Rightarrow> nonce" where
  "sample_nonce src dst n =
     \<lparr>nonce_cookie = replicate 16 9, nonce_source = src, nonce_destination = dst,
      nonce_csn = CombinedSequenceSnapshot 0 n\<rparr>"

theorem replay_rejected_witness:
  "\<exists>s'. validate_nonce (sample_nonce 0 0 5) sample_responder = (Ok (), s') \<and>
     validate_nonce (sample_nonce 0 0 5) s' \<noteq> (Ok (), s') \<and> peer_at s' 1 = peer_at sample_responder 1"
proof -
  have ok: "fst (validate_nonce (sample_nonce 0 0 5) sample_responder) = Ok ()" by code_simp
  then obtain s' where s': "validate_nonce (sample_nonce 0 0 5) sample_responder = (Ok (), s')"
    by (cases "validate_nonce (sample_nonce 0 0 5) sample_responder") auto
  have "nonce_source (sample_nonce 0 0 5) = 0" by (simp add: sample_nonce_def)
  with replay_rejected [OF s', of "sample_nonce 0 0 5" "()" s' 1] s' show ?thesis by simp
qed

end
