(* ===== verification/Signaling_Laws.thy ===== *)
theory Signaling_Laws
  imports Validation
begin

text \<open>
  Invariants of the \<open>Common\<close> struct through every message. Four locales collect what a
  predicate on \<open>Common\<close> must survive: \<open>common_frame\<close> the assignments that any handler
  may make (random draws, our counter for the server, the used-up token),
  \<open>validation_frame\<close> those of the validation of nonces, \<open>handshake_invariant\<close> both and
  in addition the transitions of the handshakes, and \<open>common_invariant\<close> also the transition
  to the task state. Inside the locales it is proved once that
  every method, up to \<open>handle_message\<close>, preserves such a predicate; the instances below are
  the predicates the properties need.
\<close>

lemma preserves_on_common:
  "preserves J m \<Longrightarrow> preserves (\<lambda>s. J (isg_common s)) (on_common m)"
  by (auto simp: on_common_def intro!: preserves_zoomS dest: preservesD [OF _ _ prod.collapse [symmetric]])

lemma preserves_on_responder_common:
  "preserves J m \<Longrightarrow> preserves (\<lambda>s. J (rsg_common s)) (on_responder_common m)"
  by (auto simp: on_responder_common_def intro!: preserves_zoomS
      dest: preservesD [OF _ _ prod.collapse [symmetric]])

lemma preserves_on_sig:
  assumes "preserves (\<lambda>i. I (SignalingInitiator i)) f" "preserves (\<lambda>p. I (SignalingResponder p)) g"
  shows "preserves I (on_sig f g)"
  using assms by (auto simp: preserves_def on_sig_def split: signaling.splits prod.splits)

lemma preserves_on_sig_common:
  "preserves J m \<Longrightarrow> preserves (\<lambda>s. J (sig_common s)) (on_sig_common m)"
  by (auto simp: on_sig_common_def intro!: preserves_on_sig preserves_on_common
      preserves_on_responder_common)

lemma sig_common_on_sig_common: "sig_common (snd (on_sig_common m s)) = snd (m (sig_common s))"
  by (cases s) (simp_all add: on_sig_common_def on_sig_def on_common_def on_responder_common_def
      zoomS_def case_prod_beta)

lemma preserves_at_responder: "preserves (\<lambda>s. J (isg_common s)) (at_responder a m)"
  by (auto simp: preserves_def at_responder_def split: option.splits prod.splits)

lemma preserves_initiator_only: "(\<And>s. isg_common (f s) = isg_common s) \<Longrightarrow>
    preserves (\<lambda>s. J (isg_common s)) (modifyS f)"
  by (simp add: preserves_def modifyS_def)

lemma preserves_responder_only: "(\<And>s. rsg_common (f s) = rsg_common s) \<Longrightarrow>
    preserves (\<lambda>s. J (rsg_common s)) (modifyS f)"
  by (simp add: preserves_def modifyS_def)

lemma preserves_initiator_counter:
  "preserves (\<lambda>s. J (isg_common s)) (zoomS isg_responder_counter isg_responder_counter_update m)"
  by (auto intro!: preserves_zoomS)

lemma preserves_initiator_nonce: "preserves (\<lambda>s. J (rsg_common s)) initiator_nonce"
  by (auto simp: preserves_def initiator_nonce_def zoomS_def split: prod.splits)

lemma sender_server:
  "get_peer_with_address s a = Ok (Some (PeerServer c)) \<Longrightarrow> c = cm_server (sig_common s)"
  by (cases s)
    (auto simp: initiator_get_peer_with_address_def responder_get_peer_with_address_def
      bindO_eq_Ok_iff split: identity.splits if_splits option.splits)

lemma sig_common_put_peer:
  "sig_common (put_peer_with_address a (PeerServer c) s) = (sig_common s)\<lparr>cm_server := c\<rparr>"
  "sig_common (put_peer_with_address a (PeerInitiator i) s) = sig_common s"
  "sig_common (put_peer_with_address a (PeerResponder r) s) = sig_common s"
  by (cases s; simp)+

lemma preserves_with_sender:
  assumes server: "\<And>c. J c \<Longrightarrow> \<exists>sc. snd (m (PeerServer (cm_server c))) = PeerServer sc \<and> J (c\<lparr>cm_server := sc\<rparr>)"
    and peer: "\<And>p sc. snd (m p) = PeerServer sc \<Longrightarrow> \<exists>c. p = PeerServer c"
  shows "preserves (\<lambda>s. J (sig_common s)) (with_sender n m)"
proof (rule preservesI)
  fix s :: "'a signaling" assume J: "J (sig_common s)"
  show "J (sig_common (snd (with_sender n m s)))"
  proof (cases "\<exists>p. get_peer_with_address s (nonce_source n) = (Ok (Some p) :: (validation_error, _) outcome)")
    case True
    then obtain p where p: "get_peer_with_address s (nonce_source n) = (Ok (Some p) :: (validation_error, _) outcome)"
      by blast
    then have run: "snd (with_sender n m s) = put_peer_with_address (nonce_source n) (snd (m p)) s"
      by (simp add: with_sender_def split: prod.split)
    show ?thesis
    proof (cases "\<exists>c. p = PeerServer c")
      case True
      with p have "p = PeerServer (cm_server (sig_common s))" using sender_server by blast
      with server [OF J] show ?thesis unfolding run by (auto simp: sig_common_put_peer)
    next
      case False
      with peer have "snd (m p) \<noteq> PeerServer sc" for sc by blast
      then show ?thesis unfolding run using J by (cases "snd (m p)") (auto simp: sig_common_put_peer)
    qed
  next
    case False
    then have "snd (with_sender n m s) = s"
      by (auto simp: with_sender_def split: outcome.split option.split)
    then show ?thesis using J by simp
  qed
qed

lemma peer_update_server:
  "peer_csn_pair_update f p = PeerServer sc \<Longrightarrow> \<exists>c. p = PeerServer c"
  "peer_cookie_pair_update g p = PeerServer sc \<Longrightarrow> \<exists>c. p = PeerServer c"
  by (cases p; simp)+

lemma sig_common_put_chosen:
  "get_peer s = Some p \<Longrightarrow> peer_identity p' = peer_identity p \<Longrightarrow> sig_common (put_peer p' s) = sig_common s"
  by (cases s; cases p') (auto simp: initiator_get_peer_def responder_get_peer_def)

lemma encode_for_peer_identity: "peer_identity (snd (encode_for_peer seal i p)) = peer_identity p"
  by (cases p)
    (auto simp: encode_for_peer_def proc_defs zoomS_def split: prod.splits outcome.splits)

lemma sig_common_with_chosen_peer:
  assumes "\<And>p. peer_identity (snd (m p)) = peer_identity p"
  shows "sig_common (snd (with_chosen_peer m s)) = sig_common s"
  using assms by (auto simp: with_chosen_peer_def sig_common_put_chosen split: option.split prod.split)
    (metis sig_common_put_chosen snd_conv)

section \<open>Frames\<close>

locale common_frame =
  fixes J :: "'t common \<Rightarrow> bool"
  assumes entropy: "J c \<Longrightarrow> J (c\<lparr>cm_entropy := i\<rparr>)"
    and server_csn: "J c \<Longrightarrow>
      J (c\<lparr>cm_server := (cm_server c)\<lparr>sc_csn_pair :=
        snd (next_nonce (cm_identity c) IdServer (sc_cookie_pair (cm_server c)) (sc_csn_pair (cm_server c)))\<rparr>\<rparr>)"
    and token_used: "J c \<Longrightarrow> auth_token_of c \<noteq> None \<Longrightarrow> J (c\<lparr>cm_auth_provider := None\<rparr>)"
begin

lemma keeps_with_entropy: "preserves J (with_entropy m)"
  by (auto simp: with_entropy_def intro!: preserves_zoomS entropy)

lemma keeps_server_nonce: "preserves J server_nonce"
proof (rule preservesI)
  fix c assume "J c"
  from server_csn [OF this] show "J (snd (server_nonce c))"
    by (simp add: server_nonce_def zoomS_def case_prod_beta)
qed

lemmas keeps_basic = pres_rules keeps_with_entropy keeps_server_nonce preserves_on_common
  preserves_on_responder_common preserves_at_responder preserves_initiator_only
  preserves_responder_only preserves_initiator_counter preserves_initiator_nonce

lemma keeps_send_client_hello: "preserves J (send_client_hello E)"
  unfolding send_client_hello_def by (intro keeps_basic)

lemma keeps_send_client_auth: "preserves J (send_client_auth E)"
  unfolding send_client_auth_def by (intro keeps_basic)

lemma keeps_send_drop_responder: "preserves J (send_drop_responder E a r)"
  unfolding send_drop_responder_def by (intro keeps_basic)

subsection \<open>Methods of the initiator\<close>

lemma keeps_drop_oldest: "preserves (\<lambda>s. J (isg_common s)) (drop_oldest_inactive_responder E)"
  unfolding drop_oldest_inactive_responder_def
  by (intro keeps_basic keeps_send_drop_responder) simp_all

lemma keeps_process_new_responder: "preserves (\<lambda>s. J (isg_common s)) (process_new_responder E a)"
  unfolding process_new_responder_def
  by (intro keeps_basic keeps_drop_oldest) (auto split: auth_provider.split option.split intro!: keeps_basic)

lemma keeps_initiator_server_auth_impl:
  "preserves (\<lambda>s. J (isg_common s)) (initiator_handle_server_auth_impl E msg)"
  unfolding initiator_handle_server_auth_impl_def Let_def
  by (intro keeps_basic keeps_process_new_responder)

lemma keeps_initiator_new_responder:
  "preserves (\<lambda>s. J (isg_common s)) (initiator_handle_new_responder E i)"
  unfolding initiator_handle_new_responder_def by (intro keeps_basic keeps_process_new_responder)

lemma keeps_initiator_handle_token:
  "preserves (\<lambda>s. J (isg_common s)) (initiator_handle_token key a)"
  unfolding initiator_handle_token_def
  by (rule preserves_thenS [OF preserves_at_responder])
    (auto simp: preserves_wp wp_simps on_common_def token_used)

lemma keeps_initiator_handle_key:
  "preserves (\<lambda>s. J (isg_common s)) (initiator_handle_key E key a)"
  unfolding initiator_handle_key_def by (intro keeps_basic)

lemma keeps_drop_other_responders: "preserves (\<lambda>s. J (isg_common s)) (drop_other_responders E)"
  unfolding drop_other_responders_def by (intro keeps_basic keeps_send_drop_responder) simp_all

subsection \<open>Methods of the responder\<close>

lemma keeps_send_token: "preserves (\<lambda>s. J (rsg_common s)) (send_token E t)"
  unfolding send_token_def by (intro keeps_basic)

lemma keeps_send_key: "preserves (\<lambda>s. J (rsg_common s)) (send_key E)"
  unfolding send_key_def by (intro keeps_basic)

lemma keeps_send_token_and_key: "preserves (\<lambda>s. J (rsg_common s)) (send_token_and_key E)"
proof (rule preservesI)
  fix s :: "'t responder_signaling" assume J: "J (rsg_common s)"
  let ?I = "\<lambda>s. J (rsg_common s)"
  have "wp (send_token_and_key E) (\<lambda>_. ?I) (\<lambda>_. ?I) (\<lambda>_. ?I) s"
    unfolding send_token_and_key_def
    using J token_used [OF J]
    by (auto simp: wp_simps auth_token_of_def on_responder_common_def split: option.split auth_provider.split
        intro!: wp_preserves [OF keeps_send_token] wp_preserves [OF keeps_send_key])
  then show "J (rsg_common (snd (send_token_and_key E s)))"
    by (auto simp: wp_def split: prod.splits outcome.splits)
qed

lemma keeps_set_initiator_handshake_state:
  "preserves (\<lambda>s. J (rsg_common s)) (set_initiator_handshake_state st)"
  unfolding set_initiator_handshake_state_def by (intro preserves_responder_only) simp

lemma keeps_responder_server_auth_impl:
  "preserves (\<lambda>s. J (rsg_common s)) (responder_handle_server_auth_impl E msg)"
  unfolding responder_handle_server_auth_impl_def
  by (intro keeps_basic keeps_send_token_and_key keeps_set_initiator_handshake_state)
    (auto split: option.split bool.split
      intro!: keeps_basic keeps_send_token_and_key keeps_set_initiator_handshake_state)

lemma keeps_responder_new_initiator:
  "preserves (\<lambda>s. J (rsg_common s)) (responder_handle_new_initiator E)"
  unfolding responder_handle_new_initiator_def
  by (intro keeps_basic keeps_send_token_and_key keeps_set_initiator_handshake_state) simp_all

lemma keeps_responder_handle_key:
  "preserves (\<lambda>s. J (rsg_common s)) (responder_handle_key E key n)"
  unfolding responder_handle_key_def
  by (intro keeps_basic keeps_set_initiator_handshake_state) simp_all

end

section \<open>Frames of validation\<close>

locale validation_frame =
  fixes J :: "'t common \<Rightarrow> bool"
  assumes csn_checked: "J c \<Longrightarrow>
      J (c\<lparr>cm_server := (cm_server c)\<lparr>sc_csn_pair := snd (check_csn IdServer n (sc_csn_pair (cm_server c)))\<rparr>\<rparr>)"
    and cookie_checked: "J c \<Longrightarrow>
      J (c\<lparr>cm_server := (cm_server c)\<lparr>sc_cookie_pair := snd (check_cookie IdServer n (sc_cookie_pair (cm_server c)))\<rparr>\<rparr>)"
    and identity_assigned: "J c \<Longrightarrow> cm_identity c = ClientUnknown \<Longrightarrow> client_identity_ok i \<Longrightarrow>
      sc_handshake_state (cm_server c) \<noteq> ServerNew \<Longrightarrow> J (c\<lparr>cm_identity := i\<rparr>)"
begin

lemma keeps_validate_nonce_destination:
  "preserves (\<lambda>s. J (sig_common s)) (validate_nonce_destination n)"
proof -
  have check: "preserves J (check_destination n)"
    unfolding check_destination_def by (intro pres_rules)
  have "preserves J (initiator_validate_nonce_destination n)"
    unfolding initiator_validate_nonce_destination_def preserves_wp
    by (auto simp: wp_simps identity_assigned intro!: wp_preserves [OF check])
  moreover have "preserves J (responder_validate_nonce_destination n)"
    unfolding responder_validate_nonce_destination_def preserves_wp
    by (auto simp: wp_simps identity_assigned intro!: wp_preserves [OF check])
  ultimately show ?thesis
    unfolding validate_nonce_destination_def
    by (auto intro!: preserves_on_sig preserves_on_common preserves_on_responder_common)
qed

lemma keeps_validate_nonce_source: "preserves (\<lambda>s. J (sig_common s)) (validate_nonce_source n)"
  unfolding validate_nonce_source_def initiator_validate_nonce_source_def
    responder_validate_nonce_source_def
  by (auto intro!: pres_rules preserves_on_common preserves_on_responder_common preserves_on_sig)

lemma keeps_validate_nonce_csn: "preserves (\<lambda>s. J (sig_common s)) (validate_nonce_csn n)"
  unfolding validate_nonce_csn_def
  by (rule preserves_with_sender)
    (auto simp: zoomS_def case_prod_beta csn_checked dest: peer_update_server)

lemma keeps_validate_nonce_cookie: "preserves (\<lambda>s. J (sig_common s)) (validate_nonce_cookie n)"
  unfolding validate_nonce_cookie_def
  by (rule preserves_with_sender)
    (auto simp: zoomS_def case_prod_beta cookie_checked dest: peer_update_server)

lemma keeps_validate_nonce: "preserves (\<lambda>s. J (sig_common s)) (validate_nonce n)"
  unfolding validate_nonce_def
  by (intro preserves_thenS keeps_validate_nonce_destination keeps_validate_nonce_source
      keeps_validate_nonce_csn keeps_validate_nonce_cookie)

end

section \<open>Invariants\<close>

locale handshake_invariant = common_frame + validation_frame +
  assumes session_key: "J c \<Longrightarrow> sc_session_key (cm_server c) = None \<Longrightarrow>
      J (cm_server_update (sc_session_key_update (\<lambda>_. Some k)) c)"
    and client_info_sent: "J c \<Longrightarrow> sc_handshake_state (cm_server c) = ServerNew \<Longrightarrow>
      sc_session_key (cm_server c) \<noteq> None \<Longrightarrow>
      J (cm_server_update (sc_handshake_state_update (\<lambda>_. ClientInfoSent)) c)"
    and server_done: "J c \<Longrightarrow> sc_handshake_state (cm_server c) = ClientInfoSent \<Longrightarrow>
      J (cm_server_update (sc_handshake_state_update (\<lambda>_. ServerDone)) c)"
    and to_peer_handshake: "J c \<Longrightarrow> cm_signaling_state c = ServerHandshake \<Longrightarrow>
      sc_handshake_state (cm_server c) = ServerDone \<Longrightarrow> J (c\<lparr>cm_signaling_state := PeerHandshake\<rparr>)"
    and tasks_taken: "J c \<Longrightarrow> J (c\<lparr>cm_tasks := None\<rparr>)"
    and task_stored: "J c \<Longrightarrow> J (c\<lparr>cm_task_supported_types := Some ty, cm_task := Some t\<rparr>)"
begin

sublocale framed: common_frame
  "\<lambda>c. J c \<and> sc_handshake_state (cm_server c) = st \<and> (sc_session_key (cm_server c) \<noteq> None \<or> \<not> b)" for st b
  by unfold_locales (auto intro: entropy server_csn token_used)

lemma keeps_handle_server_hello:
  assumes "J c" "sc_handshake_state (cm_server c) = ServerNew"
  shows "J (snd (handle_server_hello E key c))"
proof -
  have hello: "preserves (\<lambda>c. J c \<and> sc_handshake_state (cm_server c) = ServerNew \<and>
      sc_session_key (cm_server c) \<noteq> None) (send_client_hello E)"
    and auth: "preserves (\<lambda>c. J c \<and> sc_handshake_state (cm_server c) = ServerNew \<and>
      sc_session_key (cm_server c) \<noteq> None) (send_client_auth E)"
    using framed.keeps_send_client_hello [of ServerNew True E]
      framed.keeps_send_client_auth [of ServerNew True E] by simp_all
  have "wp (handle_server_hello E key) (\<lambda>_. J) (\<lambda>_. J) (\<lambda>_. J) c"
    unfolding handle_server_hello_def set_server_handshake_state_def
    using assms session_key [OF assms(1), of key]
    by (auto simp: wp_simps client_info_sent
        intro!: wp_preserves [OF hello] wp_preserves [OF auth])
  then show ?thesis by (auto simp: wp_def split: prod.splits outcome.splits)
qed

lemma keeps_server_handshake_completed:
  assumes "J c" "sc_handshake_state (cm_server c) = ClientInfoSent"
  shows "J (snd (server_handshake_completed c))"
  using server_done [OF assms] to_peer_handshake [OF server_done [OF assms]]
  by (auto simp: server_handshake_completed_def set_server_handshake_state_def proc_defs
      set_signaling_state_def elim: may_transition_to.elims)

lemma keeps_server_auth_checks: "preserves J (server_auth_checks E msg n)"
  unfolding server_auth_checks_def validate_repeated_cookie_def by (intro keeps_basic)

lemma keeps_handle_server_auth:
  assumes "J (sig_common s)" "sc_handshake_state (cm_server (sig_common s)) = ClientInfoSent"
  shows "J (sig_common (snd (handle_server_auth E msg n s)))"
proof -
  let ?I = "\<lambda>s. J (sig_common s) \<and> sc_handshake_state (cm_server (sig_common s)) = ClientInfoSent"
  have "preserves (\<lambda>c. J c \<and> sc_handshake_state (cm_server c) = ClientInfoSent) (server_auth_checks E msg n)"
    unfolding server_auth_checks_def validate_repeated_cookie_def by (intro keeps_basic)
  then have checks: "preserves ?I (on_sig_common (server_auth_checks E msg n))"
    by (rule preserves_on_sig_common)
  have impl: "preserves ?I (on_sig (initiator_handle_server_auth_impl E msg)
      (responder_handle_server_auth_impl E msg))"
    using framed.keeps_initiator_server_auth_impl [of ClientInfoSent False]
      framed.keeps_responder_server_auth_impl [of ClientInfoSent False]
    by (intro preserves_on_sig) simp_all
  have completed: "J (sig_common (snd (on_sig_common server_handshake_completed t)))" if "?I t" for t
    using that keeps_server_handshake_completed by (simp add: sig_common_on_sig_common)
  have "wp (handle_server_auth E msg n) (\<lambda>_ s. J (sig_common s)) (\<lambda>_ s. J (sig_common s))
      (\<lambda>_ s. J (sig_common s)) s"
    unfolding handle_server_auth_def wp_simps
    using assms
    by (auto intro!: wp_preserves [OF checks] wp_preserves [OF impl] wp_snd completed)
  then show ?thesis by (auto simp: wp_def split: prod.splits outcome.splits)
qed

lemma keeps_handle_server_message:
  "preserves (\<lambda>s. J (sig_common s)) (handle_server_message E obox n)"
proof (rule preservesI)
  fix s :: "'a signaling" assume J: "J (sig_common s)"
  have hello: "J (sig_common (snd (on_sig_common (handle_server_hello E key) s)))"
    if "sc_handshake_state (cm_server (sig_common s)) = ServerNew" for key
    using keeps_handle_server_hello [OF J that] by (simp add: sig_common_on_sig_common)
  have new_initiator: "J (sig_common (snd (on_sig initiator_handle_new_initiator
      (responder_handle_new_initiator E) s)))"
    using preservesD [OF keeps_responder_new_initiator [of E]] J
    by (cases s) (auto simp: on_sig_def initiator_handle_new_initiator_def failS_def
        split: prod.splits)
  have new_responder: "J (sig_common (snd (on_sig (initiator_handle_new_responder E i)
      (responder_handle_new_responder i) s)))" for i
    using preservesD [OF keeps_initiator_new_responder [of E i]] J
    by (cases s) (auto simp: on_sig_def responder_handle_new_responder_def failS_def
        split: prod.splits)
  have disconnected: "J (sig_common (snd (on_sig (initiator_handle_disconnected i)
      (responder_handle_disconnected i) s)))" for i
    using J by (cases s) (auto simp: on_sig_def initiator_handle_disconnected_def
        responder_handle_disconnected_def proc_defs split: prod.splits)
  show "J (sig_common (snd (handle_server_message E obox n s)))"
    unfolding handle_server_message_def bindS_def getS_def
    using J keeps_handle_server_auth [OF J, where E = E and n = n]
    by (cases "sc_handshake_state (cm_server (sig_common s))"; cases "ob_message obox")
      (simp_all add: handle_send_error_def failS_def panicS_def hello new_initiator new_responder
        disconnected)
qed

lemma keeps_take_tasks: "preserves J take_tasks"
  unfolding take_tasks_def by (intro keeps_basic tasks_taken)

lemma keeps_store_task: "preserves J (store_task E t)"
  unfolding store_task_def by (intro keeps_basic task_stored)

lemma keeps_no_shared_task: "preserves (\<lambda>s. J (isg_common s)) (no_shared_task E r)"
  unfolding no_shared_task_def by (intro keeps_basic)

end

locale common_invariant = handshake_invariant +
  assumes to_task: "J c \<Longrightarrow> cm_signaling_state c = PeerHandshake \<Longrightarrow>
      J (c\<lparr>cm_signaling_state := TaskState\<rparr>)"
begin

lemma keeps_enter_task: "preserves J (set_signaling_state TaskState)"
  by (auto simp: preserves_def set_signaling_state_def to_task elim: may_transition_to.elims)

lemma keeps_initiator_finish_auth:
  "preserves (\<lambda>s. J (isg_common s)) (initiator_finish_auth E r t drops)"
  unfolding initiator_finish_auth_def
  by (intro keeps_basic keeps_store_task keeps_enter_task) simp_all

lemma keeps_initiator_handle_auth:
  "preserves (\<lambda>s. J (isg_common s)) (initiator_handle_auth E msg a)"
  unfolding initiator_handle_auth_def validate_repeated_cookie_def
  by (intro keeps_basic keeps_take_tasks keeps_no_shared_task keeps_drop_other_responders
      keeps_initiator_finish_auth) simp_all

lemma keeps_responder_handle_auth:
  "preserves (\<lambda>s. J (rsg_common s)) (responder_handle_auth E msg a)"
  unfolding responder_handle_auth_def validate_repeated_cookie_def
  by (intro keeps_basic keeps_take_tasks keeps_store_task keeps_enter_task
      keeps_set_initiator_handshake_state)

lemma keeps_initiator_handle_peer_message:
  "preserves (\<lambda>s. J (isg_common s)) (initiator_handle_peer_message E obox)"
  unfolding initiator_handle_peer_message_def Let_def
  by (intro preserves_bindS preserves_pure, rename_tac f r,
      case_tac "rc_handshake_state r"; cases "ob_message obox")
    (simp_all add: keeps_initiator_handle_token keeps_initiator_handle_key
      keeps_initiator_handle_auth preserves_pure)

lemma keeps_responder_handle_peer_message:
  "preserves (\<lambda>s. J (rsg_common s)) (responder_handle_peer_message E obox)"
  unfolding responder_handle_peer_message_def
  by (intro preserves_bindS preserves_pure, rename_tac st, case_tac st; cases "ob_message obox")
    (simp_all add: keeps_responder_handle_key keeps_responder_handle_auth preserves_pure
      responder_handle_peer_handshake_close_def split: close_code.split)

lemma keeps_handle_handshake_peer_message:
  "preserves (\<lambda>s. J (sig_common s)) (handle_handshake_peer_message E bbox)"
  unfolding handle_handshake_peer_message_def
proof (intro keeps_basic preserves_on_sig_common keeps_send_drop_responder)
  fix obox :: "'b message open_box" and st
  show "preserves (\<lambda>s. J (sig_common s))
      (case st of ServerHandshake \<Rightarrow> failS (SigCrash ''Illegal signaling state: ServerHandshake'')
       | PeerHandshake \<Rightarrow>
           if is_server (nonce_source (ob_nonce obox)) then handle_server_message E obox None
           else on_sig (initiator_handle_peer_message E obox) (responder_handle_peer_message E obox)
       | TaskState \<Rightarrow> failS (SigCrash ''Illegal signaling state: Task''))"
    using preserves_on_sig [where I = "\<lambda>s. J (sig_common s)",
        OF _ _, of "initiator_handle_peer_message E obox" "responder_handle_peer_message E obox"]
      keeps_initiator_handle_peer_message keeps_responder_handle_peer_message
    by (cases st) (auto simp: preserves_pure intro!: keeps_handle_server_message)
qed

lemma keeps_handle_task_peer_message:
  "preserves (\<lambda>s. J (sig_common s)) (handle_task_peer_message E bbox)"
  unfolding handle_task_peer_message_def by (intro keeps_basic)

lemma keeps_dispatch_message: "preserves (\<lambda>s. J (sig_common s)) (dispatch_message E bbox)"
  unfolding dispatch_message_def
  by (intro keeps_basic keeps_handle_server_message)
    (auto split: signaling_state.split intro: keeps_handle_handshake_peer_message
      keeps_handle_task_peer_message)

theorem keeps_handle_message: "preserves (\<lambda>s. J (sig_common s)) (handle_message E bbox)"
proof (rule preservesI)
  fix s :: "'a signaling" assume J: "J (sig_common s)"
  obtain r t where v: "validate_nonce (bb_nonce bbox) s = (r, t)" by fastforce
  have t: "J (sig_common t)" using preservesD [OF keeps_validate_nonce J v] .
  then have d: "J (sig_common (snd (dispatch_message E bbox t)))"
    using keeps_dispatch_message [of E bbox] by (simp add: preserves_def)
  show "J (sig_common (snd (handle_message E bbox s)))"
    unfolding handle_message_def v using t d by (cases r) (auto split: validation_error.split)
qed

lemma keeps_encode_task_message: "preserves (\<lambda>s. J (sig_common s)) (encode_task_message E v)"
  unfolding encode_task_message_def
  by (intro keeps_basic)
    (simp add: preserves_def sig_common_with_chosen_peer encode_for_peer_identity)

lemma keeps_encode_close_message: "preserves (\<lambda>s. J (sig_common s)) (encode_close_message E r)"
  unfolding encode_close_message_def encode_close_for_peer_def
  by (intro keeps_basic)
    (simp add: preserves_def sig_common_with_chosen_peer encode_for_peer_identity)

end

section \<open>The two handshakes are in step\<close>

text \<open>
  The signaling leaves the server handshake only when the handshake with the server is done,
  and our identity fits an address.
\<close>

definition phase_ok :: "'t common \<Rightarrow> bool" where
  "phase_ok c \<longleftrightarrow>
     (cm_signaling_state c \<noteq> ServerHandshake \<longrightarrow> sc_handshake_state (cm_server c) = ServerDone) \<and>
     (sc_handshake_state (cm_server c) \<noteq> ServerNew \<longrightarrow> sc_session_key (cm_server c) \<noteq> None) \<and>
     client_identity_ok (cm_identity c)"

interpretation before_task: handshake_invariant "\<lambda>c. cm_signaling_state c \<noteq> TaskState"
  by unfold_locales simp_all

interpretation phase: common_invariant phase_ok
  by unfold_locales (auto simp: phase_ok_def)

end
