(* ===== verification/Initiator_Laws.thy ===== *)
theory Initiator_Laws
  imports Signaling_Laws "HOL-Library.Multiset"
begin

text \<open>
  The invariant of the initiator: the list of responders is a map from responder addresses to
  contexts that carry their address, pairwise different serial numbers and the keys that their
  handshake state promises; with a trusted key every responder has it as its permanent key;
  without one, path cleaning keeps the list within 252 entries; and a responder is chosen
  exactly in the task state, fully authenticated. Every handler preserves it.
\<close>

text \<open>Iterating a hash map or hash set visits every entry once.\<close>

definition order_laws :: "('t, 'v, 'z) env_scheme \<Rightarrow> bool" where
  "order_laws E \<longleftrightarrow> (\<forall>xs. mset (address_order E xs) = mset xs)"

lemma order_laws_set: "order_laws E \<Longrightarrow> set (address_order E xs) = set xs"
  by (metis order_laws_def set_mset_mset)

lemma sample_order_laws: "order_laws (sample_env tbl vtbl)"
  by (simp add: order_laws_def sample_env_def sample_libs_def)

section \<open>The invariant\<close>

definition trusted_key :: "'t common \<Rightarrow> public_key option" where
  "trusted_key c =
     (case cm_auth_provider c of Some (AuthProviderTrustedKey k) \<Rightarrow> Some k | _ \<Rightarrow> None)"

lemma trusted_key_simps [simp]:
  "trusted_key (cm_task_update f c) = trusted_key c"
  "trusted_key (cm_task_supported_types_update g c) = trusted_key c"
  "trusted_key (cm_signaling_state_update h c) = trusted_key c"
  "trusted_key (cm_tasks_update k c) = trusted_key c"
  by (simp_all add: trusted_key_def)

text \<open>The keys a responder has in each state of its handshake.\<close>

fun keys_match ::
  "responder_handshake_state \<Rightarrow> public_key option \<Rightarrow> public_key option \<Rightarrow> public_key option \<Rightarrow> bool" where
  "keys_match ResponderNew trusted permanent session \<longleftrightarrow>
     trusted = None \<and> permanent = None \<and> session = None"
| "keys_match ResponderTokenReceived trusted permanent session \<longleftrightarrow>
     (trusted \<noteq> None \<longrightarrow> permanent = trusted) \<and> permanent \<noteq> None \<and> session = None"
| "keys_match _ trusted permanent session \<longleftrightarrow>
     (trusted \<noteq> None \<longrightarrow> permanent = trusted) \<and> permanent \<noteq> None \<and> session \<noteq> None \<and> session \<noteq> permanent"

definition responder_keys_ok :: "public_key option \<Rightarrow> responder_context \<Rightarrow> bool" where
  "responder_keys_ok trusted r \<longleftrightarrow>
     keys_match (rc_handshake_state r) trusted (rc_permanent_key r) (rc_session_key r)"

definition listed_ok :: "public_key option \<Rightarrow> u32 \<Rightarrow> address \<Rightarrow> responder_context \<Rightarrow> bool" where
  "listed_ok trusted counter a r \<longleftrightarrow>
     is_responder a \<and> rc_address r = a \<and> rc_counter r < counter \<and>
     rc_handshake_state r \<noteq> ResponderAuthReceived \<and> rc_handshake_state r \<noteq> ResponderAuthSent \<and>
     responder_keys_ok trusted r"

definition chosen_ok :: "'t common \<Rightarrow> responder_context \<Rightarrow> bool" where
  "chosen_ok c r \<longleftrightarrow>
     is_responder (rc_address r) \<and> rc_handshake_state r = ResponderAuthSent \<and>
     responder_keys_ok (trusted_key c) r \<and> cookie_theirs (rc_cookie_pair r) \<noteq> None \<and>
     cm_task c \<noteq> None \<and> cm_task_supported_types c \<noteq> None"

definition serials_distinct :: "(address, responder_context) hashmap \<Rightarrow> bool" where
  "serials_distinct m \<longleftrightarrow>
     (\<forall>a b r q. hm_get m a = Some r \<longrightarrow> hm_get m b = Some q \<longrightarrow> rc_counter r = rc_counter q \<longrightarrow> a = b)"

definition responders_ok ::
  "public_key option \<Rightarrow> u32 \<Rightarrow> (address, responder_context) hashmap \<Rightarrow> bool" where
  "responders_ok trusted counter m \<longleftrightarrow>
     hm_wf m \<and> (\<forall>a r. hm_get m a = Some r \<longrightarrow> listed_ok trusted counter a r) \<and> serials_distinct m \<and>
     (trusted = None \<longrightarrow> hm_len m \<le> 252)"

definition choice_ok :: "'t common \<Rightarrow> responder_context option \<Rightarrow> bool" where
  "choice_ok c chosen \<longleftrightarrow>
     (case chosen of
        None \<Rightarrow> cm_signaling_state c \<noteq> TaskState
      | Some r \<Rightarrow> cm_signaling_state c = TaskState \<and> chosen_ok c r)"

definition initiator_inv :: "'t initiator_signaling \<Rightarrow> bool" where
  "initiator_inv s \<longleftrightarrow>
     responders_ok (trusted_key (isg_common s)) (isg_responder_counter s) (isg_responders s) \<and>
     choice_ok (isg_common s) (isg_responder s)"

section \<open>Changes of the list\<close>

lemma hm_len_remove_le: "hm_len (hm_remove a m) \<le> hm_len m"
  by (simp add: hm_len_def hm_remove_def AList.delete_eq)

lemma responders_ok_remove: "responders_ok t n m \<Longrightarrow> responders_ok t n (hm_remove a m)"
  using hm_len_remove_le [of a m]
  by (auto simp: responders_ok_def serials_distinct_def hm.wf_remove)

lemma responders_ok_empty: "responders_ok t n hm_empty"
  by (simp add: responders_ok_def serials_distinct_def hm.wf_empty) (simp add: hm_len_def hm_empty_def)

lemma responders_ok_update:
  assumes "responders_ok t n m" "hm_get m a = Some r" "listed_ok t n a r'" "rc_counter r' = rc_counter r"
  shows "responders_ok t n (hm_insert a r' m)"
  using assms hm.len_insert_old [of m a r r']
  by (auto simp: responders_ok_def hm.wf_insert serials_distinct_def split: if_splits)

text \<open>
  A new responder has the serial number that the counter had, above all earlier ones. The bound
  on the length may be exceeded by one until path cleaning has run.
\<close>

lemma responders_ok_insert_new:
  assumes ok: "responders_ok t n m" and a: "hm_get m a = None" and n: "checked_add n 1 = Some n'"
    and r: "listed_ok t n' a r" "rc_counter r = n"
  shows "hm_wf (hm_insert a r m)" "\<And>b q. hm_get (hm_insert a r m) b = Some q \<Longrightarrow> listed_ok t n' b q"
    "serials_distinct (hm_insert a r m)" "hm_len (hm_insert a r m) = Suc (hm_len m)"
proof -
  have less: "n < n'" using checked_add_SomeD [OF n] by (simp add: word_less_nat_alt)
  show "hm_wf (hm_insert a r m)" "hm_len (hm_insert a r m) = Suc (hm_len m)"
    using ok a by (simp_all add: responders_ok_def hm.wf_insert hm.len_insert_new)
  have old: "listed_ok t n' b q \<and> rc_counter q \<noteq> n" if "hm_get m b = Some q" for b q
  proof -
    have "listed_ok t n b q" using ok that by (simp add: responders_ok_def)
    then show ?thesis using less unfolding listed_ok_def by (auto intro: less_trans)
  qed
  show "listed_ok t n' b q" if "hm_get (hm_insert a r m) b = Some q" for b q
    using that old r by (auto split: if_splits)
  show "serials_distinct (hm_insert a r m)"
    using ok old r(2) by (auto simp: serials_distinct_def responders_ok_def) metis+
qed

section \<open>What the invariant reads of \<open>Common\<close>\<close>

definition view :: "'t common \<Rightarrow> public_key option \<times> signaling_state \<times> bool \<times> bool" where
  "view c = (trusted_key c, cm_signaling_state c, cm_task c \<noteq> None, cm_task_supported_types c \<noteq> None)"

interpretation view_frame: common_frame "\<lambda>c. view c = v" for v
  by unfold_locales (auto simp: view_def trusted_key_def auth_token_of_def
      split: option.splits auth_provider.splits)

lemma initiator_inv_view:
  assumes "initiator_inv s" "view c = view (isg_common s)"
  shows "initiator_inv (s\<lparr>isg_common := c\<rparr>)"
  using assms by (auto simp: initiator_inv_def view_def choice_ok_def chosen_ok_def split: option.splits)

lemma inv_on_common:
  assumes "\<And>v. preserves (\<lambda>c. view c = v) m"
  shows "preserves initiator_inv (on_common m)"
proof (rule preservesI)
  fix s :: "'a initiator_signaling" assume inv: "initiator_inv s"
  have "view (snd (m (isg_common s))) = view (isg_common s)"
    using assms [of "view (isg_common s)"] by (simp add: preserves_def)
  with inv show "initiator_inv (snd (on_common m s))"
    by (simp add: on_common_def zoomS_def case_prod_beta initiator_inv_view)
qed

lemma inv_responders:
  assumes "\<And>t n m. responders_ok t n m \<Longrightarrow> responders_ok t n (f m)"
  shows "preserves initiator_inv (modifyS (isg_responders_update f))"
  using assms by (auto simp: preserves_def modifyS_def initiator_inv_def)

lemma inv_at_responder:
  assumes "\<And>t n r. listed_ok t n a r \<Longrightarrow>
      listed_ok t n a (snd (m r)) \<and> rc_counter (snd (m r)) = rc_counter r"
  shows "preserves initiator_inv (at_responder a m)"
proof (rule preservesI)
  fix s assume inv: "initiator_inv s"
  show "initiator_inv (snd (at_responder a m s))"
  proof (cases "hm_get (isg_responders s) a")
    case (Some r)
    let ?t = "trusted_key (isg_common s)" and ?n = "isg_responder_counter s"
    have ok: "responders_ok ?t ?n (isg_responders s)" using inv by (simp add: initiator_inv_def)
    with Some have "listed_ok ?t ?n a r" by (simp add: responders_ok_def)
    from assms [OF this] have "responders_ok ?t ?n (hm_insert a (snd (m r)) (isg_responders s))"
      using responders_ok_update [OF ok Some] by blast
    with inv Some show ?thesis
      by (simp add: at_responder_def case_prod_beta initiator_inv_def)
  qed (use inv in \<open>simp add: at_responder_def\<close>)
qed

section \<open>Every handler preserves the invariant\<close>

lemmas inv_basic = pres_rules inv_on_common view_frame.keeps_with_entropy
  view_frame.keeps_send_drop_responder

lemma inv_drop_oldest: "preserves initiator_inv (drop_oldest_inactive_responder E)"
  unfolding drop_oldest_inactive_responder_def
  by (intro inv_basic inv_responders responders_ok_remove)
    (simp_all add: initiator_inv_def responders_ok_remove)

lemma inv_initiator_handle_token: "preserves initiator_inv (initiator_handle_token key a)"
proof -
  have "preserves initiator_inv (at_responder a
       (bindS (getS rc_permanent_key) (\<lambda>pk.
        thenS (guardS (pk = None) (SigCrash m_permanent_key_already_set))
        (thenS (modifyS (rc_permanent_key_update (\<lambda>_. Some key)))
        (set_responder_handshake_state ResponderTokenReceived)))))"
    by (rule inv_at_responder)
      (auto simp: proc_defs set_responder_handshake_state_def listed_ok_def responder_keys_ok_def
        elim: keys_match.elims)
  moreover have "preserves initiator_inv (bindS (getS (\<lambda>s. auth_token_of (isg_common s) \<noteq> None)) (\<lambda>is_token.
      thenS (guardS is_token (SigCrash m_provider_not_token))
      (thenS (on_common (modifyS (cm_auth_provider_update (\<lambda>_. None)))) (returnS []))))"
    by (auto simp: preserves_wp wp_simps on_common_def auth_token_of_def view_def trusted_key_def
        split: option.splits auth_provider.splits intro!: initiator_inv_view)
  ultimately show ?thesis unfolding initiator_handle_token_def by (rule preserves_thenS)
qed

lemma listed_ok_csn [simp]: "listed_ok t n a (rc_csn_pair_update f r) = listed_ok t n a r"
  by (simp add: listed_ok_def responder_keys_ok_def)

lemma responder_key_exchange_keeps:
  assumes "listed_ok t n a r"
  shows "listed_ok t n a (snd (responder_key_exchange E i kp key r)) \<and>
    rc_counter (snd (responder_key_exchange E i kp key r)) = rc_counter r"
proof -
  let ?P = "\<lambda>r'. listed_ok t n a r' \<and> rc_counter r' = rc_counter r"
  have "wp (responder_key_exchange E i kp key) (\<lambda>_. ?P) (\<lambda>_. ?P) (\<lambda>_. ?P) r"
    using assms
    unfolding responder_key_exchange_def set_responder_handshake_state_def
    by (auto simp: wp_simps split: option.split outcome.split
        intro!: wpI) (auto simp: listed_ok_def responder_keys_ok_def elim: keys_match.elims)
  then show ?thesis
    by (auto simp: wp_def split: prod.splits outcome.splits)
qed

lemma inv_initiator_handle_key: "preserves initiator_inv (initiator_handle_key E key a)"
  unfolding initiator_handle_key_def
  by (intro inv_basic inv_at_responder responder_key_exchange_keeps)

lemma view_tasks [simp]: "view (c\<lparr>cm_tasks := ts\<rparr>) = view c"
  by (simp add: view_def trusted_key_def)

lemma inv_take_tasks: "preserves initiator_inv (on_common take_tasks)"
  unfolding take_tasks_def by (rule inv_on_common) (intro pres_rules, simp)

lemma inv_drop_other_responders: "preserves initiator_inv (drop_other_responders E)"
  unfolding drop_other_responders_def
  by (intro inv_basic) (simp_all add: initiator_inv_def responders_ok_empty)

lemma initiator_auth_reply_OkD:
  assumes "initiator_auth_reply E i t r = (Ok b, r')"
  shows "rc_address r' = rc_address r" "rc_permanent_key r' = rc_permanent_key r"
    "rc_session_key r' = rc_session_key r" "rc_handshake_state r' = ResponderAuthSent"
    "rc_session_key r \<noteq> None" "cookie_theirs (rc_cookie_pair r') \<noteq> None"
  using assms
  by (auto simp: initiator_auth_reply_def set_responder_handshake_state_def ok_iffs)

lemma responder_keys_ok_chosen:
  assumes "responder_keys_ok t r" "initiator_auth_reply E i ct r = (Ok b, r')"
  shows "responder_keys_ok t r'"
  using assms(1) initiator_auth_reply_OkD [OF assms(2)]
  by (auto simp: responder_keys_ok_def elim!: keys_match.elims)

lemma inv_initiator_finish_auth:
  assumes inv: "initiator_inv s" and keys: "responder_keys_ok (trusted_key (isg_common s)) r"
    and addr: "is_responder (rc_address r)"
  shows "initiator_inv (snd (initiator_finish_auth E r t drops s))"
proof -
  have "wp (initiator_finish_auth E r t drops) (\<lambda>_. initiator_inv) (\<lambda>_. initiator_inv) (\<lambda>_. initiator_inv) s"
    unfolding initiator_finish_auth_def wp_simps
  proof (rule wpI)
    fix b r' assume reply: "initiator_auth_reply E (cm_identity (isg_common s)) t r = (Ok b, r')"
    note D = initiator_auth_reply_OkD [OF reply] responder_keys_ok_chosen [OF keys reply]
    show "wp (case (b, r') of (bbox, responder') \<Rightarrow>
         thenS (on_common (store_task E t))
          (thenS (on_common (set_signaling_state TaskState))
           (thenS (modifyS (isg_responder_update (\<lambda>_. Some responder')))
            (returnS (drops @ [Reply bbox, HandshakeDone])))))
        (\<lambda>_. initiator_inv) (\<lambda>_. initiator_inv) (\<lambda>_. initiator_inv) s"
      using inv D addr
      by (auto simp: wp_simps on_common_def store_task_def initiator_inv_def choice_ok_def
          chosen_ok_def split: option.splits)
  qed (use inv in simp_all)
  then show ?thesis by (auto simp: wp_def split: prod.splits outcome.splits)
qed

lemma trusted_drop_other_responders:
  "preserves (\<lambda>s. trusted_key (isg_common s) = t) (drop_other_responders E)"
proof -
  have "preserves (\<lambda>c. trusted_key c = t) (send_drop_responder E a r)" for a r
    using view_frame.keeps_send_drop_responder [of _ E a r]
    by (auto simp: preserves_def view_def)
  then show ?thesis unfolding drop_other_responders_def
    by (intro pres_rules preserves_on_common preserves_initiator_only) simp_all
qed

lemma inv_no_shared_task: "preserves initiator_inv (no_shared_task E r)"
  unfolding no_shared_task_def by (intro pres_rules)

lemma inv_initiator_handle_auth: "preserves initiator_inv (initiator_handle_auth E msg a)"
proof (rule preservesI)
  fix s :: "'a initiator_signaling" assume inv: "initiator_inv s"
  let ?ok = "\<lambda>r s. initiator_inv s \<and> responder_keys_ok (trusted_key (isg_common s)) r \<and> is_responder (rc_address r)"
  have drop: "preserves (?ok r) (drop_other_responders E)" for r
    using inv_drop_other_responders [of E] trusted_drop_other_responders [of _ E]
    by (auto simp: preserves_def)
  have finish: "wp (initiator_finish_auth E r t d) (\<lambda>_. initiator_inv) (\<lambda>_. initiator_inv) (\<lambda>_. initiator_inv) s"
    if "?ok r s" for r t d and s :: "'a initiator_signaling"
    using that by (intro wp_snd inv_initiator_finish_auth) auto
  show "initiator_inv (snd (initiator_handle_auth E msg a s))"
  proof (cases "hm_get (isg_responders s) a")
    case None
    with inv show ?thesis by (simp add: initiator_handle_auth_def proc_defs)
  next
    case (Some r)
    have "listed_ok (trusted_key (isg_common s)) (isg_responder_counter s) a r"
      using inv Some by (simp add: initiator_inv_def responders_ok_def)
    then have keys: "responder_keys_ok (trusted_key (isg_common s)) r" "is_responder (rc_address r)"
      by (simp_all add: listed_ok_def)
    let ?s1 = "isg_responders_update (hm_remove a) s"
    have inv1: "initiator_inv ?s1"
      using inv by (simp add: initiator_inv_def responders_ok_remove)
    then have inv2: "initiator_inv (?s1\<lparr>isg_common := (isg_common s)\<lparr>cm_tasks := None\<rparr>\<rparr>)"
      by (rule initiator_inv_view) simp
    have "wp (initiator_handle_auth E msg a) (\<lambda>_. initiator_inv) (\<lambda>_. initiator_inv) (\<lambda>_. initiator_inv) s"
      unfolding initiator_handle_auth_def validate_repeated_cookie_def take_tasks_def on_common_def
      using inv1 inv2 keys
      by (auto simp: wp_simps Some split: outcome.split option.split
          intro!: wp_preserves [OF drop] wp_preserves [OF inv_no_shared_task] finish)
    then show ?thesis by (rule wp_sndD)
  qed
qed

section \<open>Responders joining the path\<close>

lemma responder_context_new_OkD:
  assumes "responder_context_new L a n i = (Ok r, j)"
  shows "rc_handshake_state r = ResponderNew" "rc_counter r = n" "rc_address r = a"
    "rc_permanent_key r = None" "rc_session_key r = None"
  using assms by (auto simp: responder_context_new_def ok_iffs)

lemma responder_values_iff:
  assumes "order_laws E"
  shows "r \<in> set (responder_values E m) \<longleftrightarrow> (\<exists>a. hm_get m a = Some r)"
  using order_laws_set [OF assms, of "hm_keys m"] hm_keys_iff [of _ m]
  by (force simp: responder_values_def map_filter_def image_iff)

text \<open>
  Path cleaning. Whenever a responder in state \<open>New\<close> is listed, the one with the lowest
  serial number among them is removed, whether or not the message to the server can be sent.
\<close>

lemma drop_oldest_removes:
  assumes order: "order_laws E"
    and addr: "\<And>a r. hm_get (isg_responders s) a = Some r \<Longrightarrow> rc_address r = a"
    and new: "hm_get (isg_responders s) a = Some r" "rc_handshake_state r = ResponderNew"
  obtains b q where "hm_get (isg_responders s) b = Some q" "rc_handshake_state q = ResponderNew"
    "\<And>c p. hm_get (isg_responders s) c = Some p \<Longrightarrow> rc_handshake_state p = ResponderNew \<Longrightarrow>
       rc_counter q \<le> rc_counter p"
    "isg_responders (snd (drop_oldest_inactive_responder E s)) = hm_remove b (isg_responders s)"
    "drop_oldest_inactive_responder E s =
       bindS (on_common (send_drop_responder E b DroppedByInitiator)) (\<lambda>d. returnS (Some d))
         (isg_responders_update (hm_remove b) s)"
proof -
  let ?m = "isg_responders s"
  let ?new = "filter (\<lambda>r. rc_handshake_state r = ResponderNew) (responder_values E ?m)"
  have "r \<in> set ?new" using new by (auto simp: responder_values_iff [OF order])
  then have "min_by_key rc_counter ?new \<noteq> None" by (auto simp: filter_empty_conv)
  then obtain q where q: "min_by_key rc_counter ?new = Some q" by blast
  from min_by_key_in [OF q] obtain b where b: "hm_get ?m b = Some q" "rc_handshake_state q = ResponderNew"
    by (auto simp: responder_values_iff [OF order])
  have least: "rc_counter q \<le> rc_counter p"
    if "hm_get ?m c = Some p" "rc_handshake_state p = ResponderNew" for c p
    using min_by_key_least [OF q, of p] that by (auto simp: responder_values_iff [OF order])
  have run: "drop_oldest_inactive_responder E s =
      bindS (on_common (send_drop_responder E b DroppedByInitiator)) (\<lambda>d. returnS (Some d))
        (isg_responders_update (hm_remove b) s)"
    using q b(1) addr [OF b(1)]
    by (simp add: drop_oldest_inactive_responder_def proc_defs)
  have "preserves (\<lambda>t. isg_responders t = hm_remove b ?m)
      (bindS (on_common (send_drop_responder E b DroppedByInitiator)) (\<lambda>d. returnS (Some d)))"
    by (intro pres_rules) (auto simp: on_common_def preserves_def zoomS_def case_prod_beta)
  then have "isg_responders (snd (drop_oldest_inactive_responder E s)) = hm_remove b ?m"
    unfolding run by (simp add: preserves_def)
  then show thesis using that b least run by blast
qed

lemma drop_oldest_none:
  assumes order: "order_laws E"
    and "\<And>a r. hm_get (isg_responders s) a = Some r \<Longrightarrow> rc_handshake_state r \<noteq> ResponderNew"
  shows "drop_oldest_inactive_responder E s = (Ok None, s)"
proof -
  have "filter (\<lambda>r. rc_handshake_state r = ResponderNew) (responder_values E (isg_responders s)) = []"
    using assms(2) by (auto simp: filter_empty_conv responder_values_iff [OF order])
  then show ?thesis by (simp add: drop_oldest_inactive_responder_def proc_defs)
qed

lemma wp_responder_counter_increment [wp_simps]:
  "wp responder_counter_increment Q R N v =
     (case checked_add v 1 of Some v' \<Rightarrow> Q v v' | None \<Rightarrow> R (SigCrash m_counter_overflow) v)"
  by (simp add: wp_def responder_counter_increment_def split: option.split)

text \<open>The invariant, but for one responder too many when one of them can be dropped.\<close>

definition one_too_many :: "'t initiator_signaling \<Rightarrow> bool" where
  "one_too_many s \<longleftrightarrow>
     (let m = isg_responders s; t = trusted_key (isg_common s) in
      hm_wf m \<and> (\<forall>a r. hm_get m a = Some r \<longrightarrow> listed_ok t (isg_responder_counter s) a r) \<and>
      serials_distinct m \<and> choice_ok (isg_common s) (isg_responder s) \<and>
      (t = None \<longrightarrow> hm_len m \<le> 253 \<and> (\<exists>a r. hm_get m a = Some r \<and> rc_handshake_state r = ResponderNew)))"

lemma drop_oldest_restores:
  assumes order: "order_laws E" and s: "one_too_many s"
  shows "initiator_inv (snd (drop_oldest_inactive_responder E s))"
proof -
  let ?m = "isg_responders s" and ?t = "trusted_key (isg_common s)"
  from s have wf: "hm_wf ?m" and listed: "\<And>a r. hm_get ?m a = Some r \<Longrightarrow>
      listed_ok ?t (isg_responder_counter s) a r"
    and serials: "serials_distinct ?m" and choice: "choice_ok (isg_common s) (isg_responder s)"
    by (simp_all add: one_too_many_def Let_def)
  show ?thesis
  proof (cases ?t)
    case None
    with s obtain a r where new: "hm_get ?m a = Some r" "rc_handshake_state r = ResponderNew"
      and len: "hm_len ?m \<le> 253" by (auto simp: one_too_many_def Let_def)
    have addr: "\<And>a r. hm_get ?m a = Some r \<Longrightarrow> rc_address r = a"
      using listed by (auto simp: listed_ok_def)
    obtain b q where b: "hm_get ?m b = Some q" and run: "drop_oldest_inactive_responder E s =
       bindS (on_common (send_drop_responder E b DroppedByInitiator)) (\<lambda>d. returnS (Some d))
         (isg_responders_update (hm_remove b) s)"
      by (rule drop_oldest_removes [OF order _ new]) (rule addr, assumption, rule that, assumption+)
    have "hm_len (hm_remove b ?m) \<le> 252" using hm.len_remove_present [OF wf b] len by simp
    then have "initiator_inv (isg_responders_update (hm_remove b) s)"
      using wf listed serials choice
      by (auto simp: initiator_inv_def responders_ok_def serials_distinct_def hm.wf_remove)
    moreover have "preserves initiator_inv
        (bindS (on_common (send_drop_responder E b DroppedByInitiator)) (\<lambda>d. returnS (Some d)))"
      by (intro inv_basic)
    ultimately show ?thesis unfolding run by (simp add: preserves_def)
  next
    case (Some k)
    have "rc_handshake_state r \<noteq> ResponderNew" if "hm_get ?m a = Some r" for a r
      using listed [OF that] Some by (auto simp: listed_ok_def responder_keys_ok_def)
    from drop_oldest_none [OF order this] Some wf listed serials choice show ?thesis
      by (simp add: initiator_inv_def responders_ok_def)
  qed
qed

lemma responders_ok_mono: "responders_ok t n m \<Longrightarrow> n \<le> n' \<Longrightarrow> responders_ok t n' m"
  unfolding responders_ok_def listed_ok_def by (meson order_less_le_trans)

text \<open>The context of a new responder before and after the trusted key is copied into it.\<close>

lemma new_responder_listed:
  assumes r: "responder_context_new E a n i = (Ok r, j)" and a: "is_responder a" and n: "n < n'"
  shows "trusted_key c = None \<Longrightarrow> listed_ok (trusted_key c) n' a r"
    "trusted_key c = Some key \<Longrightarrow> listed_ok (trusted_key c) n' a
       (r\<lparr>rc_permanent_key := Some key, rc_handshake_state := ResponderTokenReceived\<rparr>)"
  using responder_context_new_OkD [OF r] a n by (simp_all add: listed_ok_def responder_keys_ok_def)

lemma insert_new_one_too_many:
  assumes ok: "responders_ok (trusted_key c) n m" and a: "hm_get m a = None"
    and n: "checked_add n 1 = Some n'" and r: "listed_ok (trusted_key c) n' a r" "rc_counter r = n"
    and new: "trusted_key c = None \<Longrightarrow> rc_handshake_state r = ResponderNew"
    and choice: "choice_ok c p"
  shows "one_too_many \<lparr>isg_common = c, isg_responders = hm_insert a r m, isg_responder = p,
      isg_responder_counter = n'\<rparr>"
  using responders_ok_insert_new [OF ok a n r] ok new choice
  by (auto simp: one_too_many_def responders_ok_def)

lemma one_too_many_inv:
  "one_too_many s \<Longrightarrow> hm_len (isg_responders s) \<le> 252 \<Longrightarrow> initiator_inv s"
  by (simp add: one_too_many_def initiator_inv_def responders_ok_def Let_def)

definition list_new_responder ::
  "('t, 'v, 'z) env_scheme \<Rightarrow> address \<Rightarrow> responder_context \<Rightarrow>
   ('t initiator_signaling, signaling_error, 'v handle_action option) proc" where
  "list_new_responder E a r =
     thenS (modifyS (isg_responders_update (hm_insert a r)))
      (bindS (getS (\<lambda>s. hm_len (isg_responders s))) (\<lambda>len.
         if len > 254 - 2 then drop_oldest_inactive_responder E else returnS None))"

lemma inv_list_new_responder:
  assumes "order_laws E" "one_too_many (isg_responders_update (hm_insert a r) s)"
  shows "initiator_inv (snd (list_new_responder E a r s))"
  using drop_oldest_restores [OF assms] one_too_many_inv [OF assms(2)]
  by (simp add: list_new_responder_def proc_defs not_less)

lemma inv_process_new_responder:
  assumes order: "order_laws E" and addr: "is_responder a"
  shows "preserves initiator_inv (process_new_responder E a)"
proof (rule preservesI, rule wp_sndD)
  fix s :: "'a initiator_signaling" assume inv: "initiator_inv s"
  let ?c = "isg_common s" and ?n = "isg_responder_counter s"
  let ?m = "hm_remove a (isg_responders s)"
  have ok: "responders_ok (trusted_key ?c) ?n ?m" and choice: "choice_ok ?c (isg_responder s)"
    using inv by (simp_all add: initiator_inv_def responders_ok_remove)
  show "wp (process_new_responder E a) (\<lambda>_. initiator_inv) (\<lambda>_. initiator_inv) (\<lambda>_. initiator_inv) s"
  proof (cases "checked_add ?n 1")
    case None
    then show ?thesis using inv ok unfolding process_new_responder_def
      by (simp add: wp_simps initiator_inv_def)
  next
    case (Some n')
    then have less: "?n < n'" using checked_add_SomeD [OF Some] by (simp add: word_less_nat_alt)
    note ok' = responders_ok_mono [OF ok order.strict_implies_order [OF less]]
    let ?s = "\<lambda>i. (isg_responders_update (hm_remove a) s)\<lparr>isg_responder_counter := n', isg_common := ?c\<lparr>cm_entropy := i\<rparr>\<rparr>"
    have view: "trusted_key (?c\<lparr>cm_entropy := i\<rparr>) = trusted_key ?c"
        "choice_ok (?c\<lparr>cm_entropy := i\<rparr>) p = choice_ok ?c p" for i p
      by (simp_all add: trusted_key_def choice_ok_def chosen_ok_def cong: option.case_cong)
    have base: "initiator_inv (?s i)" for i using ok' choice by (simp add: initiator_inv_def view)
    have add: "wp (list_new_responder E a r) (\<lambda>_. initiator_inv) (\<lambda>_. initiator_inv) (\<lambda>_. initiator_inv) (?s i)"
      if "listed_ok (trusted_key ?c) n' a r" "rc_counter r = ?n"
        "trusted_key ?c = None \<Longrightarrow> rc_handshake_state r = ResponderNew" for r i
    proof -
      have "one_too_many \<lparr>isg_common = ?c\<lparr>cm_entropy := i\<rparr>, isg_responders = hm_insert a r ?m,
          isg_responder = isg_responder s, isg_responder_counter = n'\<rparr>"
        using that ok choice Some by (intro insert_new_one_too_many [where n = ?n]) (simp_all add: view)
      then have "one_too_many (isg_responders_update (hm_insert a r) (?s i))" by (cases s) simp
      from inv_list_new_responder [OF order this] show ?thesis by (rule wp_snd)
    qed
    have new: "wp (case cm_auth_provider ?c of
               Some (AuthProviderTrustedKey key) \<Rightarrow>
                 (if rc_permanent_key r \<noteq> None then failS (SigCrash m_permanent_key_already_set)
                  else returnS (r\<lparr>rc_permanent_key := Some key,
                                   rc_handshake_state := ResponderTokenReceived\<rparr>))
             | _ \<Rightarrow> returnS r)
        (\<lambda>r'. wp (list_new_responder E a r') (\<lambda>_. initiator_inv) (\<lambda>_. initiator_inv) (\<lambda>_. initiator_inv))
        (\<lambda>_. initiator_inv) (\<lambda>_. initiator_inv) (?s j)"
      if r: "responder_context_new E a ?n i = (Ok r, j)" for r i j
      using new_responder_listed [OF r addr less, of ?c] responder_context_new_OkD(1,2,4) [OF r]
      by (auto intro!: add simp: wp_simps trusted_key_def split: option.split auth_provider.split)
    show ?thesis unfolding process_new_responder_def list_new_responder_def [symmetric]
      by (simp add: wp_simps Some on_common_def with_entropy_def) (rule wpI; simp add: new base)
  qed
qed

section \<open>Messages of the server and of the responders\<close>

lemma preserves_guarded:
  assumes "b \<Longrightarrow> preserves I m"
  shows "preserves I (thenS (guardS b e) m)"
  using assms by (cases b) (auto simp: preserves_def guardS_def thenS_def bindS_def)

lemma preserves_mapS_elems:
  assumes "\<And>x. x \<in> set xs \<Longrightarrow> preserves I (f x)"
  shows "preserves I (mapS f xs)"
  using assms by (induction xs) (auto intro!: pres_rules)

lemma inv_initiator_server_auth_impl:
  assumes order: "order_laws E"
  shows "preserves initiator_inv (initiator_handle_server_auth_impl E msg)"
  unfolding initiator_handle_server_auth_impl_def Let_def
proof (intro preserves_guarded preserves_bindS preserves_mapS_elems inv_process_new_responder [OF order])
  fix rs a
  assume "\<not> (List.member (remdups rs) 0 \<or> List.member (remdups rs) 1)"
    and "a \<in> set (address_order E (remdups rs))"
  then have "a \<noteq> 0" "a \<noteq> 1" by (auto simp: order_laws_set [OF order])
  then show "is_responder a" by (simp add: is_responder_iff)
qed (intro pres_rules)+

lemma inv_initiator_new_responder:
  assumes "order_laws E"
  shows "preserves initiator_inv (initiator_handle_new_responder E i)"
  unfolding initiator_handle_new_responder_def
  by (intro preserves_guarded inv_basic inv_process_new_responder [OF assms])

lemma inv_initiator_handle_peer_message:
  "preserves initiator_inv (initiator_handle_peer_message E obox)"
  unfolding initiator_handle_peer_message_def Let_def
  by (intro preserves_bindS preserves_pure, rename_tac f r,
      case_tac "rc_handshake_state r"; cases "ob_message obox")
    (simp_all add: inv_initiator_handle_token inv_initiator_handle_key
      inv_initiator_handle_auth preserves_pure)

end
