(* ===== verification/Responder_Laws.thy ===== *)
theory Responder_Laws
  imports Signaling_Laws
begin

text \<open>
  The invariant of the responder: the permanent key of the initiator never changes; a session
  key is present exactly from the \<open>key\<close> message of the initiator on and differs from the
  permanent key; no peer handshake starts before the server handshake is done; and in the task
  state a task and its message types are set. Every handler preserves it.
\<close>

section \<open>The invariant\<close>

fun initiator_keys_match ::
  "initiator_handshake_state \<Rightarrow> public_key \<Rightarrow> public_key option \<Rightarrow> bool" where
  "initiator_keys_match InitiatorNew permanent session \<longleftrightarrow> session = None"
| "initiator_keys_match InitiatorKeySent permanent session \<longleftrightarrow> session = None"
| "initiator_keys_match _ permanent session \<longleftrightarrow> session \<noteq> None \<and> session \<noteq> Some permanent"

definition responder_inv :: "public_key \<Rightarrow> 't responder_signaling \<Rightarrow> bool" where
  "responder_inv key s \<longleftrightarrow>
     (let c = rsg_common s; i = rsg_initiator s in
      ic_permanent_key i = key \<and>
      initiator_keys_match (ic_handshake_state i) key (ic_session_key i) \<and>
      (sc_handshake_state (cm_server c) \<noteq> ServerDone \<longrightarrow> ic_session_key i = None) \<and>
      (ic_handshake_state i = InitiatorAuthReceived \<longrightarrow> cm_signaling_state c = TaskState) \<and>
      (cm_signaling_state c = TaskState \<longrightarrow>
         cm_task c \<noteq> None \<and> cm_task_supported_types c \<noteq> None \<and> cm_tasks c = None))"

section \<open>What the invariant reads\<close>

definition responder_view :: "'t common \<Rightarrow> server_handshake_state \<times> signaling_state \<times> bool \<times> bool \<times> bool" where
  "responder_view c = (sc_handshake_state (cm_server c), cm_signaling_state c, cm_task c \<noteq> None,
     cm_task_supported_types c \<noteq> None, cm_tasks c = None)"

definition responder_core ::
  "'t responder_signaling \<Rightarrow>
   (server_handshake_state \<times> signaling_state \<times> bool \<times> bool \<times> bool) \<times>
   initiator_handshake_state \<times> public_key \<times> public_key option" where
  "responder_core s = (responder_view (rsg_common s), ic_handshake_state (rsg_initiator s),
     ic_permanent_key (rsg_initiator s), ic_session_key (rsg_initiator s))"

interpretation responder_view_frame: common_frame "\<lambda>c. responder_view c = v" for v
  by unfold_locales (auto simp: responder_view_def)

lemma responder_inv_core:
  "responder_core s = responder_core t \<Longrightarrow> responder_inv key s = responder_inv key t"
  by (auto simp: responder_core_def responder_view_def responder_inv_def Let_def)

lemma core_on_common:
  assumes "\<And>w. preserves (\<lambda>c. responder_view c = w) m"
  shows "preserves (\<lambda>s. responder_core s = v) (on_responder_common m)"
proof (rule preservesI)
  fix s :: "'a responder_signaling" assume v: "responder_core s = v"
  have "responder_view (snd (m (rsg_common s))) = responder_view (rsg_common s)"
    using assms [of "responder_view (rsg_common s)"] by (simp add: preserves_def)
  with v show "responder_core (snd (on_responder_common m s)) = v"
    by (simp add: on_responder_common_def zoomS_def case_prod_beta responder_core_def)
qed

lemma core_initiator_nonce: "preserves (\<lambda>s. responder_core s = v) initiator_nonce"
  by (auto simp: preserves_def initiator_nonce_def zoomS_def responder_core_def split: prod.splits)

lemmas core_basic = pres_rules core_on_common core_initiator_nonce
  responder_view_frame.keeps_with_entropy

lemma core_send_token: "preserves (\<lambda>s. responder_core s = v) (send_token E t)"
  unfolding send_token_def by (intro core_basic)

lemma core_send_key: "preserves (\<lambda>s. responder_core s = v) (send_key E)"
  unfolding send_key_def by (intro core_basic)

lemma core_send_token_and_key: "preserves (\<lambda>s. responder_core s = v) (send_token_and_key E)"
  unfolding send_token_and_key_def
  by (intro core_basic core_send_key)
    (auto split: option.split auth_provider.split intro!: core_basic core_send_token
      simp: responder_view_def)

section \<open>Every handler preserves the invariant\<close>

lemma core_inv: "(\<And>v. preserves (\<lambda>s. responder_core s = v) m) \<Longrightarrow> preserves (responder_inv key) m"
  unfolding preserves_def by (metis responder_inv_core)

text \<open>Sending our key again is a new start of the peer handshake, from any state without a session key.\<close>

lemma inv_key_sent:
  assumes "responder_inv key s" "ic_session_key (rsg_initiator s) = None"
  shows "responder_inv key (rsg_initiator_update (ic_handshake_state_update (\<lambda>_. InitiatorKeySent)) s)"
  using assms by (simp add: responder_inv_def Let_def)

lemma inv_send_and_key_sent:
  assumes "responder_inv key s" "ic_session_key (rsg_initiator s) = None"
  shows "wp (send_token_and_key E)
      (\<lambda>_ s. responder_inv key s \<and> ic_session_key (rsg_initiator s) = None)
      (\<lambda>_. responder_inv key) (\<lambda>_. responder_inv key) s"
  using assms responder_inv_core [of _ s key]
  by (intro wp_preserves [OF core_send_token_and_key [of "responder_core s"]])
    (auto simp: responder_core_def)

lemma inv_responder_server_auth_impl:
  assumes inv: "responder_inv key s" and st: "sc_handshake_state (cm_server (rsg_common s)) \<noteq> ServerDone"
  shows "responder_inv key (snd (responder_handle_server_auth_impl E msg s))"
proof (rule wp_sndD)
  have none: "ic_session_key (rsg_initiator s) = None" using inv st by (simp add: responder_inv_def Let_def)
  show "wp (responder_handle_server_auth_impl E msg) (\<lambda>_. responder_inv key) (\<lambda>_. responder_inv key)
      (\<lambda>_. responder_inv key) s"
    unfolding responder_handle_server_auth_impl_def set_initiator_handshake_state_def
    using inv by (auto simp: wp_simps inv_key_sent split: option.split bool.split
        intro!: wp_mono [OF inv_send_and_key_sent [OF inv none]])
qed

lemma initiator_context_new_OkD:
  assumes "initiator_context_new L key i = (Ok c, j)"
  shows "ic_handshake_state c = InitiatorNew" "ic_permanent_key c = key" "ic_session_key c = None"
  using assms by (auto simp: initiator_context_new_def ok_iffs)

lemma inv_responder_new_initiator: "preserves (responder_inv key) (responder_handle_new_initiator E)"
proof (rule preservesI, rule wp_sndD)
  fix s :: "'a responder_signaling" assume inv: "responder_inv key s"
  then have key: "ic_permanent_key (rsg_initiator s) = key" by (simp add: responder_inv_def Let_def)
  have new: "responder_inv key (s\<lparr>rsg_common := (rsg_common s)\<lparr>cm_entropy := j\<rparr>, rsg_initiator := i\<rparr>)"
    if "initiator_context_new E key k = (Ok i, j)" for i j k
    using initiator_context_new_OkD [OF that] inv by (simp add: responder_inv_def Let_def)
  have base: "responder_inv key (s\<lparr>rsg_common := (rsg_common s)\<lparr>cm_entropy := j\<rparr>\<rparr>)" for j
    using inv by (simp add: responder_inv_def Let_def)
  have send: "wp (send_token_and_key E)
        (\<lambda>x. wp (thenS (modifyS (rsg_initiator_update (ic_handshake_state_update (\<lambda>_. InitiatorKeySent))))
           (returnS x)) (\<lambda>_. responder_inv key) (\<lambda>_. responder_inv key) (\<lambda>_. responder_inv key))
        (\<lambda>_. responder_inv key) (\<lambda>_. responder_inv key) t"
    if "responder_inv key t" "ic_session_key (rsg_initiator t) = None" for t
    by (rule wp_mono [OF inv_send_and_key_sent [OF that]]) (auto simp: inv_key_sent wp_simps)
  show "wp (responder_handle_new_initiator E) (\<lambda>_. responder_inv key) (\<lambda>_. responder_inv key)
      (\<lambda>_. responder_inv key) s"
    unfolding responder_handle_new_initiator_def set_initiator_handshake_state_def
      on_responder_common_def with_entropy_def
    by (simp add: wp_simps key)
      (rule wpI; auto simp: base intro!: send new dest: initiator_context_new_OkD)
qed

text \<open>From the \<open>key\<close> message of the initiator on, up to our \<open>auth\<close>.\<close>

lemma inv_key_received:
  assumes "responder_inv key s" "k \<noteq> ic_permanent_key (rsg_initiator s)"
    "sc_handshake_state (cm_server (rsg_common s)) = ServerDone" "st \<in> {InitiatorKeyReceived, InitiatorAuthSent}"
    and core: "responder_core t = responder_core (rsg_initiator_update (ic_handshake_state_update
      (\<lambda>_. InitiatorKeyReceived) \<circ> ic_session_key_update (\<lambda>_. Some k)) s)"
  shows "responder_inv key t"
    "responder_inv key (rsg_initiator_update (ic_handshake_state_update (\<lambda>_. InitiatorAuthSent)) t)"
  using assms by (auto simp: responder_inv_def responder_core_def responder_view_def Let_def)

lemma inv_responder_handle_key:
  assumes inv: "responder_inv key s" and srv: "sc_handshake_state (cm_server (rsg_common s)) = ServerDone"
  shows "responder_inv key (snd (responder_handle_key E k n s))"
proof (rule wp_sndD)
  let ?s = "rsg_initiator_update (ic_handshake_state_update (\<lambda>_. InitiatorKeyReceived) \<circ>
      ic_session_key_update (\<lambda>_. Some k)) s"
  note received = inv_key_received [OF inv _ srv, of k InitiatorAuthSent]
  show "wp (responder_handle_key E k n) (\<lambda>_. responder_inv key) (\<lambda>_. responder_inv key)
      (\<lambda>_. responder_inv key) s"
    unfolding responder_handle_key_def set_initiator_handshake_state_def
    using inv received(1) [of ?s]
    by (auto simp: wp_simps received split: option.split outcome.split
        intro!: wp_preserves [OF core_initiator_nonce [of "responder_core ?s"]])
qed

lemma inv_responder_handle_auth:
  assumes inv: "responder_inv key s" and st: "cm_signaling_state (rsg_common s) = PeerHandshake"
    "ic_handshake_state (rsg_initiator s) = InitiatorAuthSent"
  shows "responder_inv key (snd (responder_handle_auth E msg a s))"
proof (rule wp_sndD)
  show "wp (responder_handle_auth E msg a) (\<lambda>_. responder_inv key) (\<lambda>_. responder_inv key)
      (\<lambda>_. responder_inv key) s"
    unfolding responder_handle_auth_def set_initiator_handshake_state_def take_tasks_def
      validate_repeated_cookie_def on_responder_common_def store_task_def
    using inv st
    by (auto simp: wp_simps split: option.split outcome.split)
      (auto simp: responder_inv_def Let_def)
qed

lemma inv_responder_handle_peer_message:
  assumes inv: "responder_inv key s" and srv: "sc_handshake_state (cm_server (rsg_common s)) = ServerDone"
    and st: "cm_signaling_state (rsg_common s) = PeerHandshake"
  shows "responder_inv key (snd (responder_handle_peer_message E obox s))"
  using inv inv_responder_handle_key [OF inv srv] inv_responder_handle_auth [OF inv st]
  unfolding responder_handle_peer_message_def bindS_def getS_def
  by (cases "ic_handshake_state (rsg_initiator s)"; cases "ob_message obox")
    (simp_all add: failS_def responder_handle_peer_handshake_close_def split: close_code.split)

end
