(* ===== verification/Signaling_Inv.thy ===== *)
theory Signaling_Inv
  imports Initiator_Laws Responder_Laws
begin

text \<open>
  The invariant of a session of either role: it holds after the constructors and through every
  call of the public methods, whatever bytes arrive and whether the call returns a value, an
  error or a panic.
\<close>

section \<open>The invariant\<close>

primrec role_inv :: "public_key \<Rightarrow> 't signaling \<Rightarrow> bool" where
  "role_inv key (SignalingInitiator i) = initiator_inv i"
| "role_inv key (SignalingResponder p) = responder_inv key p"

primrec role_of :: "'t signaling \<Rightarrow> role" where
  "role_of (SignalingInitiator i) = RoleInitiator"
| "role_of (SignalingResponder p) = RoleResponder"

definition sig_inv :: "public_key \<Rightarrow> 't signaling \<Rightarrow> bool" where
  "sig_inv key s \<longleftrightarrow> phase_ok (sig_common s) \<and> cm_role (sig_common s) = role_of s \<and> role_inv key s"

interpretation role_const: common_invariant "\<lambda>c. cm_role c = r" for r
  by unfold_locales simp_all

lemma initiator_new_OkD:
  assumes "initiator_new L kp tasks trusted srv ping i = (Ok s, j)"
  shows "isg_responders s = hm_empty" "isg_responder s = None" "isg_responder_counter s = 0"
    "cm_signaling_state (isg_common s) = ServerHandshake" "cm_role (isg_common s) = RoleInitiator"
    "cm_identity (isg_common s) = ClientUnknown" "cm_permanent_keypair (isg_common s) = kp"
    "sc_handshake_state (cm_server (isg_common s)) = ServerNew"
    "sc_permanent_key (cm_server (isg_common s)) = srv" "cm_task (isg_common s) = None"
    "trusted_key (isg_common s) = trusted"
  using assms
  by (auto simp: initiator_new_def ok_iffs server_context_new_def trusted_key_def split: option.splits)

lemma initiator_new_inv:
  assumes "initiator_new L kp tasks trusted srv ping i = (Ok s, j)"
  shows "sig_inv key (SignalingInitiator s)"
  using initiator_new_OkD [OF assms]
  by (simp add: sig_inv_def phase_ok_def initiator_inv_def responders_ok_empty choice_ok_def)

lemma responder_new_OkD:
  assumes "responder_new L kp key token srv tasks ping i = (Ok s, j)"
  shows "cm_signaling_state (rsg_common s) = ServerHandshake" "cm_role (rsg_common s) = RoleResponder"
    "cm_identity (rsg_common s) = ClientUnknown" "cm_permanent_keypair (rsg_common s) = kp"
    "sc_handshake_state (cm_server (rsg_common s)) = ServerNew"
    "sc_permanent_key (cm_server (rsg_common s)) = srv" "cm_task (rsg_common s) = None"
    "ic_handshake_state (rsg_initiator s) = InitiatorNew" "ic_permanent_key (rsg_initiator s) = key"
    "ic_session_key (rsg_initiator s) = None"
  using assms
  by (auto simp: responder_new_def ok_iffs server_context_new_def initiator_context_new_def)

lemma responder_new_inv:
  assumes "responder_new L kp key token srv tasks ping i = (Ok s, j)"
  shows "sig_inv key (SignalingResponder s)"
  using responder_new_OkD [OF assms] by (simp add: sig_inv_def phase_ok_def responder_inv_def Let_def)

section \<open>Changes of sequence numbers and cookies\<close>

text \<open>A context whose sequence numbers and cookies changed, without forgetting a cookie.\<close>

definition renumbered :: "peer_context \<Rightarrow> peer_context \<Rightarrow> bool" where
  "renumbered p p' \<longleftrightarrow> (\<exists>csn cookies.
     p' = peer_csn_pair_update (\<lambda>_. csn) (peer_cookie_pair_update (\<lambda>_. cookies) p) \<and>
     (cookie_theirs (peer_cookie_pair p) \<noteq> None \<longrightarrow> cookie_theirs cookies \<noteq> None))"

lemma renumbered_csn: "renumbered p (peer_csn_pair_update (\<lambda>_. csn) p)"
  unfolding renumbered_def
  by (rule exI [of _ csn], rule exI [of _ "peer_cookie_pair p"]) (cases p; simp)

lemma renumbered_cookie:
  "(cookie_theirs (peer_cookie_pair p) \<noteq> None \<longrightarrow> cookie_theirs cookies \<noteq> None) \<Longrightarrow>
     renumbered p (peer_cookie_pair_update (\<lambda>_. cookies) p)"
  unfolding renumbered_def
  by (rule exI [of _ "peer_csn_pair p"], rule exI [of _ cookies]) (cases p; simp)

lemma listed_ok_cookie [simp]: "listed_ok t n a (rc_cookie_pair_update g r) = listed_ok t n a r"
  by (simp add: listed_ok_def responder_keys_ok_def)

lemma inv_put_initiator:
  assumes inv: "initiator_inv s" and at: "initiator_peer_at s a = Some p" and p': "renumbered p p'"
  shows "initiator_inv (initiator_put_peer a p' s)"
  using at
proof (cases rule: initiator_peer_at_cases)
  case server
  then obtain c where "p' = PeerServer c" using p' by (auto simp: renumbered_def)
  with inv show ?thesis
    by (auto simp: view_def trusted_key_def intro!: initiator_inv_view)
next
  case (task r)
  with p' inv show ?thesis
    by (auto simp: renumbered_def initiator_inv_def choice_ok_def chosen_ok_def responder_keys_ok_def)
next
  case (listed r)
  with p' obtain f g where r': "p' = PeerResponder (rc_csn_pair_update f (rc_cookie_pair_update g r))"
    by (auto simp: renumbered_def)
  from inv listed have "listed_ok (trusted_key (isg_common s)) (isg_responder_counter s) a r"
    by (simp add: initiator_inv_def responders_ok_def)
  with inv listed r' show ?thesis
    by (auto simp: initiator_inv_def intro!: responders_ok_update)
qed

lemma inv_put_responder:
  assumes inv: "responder_inv key s" and at: "responder_peer_at s a = Some p" and p': "renumbered p p'"
  shows "responder_inv key (responder_put_peer a p' s)"
  using assms
  by (cases a rule: address_cases) (auto simp: responder_peer_at_simps renumbered_def responder_inv_def Let_def)

lemma role_inv_put:
  assumes "role_inv key s" "peer_at s a = Some p" "renumbered p p'"
  shows "role_inv key (put_peer_with_address a p' s)"
  using assms inv_put_initiator inv_put_responder by (cases s) (auto simp: peer_at_def)

lemma role_inv_put_chosen:
  assumes "role_inv key s" "get_peer s = Some p" "renumbered p p'"
  shows "role_inv key (put_peer p' s)"
  using assms
  by (cases s)
    (auto simp: renumbered_def initiator_get_peer_def responder_get_peer_def initiator_inv_def
      choice_ok_def chosen_ok_def responder_keys_ok_def responder_inv_def Let_def)

lemma role_inv_with_sender:
  assumes "\<And>p. renumbered p (snd (m p))"
  shows "preserves (role_inv key) (with_sender n m)"
proof (rule preservesI)
  fix s :: "'a signaling" assume inv: "role_inv key s"
  show "role_inv key (snd (with_sender n m s))"
  proof (cases "get_peer_with_address s (nonce_source n) :: (validation_error, _) outcome")
    case (Ok p)
    show ?thesis
    proof (cases p)
      case (Some q)
      with Ok have at: "peer_at s (nonce_source n) = Some q" by (simp only: get_peer_with_address_iff)
      from role_inv_put [OF inv at assms] Ok Some show ?thesis
        by (simp add: with_sender_def case_prod_beta)
    qed (use Ok inv in \<open>simp add: with_sender_def\<close>)
  qed (use inv in \<open>simp_all add: with_sender_def\<close>)
qed

lemma snd_on_sig:
  "snd (on_sig f g s) = (case s of SignalingInitiator i \<Rightarrow> SignalingInitiator (snd (f i))
     | SignalingResponder p \<Rightarrow> SignalingResponder (snd (g p)))"
  by (cases s) (simp_all add: on_sig_def case_prod_beta)

section \<open>Validation\<close>

lemma preserves_role_inv:
  assumes "preserves initiator_inv f" "preserves (responder_inv key) g"
  shows "preserves (role_inv key) (on_sig f g)"
  using assms by (intro preserves_on_sig) simp_all

lemma inv_on_responder_common:
  "(\<And>w. preserves (\<lambda>c. responder_view c = w) m) \<Longrightarrow> preserves (responder_inv key) (on_responder_common m)"
  by (intro core_inv core_on_common)

lemma role_inv_validate:
  "preserves (role_inv key) (validate_nonce_destination n)" "preserves (role_inv key) (validate_nonce_source n)"
  "preserves (role_inv key) (validate_nonce_csn n)" "preserves (role_inv key) (validate_nonce_cookie n)"
proof -
  show "preserves (role_inv key) (validate_nonce_destination n)"
    unfolding validate_nonce_destination_def initiator_validate_nonce_destination_def
      responder_validate_nonce_destination_def check_destination_def
    by (intro preserves_role_inv inv_on_common inv_on_responder_common pres_rules)
      (simp_all add: view_def trusted_key_def responder_view_def)
  show "preserves (role_inv key) (validate_nonce_source n)"
    unfolding validate_nonce_source_def initiator_validate_nonce_source_def
      responder_validate_nonce_source_def
    by (intro preserves_role_inv inv_on_common inv_on_responder_common pres_rules)
  show "preserves (role_inv key) (validate_nonce_csn n)"
    unfolding validate_nonce_csn_def
    by (intro role_inv_with_sender) (simp add: zoomS_def case_prod_beta renumbered_csn)
  show "preserves (role_inv key) (validate_nonce_cookie n)"
    unfolding validate_nonce_cookie_def
    by (intro role_inv_with_sender)
      (auto simp: zoomS_def case_prod_beta check_cookie_def split: option.split intro!: renumbered_cookie)
qed

lemma role_inv_validate_nonce: "preserves (role_inv key) (validate_nonce n)"
  unfolding validate_nonce_def by (intro preserves_thenS role_inv_validate)

section \<open>Messages of the server\<close>

lemma view_server_hello:
  "preserves (\<lambda>c. view c = v) (handle_server_hello E key)"
  unfolding handle_server_hello_def set_server_handshake_state_def
  by (intro pres_rules view_frame.keeps_send_client_hello view_frame.keeps_send_client_auth)
    (simp_all add: view_def trusted_key_def)

lemma responder_inv_server_hello:
  assumes "responder_inv key s" "sc_handshake_state (cm_server (rsg_common s)) = ServerNew"
  shows "responder_inv key (snd (on_responder_common (handle_server_hello E k) s))"
proof -
  let ?I = "\<lambda>c. responder_view c = responder_view (rsg_common s)"
  let ?J = "\<lambda>c. snd (responder_view c) = snd (responder_view (rsg_common s)) \<and>
      sc_handshake_state (cm_server c) \<noteq> ServerDone"
  have "wp (handle_server_hello E k) (\<lambda>_. ?J) (\<lambda>_. ?J) (\<lambda>_. ?J) (rsg_common s)"
    unfolding handle_server_hello_def set_server_handshake_state_def
    using assms(2)
    by (auto simp: wp_simps responder_view_def
        intro!: wp_preserves [OF responder_view_frame.keeps_send_client_hello [of "responder_view (rsg_common s)"]]
          wp_preserves [OF responder_view_frame.keeps_send_client_auth [of "responder_view (rsg_common s)"]])
  from wp_sndD [OF this] assms show ?thesis
    by (auto simp: on_responder_common_def zoomS_def case_prod_beta responder_inv_def Let_def responder_view_def)
qed

lemma role_inv_server_hello:
  assumes "role_inv key s" "sc_handshake_state (cm_server (sig_common s)) = ServerNew"
  shows "role_inv key (snd (on_sig_common (handle_server_hello E k) s))"
  using assms responder_inv_server_hello [of key] inv_on_common [OF view_server_hello [of _ E k]]
  by (cases s) (simp_all add: on_sig_common_def snd_on_sig preserves_def)

lemma inv_server_completed:
  "preserves initiator_inv (on_common server_handshake_completed)"
  by (auto simp: preserves_wp server_handshake_completed_def set_server_handshake_state_def on_common_def
      wp_simps initiator_inv_def choice_ok_def chosen_ok_def trusted_key_def split: option.splits)

lemma responder_inv_server_completed:
  "preserves (responder_inv key) (on_responder_common server_handshake_completed)"
  by (auto simp: preserves_wp server_handshake_completed_def set_server_handshake_state_def
      on_responder_common_def wp_simps responder_inv_def Let_def)

lemma server_auth_checks_pure: "snd (server_auth_checks E msg n c) = c"
proof -
  have "preserves (\<lambda>d. d = c) (server_auth_checks E msg n)"
    unfolding server_auth_checks_def validate_repeated_cookie_def by (intro pres_rules)
  then show ?thesis by (simp add: preserves_def)
qed

lemma role_inv_server_auth:
  assumes inv: "role_inv key s" and st: "sc_handshake_state (cm_server (sig_common s)) = ClientInfoSent"
    and order: "order_laws E"
  shows "role_inv key (snd (handle_server_auth E msg n s))"
proof -
  let ?J = "role_inv key"
  have checks: "preserves (\<lambda>t. t = s) (on_sig_common (server_auth_checks E msg n))"
    unfolding on_sig_common_def on_common_def on_responder_common_def
    by (intro preserves_on_sig preserves_zoomS) (auto simp: server_auth_checks_pure)
  have impl: "wp (on_sig (initiator_handle_server_auth_impl E msg)
      (responder_handle_server_auth_impl E msg)) (\<lambda>_. ?J) (\<lambda>_. ?J) (\<lambda>_. ?J) s"
    using inv st inv_responder_server_auth_impl [of key _ E msg] inv_initiator_server_auth_impl [OF order, of msg]
    by (intro wp_snd, cases s) (auto simp: snd_on_sig preserves_def)
  have completed: "preserves ?J (on_sig_common server_handshake_completed)"
    unfolding on_sig_common_def
    by (intro preserves_role_inv inv_server_completed responder_inv_server_completed)
  have "wp (handle_server_auth E msg n) (\<lambda>_. ?J) (\<lambda>_. ?J) (\<lambda>_. ?J) s"
    unfolding handle_server_auth_def wp_simps
    using inv
    by (auto intro!: wp_preserves [OF checks] wp_mono [OF impl] wp_preserves [OF completed] simp: wp_simps)
  then show ?thesis by (rule wp_sndD)
qed

lemma role_inv_handle_server_message:
  assumes inv: "role_inv key s" and order: "order_laws E"
  shows "role_inv key (snd (handle_server_message E obox n s))"
proof -
  have new_initiator: "role_inv key (snd (on_sig initiator_handle_new_initiator
      (responder_handle_new_initiator E) s))"
    using inv inv_responder_new_initiator [of key E]
    by (cases s) (simp_all add: snd_on_sig preserves_def initiator_handle_new_initiator_def failS_def)
  have new_responder: "role_inv key (snd (on_sig (initiator_handle_new_responder E i)
      (responder_handle_new_responder i) s))" for i
    using inv inv_initiator_new_responder [OF order, of i]
    by (cases s) (simp_all add: snd_on_sig preserves_def responder_handle_new_responder_def failS_def)
  have disconnected: "role_inv key (snd (on_sig (initiator_handle_disconnected i)
      (responder_handle_disconnected i) s))" for i
    using inv by (cases s) (simp_all add: snd_on_sig initiator_handle_disconnected_def
        responder_handle_disconnected_def proc_defs)
  show ?thesis
    unfolding handle_server_message_def bindS_def getS_def
    using inv role_inv_server_auth [OF inv _ order, where n = n] role_inv_server_hello [OF inv]
    by (cases "sc_handshake_state (cm_server (sig_common s))"; cases "ob_message obox")
      (simp_all add: handle_send_error_def failS_def panicS_def new_initiator new_responder
        disconnected)
qed

section \<open>Messages of peers\<close>

lemma role_inv_send_drop: "preserves (role_inv key) (on_sig_common (send_drop_responder E a r))"
  unfolding on_sig_common_def
  by (intro preserves_role_inv inv_on_common inv_on_responder_common
      view_frame.keeps_send_drop_responder responder_view_frame.keeps_send_drop_responder)

lemma role_inv_peer_message:
  assumes "role_inv key s" "phase_ok (sig_common s)" "cm_signaling_state (sig_common s) = PeerHandshake"
  shows "role_inv key (snd (on_sig (initiator_handle_peer_message E obox)
    (responder_handle_peer_message E obox) s))"
  using assms inv_initiator_handle_peer_message [of E obox] inv_responder_handle_peer_message [of key _ E obox]
  by (cases s) (simp_all add: snd_on_sig preserves_def phase_ok_def)

lemma role_inv_handshake_message:
  assumes inv: "role_inv key s" and ph: "phase_ok (sig_common s)" and order: "order_laws E"
  shows "role_inv key (snd (handle_handshake_peer_message E bbox s))"
proof (rule wp_sndD)
  let ?J = "role_inv key"
  have peer: "wp (on_sig (initiator_handle_peer_message E obox) (responder_handle_peer_message E obox))
      (\<lambda>_. ?J) (\<lambda>_. ?J) (\<lambda>_. ?J) s" if "cm_signaling_state (sig_common s) = PeerHandshake" for obox
    by (rule wp_snd) (rule role_inv_peer_message [OF inv ph that])
  have server: "wp (handle_server_message E obox n) (\<lambda>_. ?J) (\<lambda>_. ?J) (\<lambda>_. ?J) s" for obox n
    by (rule wp_snd) (rule role_inv_handle_server_message [OF inv order])
  show "wp (handle_handshake_peer_message E bbox) (\<lambda>_. ?J) (\<lambda>_. ?J) (\<lambda>_. ?J) s"
    unfolding handle_handshake_peer_message_def
    using inv
    by (auto simp: wp_simps peer server split: outcome.split signaling_state.split
        intro!: wp_preserves [OF role_inv_send_drop])
qed

lemma role_inv_dispatch_message:
  assumes inv: "role_inv key s" and ph: "phase_ok (sig_common s)" and order: "order_laws E"
  shows "role_inv key (snd (dispatch_message E bbox s))"
proof (rule wp_sndD)
  have task: "preserves (role_inv key) (handle_task_peer_message E bbox)"
    unfolding handle_task_peer_message_def by (intro pres_rules)
  let ?J = "role_inv key"
  have peer: "wp (handle_handshake_peer_message E bbox) (\<lambda>_. ?J) (\<lambda>_. ?J) (\<lambda>_. ?J) s"
    by (rule wp_snd) (rule role_inv_handshake_message [OF inv ph order])
  have server: "wp (handle_server_message E obox n) (\<lambda>_. ?J) (\<lambda>_. ?J) (\<lambda>_. ?J) s" for obox n
    by (rule wp_snd) (rule role_inv_handle_server_message [OF inv order])
  show "wp (dispatch_message E bbox) (\<lambda>_. ?J) (\<lambda>_. ?J) (\<lambda>_. ?J) s"
    unfolding dispatch_message_def
    using inv by (auto simp: wp_simps peer server split: outcome.split signaling_state.split
        intro!: wp_preserves [OF task])
qed

section \<open>The public methods\<close>

lemma role_of_on_sig: "preserves (\<lambda>s. role_of s = r) (on_sig f g)"
  by (simp add: preserves_def snd_on_sig split: signaling.split)

lemma role_of_on_sig_common: "preserves (\<lambda>s. role_of s = r) (on_sig_common m)"
  unfolding on_sig_common_def by (rule role_of_on_sig)

lemma role_of_put: "role_of (put_peer_with_address a p s) = role_of s"
  by (cases s) simp_all

lemma role_of_put_chosen: "role_of (put_peer p s) = role_of s"
  by (cases s; cases p) simp_all

lemma role_of_with_sender: "preserves (\<lambda>s. role_of s = r) (with_sender n m)"
  by (simp add: preserves_def with_sender_def role_of_put case_prod_beta split: outcome.split option.split)

lemma role_of_validate_nonce: "preserves (\<lambda>s. role_of s = r) (validate_nonce n)"
  unfolding validate_nonce_def validate_nonce_destination_def validate_nonce_source_def
    validate_nonce_csn_def validate_nonce_cookie_def
  by (intro preserves_thenS role_of_on_sig role_of_with_sender)

lemma role_of_handle_server_message: "preserves (\<lambda>s. role_of s = r) (handle_server_message E obox n)"
  unfolding handle_server_message_def handle_server_auth_def handle_send_error_def
  by (intro preserves_bindS preserves_pure, rename_tac st, case_tac st; cases "ob_message obox")
    (auto intro!: pres_rules role_of_on_sig role_of_on_sig_common)

lemma role_of_dispatch: "preserves (\<lambda>s. role_of s = r) (dispatch_message E bbox)"
  unfolding dispatch_message_def handle_handshake_peer_message_def handle_task_peer_message_def
  by (intro pres_rules role_of_handle_server_message)
    (auto split: signaling_state.split intro!: pres_rules role_of_on_sig role_of_on_sig_common
      role_of_handle_server_message)

lemma preserves_handle_message:
  assumes "preserves I (validate_nonce (bb_nonce bbox))" "preserves I (dispatch_message E bbox)"
  shows "preserves I (handle_message E bbox)"
  using assms unfolding preserves_def handle_message_def
  by (auto split: prod.split outcome.split validation_error.split)

lemma preserves_conj: "preserves I m \<Longrightarrow> preserves J m \<Longrightarrow> preserves (\<lambda>s. I s \<and> J s) m"
  by (simp add: preserves_def)

lemma sig_inv_handle_message:
  assumes order: "order_laws E"
  shows "preserves (sig_inv key) (handle_message E bbox)"
proof -
  let ?I = "\<lambda>s. phase_ok (sig_common s) \<and> role_inv key s"
  have "preserves ?I (dispatch_message E bbox)"
    using phase.keeps_dispatch_message [of E bbox] role_inv_dispatch_message [OF _ _ order]
    by (simp add: preserves_def)
  then have I: "preserves ?I (handle_message E bbox)"
    using preserves_conj [OF phase.keeps_validate_nonce role_inv_validate_nonce]
    by (intro preserves_handle_message)
  have R: "preserves (\<lambda>s. role_of s = r) (handle_message E bbox)" for r
    by (intro preserves_handle_message role_of_validate_nonce role_of_dispatch)
  show ?thesis
  proof (rule preservesI)
    fix s :: "'a signaling" assume "sig_inv key s"
    then show "sig_inv key (snd (handle_message E bbox s))"
      using I R [of "role_of s"] role_const.keeps_handle_message [of "role_of s" E bbox]
      unfolding sig_inv_def preserves_def by auto
  qed
qed

lemma sig_inv_encode:
  assumes re: "\<And>p. renumbered p (snd (m p))" and id: "\<And>p. peer_identity (snd (m p)) = peer_identity p"
    and inv: "sig_inv key s"
  shows "sig_inv key (snd (with_chosen_peer m s))"
proof (cases "get_peer s")
  case (Some p)
  with role_inv_put_chosen [OF _ Some re] sig_common_with_chosen_peer [of m s, OF id] inv show ?thesis
    by (simp add: sig_inv_def with_chosen_peer_def case_prod_beta role_of_put_chosen)
qed (use inv in \<open>simp add: with_chosen_peer_def\<close>)

lemma encode_for_peer_renumbered: "renumbered p (snd (encode_for_peer seal i p))"
proof -
  have "\<exists>csn. snd (encode_for_peer seal i p) = peer_csn_pair_update (\<lambda>_. csn) p"
    by (auto simp: encode_for_peer_def proc_defs zoomS_def split: prod.splits outcome.splits)
  then show ?thesis using renumbered_csn by auto
qed

lemma sig_inv_encode_task_message: "preserves (sig_inv key) (encode_task_message E v)"
  unfolding encode_task_message_def
  by (intro pres_rules)
    (simp add: preserves_def sig_inv_encode encode_for_peer_renumbered encode_for_peer_identity)

lemma sig_inv_encode_close_message: "preserves (sig_inv key) (encode_close_message E r)"
  unfolding encode_close_message_def encode_close_for_peer_def
  by (intro pres_rules)
    (simp add: preserves_def sig_inv_encode encode_for_peer_renumbered encode_for_peer_identity)

end
