(* ===== verification/Scenario.thy ===== *)
theory Scenario
  imports Validation
begin

text \<open>
  A complete handshake at concrete inputs: an initiator that trusts the key of the responder
  and knows the key of the server, a responder that trusts the initiator, and a server that
  answers both and relays between them. The crypto library is the transparent instance of the
  parameters, so that every message can be read off. The states on the way are the inputs at
  which the properties of the following theories are evaluated.
\<close>

definition scenario_key :: "byte \<Rightarrow> byte list" where
  "scenario_key b = replicate 32 b"

definition count_up :: "byte \<Rightarrow> byte list" where
  "count_up b = map (\<lambda>k. b + of_nat k) [0..<16]"

definition scenario_client_auth :: "public_key option \<Rightarrow> client_auth" where
  "scenario_client_auth key =
     \<lparr>ca_your_cookie = replicate 16 9, ca_subprotocols = [subprotocol], ca_ping_interval = 0,
      ca_your_key = key\<rparr>"

text \<open>The encodings of the messages that occur.\<close>

definition scenario_env :: "(string, sample_value) env" where
  "scenario_env = sample_env
     [(ServerHello (scenario_key 4), [1]),
      (ClientHello (scenario_key 5), [2]),
      (ClientAuth (scenario_client_auth (Some (scenario_key 6))), [3]),
      (ClientAuth (scenario_client_auth None), [4]),
      (ServerAuth \<lparr>sa_your_cookie = count_up 1,
         sa_signed_keys = Some (replicate 16 0 @ scenario_key 4 @ scenario_key 3),
         sa_responders = Some [2], sa_initiator_connected = None\<rparr>, [5]),
      (ServerAuth \<lparr>sa_your_cookie = count_up 21, sa_signed_keys = None,
         sa_responders = None, sa_initiator_connected = Some True\<rparr>, [6]),
      (Key (scenario_key 22), [7]), (Key (scenario_key 2), [8]),
      (Auth \<lparr>au_your_cookie = count_up 4, au_tasks = Some [''t''], au_task = None,
         au_data = [(''t'', None)]\<rparr>, [9]),
      (Auth \<lparr>au_your_cookie = count_up 24, au_tasks = None, au_task = Some ''t'',
         au_data = [(''t'', None)]\<rparr>, [10]),
      (DropResponder \<lparr>dr_id = 3, dr_reason = None\<rparr>, [12]), (NewInitiator, [13]),
      (ServerAuth \<lparr>sa_your_cookie = count_up 1,
         sa_signed_keys = Some (replicate 16 0 @ scenario_key 4 @ scenario_key 3),
         sa_responders = Some [], sa_initiator_connected = None\<rparr>, [14]), (NewResponder 2, [15])]
     [(SampleMap [(SampleString ''type'', SampleString ''data'')], [11])]"

lemma scenario_env_sample: "\<exists>tbl vtbl. scenario_env = sample_env tbl vtbl"
  unfolding scenario_env_def by blast

definition initiator_start :: "(unit, string initiator_signaling) outcome \<times> nat" where
  "initiator_start = initiator_new scenario_env (sample_key_pair 3) [''t''] (Some (scenario_key 5))
     (Some (scenario_key 6)) None 0"

definition responder_start :: "(unit, string responder_signaling) outcome \<times> nat" where
  "responder_start = responder_new scenario_env (sample_key_pair 5) (scenario_key 3) None None [''t'']
     None 20"

definition scenario_initiator :: "string signaling" where
  "scenario_initiator =
     (case initiator_start of (Ok s, _) \<Rightarrow> SignalingInitiator s | _ \<Rightarrow> sample_responder)"

definition scenario_responder :: "string signaling" where
  "scenario_responder =
     (case responder_start of (Ok s, _) \<Rightarrow> SignalingResponder s | _ \<Rightarrow> sample_responder)"

text \<open>Delivering messages until one is refused with an error.\<close>

fun deliver ::
  "('t, 'v, 'z) env_scheme \<Rightarrow> byte_box list \<Rightarrow> 't signaling \<Rightarrow> 'v handle_action list \<times> 't signaling" where
  "deliver E [] s = ([], s)"
| "deliver E (b # bs) s =
     (case handle_message E b s of
        (Ok acts, s') \<Rightarrow> (case deliver E bs s' of (rest, s'') \<Rightarrow> (acts @ rest, s''))
      | (_, s') \<Rightarrow> ([], s'))"

text \<open>The messages for the peer among the actions, which the server relays.\<close>

definition relayed :: "'v handle_action list \<Rightarrow> byte_box list" where
  "relayed acts = List.map_filter (\<lambda>a. case a of
     Reply b \<Rightarrow> if nonce_destination (bb_nonce b) = 0 then None else Some b | _ \<Rightarrow> None) acts"

definition server_hello_box :: byte_box where
  "server_hello_box = \<lparr>bb_bytes = [1], bb_nonce = sample_nonce 0 0 5\<rparr>"

definition server_box :: "address \<Rightarrow> u32 \<Rightarrow> byte \<Rightarrow> byte_box" where
  "server_box dst n b = \<lparr>bb_bytes = replicate 16 0 @ [b], bb_nonce = sample_nonce 0 dst n\<rparr>"

definition initiator_greeted :: "sample_value handle_action list \<times> string signaling" where
  "initiator_greeted = deliver scenario_env [server_hello_box] scenario_initiator"

definition initiator_joined :: "sample_value handle_action list \<times> string signaling" where
  "initiator_joined = deliver scenario_env [server_box 1 6 5] (snd initiator_greeted)"

definition responder_joined :: "sample_value handle_action list \<times> string signaling" where
  "responder_joined = deliver scenario_env [server_hello_box, server_box 2 6 6] scenario_responder"

text \<open>The four messages of the peer handshake.\<close>

definition peer_box :: "byte \<Rightarrow> address \<Rightarrow> address \<Rightarrow> u32 \<Rightarrow> byte \<Rightarrow> byte_box" where
  "peer_box c src dst n b =
     \<lparr>bb_bytes = replicate 16 0 @ [b],
      bb_nonce = \<lparr>nonce_cookie = count_up c, nonce_source = src, nonce_destination = dst,
                  nonce_csn = CombinedSequenceSnapshot 0 n\<rparr>\<rparr>"

definition responder_key_box :: byte_box where
  "responder_key_box = peer_box 24 2 1 387455259 7"

definition initiator_key_box :: byte_box where
  "initiator_key_box = peer_box 4 1 2 50595079 8"

definition responder_auth_box :: byte_box where
  "responder_auth_box = peer_box 24 2 1 387455260 9"

definition initiator_auth_box :: byte_box where
  "initiator_auth_box = peer_box 4 1 2 50595080 10"

definition initiator_keyed :: "sample_value handle_action list \<times> string signaling" where
  "initiator_keyed = deliver scenario_env [responder_key_box] (snd initiator_joined)"

definition responder_keyed :: "sample_value handle_action list \<times> string signaling" where
  "responder_keyed = deliver scenario_env [initiator_key_box] (snd responder_joined)"

definition initiator_finished :: "sample_value handle_action list \<times> string signaling" where
  "initiator_finished = deliver scenario_env [responder_auth_box] (snd initiator_keyed)"

definition responder_finished :: "sample_value handle_action list \<times> string signaling" where
  "responder_finished = deliver scenario_env [initiator_auth_box] (snd responder_keyed)"

text \<open>Each message is the answer to the one before it, and both sides report the end.\<close>

lemma scenario_relay:
  "relayed (fst responder_joined) = [responder_key_box]"
  "fst initiator_keyed = [Reply initiator_key_box]"
  "fst responder_keyed = [Reply responder_auth_box]"
  "fst initiator_finished = [Reply initiator_auth_box, HandshakeDone]"
  "fst responder_finished = [HandshakeDone]"
  by code_simp+

end
