(* ===== verification/Runs.thy ===== *)
theory Runs
  imports Signaling_Inv Scenario
begin

text \<open>
  Sessions as sequences of calls of the public methods, in any order and with any arguments:
  incoming messages, outgoing task messages, outgoing close messages. What holds along every
  session: the invariant, the progress of the handshakes, the identity that is assigned once,
  the token that is used once, and the freshness of the sequence numbers of the server and of
  the messages sent to it.
\<close>

section \<open>Steps and runs\<close>

inductive session_step :: "('t, 'v, 'z) env_scheme \<Rightarrow> 't signaling \<Rightarrow> 't signaling \<Rightarrow> bool" for E where
  received: "handle_message E bbox s = (r, s') \<Longrightarrow> session_step E s s'"
| task_sent: "encode_task_message E v s = (q, s') \<Longrightarrow> session_step E s s'"
| close_sent: "encode_close_message E reason s = (q, s') \<Longrightarrow> session_step E s s'"

inductive_cases session_stepE: "session_step E s s'"

abbreviation session_run :: "('t, 'v, 'z) env_scheme \<Rightarrow> 't signaling \<Rightarrow> 't signaling \<Rightarrow> bool" where
  "session_run E \<equiv> (session_step E)\<^sup>*\<^sup>*"

lemma preserves_step:
  assumes incoming: "\<And>bbox. preserves I (handle_message E bbox)"
    and task: "\<And>v. preserves I (encode_task_message E v)"
    and close: "\<And>r. preserves I (encode_close_message E r)"
    and "session_step E s s'" and I: "I s"
  shows "I s'"
  using assms(4)
  by (cases rule: session_step.cases)
    (auto intro: preservesD [OF incoming I] preservesD [OF task I] preservesD [OF close I])

lemma run_invariant:
  assumes "session_run E s s'" "I s" "\<And>s s'. session_step E s s' \<Longrightarrow> I s \<Longrightarrow> I s'"
  shows "I s'"
  using assms(1,2) by (induction rule: rtranclp_induct) (auto intro: assms(3))

context common_invariant
begin

lemma keeps_run:
  assumes run: "session_run E s s'" and J: "J (sig_common s)"
  shows "J (sig_common s')"
  by (rule run_invariant [where I = "\<lambda>s. J (sig_common s)", OF run J])
    (rule preserves_step [OF keeps_handle_message keeps_encode_task_message keeps_encode_close_message])

end

lemma sig_inv_run:
  assumes "order_laws E" "session_run E s s'" "sig_inv key s"
  shows "sig_inv key s'"
  by (rule run_invariant [where I = "sig_inv key", OF assms(2,3)])
    (rule preserves_step [OF sig_inv_handle_message [OF assms(1)] sig_inv_encode_task_message
        sig_inv_encode_close_message])

lemma deliver_run: "session_run E s (snd (deliver E bs s))"
proof (induction bs arbitrary: s)
  case (Cons b bs)
  obtain r s' where run: "handle_message E b s = (r, s')" by fastforce
  then have "session_step E s s'" by (rule received)
  with Cons.IH [of s'] run show ?case
    by (cases r) (auto simp: case_prod_beta intro: converse_rtranclp_into_rtranclp)
qed simp

lemma scenario_runs:
  "session_run scenario_env scenario_initiator (snd initiator_greeted)"
  "session_run scenario_env (snd initiator_greeted) (snd initiator_joined)"
  "session_run scenario_env (snd initiator_joined) (snd initiator_keyed)"
  "session_run scenario_env (snd initiator_keyed) (snd initiator_finished)"
  "session_run scenario_env scenario_responder (snd responder_joined)"
  "session_run scenario_env (snd responder_joined) (snd responder_keyed)"
  "session_run scenario_env (snd responder_keyed) (snd responder_finished)"
  unfolding initiator_greeted_def initiator_joined_def initiator_keyed_def initiator_finished_def
    responder_joined_def responder_keyed_def responder_finished_def
  by (rule deliver_run)+

lemma scenario_order_laws: "order_laws scenario_env"
  unfolding scenario_env_def by (rule sample_order_laws)

lemma started_Ok:
  assumes "case fst (p :: ('e, 'a) outcome \<times> nat) of Ok _ \<Rightarrow> True | _ \<Rightarrow> False"
  shows "\<exists>x j. p = (Ok x, j)"
  using assms by (cases p; cases "fst p") auto

lemma scenario_started:
  "\<exists>si j. initiator_start = (Ok si, j) \<and> scenario_initiator = SignalingInitiator si"
  "\<exists>sr j. responder_start = (Ok sr, j) \<and> scenario_responder = SignalingResponder sr"
proof -
  have "case fst initiator_start of Ok _ \<Rightarrow> True | _ \<Rightarrow> False" by code_simp
  from started_Ok [OF this] obtain x j where x: "initiator_start = (Ok x, j)" by blast
  have "scenario_initiator = SignalingInitiator x" unfolding scenario_initiator_def x by simp
  with x show "\<exists>si j. initiator_start = (Ok si, j) \<and> scenario_initiator = SignalingInitiator si" by blast
  have "case fst responder_start of Ok _ \<Rightarrow> True | _ \<Rightarrow> False" by code_simp
  from started_Ok [OF this] obtain x j where x: "responder_start = (Ok x, j)" by blast
  have "scenario_responder = SignalingResponder x" unfolding scenario_responder_def x by simp
  with x show "\<exists>sr j. responder_start = (Ok sr, j) \<and> scenario_responder = SignalingResponder sr" by blast
qed

lemma scenario_inv:
  "sig_inv (scenario_key 3) scenario_initiator" "sig_inv (scenario_key 3) scenario_responder"
  using scenario_started initiator_new_inv responder_new_inv
  unfolding initiator_start_def responder_start_def by metis+

section \<open>Progress\<close>

text \<open>How the state shared by both roles may change from \<open>c\<close> to \<open>d\<close>.\<close>

definition progress :: "'t common \<Rightarrow> 't common \<Rightarrow> bool" where
  "progress c d \<longleftrightarrow>
     cm_role d = cm_role c \<and> cm_permanent_keypair d = cm_permanent_keypair c \<and>
     cm_ping_interval d = cm_ping_interval c \<and>
     sc_permanent_key (cm_server d) = sc_permanent_key (cm_server c) \<and>
     cookie_ours (sc_cookie_pair (cm_server d)) = cookie_ours (sc_cookie_pair (cm_server c)) \<and>
     stage (cm_signaling_state c) \<le> stage (cm_signaling_state d) \<and>
     server_stage (sc_handshake_state (cm_server c)) \<le> server_stage (sc_handshake_state (cm_server d)) \<and>
     (cm_identity c \<noteq> ClientUnknown \<longrightarrow> cm_identity d = cm_identity c) \<and>
     (sc_session_key (cm_server c) \<noteq> None \<longrightarrow> sc_session_key (cm_server d) = sc_session_key (cm_server c)) \<and>
     (cookie_theirs (sc_cookie_pair (cm_server c)) \<noteq> None \<longrightarrow>
        cookie_theirs (sc_cookie_pair (cm_server d)) = cookie_theirs (sc_cookie_pair (cm_server c))) \<and>
     (cm_auth_provider d = cm_auth_provider c \<or> auth_token_of c \<noteq> None \<and> cm_auth_provider d = None) \<and>
     (cm_tasks d = cm_tasks c \<or> cm_tasks d = None) \<and>
     sent_number (sc_csn_pair (cm_server c)) \<le> sent_number (sc_csn_pair (cm_server d))"

lemma progress_refl: "progress c c"
  by (simp add: progress_def)

lemma check_cookie_frame:
  "cookie_ours (snd (check_cookie i n p)) = cookie_ours p"
  "cookie_theirs p \<noteq> None \<Longrightarrow> cookie_theirs (snd (check_cookie i n p)) = cookie_theirs p"
  by (auto simp: check_cookie_def split: option.split)

lemma check_csn_sent: "sent_number (snd (check_csn i n p)) = sent_number p"
  by (auto simp: check_csn_def sent_number_def split: option.split)

interpretation progressing: common_invariant "progress c" for c
  by unfold_locales
    (auto simp: progress_def check_cookie_frame check_csn_sent auth_token_of_def
      intro: order_trans next_nonce_sent_mono)



text \<open>
  C8. The invariant holds in every state that a session can reach from a state that satisfies
  it, in particular from the states that the two constructors return: the phases of the two
  handshakes are in step and the identity is valid; for an initiator, the responders are listed
  under their own addresses with pairwise different serial numbers and the keys their state
  promises, at most 252 of them when no key is trusted; for a responder, the permanent key of
  the initiator is the one given to the constructor and the session key differs from it.
\<close>

theorem reachable_sig_inv:
  assumes "order_laws E"
    and "initiator_new E kp tasks trusted srv ping i = (Ok si, j) \<and> s = SignalingInitiator si \<or>
         responder_new E kp key token srv tasks ping i = (Ok sr, j) \<and> s = SignalingResponder sr"
    and "session_run E s s'"
  shows "sig_inv key s'"
  using assms(2) initiator_new_inv [of E kp tasks trusted srv ping i si j key]
    responder_new_inv [of E kp key token srv tasks ping i sr j]
  by (intro sig_inv_run [OF assms(1,3)]) auto

theorem reachable_sig_inv_witness:
  "sig_inv (scenario_key 3) (snd initiator_joined) \<and> sig_inv (scenario_key 3) (snd responder_joined)"
proof
  from scenario_started obtain si i sr j where
    start: "initiator_start = (Ok si, i)" "scenario_initiator = SignalingInitiator si"
      "responder_start = (Ok sr, j)" "scenario_responder = SignalingResponder sr" by blast
  show "sig_inv (scenario_key 3) (snd initiator_joined)"
    using start rtranclp_trans [OF scenario_runs(1,2)] unfolding initiator_start_def
    by (intro reachable_sig_inv [OF scenario_order_laws, where s = scenario_initiator]) blast+
  show "sig_inv (scenario_key 3) (snd responder_joined)"
    using start scenario_runs(5) unfolding responder_start_def
    by (intro reachable_sig_inv [OF scenario_order_laws, where s = scenario_responder]) blast+
qed

section \<open>Freshness of the messages of the server\<close>

definition server_seen :: "csn_snapshot \<Rightarrow> 't common \<Rightarrow> bool" where
  "server_seen k c \<longleftrightarrow>
     (case csn_theirs (sc_csn_pair (cm_server c)) of Some x \<Rightarrow> k \<le> x | None \<Rightarrow> False)"

lemma check_csn_theirs:
  "csn_theirs p = Some x \<Longrightarrow> \<exists>y. csn_theirs (snd (check_csn i n p)) = Some y \<and> x \<le> y"
  by (auto simp: check_csn_def)

lemma next_nonce_theirs: "csn_theirs (snd (next_nonce src dst ck p)) = csn_theirs p"
proof (cases "next_nonce src dst ck p")
  case (Pair r p')
  then show ?thesis by (cases r) (auto dest: next_nonce_OkD(6) next_nonce_ErrD next_nonce_PanicD)
qed

interpretation server_seen: common_invariant "server_seen k" for k
proof
  fix c :: "'t common" and n
  assume "server_seen k c"
  then obtain x where x: "csn_theirs (sc_csn_pair (cm_server c)) = Some x" "k \<le> x"
    by (auto simp: server_seen_def split: option.splits)
  show "server_seen k (c\<lparr>cm_server := (cm_server c)\<lparr>sc_csn_pair :=
      snd (check_csn IdServer n (sc_csn_pair (cm_server c)))\<rparr>\<rparr>)"
    using check_csn_theirs [OF x(1), of IdServer n] x(2) by (auto simp: server_seen_def)
qed (simp_all add: server_seen_def next_nonce_theirs)

lemma handle_message_accepted:
  assumes "validate_nonce (bb_nonce bbox) s = (Ok u, t)"
  shows "handle_message E bbox s = dispatch_message E bbox t"
  using assms by (simp add: handle_message_def)

lemma peer_at_server: "peer_at s 0 = Some (PeerServer (cm_server (sig_common s)))"
  by (cases s) (simp_all add: peer_at_def initiator_peer_at_simps responder_peer_at_simps)

text \<open>
  C10. Replay protection along sessions: when a message of the server has been accepted, then
  in every later state of the session no message of the server with the same or a lower
  sequence number is accepted.
\<close>

theorem server_replay_rejected:
  assumes "validate_nonce (bb_nonce bbox) s = (Ok u, t)" and "is_server (nonce_source (bb_nonce bbox))"
    and "handle_message E bbox s = (r, s1)" and "session_run E s1 s2"
    and "is_server (nonce_source m)" and "nonce_csn m \<le> nonce_csn (bb_nonce bbox)"
  shows "validate_nonce m s2 \<noteq> (Ok v, s3)"
proof -
  let ?J = "\<lambda>s. server_seen (nonce_csn (bb_nonce bbox)) (sig_common s)"
  have src: "nonce_source (bb_nonce bbox) = 0" "nonce_source m = 0"
    using assms(2,5) by (simp_all add: is_server_def)
  from peer_at_validated [OF assms(1)] obtain p where
    "peer_at t 0 = Some (note_nonce (bb_nonce bbox) p)" by (auto simp: src)
  then have "?J t"
    unfolding peer_at_server by (auto simp: server_seen_def dest: arg_cong [where f = peer_csn_pair])
  then have "?J s1"
    using preservesD [OF server_seen.keeps_dispatch_message] assms(3) handle_message_accepted [OF assms(1)]
    by metis
  then have "?J s2" by (rule server_seen.keeps_run [OF assms(4)])
  then have "\<not> csn_fresh (sc_csn_pair (cm_server (sig_common s2))) m"
    using assms(6) by (auto simp: server_seen_def csn_fresh_def not_less split: option.splits)
  then show ?thesis by (auto simp: validate_nonce_Ok_iff src peer_at_server)
qed

theorem server_replay_rejected_witness:
  "validate_nonce (sample_nonce 0 0 5) (snd initiator_joined) \<noteq> (Ok (), snd initiator_joined)"
proof -
  have "fst (validate_nonce (bb_nonce server_hello_box) scenario_initiator) = Ok ()" by code_simp
  then obtain t where v: "validate_nonce (bb_nonce server_hello_box) scenario_initiator = (Ok (), t)"
    by (metis prod.collapse)
  obtain r s1 where run: "handle_message scenario_env server_hello_box scenario_initiator = (r, s1)"
    by fastforce
  then have "snd initiator_greeted = s1"
    by (cases r) (simp_all add: initiator_greeted_def)
  with server_replay_rejected [OF v _ run, of "snd initiator_joined" "sample_nonce 0 0 5"] scenario_runs(2)
  show ?thesis by (simp add: server_hello_box_def sample_nonce_def is_server_def)
qed

end
