(* ===== verification/Actions.thy ===== *)
theory Actions
  imports Signaling_Laws
begin

text \<open>
  Which actions a handler can ask the client for. Most handlers only reply and notify; the
  locale \<open>action_class\<close> proves this once, for every class of actions that contains replies
  and events, and the instances rule out the end of the handshake, errors and task messages.
\<close>

definition emits :: "('v handle_action \<Rightarrow> bool) \<Rightarrow> ('s, 'v) handler \<Rightarrow> bool" where
  "emits P m \<longleftrightarrow> (\<forall>s acts s'. m s = (Ok acts, s') \<longrightarrow> (\<forall>a\<in>set acts. P a))"

lemma emitsD: "emits P m \<Longrightarrow> m s = (Ok acts, s') \<Longrightarrow> a \<in> set acts \<Longrightarrow> P a"
  unfolding emits_def by blast

lemma emitsI: "(\<And>s acts s'. m s = (Ok acts, s') \<Longrightarrow> \<forall>a\<in>set acts. P a) \<Longrightarrow> emits P m"
  unfolding emits_def by blast

lemma emits_bindS: "(\<And>x. emits P (k x)) \<Longrightarrow> emits P (bindS m k)"
  unfolding emits_def by (auto simp: bindS_eq_Ok_iff)

lemma emits_thenS: "emits P k \<Longrightarrow> emits P (thenS m k)"
  unfolding emits_def by (auto simp: thenS_eq_Ok_iff)

lemma emits_stop: "emits P (failS e)" "emits P (panicS p)"
  unfolding emits_def by (auto simp: ok_iffs)

lemma emits_if: "emits P m \<Longrightarrow> emits P k \<Longrightarrow> emits P (if b then m else k)"
  by simp

lemmas emits_rules = emits_bindS emits_thenS emits_stop emits_if

lemma emits_on_sig: "emits P f \<Longrightarrow> emits P g \<Longrightarrow> emits P (on_sig f g)"
proof (rule emitsI)
  fix s acts s'
  assume f: "emits P f" and g: "emits P g" and run: "on_sig f g s = (Ok acts, s')"
  from run show "\<forall>a\<in>set acts. P a"
    by (cases s) (auto simp: on_sig_Ok_iff dest: emitsD [OF f] emitsD [OF g])
qed

lemma emits_on_sig_common: "emits P f \<Longrightarrow> emits P (on_sig_common f)"
  unfolding on_sig_common_def
  by (intro emits_on_sig emitsI) (auto simp: on_common_def on_responder_common_def ok_iffs dest: emitsD)

lemma mapS_Ok_all:
  assumes "mapS f xs s = (Ok ys, s')" "\<And>x s y s'. f x s = (Ok y, s') \<Longrightarrow> P y"
  shows "\<forall>y\<in>set ys. P y"
  using assms(1)
  by (induction xs arbitrary: s ys) (auto simp: ok_iffs dest!: assms(2))

lemma send_drop_responder_reply:
  "send_drop_responder E a r c = (Ok d, c') \<Longrightarrow> \<exists>b. d = Reply b"
  by (auto simp: send_drop_responder_def ok_iffs split: option.splits)

lemma fst_on_sig_common: "fst (on_sig_common m s) = fst (m (sig_common s))"
  by (cases s) (simp_all add: on_sig_common_def on_sig_def on_common_def on_responder_common_def
      zoomS_def case_prod_beta)

locale action_class =
  fixes P :: "'v handle_action \<Rightarrow> bool"
  assumes reply: "P (Reply b)" and event: "P (ActionEvent e)"
begin

lemma server_hello: "emits P (handle_server_hello E key)"
  by (rule emitsI) (auto simp: handle_server_hello_def ok_iffs send_client_hello_def send_client_auth_def reply
      split: if_splits option.splits)

lemma drop_oldest:
  "drop_oldest_inactive_responder E s = (Ok (Some d), s') \<Longrightarrow> P d"
  by (auto simp: drop_oldest_inactive_responder_def on_common_def ok_iffs reply split: option.splits
      dest!: send_drop_responder_reply)

lemma process_new_responder:
  "process_new_responder E a s = (Ok (Some d), s') \<Longrightarrow> P d"
  by (auto simp: process_new_responder_def ok_iffs split: if_splits dest: drop_oldest)

lemma initiator_server_auth: "emits P (initiator_handle_server_auth_impl E msg)"
proof -
  have "\<forall>a\<in>set (List.map_filter (\<lambda>d. d) ds). P a"
    if "mapS (process_new_responder E) xs s = (Ok ds, s')" for xs s s' ds
    using mapS_Ok_all [OF that, of "\<lambda>d. \<forall>a. d = Some a \<longrightarrow> P a"] process_new_responder
    by (force simp: map_filter_def)
  then show ?thesis
    by (intro emitsI) (auto simp: initiator_handle_server_auth_impl_def Let_def ok_iffs event)
qed

lemma send_token_and_key: "emits P (send_token_and_key E)"
  by (rule emitsI) (auto simp: send_token_and_key_def ok_iffs send_token_def send_key_def reply
      split: option.splits auth_provider.splits)

lemma responder_server_auth: "emits P (responder_handle_server_auth_impl E msg)"
  by (rule emitsI) (auto simp: responder_handle_server_auth_impl_def ok_iffs event
      split: option.splits bool.splits dest: emitsD [OF send_token_and_key])

lemma server_auth: "emits P (handle_server_auth E msg n)"
  by (rule emitsI) (auto simp: handle_server_auth_def ok_iffs
      dest: emitsD [OF emits_on_sig [OF initiator_server_auth responder_server_auth]])

lemma new_initiator: "emits P (on_sig initiator_handle_new_initiator (responder_handle_new_initiator E))"
  by (intro emits_on_sig emitsI)
    (auto simp: initiator_handle_new_initiator_def responder_handle_new_initiator_def ok_iffs
      dest: emitsD [OF send_token_and_key])

lemma new_responder: "emits P (on_sig (initiator_handle_new_responder E i) (responder_handle_new_responder i))"
  by (intro emits_on_sig emitsI)
    (auto simp: responder_handle_new_responder_def initiator_handle_new_responder_def ok_iffs
      split: option.splits dest: process_new_responder)

lemma disconnected: "emits P (on_sig (initiator_handle_disconnected i) (responder_handle_disconnected i))"
  by (intro emits_on_sig emitsI)
    (auto simp: initiator_handle_disconnected_def responder_handle_disconnected_def ok_iffs event)

lemma server_message: "emits P (handle_server_message E obox n)"
proof (rule emitsI)
  fix s acts s'
  assume "handle_server_message E obox n s = (Ok acts, s')"
  then show "\<forall>a\<in>set acts. P a"
    using emitsD [OF emits_on_sig_common [OF server_hello], of E _ s acts s']
      emitsD [OF server_auth, of E _ n s acts s'] emitsD [OF new_initiator, of E s acts s']
      emitsD [OF new_responder, of E _ s acts s'] emitsD [OF disconnected, of _ s acts s']
    unfolding handle_server_message_def bindS_def getS_def
    by (cases "sc_handshake_state (cm_server (sig_common s))"; cases "ob_message obox")
      (simp_all add: handle_send_error_def failS_def panicS_def)
qed

lemma could_not_decrypt_drop:
  "emits P (bindS (on_sig_common (send_drop_responder E a r)) (\<lambda>d. returnS [d]))"
proof (rule emitsI)
  fix s acts s'
  assume "bindS (on_sig_common (send_drop_responder E a r)) (\<lambda>d. returnS [d]) s = (Ok acts, s')"
  then obtain d t where d: "on_sig_common (send_drop_responder E a r) s = (Ok d, t)" "acts = [d]"
    by (auto simp: ok_iffs)
  then have "fst (send_drop_responder E a r (sig_common s)) = Ok d"
    using fst_on_sig_common [of "send_drop_responder E a r" s] by simp
  then obtain b where "d = Reply b"
    using send_drop_responder_reply prod.collapse [of "send_drop_responder E a r (sig_common s)"] by metis
  with d show "\<forall>a\<in>set acts. P a" by (simp add: reply)
qed

lemma initiator_token: "emits P (initiator_handle_token key a)"
  by (rule emitsI) (auto simp: initiator_handle_token_def ok_iffs)

lemma initiator_key: "emits P (initiator_handle_key E key a)"
proof -
  have "\<forall>a\<in>set acts. P a" if "responder_key_exchange E i kp key r = (Ok acts, r')" for i kp r r' acts
    using that by (auto simp: responder_key_exchange_def ok_iffs reply)
  then show ?thesis
    by (intro emitsI) (auto simp: initiator_handle_key_def ok_iffs at_responder_def split: option.splits prod.splits)
qed

lemma responder_key: "emits P (responder_handle_key E key n)"
  by (rule emitsI) (auto simp: responder_handle_key_def ok_iffs reply)

lemma responder_close: "emits P (responder_handle_peer_handshake_close reason)"
  by (rule emitsI) (auto simp: responder_handle_peer_handshake_close_def split: close_code.splits)

end

locale task_action_class = action_class P for P :: "'v handle_action \<Rightarrow> bool" +
  assumes task: "P (ActionTaskMessage m)"
begin

lemma task_message: "emits P (handle_task_peer_message E bbox)"
  by (rule emitsI) (auto simp: handle_task_peer_message_def interpret_task_message_def ok_iffs bindO_eq_Ok_iff
      task event split: if_splits)

lemma task_dispatch:
  assumes "dispatch_message E bbox s = (Ok acts, s')" "cm_signaling_state (sig_common s) = TaskState"
  shows "\<forall>a\<in>set acts. P a"
  using assms
  by (auto simp: dispatch_message_def ok_iffs if_else_proc
      split: if_splits dest: emitsD [OF server_message] emitsD [OF task_message])

end

locale handshake_action_class = action_class P for P :: "'v handle_action \<Rightarrow> bool" +
  assumes finished: "P HandshakeDone" and failed: "P (HandshakeError e)"
begin

lemma no_shared: "emits P (no_shared_task E r)"
  unfolding no_shared_task_def
  by (intro emits_rules emitsI) (auto simp: reply failed ok_iffs split: outcome.splits)

lemma drop_all:
  assumes "mapS (\<lambda>addr. on_common (send_drop_responder E addr reason)) xs s = (Ok ds, s')" "a \<in> set ds"
  shows "P a"
proof -
  have "\<forall>d\<in>set ds. P d"
    using assms(1) by (rule mapS_Ok_all) (auto simp: on_common_def ok_iffs reply dest!: send_drop_responder_reply)
  with assms(2) show ?thesis by blast
qed

lemma initiator_auth: "emits P (initiator_handle_auth E msg a)"
proof -
  have "emits P (bindS (drop_other_responders E) (initiator_finish_auth E r t))" for r t
    by (intro emitsI) (auto simp: drop_other_responders_def initiator_finish_auth_def ok_iffs reply finished
        dest: drop_all)
  then show ?thesis
    unfolding initiator_handle_auth_def
    by (intro emits_rules) (auto split: option.split intro: no_shared emits_bindS)
qed

lemma responder_auth: "emits P (responder_handle_auth E msg a)"
  unfolding responder_handle_auth_def
  by (intro emits_rules emitsI) (auto simp: ok_iffs finished)

lemma peer_message:
  "emits P (on_sig (initiator_handle_peer_message E obox) (responder_handle_peer_message E obox))"
  unfolding initiator_handle_peer_message_def responder_handle_peer_message_def Let_def
  by (intro emits_on_sig emits_rules)
    (auto split: initiator_handshake_state.split responder_handshake_state.split message.split
      intro!: emits_rules initiator_token initiator_key initiator_auth responder_key responder_auth responder_close)

lemma handshake_message: "emits P (handle_handshake_peer_message E bbox)"
  unfolding handle_handshake_peer_message_def
  by (intro emits_rules)
    (auto split: outcome.split signaling_state.split
      intro!: emits_rules server_message peer_message could_not_decrypt_drop)

lemma handshake_dispatch:
  assumes "dispatch_message E bbox s = (Ok acts, s')" "cm_signaling_state (sig_common s) \<noteq> TaskState"
  shows "\<forall>a\<in>set acts. P a"
  using assms
  by (auto simp: dispatch_message_def ok_iffs if_else_proc
      split: if_splits signaling_state.splits
      dest: emitsD [OF server_message] emitsD [OF handshake_message])

end

interpretation not_done: task_action_class "\<lambda>a. a \<noteq> HandshakeDone"
  by unfold_locales simp_all

primrec is_reply_or_event :: "'v handle_action \<Rightarrow> bool" where
  "is_reply_or_event (Reply b) = True"
| "is_reply_or_event (ActionEvent e) = True"
| "is_reply_or_event HandshakeDone = False"
| "is_reply_or_event (HandshakeError e) = False"
| "is_reply_or_event (ActionTaskMessage m) = False"

interpretation plain: action_class is_reply_or_event
  by unfold_locales simp_all

interpretation task_phase: task_action_class "\<lambda>a. a \<noteq> HandshakeDone \<and> (\<forall>e. a \<noteq> HandshakeError e)"
  by unfold_locales simp_all

interpretation handshake_phase: handshake_action_class "\<lambda>a. \<forall>m. a \<noteq> ActionTaskMessage m"
  by unfold_locales simp_all

lemma not_doneD: "emits (\<lambda>a. a \<noteq> HandshakeDone) m \<Longrightarrow> m s = (Ok acts, s') \<Longrightarrow> HandshakeDone \<notin> set acts"
  unfolding emits_def by blast

section \<open>The task state is only entered with the end of the handshake\<close>

text \<open>A handler that is started before the task state ends before it or reports the end of the handshake.\<close>

definition enters_task_done :: "('s \<Rightarrow> 't common) \<Rightarrow> ('s, 'v) handler \<Rightarrow> bool" where
  "enters_task_done com m \<longleftrightarrow> (\<forall>s r s'. m s = (r, s') \<longrightarrow> cm_signaling_state (com s) \<noteq> TaskState \<longrightarrow>
     cm_signaling_state (com s') = TaskState \<longrightarrow> (\<exists>acts. r = Ok acts \<and> HandshakeDone \<in> set acts))"

lemma enters_task_doneD:
  "enters_task_done com m \<Longrightarrow> m s = (r, s') \<Longrightarrow> cm_signaling_state (com s) \<noteq> TaskState \<Longrightarrow>
     cm_signaling_state (com s') = TaskState \<Longrightarrow> \<exists>acts. r = Ok acts \<and> HandshakeDone \<in> set acts"
  unfolding enters_task_done_def by blast

lemma enters_task_never:
  "preserves (\<lambda>s. cm_signaling_state (com s) \<noteq> TaskState) m \<Longrightarrow> enters_task_done com m"
  unfolding enters_task_done_def by (blast dest: preservesD)

lemma enters_task_bindS:
  assumes "preserves (\<lambda>s. cm_signaling_state (com s) \<noteq> TaskState) m" "\<And>x. enters_task_done com (k x)"
  shows "enters_task_done com (bindS m k)"
  unfolding enters_task_done_def
proof (intro allI impI)
  fix s r s'
  assume run: "bindS m k s = (r, s')" and before: "cm_signaling_state (com s) \<noteq> TaskState"
    and after: "cm_signaling_state (com s') = TaskState"
  obtain q t where m: "m s = (q, t)" by fastforce
  with assms(1) before have "cm_signaling_state (com t) \<noteq> TaskState" by (blast dest: preservesD)
  with run m after show "\<exists>acts. r = Ok acts \<and> HandshakeDone \<in> set acts"
    by (cases q) (auto simp: bindS_def dest!: enters_task_doneD [OF assms(2)])
qed

lemma enters_task_thenS:
  "preserves (\<lambda>s. cm_signaling_state (com s) \<noteq> TaskState) m \<Longrightarrow> enters_task_done com k \<Longrightarrow>
    enters_task_done com (thenS m k)"
  unfolding thenS_def by (rule enters_task_bindS)

lemma enters_task_if:
  "enters_task_done com m \<Longrightarrow> enters_task_done com k \<Longrightarrow> enters_task_done com (if b then m else k)"
  by simp

lemmas enters_task_rules = enters_task_bindS enters_task_thenS enters_task_if

lemma enters_initiator_finish_auth: "enters_task_done isg_common (initiator_finish_auth E r t drops)"
proof -
  have last: "enters_task_done isg_common (thenS (on_common (set_signaling_state TaskState))
      (thenS (modifyS (isg_responder_update (\<lambda>_. Some q))) (returnS (drops @ [Reply b, HandshakeDone]))))" for q b
    by (auto simp: enters_task_done_def thenS_def bindS_def on_common_def zoomS_def modifyS_def returnS_def
        set_signaling_state_def split: if_splits)
  show ?thesis
    unfolding initiator_finish_auth_def
    by (intro enters_task_rules before_task.keeps_basic)
      (auto intro!: enters_task_thenS [OF _ last] before_task.keeps_basic before_task.keeps_store_task)
qed

lemma enters_initiator_auth: "enters_task_done isg_common (initiator_handle_auth E msg a)"
  unfolding initiator_handle_auth_def validate_repeated_cookie_def
  by (intro enters_task_rules before_task.keeps_basic before_task.keeps_take_tasks)
    (auto split: option.split intro!: enters_task_rules before_task.keeps_basic before_task.keeps_drop_other_responders
      enters_initiator_finish_auth enters_task_never [OF before_task.keeps_no_shared_task])

lemma enters_initiator_peer_message: "enters_task_done isg_common (initiator_handle_peer_message E obox)"
  unfolding initiator_handle_peer_message_def Let_def
  by (intro enters_task_rules before_task.keeps_basic)
    (auto split: responder_handshake_state.split message.split intro!: enters_initiator_auth
      enters_task_never [OF before_task.keeps_initiator_handle_token]
      enters_task_never [OF before_task.keeps_initiator_handle_key] enters_task_never [OF preserves_pure(2)])

lemma enters_responder_auth: "enters_task_done rsg_common (responder_handle_auth E msg a)"
proof -
  have last: "enters_task_done rsg_common (thenS (on_responder_common (set_signaling_state TaskState))
      (returnS [HandshakeDone]))"
    by (auto simp: enters_task_done_def thenS_def bindS_def on_responder_common_def zoomS_def returnS_def
        set_signaling_state_def split: if_splits)
  show ?thesis
    unfolding responder_handle_auth_def validate_repeated_cookie_def
    by (intro enters_task_rules before_task.keeps_basic last preserves_on_responder_common
        before_task.keeps_store_task before_task.keeps_set_initiator_handshake_state)
      (auto split: option.split intro!: before_task.keeps_basic preserves_on_responder_common
        before_task.keeps_take_tasks)
qed

lemma enters_responder_peer_message: "enters_task_done rsg_common (responder_handle_peer_message E obox)"
  unfolding responder_handle_peer_message_def
  by (intro enters_task_rules before_task.keeps_basic)
    (auto split: initiator_handshake_state.split message.split close_code.split
      simp: responder_handle_peer_handshake_close_def
      intro!: enters_responder_auth enters_task_never [OF before_task.keeps_responder_handle_key]
      enters_task_never [OF preserves_pure(2)])

lemma enters_on_sig:
  "enters_task_done isg_common f \<Longrightarrow> enters_task_done rsg_common g \<Longrightarrow> enters_task_done sig_common (on_sig f g)"
  by (auto simp: enters_task_done_def on_sig_def split: signaling.splits prod.splits)

lemma enters_server_message: "enters_task_done sig_common (handle_server_message E obox n)"
  by (rule enters_task_never) (rule before_task.keeps_handle_server_message)

lemma enters_dispatch:
  assumes "dispatch_message E bbox s = (r, s')" "cm_signaling_state (sig_common s) \<noteq> TaskState"
    "cm_signaling_state (sig_common s') = TaskState"
  shows "\<exists>acts. r = Ok acts \<and> HandshakeDone \<in> set acts"
proof -
  have "enters_task_done sig_common (handle_handshake_peer_message E bbox)"
    unfolding handle_handshake_peer_message_def
    by (intro enters_task_rules before_task.keeps_basic)
      (auto split: outcome.split signaling_state.split
        intro!: enters_task_rules before_task.keeps_basic enters_server_message enters_task_never [OF preserves_pure(1)]
          enters_task_never [OF preserves_pure(2)] enters_task_never [OF preserves_pure(3)]
          enters_on_sig [OF enters_initiator_peer_message enters_responder_peer_message]
          preserves_on_sig_common before_task.keeps_send_drop_responder)
  then have peer: "\<exists>acts. r = Ok acts \<and> HandshakeDone \<in> set acts"
    if "handle_handshake_peer_message E bbox s = (r, s')"
    using that assms(2-) by (blast dest: enters_task_doneD)
  show ?thesis
  proof (cases "is_server (nonce_source (bb_nonce bbox))")
    case True
    with assms show ?thesis
      using enters_task_doneD [OF enters_server_message, of E _ _ s r s']
      by (cases "decode_server_message E (sig_common s) bbox")
        (auto simp: dispatch_message_def bindS_def getS_def liftO_def)
  next
    case False
    with assms peer show ?thesis
      by (cases "cm_signaling_state (sig_common s)") (simp_all add: dispatch_message_def bindS_def getS_def)
  qed
qed

end
