(* ===== verification/Authentication.thy ===== *)
theory Authentication
  imports Runs Actions
begin

text \<open>
  What the client has checked when a handshake is reported as done: the server handshake is
  done only after a decrypted \<open>server-auth\<close> message with our cookie and, when the server key
  is known, keys signed by it; the peer handshake only after a decrypted \<open>auth\<close> message of
  the peer with our cookie, from the peer with the trusted key if there is one, with a task
  that both sides offer.
\<close>

section \<open>The server handshake\<close>

text \<open>The signed keys of a \<open>server-auth\<close> message vouch for the session key in use.\<close>

definition signed_keys_vouch ::
  "('t, 'v, 'z) env_scheme \<Rightarrow> server_auth \<Rightarrow> nonce option \<Rightarrow> 't common \<Rightarrow> public_key \<Rightarrow> bool" where
  "signed_keys_vouch E msg n c pk \<longleftrightarrow>
     (\<exists>nonce signed keys. n = Some nonce \<and> sa_signed_keys msg = Some signed \<and>
        signed_keys_decrypt E signed (cm_permanent_keypair c) pk nonce = Ok keys \<and>
        sc_session_key (cm_server c) = Some (server_public_session_key keys) \<and>
        client_public_permanent_key keys = public_key (cm_permanent_keypair c))"

lemma check_signed_keys_Ok_iff:
  "check_signed_keys E msg n c = Ok u \<longleftrightarrow>
     (\<forall>pk. sc_permanent_key (cm_server c) = Some pk \<longrightarrow> signed_keys_vouch E msg n c pk)"
  by (cases "sc_permanent_key (cm_server c)")
    (auto simp: check_signed_keys_def signed_keys_vouch_def bindO_eq_Ok_iff)

lemma server_auth_checks_Ok_iff:
  "fst (server_auth_checks E msg n c) = Ok u \<longleftrightarrow>
     cm_identity c \<noteq> ClientUnknown \<and> sa_your_cookie msg = cookie_ours (sc_cookie_pair (cm_server c)) \<and>
     (\<forall>pk. sc_permanent_key (cm_server c) = Some pk \<longrightarrow> signed_keys_vouch E msg n c pk)"
  unfolding check_signed_keys_Ok_iff [of E msg n c u, symmetric]
  by (auto simp: server_auth_checks_def validate_repeated_cookie_def proc_defs split: prod.splits outcome.splits)

interpretation server_state: common_frame "\<lambda>c. sc_handshake_state (cm_server c) = st" for st
  by unfold_locales simp_all

interpretation server_state_valid: validation_frame "\<lambda>c. sc_handshake_state (cm_server c) = st" for st
  by unfold_locales simp_all

lemma server_hello_not_done:
  assumes "sc_handshake_state (cm_server c) = ServerNew"
  shows "sc_handshake_state (cm_server (snd (handle_server_hello E key c))) \<noteq> ServerDone"
proof -
  let ?J = "\<lambda>c. sc_handshake_state (cm_server c) \<noteq> ServerDone"
  have "wp (handle_server_hello E key) (\<lambda>_. ?J) (\<lambda>_. ?J) (\<lambda>_. ?J) c"
    unfolding handle_server_hello_def set_server_handshake_state_def
    using assms
    by (auto simp: wp_simps intro!: wp_preserves [OF server_state.keeps_send_client_hello [of ServerNew]]
        wp_preserves [OF server_state.keeps_send_client_auth [of ServerNew]])
  then show ?thesis by (rule wp_sndD)
qed

lemma on_sig_common_checks:
  "on_sig_common (server_auth_checks E msg n) s = (fst (server_auth_checks E msg n (sig_common s)), s)"
  by (cases s) (simp_all add: on_sig_common_def on_sig_def on_common_def on_responder_common_def
      zoomS_def case_prod_beta server_auth_checks_pure)

lemma server_auth_done:
  assumes "sc_handshake_state (cm_server (sig_common s)) \<noteq> ServerDone"
    and "sc_handshake_state (cm_server (sig_common (snd (handle_server_auth E msg n s)))) = ServerDone"
  shows "fst (server_auth_checks E msg n (sig_common s)) = Ok ()"
  using assms
  by (cases "fst (server_auth_checks E msg n (sig_common s))")
    (auto simp: handle_server_auth_def thenS_def bindS_def on_sig_common_checks)

lemma server_done_step:
  assumes "sc_handshake_state (cm_server (sig_common s)) \<noteq> ServerDone"
    and "sc_handshake_state (cm_server (sig_common (snd (handle_server_message E obox n s)))) = ServerDone"
  shows "\<exists>msg. ob_message obox = ServerAuth msg \<and> sc_handshake_state (cm_server (sig_common s)) = ClientInfoSent \<and>
    fst (server_auth_checks E msg n (sig_common s)) = Ok ()"
  using assms server_hello_not_done [of "sig_common s" E] server_auth_done [OF assms(1), of E _ n]
  unfolding handle_server_message_def bindS_def getS_def
  by (cases "sc_handshake_state (cm_server (sig_common s))"; cases "ob_message obox")
    (simp_all add: failS_def sig_common_on_sig_common)

lemma server_state_send_drop:
  "sc_handshake_state (cm_server (sig_common (snd (on_sig_common (send_drop_responder E a r) s)))) =
     sc_handshake_state (cm_server (sig_common s))"
  using server_state.keeps_send_drop_responder [of "sc_handshake_state (cm_server (sig_common s))" E a r]
  by (simp add: sig_common_on_sig_common preserves_def)

lemma handshake_message_not_done:
  assumes "cm_signaling_state (sig_common s) \<noteq> PeerHandshake"
  shows "sc_handshake_state (cm_server (sig_common (snd (handle_handshake_peer_message E bbox s)))) =
    sc_handshake_state (cm_server (sig_common s))"
proof (rule wp_sndD)
  let ?J = "\<lambda>t. sc_handshake_state (cm_server (sig_common t)) = sc_handshake_state (cm_server (sig_common s))"
  have drop: "wp (on_sig_common (send_drop_responder E a r)) (\<lambda>_. ?J) (\<lambda>_. ?J) (\<lambda>_. ?J) s" for a r
    by (rule wp_snd) (rule server_state_send_drop)
  show "wp (handle_handshake_peer_message E bbox) (\<lambda>_. ?J) (\<lambda>_. ?J) (\<lambda>_. ?J) s"
    unfolding handle_handshake_peer_message_def
    using assms
    by (auto simp: wp_simps split: outcome.split signaling_state.split intro!: wp_mono [OF drop])
qed

lemma task_message_state: "snd (handle_task_peer_message E bbox s) = s"
proof -
  have "preserves (\<lambda>t. t = s) (handle_task_peer_message E bbox)"
    unfolding handle_task_peer_message_def by (intro pres_rules)
  then show ?thesis by (simp add: preserves_def)
qed

text \<open>Only a message of the server can complete the server handshake.\<close>

lemma dispatch_server_done:
  assumes "phase_ok (sig_common s)" "sc_handshake_state (cm_server (sig_common s)) \<noteq> ServerDone"
    and "sc_handshake_state (cm_server (sig_common (snd (dispatch_message E bbox s)))) = ServerDone"
  shows "is_server (nonce_source (bb_nonce bbox)) \<and> (\<exists>obox msg.
    decode_server_message E (sig_common s) bbox = Ok obox \<and> ob_message obox = ServerAuth msg \<and>
    sc_handshake_state (cm_server (sig_common s)) = ClientInfoSent \<and>
    fst (server_auth_checks E msg (Some (bb_nonce bbox)) (sig_common s)) = Ok ())"
proof (cases "is_server (nonce_source (bb_nonce bbox))")
  case False
  moreover have "cm_signaling_state (sig_common s) = ServerHandshake"
    using assms(1,2) by (auto simp: phase_ok_def)
  ultimately show ?thesis
    using assms handshake_message_not_done [of s E bbox]
    by (simp add: dispatch_message_def bindS_def getS_def)
next
  case True
  show ?thesis
  proof (cases "decode_server_message E (sig_common s) bbox")
    case (Ok obox)
    from True Ok assms(3) server_done_step [OF assms(2), of E obox
        "if get_type (ob_message obox) = ''server-auth'' then Some (bb_nonce bbox) else None"]
    show ?thesis by (auto simp: dispatch_message_def bindS_def getS_def liftO_def)
  qed (use True assms in \<open>simp_all add: dispatch_message_def bindS_def getS_def liftO_def\<close>)
qed

text \<open>What validation leaves alone.\<close>

lemma peer_at_server_context:
  "peer_at s a = Some (PeerServer c) \<Longrightarrow> c = cm_server (sig_common s)"
  by (cases s; cases a rule: address_cases)
    (auto simp: peer_at_def responder_peer_at_simps elim!: initiator_peer_at_cases)

lemma validated_common:
  assumes "validate_nonce n s = (Ok u, t)"
  shows "cm_signaling_state (sig_common t) = cm_signaling_state (sig_common s)"
    "cm_permanent_keypair (sig_common t) = cm_permanent_keypair (sig_common s)"
    "cm_auth_provider (sig_common t) = cm_auth_provider (sig_common s)"
    "cm_tasks (sig_common t) = cm_tasks (sig_common s)"
    "sc_handshake_state (cm_server (sig_common t)) = sc_handshake_state (cm_server (sig_common s))"
    "sc_session_key (cm_server (sig_common t)) = sc_session_key (cm_server (sig_common s))"
    "sc_permanent_key (cm_server (sig_common t)) = sc_permanent_key (cm_server (sig_common s))"
    "cookie_ours (sc_cookie_pair (cm_server (sig_common t))) = cookie_ours (sc_cookie_pair (cm_server (sig_common s)))"
proof -
  obtain p i where at: "peer_at s (nonce_source n) = Some p"
    and t: "t = put_peer_with_address (nonce_source n) (note_nonce n p) (set_identity i s)"
    using assms unfolding validate_nonce_Ok_iff by blast
  have id: "sig_common (set_identity i s) = (sig_common s)\<lparr>cm_identity := i\<rparr>" by (cases s) simp_all
  have server: "c = cm_server (sig_common s)" if "p = PeerServer c" for c
    using peer_at_server_context at that by simp
  show "cm_signaling_state (sig_common t) = cm_signaling_state (sig_common s)"
    "cm_permanent_keypair (sig_common t) = cm_permanent_keypair (sig_common s)"
    "cm_auth_provider (sig_common t) = cm_auth_provider (sig_common s)"
    "cm_tasks (sig_common t) = cm_tasks (sig_common s)"
    "sc_handshake_state (cm_server (sig_common t)) = sc_handshake_state (cm_server (sig_common s))"
    "sc_session_key (cm_server (sig_common t)) = sc_session_key (cm_server (sig_common s))"
    "sc_permanent_key (cm_server (sig_common t)) = sc_permanent_key (cm_server (sig_common s))"
    "cookie_ours (sc_cookie_pair (cm_server (sig_common t))) = cookie_ours (sc_cookie_pair (cm_server (sig_common s)))"
    unfolding t using server
    by (cases p; simp add: note_nonce_def sig_common_put_peer id)+
qed

lemma handle_message_cases:
  obtains (accepted) t where "validate_nonce (bb_nonce bbox) s = (Ok (), t)"
      "handle_message E bbox s = dispatch_message E bbox t"
    | (refused) e t where "validate_nonce (bb_nonce bbox) s = (Err e, t)"
      "snd (handle_message E bbox s) = t"
    | (panicked) p t where "validate_nonce (bb_nonce bbox) s = (Panic p, t)"
      "snd (handle_message E bbox s) = t"
proof (cases "validate_nonce (bb_nonce bbox) s")
  case (Pair r t)
  then show thesis
    by (cases r) (auto simp: handle_message_def split: validation_error.split intro: that)
qed

lemma validate_server_state:
  "validate_nonce n s = (r, t) \<Longrightarrow>
     sc_handshake_state (cm_server (sig_common t)) = sc_handshake_state (cm_server (sig_common s))"
  by (rule preservesD [OF server_state_valid.keeps_validate_nonce refl])

text \<open>
  C7. The server is authenticated. In any state that satisfies the invariant, the only calls
  that complete the server handshake are those with a valid message of the server, encrypted
  with our permanent key and the session key the server announced, whose content is a
  \<open>server-auth\<close> message that repeats our cookie; and when the permanent key of the server is
  known, the message carries keys which that key signed for this very nonce, namely the
  session key in use and our own permanent key.
\<close>

theorem server_handshake_authenticated:
  assumes inv: "sig_inv key s" and step: "handle_message E bbox s = (r, s')"
    and before: "sc_handshake_state (cm_server (sig_common s)) \<noteq> ServerDone"
    and after: "sc_handshake_state (cm_server (sig_common s')) = ServerDone"
  shows "\<exists>t k obox msg. validate_nonce (bb_nonce bbox) s = (Ok (), t) \<and>
    is_server (nonce_source (bb_nonce bbox)) \<and>
    sc_session_key (cm_server (sig_common s)) = Some k \<and>
    open_box_decrypt E bbox (cm_permanent_keypair (sig_common s)) k = Ok obox \<and>
    ob_message obox = ServerAuth msg \<and>
    sa_your_cookie msg = cookie_ours (sc_cookie_pair (cm_server (sig_common s))) \<and>
    (\<forall>pk. sc_permanent_key (cm_server (sig_common s)) = Some pk \<longrightarrow>
       signed_keys_vouch E msg (Some (bb_nonce bbox)) (sig_common s) pk)"
  using step
proof (cases rule: handle_message_cases [of bbox s E])
  case (accepted t)
  note v = validated_common [OF accepted(1)]
  have "phase_ok (sig_common t)"
    using phase.keeps_validate_nonce inv accepted(1) preservesD [of "\<lambda>s. phase_ok (sig_common s)"]
    by (metis sig_inv_def)
  moreover have "snd (dispatch_message E bbox t) = s'" using accepted(2) step by (metis snd_conv)
  ultimately obtain obox msg where d: "is_server (nonce_source (bb_nonce bbox))"
    "decode_server_message E (sig_common t) bbox = Ok obox" "ob_message obox = ServerAuth msg"
    "sc_handshake_state (cm_server (sig_common s)) = ClientInfoSent"
    "fst (server_auth_checks E msg (Some (bb_nonce bbox)) (sig_common t)) = Ok ()"
    using dispatch_server_done [of t E bbox] before after v(5) by auto
  have vouch: "signed_keys_vouch E msg n (sig_common t) pk = signed_keys_vouch E msg n (sig_common s) pk" for n pk
    by (simp add: signed_keys_vouch_def v)
  show ?thesis
    using accepted(1) d v vouch
    by (auto simp: decode_server_message_def server_auth_checks_Ok_iff split: option.splits)
qed (use before after in \<open>auto dest: validate_server_state\<close>)

lemma scenario_states_inv:
  "sig_inv (scenario_key 3) (snd initiator_greeted)" "sig_inv (scenario_key 3) (snd initiator_keyed)"
  "sig_inv (scenario_key 3) (snd responder_keyed)"
  using sig_inv_run [OF scenario_order_laws] scenario_inv scenario_runs rtranclp_trans by metis+

theorem server_handshake_authenticated_witness:
  "\<exists>k obox msg. open_box_decrypt scenario_env (server_box 1 6 5)
      (cm_permanent_keypair (sig_common (snd initiator_greeted))) k = Ok obox \<and>
    ob_message obox = ServerAuth msg \<and>
    signed_keys_vouch scenario_env msg (Some (bb_nonce (server_box 1 6 5)))
      (sig_common (snd initiator_greeted)) (scenario_key 6)"
proof -
  obtain r s' where run: "handle_message scenario_env (server_box 1 6 5) (snd initiator_greeted) = (r, s')"
    by fastforce
  then have "snd initiator_joined = s'" by (cases r) (simp_all add: initiator_joined_def)
  moreover have "sc_handshake_state (cm_server (sig_common (snd initiator_joined))) = ServerDone" by code_simp
  moreover have "sc_handshake_state (cm_server (sig_common (snd initiator_greeted))) \<noteq> ServerDone" by code_simp
  moreover have "sc_permanent_key (cm_server (sig_common (snd initiator_greeted))) = Some (scenario_key 6)"
    by code_simp
  ultimately show ?thesis
    using server_handshake_authenticated [OF scenario_states_inv(1) run] by auto
qed

section \<open>The peer handshake\<close>

lemma drop_other_responders_OkD:
  "drop_other_responders E s = (Ok drops, s') \<Longrightarrow> isg_responders s' = hm_empty"
  by (auto simp: drop_other_responders_def ok_iffs)

lemma proposed_tasks_Ok: "proposed_tasks msg = Ok names \<Longrightarrow> au_tasks msg = Some names \<and> au_task msg = None"
  by (auto simp: proposed_tasks_def bindO_eq_Ok_iff split: option.splits if_splits)

text \<open>What the initiator knows of the responder it chooses.\<close>

definition responder_vouched ::
  "('t, 'v, 'z) env_scheme \<Rightarrow> 't common \<Rightarrow> responder_context \<Rightarrow> 'v auth \<Rightarrow> bool" where
  "responder_vouched E c r msg \<longleftrightarrow>
     au_your_cookie msg = cookie_ours (rc_cookie_pair r) \<and>
     (\<exists>tasks names task. cm_tasks c = Some tasks \<and> au_tasks msg = Some names \<and>
        choose_shared_task E tasks names = Some task)"

lemma initiator_auth_reply_keypair:
  "initiator_auth_reply E i t r = (Ok b, q) \<Longrightarrow> rc_keypair q = rc_keypair r"
  by (auto simp: initiator_auth_reply_def set_responder_handshake_state_def ok_iffs)

lemma initiator_finish_auth_OkD:
  assumes "initiator_finish_auth E r t drops s = (Ok acts, s')"
  shows "cm_signaling_state (isg_common s') = TaskState \<and> isg_responders s' = isg_responders s \<and>
    (\<exists>q. isg_responder s' = Some q \<and> rc_address q = rc_address r \<and> rc_session_key q = rc_session_key r \<and>
       rc_permanent_key q = rc_permanent_key r \<and> rc_keypair q = rc_keypair r)"
  using assms
  by (auto simp: initiator_finish_auth_def ok_iffs on_common_def store_task_def set_signaling_state_def
      split: if_splits dest: initiator_auth_reply_OkD initiator_auth_reply_keypair)

lemma not_done_no_shared_task: "emits (\<lambda>a. a \<noteq> HandshakeDone) (no_shared_task E r)"
  unfolding emits_def no_shared_task_def by (auto simp: ok_iffs split: outcome.splits)

lemma initiator_auth_done:
  assumes run: "initiator_handle_auth E msg a s = (Ok acts, s')" and "HandshakeDone \<in> set acts"
  shows "\<exists>r q. hm_get (isg_responders s) a = Some r \<and> responder_vouched E (isg_common s) r msg \<and>
    cm_signaling_state (isg_common s') = TaskState \<and> isg_responders s' = hm_empty \<and>
    isg_responder s' = Some q \<and> rc_address q = rc_address r \<and> rc_session_key q = rc_session_key r \<and>
    rc_permanent_key q = rc_permanent_key r \<and> rc_keypair q = rc_keypair r"
proof -
  from run obtain r names tasks t where r: "hm_get (isg_responders s) a = Some r"
    and vouch: "au_your_cookie msg = cookie_ours (rc_cookie_pair r)" "proposed_tasks msg = Ok names"
      "cm_tasks (isg_common s) = Some tasks"
    and rest: "(case choose_shared_task E tasks names of
        None \<Rightarrow> no_shared_task E r
      | Some task \<Rightarrow>
          bindS (liftO (ok_or (SigCrash m_task_data_not_found) (hm_get (au_data msg) (task_name E task)))) (\<lambda>data.
          bindS (liftO (init_task E task data)) (\<lambda>chosen_task.
          bindS (drop_other_responders E) (\<lambda>drops.
            initiator_finish_auth E r chosen_task drops)))) t = (Ok acts, s')"
    by (auto simp: initiator_handle_auth_def ok_iffs validate_repeated_cookie_def take_tasks_def on_common_def)
  show ?thesis
  proof (cases "choose_shared_task E tasks names")
    case None
    with rest assms(2) not_doneD [OF not_done_no_shared_task, of E r t acts s'] show ?thesis by simp
  next
    case (Some task)
    with vouch have "responder_vouched E (isg_common s) r msg"
      by (auto simp: responder_vouched_def dest: proposed_tasks_Ok)
    with r rest Some show ?thesis
      by (auto simp: ok_iffs dest!: initiator_finish_auth_OkD drop_other_responders_OkD)
  qed
qed

lemma initiator_peer_message_done:
  assumes run: "initiator_handle_peer_message E obox s = (Ok acts, s')" and "HandshakeDone \<in> set acts"
  shows "\<exists>r q msg. hm_get (isg_responders s) (nonce_source (ob_nonce obox)) = Some r \<and>
    rc_handshake_state r = ResponderKeySent \<and> ob_message obox = Auth msg \<and>
    responder_vouched E (isg_common s) r msg \<and>
    cm_signaling_state (isg_common s') = TaskState \<and> isg_responders s' = hm_empty \<and>
    isg_responder s' = Some q \<and> rc_address q = rc_address r \<and> rc_session_key q = rc_session_key r \<and>
    rc_permanent_key q = rc_permanent_key r \<and> rc_keypair q = rc_keypair r"
proof -
  let ?a = "nonce_source (ob_nonce obox)"
  from run obtain r where r: "hm_get (isg_responders s) ?a = Some r"
    and rest: "(case (rc_handshake_state r, ob_message obox) of
          (ResponderNew, Token key) \<Rightarrow> initiator_handle_token key ?a
        | (ResponderTokenReceived, Key key) \<Rightarrow> initiator_handle_key E key ?a
        | (ResponderKeySent, Auth msg) \<Rightarrow> initiator_handle_auth E msg ?a
        | (st, message) \<Rightarrow>
            failS (SigInvalidStateTransition (m_responder_transition (get_type message) ?a st))) s = (Ok acts, s')"
    by (auto simp: initiator_handle_peer_message_def Let_def ok_iffs)
  show ?thesis
    using rest r assms(2) initiator_auth_done [of E _ ?a s acts s']
      not_doneD [OF not_done.initiator_token, of _ ?a s acts s']
      not_doneD [OF not_done.initiator_key, of E _ ?a s acts s']
    by (cases "rc_handshake_state r"; cases "ob_message obox") (simp_all add: failS_def)
qed

lemma open_box_decrypt_nonce: "open_box_decrypt E b kp k = Ok ob \<Longrightarrow> ob_nonce ob = bb_nonce b"
  by (auto simp: box_defs bindO_eq_Ok_iff)

lemma handshake_message_done:
  assumes run: "handle_handshake_peer_message E bbox s = (Ok acts, s')" and hd: "HandshakeDone \<in> set acts"
  shows "\<exists>obox. decode_peer_message E bbox s = Ok obox \<and> cm_signaling_state (sig_common s) = PeerHandshake \<and>
    on_sig (initiator_handle_peer_message E obox) (responder_handle_peer_message E obox) s = (Ok acts, s')"
proof (cases "decode_peer_message E bbox s")
  case (Ok obox)
  with run hd not_doneD [OF not_done.server_message, of E obox None s acts s'] show ?thesis
    by (cases "cm_signaling_state (sig_common s)")
      (auto simp: handle_handshake_peer_message_def ok_iffs if_else_proc split: if_splits)
next
  case (Err e)
  with run hd not_doneD [OF not_done.could_not_decrypt_drop, of E "nonce_source (bb_nonce bbox)"
      DropInitiatorCouldNotDecrypt s acts s'] show ?thesis
    by (cases "e = SigInitiatorCouldNotDecrypt")
      (auto simp: handle_handshake_peer_message_def thenS_eq_Ok_iff bindS_eq_Ok_iff [of "getS _"])
next
  case (Panic p)
  with run show ?thesis by (auto simp: handle_handshake_peer_message_def ok_iffs)
qed

lemma dispatch_done:
  assumes run: "dispatch_message E bbox s = (Ok acts, s')" and hd: "HandshakeDone \<in> set acts"
  shows "\<exists>obox. decode_peer_message E bbox s = Ok obox \<and> cm_signaling_state (sig_common s) = PeerHandshake \<and>
    on_sig (initiator_handle_peer_message E obox) (responder_handle_peer_message E obox) s = (Ok acts, s')"
proof (cases "is_server (nonce_source (bb_nonce bbox))")
  case True
  with run hd not_doneD [OF not_done.server_message, of E _ _ s acts s'] show ?thesis
    by (auto simp: dispatch_message_def ok_iffs)
next
  case False
  with run hd handshake_message_done [of E bbox s acts s'] not_doneD [OF not_done.task_message, of E bbox s acts s']
  show ?thesis
    by (cases "cm_signaling_state (sig_common s)") (auto simp: dispatch_message_def ok_iffs)
qed

lemma initiator_decode_nonce:
  "initiator_decode_peer_message E s bbox = Ok obox \<Longrightarrow> ob_nonce obox = bb_nonce bbox"
  by (auto simp: initiator_decode_peer_message_def box_defs Let_def bindO_eq_Ok_iff
      split: if_splits option.splits responder_handshake_state.splits auth_provider.splits)

lemma initiator_decode_session:
  assumes "initiator_decode_peer_message E s bbox = Ok obox"
    "hm_get (isg_responders s) (nonce_source (bb_nonce bbox)) = Some r" "rc_handshake_state r = ResponderKeySent"
  shows "\<exists>k. rc_session_key r = Some k \<and> open_box_decrypt E bbox (rc_keypair r) k = Ok obox"
  using assms by (auto simp: initiator_decode_peer_message_def Let_def bindO_eq_Ok_iff split: if_splits)

lemma handle_message_done:
  assumes "handle_message E bbox s = (Ok acts, s')" "HandshakeDone \<in> set acts"
  shows "\<exists>t. validate_nonce (bb_nonce bbox) s = (Ok (), t) \<and> dispatch_message E bbox t = (Ok acts, s')"
proof (cases "validate_nonce (bb_nonce bbox) s")
  case (Pair r t)
  with assms show ?thesis by (cases r) (auto simp: handle_message_def split: validation_error.splits)
qed

lemma validate_same_role:
  "validate_nonce n (SignalingInitiator i) = (r, t) \<Longrightarrow> \<exists>j. t = SignalingInitiator j"
  "validate_nonce n (SignalingResponder p) = (r, t) \<Longrightarrow> \<exists>q. t = SignalingResponder q"
  using preservesD [OF role_of_validate_nonce refl, of n "SignalingInitiator i" r t]
    preservesD [OF role_of_validate_nonce refl, of n "SignalingResponder p" r t]
  by (cases t; simp)+

text \<open>
  C1. The responder that an initiator ends up with is authenticated. Whenever a call reports
  the end of the handshake, the message was a valid \<open>auth\<close> message of a listed responder,
  encrypted with the session keys exchanged with that responder, repeating our cookie and
  offering a task we have; the permanent key of that responder is the trusted one if there is
  one, and differs from its session key. The initiator is then in the task state with exactly
  this responder and has forgotten all others.
\<close>

theorem responder_authenticated:
  assumes inv: "sig_inv key (SignalingInitiator i)"
    and step: "handle_message E bbox (SignalingInitiator i) = (Ok acts, s')"
    and hd: "HandshakeDone \<in> set acts"
  shows "\<exists>t r k obox msg i' q.
    validate_nonce (bb_nonce bbox) (SignalingInitiator i) = (Ok (), SignalingInitiator t) \<and>
    hm_get (isg_responders t) (nonce_source (bb_nonce bbox)) = Some r \<and> rc_session_key r = Some k \<and>
    open_box_decrypt E bbox (rc_keypair r) k = Ok obox \<and> ob_message obox = Auth msg \<and>
    responder_vouched E (isg_common i) r msg \<and>
    rc_permanent_key r \<noteq> None \<and> rc_permanent_key r \<noteq> Some k \<and>
    (trusted_key (isg_common i) \<noteq> None \<longrightarrow> rc_permanent_key r = trusted_key (isg_common i)) \<and>
    s' = SignalingInitiator i' \<and> cm_signaling_state (isg_common i') = TaskState \<and>
    isg_responders i' = hm_empty \<and> isg_responder i' = Some q \<and>
    rc_address q = nonce_source (bb_nonce bbox) \<and> rc_permanent_key q = rc_permanent_key r \<and>
    rc_session_key q = Some k \<and> rc_keypair q = rc_keypair r"
proof -
  from handle_message_done [OF step hd] obtain t0 where
    v0: "validate_nonce (bb_nonce bbox) (SignalingInitiator i) = (Ok (), t0)"
    and d0: "dispatch_message E bbox t0 = (Ok acts, s')" by blast
  from validate_same_role(1) [OF v0] obtain t where t: "t0 = SignalingInitiator t" by blast
  note v = v0 [unfolded t] and d = d0 [unfolded t]
  note same = validated_common [OF v, simplified]
  have "role_inv key (SignalingInitiator t)"
    using preservesD [OF role_inv_validate_nonce _ v] inv by (simp add: sig_inv_def)
  then have inv_t: "initiator_inv t" by simp
  from dispatch_done [OF d hd] obtain obox i' where
    dec: "initiator_decode_peer_message E t bbox = Ok obox"
    and run: "initiator_handle_peer_message E obox t = (Ok acts, i')" and s': "s' = SignalingInitiator i'"
    by (auto simp: on_sig_Ok_iff)
  from initiator_peer_message_done [OF run hd] obtain r q msg where
    r: "hm_get (isg_responders t) (nonce_source (ob_nonce obox)) = Some r"
    "rc_handshake_state r = ResponderKeySent" "ob_message obox = Auth msg"
    "responder_vouched E (isg_common t) r msg"
    and q: "cm_signaling_state (isg_common i') = TaskState" "isg_responders i' = hm_empty"
    "isg_responder i' = Some q" "rc_address q = rc_address r" "rc_session_key q = rc_session_key r"
    "rc_permanent_key q = rc_permanent_key r" "rc_keypair q = rc_keypair r" by blast
  note nonce = initiator_decode_nonce [OF dec]
  from initiator_decode_session [OF dec] r(1,2) nonce obtain k where k: "rc_session_key r = Some k"
    "open_box_decrypt E bbox (rc_keypair r) k = Ok obox" by auto
  from inv_t r(1) have "listed_ok (trusted_key (isg_common t)) (isg_responder_counter t)
      (nonce_source (ob_nonce obox)) r" by (simp add: initiator_inv_def responders_ok_def)
  then have "rc_address r = nonce_source (bb_nonce bbox)" "rc_permanent_key r \<noteq> None"
    "rc_permanent_key r \<noteq> Some k"
    "trusted_key (isg_common i) \<noteq> None \<longrightarrow> rc_permanent_key r = trusted_key (isg_common i)"
    using r(2) k(1) same by (auto simp: listed_ok_def responder_keys_ok_def nonce trusted_key_def)
  moreover have "responder_vouched E (isg_common i) r msg"
    using r(4) same by (simp add: responder_vouched_def)
  ultimately show ?thesis
    using v r k q s' nonce by auto
qed

lemma deliver_one: "fst (deliver E [b] s) \<noteq> [] \<Longrightarrow> handle_message E b s = (Ok (fst (deliver E [b] s)), snd (deliver E [b] s))"
  by (cases "handle_message E b s"; cases "fst (handle_message E b s)") auto

theorem responder_authenticated_witness:
  "\<exists>i i' q. snd initiator_keyed = SignalingInitiator i \<and> snd initiator_finished = SignalingInitiator i' \<and>
     isg_responder i' = Some q \<and> rc_address q = 2 \<and> rc_permanent_key q = Some (scenario_key 5)"
proof -
  have "role_of (snd initiator_keyed) = RoleInitiator" by code_simp
  then obtain i where i: "snd initiator_keyed = SignalingInitiator i" by (cases "snd initiator_keyed") auto
  have run: "handle_message scenario_env responder_auth_box (SignalingInitiator i) =
      (Ok (fst initiator_finished), snd initiator_finished)"
    using deliver_one [of scenario_env responder_auth_box "snd initiator_keyed"] scenario_relay(4)
    by (simp add: initiator_finished_def i)
  have "trusted_key (sig_common (snd initiator_keyed)) = Some (scenario_key 5)"
    "nonce_source (bb_nonce responder_auth_box) = 2" by code_simp+
  then show ?thesis
    using responder_authenticated [OF scenario_states_inv(2) [unfolded i] run] scenario_relay(4) i by auto
qed

section \<open>The peer handshake of the responder\<close>

text \<open>What the responder knows of the \<open>auth\<close> message of the initiator.\<close>

definition initiator_vouched ::
  "('t, 'v, 'z) env_scheme \<Rightarrow> 't common \<Rightarrow> initiator_context \<Rightarrow> 'v auth \<Rightarrow> bool" where
  "initiator_vouched E c i msg \<longleftrightarrow>
     au_your_cookie msg = cookie_ours (ic_cookie_pair i) \<and> au_tasks msg = None \<and>
     (\<exists>tasks task data. cm_tasks c = Some tasks \<and> task \<in> set tasks \<and>
        au_task msg = Some (task_name E task) \<and> hm_get (au_data msg) (task_name E task) = Some data)"

lemma set_signaling_state_Ok_iff:
  "set_signaling_state st c = (Ok u, c') \<longleftrightarrow>
     c' = c\<lparr>cm_signaling_state := st\<rparr> \<and>
     (cm_signaling_state c = st \<or> may_transition_to (cm_signaling_state c) st)"
  by (cases c) (auto simp: set_signaling_state_def)

lemma responder_auth_done:
  assumes "responder_handle_auth E msg a s = (Ok acts, s')"
  shows "initiator_vouched E (rsg_common s) (rsg_initiator s) msg \<and>
    cm_signaling_state (rsg_common s') = TaskState \<and>
    rsg_initiator s' = (rsg_initiator s)\<lparr>ic_handshake_state := InitiatorAuthReceived\<rparr>"
  using assms
  by (auto simp: responder_handle_auth_def ok_iffs validate_repeated_cookie_def take_tasks_def
      on_responder_common_def store_task_def set_signaling_state_Ok_iff set_initiator_handshake_state_def
      initiator_vouched_def find_Some_iff in_set_conv_nth split: option.splits if_splits)

lemma responder_peer_message_done:
  assumes run: "responder_handle_peer_message E obox s = (Ok acts, s')" and hd: "HandshakeDone \<in> set acts"
  shows "\<exists>msg. ic_handshake_state (rsg_initiator s) = InitiatorAuthSent \<and> ob_message obox = Auth msg \<and>
    initiator_vouched E (rsg_common s) (rsg_initiator s) msg \<and>
    cm_signaling_state (rsg_common s') = TaskState \<and>
    rsg_initiator s' = (rsg_initiator s)\<lparr>ic_handshake_state := InitiatorAuthReceived\<rparr>"
  using run hd responder_auth_done [of E _ _ s acts s']
    not_doneD [OF not_done.responder_key, of E _ _ s acts s']
    not_doneD [OF not_done.responder_close, of _ s acts s']
  unfolding responder_handle_peer_message_def bindS_def getS_def
  by (cases "ic_handshake_state (rsg_initiator s)"; cases "ob_message obox") (simp_all add: failS_def)

text \<open>
  C2. The initiator that a responder ends up with is authenticated. Whenever a call reports
  the end of the handshake, the message was a valid \<open>auth\<close> message of the initiator,
  encrypted with the session keys, repeating our cookie and naming one of our tasks; the
  session key was received encrypted for the permanent key that was given to the constructor,
  from which it differs. The responder is then in the task state.
\<close>

theorem initiator_authenticated:
  assumes inv: "sig_inv key (SignalingResponder p)"
    and step: "handle_message E bbox (SignalingResponder p) = (Ok acts, s')"
    and hd: "HandshakeDone \<in> set acts"
  shows "\<exists>t k obox msg p'.
    validate_nonce (bb_nonce bbox) (SignalingResponder p) = (Ok (), SignalingResponder t) \<and>
    nonce_source (bb_nonce bbox) = 1 \<and>
    ic_session_key (rsg_initiator t) = Some k \<and> k \<noteq> key \<and> ic_permanent_key (rsg_initiator t) = key \<and>
    open_box_decrypt E bbox (ic_keypair (rsg_initiator t)) k = Ok obox \<and> ob_message obox = Auth msg \<and>
    initiator_vouched E (rsg_common p) (rsg_initiator t) msg \<and>
    s' = SignalingResponder p' \<and> cm_signaling_state (rsg_common p') = TaskState \<and>
    rsg_initiator p' = (rsg_initiator t)\<lparr>ic_handshake_state := InitiatorAuthReceived\<rparr>"
proof -
  from handle_message_done [OF step hd] obtain t0 where
    v0: "validate_nonce (bb_nonce bbox) (SignalingResponder p) = (Ok (), t0)"
    and d0: "dispatch_message E bbox t0 = (Ok acts, s')" by blast
  from validate_same_role(2) [OF v0] obtain t where t: "t0 = SignalingResponder t" by blast
  note v = v0 [unfolded t] and d = d0 [unfolded t]
  note same = validated_common [OF v, simplified]
  have "role_inv key (SignalingResponder t)"
    using preservesD [OF role_inv_validate_nonce _ v] inv by (simp add: sig_inv_def)
  then have inv_t: "responder_inv key t" by simp
  from dispatch_done [OF d hd] obtain obox p' where
    dec: "responder_decode_peer_message E t bbox = Ok obox"
    and run: "responder_handle_peer_message E obox t = (Ok acts, p')" and s': "s' = SignalingResponder p'"
    by (auto simp: on_sig_Ok_iff)
  from responder_peer_message_done [OF run hd] obtain msg where
    r: "ic_handshake_state (rsg_initiator t) = InitiatorAuthSent" "ob_message obox = Auth msg"
    "initiator_vouched E (rsg_common t) (rsg_initiator t) msg" "cm_signaling_state (rsg_common p') = TaskState"
    "rsg_initiator p' = (rsg_initiator t)\<lparr>ic_handshake_state := InitiatorAuthReceived\<rparr>" by blast
  from dec r(1) obtain k where k: "nonce_source (bb_nonce bbox) = 1" "ic_session_key (rsg_initiator t) = Some k"
    "open_box_decrypt E bbox (ic_keypair (rsg_initiator t)) k = Ok obox"
    by (auto simp: responder_decode_peer_message_def bindO_eq_Ok_iff is_initiator_def split: if_splits)
  have "k \<noteq> key" "ic_permanent_key (rsg_initiator t) = key"
    using inv_t r(1) k(2) by (auto simp: responder_inv_def Let_def)
  moreover have "initiator_vouched E (rsg_common p) (rsg_initiator t) msg"
    using r(3) same by (simp add: initiator_vouched_def)
  ultimately show ?thesis using v r k s' by auto
qed

theorem initiator_authenticated_witness:
  "\<exists>p p'. snd responder_keyed = SignalingResponder p \<and> snd responder_finished = SignalingResponder p' \<and>
     cm_signaling_state (rsg_common p') = TaskState \<and> ic_permanent_key (rsg_initiator p') = scenario_key 3"
proof -
  have "role_of (snd responder_keyed) = RoleResponder" by code_simp
  then obtain p where p: "snd responder_keyed = SignalingResponder p" by (cases "snd responder_keyed") auto
  have run: "handle_message scenario_env initiator_auth_box (SignalingResponder p) =
      (Ok (fst responder_finished), snd responder_finished)"
    using deliver_one [of scenario_env initiator_auth_box "snd responder_keyed"] scenario_relay(5)
    by (simp add: responder_finished_def p)
  show ?thesis
    using initiator_authenticated [OF scenario_states_inv(3) [unfolded p] run] scenario_relay(5) p by auto
qed

end
