(* ===== verification/Client.thy ===== *)
theory Client
  imports Signaling
begin

text \<open>
  The client (\<open>src/lib.rs\<close>): the builder, the methods of \<open>SaltyClient\<close>, the connection
  set-up and the handshake loop. The WebSocket crate and the futures runtime are third-party:
  \<open>owned_message\<close> is the message type of the former, and what the runtime delivers in one
  round of a loop is a value of type \<open>turn\<close>, an argument of the loop.
\<close>

section \<open>The builder\<close>

record 't salty_client_builder =
  bd_permanent_key :: key_pair
  bd_tasks :: "'t list"
  bd_ping_interval :: "u64 option"
  bd_server_public_permanent_key :: "public_key option"

record 't salty_client =
  cl_signaling :: "'t signaling"

definition builder_new :: "key_pair \<Rightarrow> 't salty_client_builder" where
  "builder_new permanent_key =
     \<lparr>bd_permanent_key = permanent_key, bd_tasks = [], bd_ping_interval = None,
      bd_server_public_permanent_key = None\<rparr>"

definition builder_add_task :: "'t \<Rightarrow> 't salty_client_builder \<Rightarrow> 't salty_client_builder" where
  "builder_add_task task b = b\<lparr>bd_tasks := bd_tasks b @ [task]\<rparr>"

definition with_server_key :: "public_key \<Rightarrow> 't salty_client_builder \<Rightarrow> 't salty_client_builder" where
  "with_server_key key b = b\<lparr>bd_server_public_permanent_key := Some key\<rparr>"

definition with_ping_interval :: "u64 option \<Rightarrow> 't salty_client_builder \<Rightarrow> 't salty_client_builder" where
  "with_ping_interval interval b = b\<lparr>bd_ping_interval := interval\<rparr>"

definition builder_tasks :: "'t salty_client_builder \<Rightarrow> (builder_error, 't tasks) outcome" where
  "builder_tasks b = map_err (\<lambda>_. MissingTask) (tasks_from_vec (bd_tasks b))"

definition builder_initiator ::
  "'z libs_scheme \<Rightarrow> 't salty_client_builder \<Rightarrow> (nat, builder_error, 't salty_client) proc" where
  "builder_initiator L b =
     bindS (liftO (builder_tasks b)) (\<lambda>tasks.
     bindS (initiator_new L (bd_permanent_key b) tasks None (bd_server_public_permanent_key b)
              (bd_ping_interval b)) (\<lambda>signaling.
       returnS \<lparr>cl_signaling = SignalingInitiator signaling\<rparr>))"

definition builder_initiator_trusted ::
  "'z libs_scheme \<Rightarrow> public_key \<Rightarrow> 't salty_client_builder \<Rightarrow> (nat, builder_error, 't salty_client) proc" where
  "builder_initiator_trusted L responder_trusted_pubkey b =
     bindS (liftO (builder_tasks b)) (\<lambda>tasks.
     bindS (initiator_new L (bd_permanent_key b) tasks (Some responder_trusted_pubkey)
              (bd_server_public_permanent_key b) (bd_ping_interval b)) (\<lambda>signaling.
       returnS \<lparr>cl_signaling = SignalingInitiator signaling\<rparr>))"

definition builder_responder ::
  "'z libs_scheme \<Rightarrow> public_key \<Rightarrow> auth_token \<Rightarrow> 't salty_client_builder \<Rightarrow>
   (nat, builder_error, 't salty_client) proc" where
  "builder_responder L initiator_key auth_token b =
     bindS (liftO (builder_tasks b)) (\<lambda>tasks.
     bindS (responder_new L (bd_permanent_key b) initiator_key (Some auth_token)
              (bd_server_public_permanent_key b) tasks (bd_ping_interval b)) (\<lambda>signaling.
       returnS \<lparr>cl_signaling = SignalingResponder signaling\<rparr>))"

definition builder_responder_trusted ::
  "'z libs_scheme \<Rightarrow> public_key \<Rightarrow> 't salty_client_builder \<Rightarrow> (nat, builder_error, 't salty_client) proc" where
  "builder_responder_trusted L initiator_trusted_pubkey b =
     bindS (liftO (builder_tasks b)) (\<lambda>tasks.
     bindS (responder_new L (bd_permanent_key b) initiator_trusted_pubkey None
              (bd_server_public_permanent_key b) tasks (bd_ping_interval b)) (\<lambda>signaling.
       returnS \<lparr>cl_signaling = SignalingResponder signaling\<rparr>))"

section \<open>Methods of \<open>SaltyClient\<close>\<close>

definition client_role :: "'t salty_client \<Rightarrow> role" where
  "client_role c = cm_role (sig_common (cl_signaling c))"

definition client_auth_token :: "'t salty_client \<Rightarrow> auth_token option" where
  "client_auth_token c = auth_token_of (sig_common (cl_signaling c))"

definition client_initiator_pubkey :: "'t salty_client \<Rightarrow> public_key" where
  "client_initiator_pubkey c = initiator_pubkey (cl_signaling c)"

definition client_task :: "'t salty_client \<Rightarrow> 't option" where
  "client_task c = cm_task (sig_common (cl_signaling c))"

definition on_signaling :: "('t signaling, 'e, 'a) proc \<Rightarrow> ('t salty_client, 'e, 'a) proc" where
  "on_signaling m = zoomS cl_signaling cl_signaling_update m"

definition client_handle_message ::
  "('t, 'v, 'z) env_scheme \<Rightarrow> byte_box \<Rightarrow> ('t salty_client, 'v) handler" where
  "client_handle_message E bbox = on_signaling (handle_message E bbox)"

text \<open>The conversion of errors that both \<open>encrypt\<close> methods spell out.\<close>

definition salty_from_encode :: "signaling_error \<Rightarrow> salty_error" where
  "salty_from_encode e =
     (case e of
        SigCrypto m \<Rightarrow> SaltyCrypto m
      | SigDecode m \<Rightarrow> SaltyDecode m
      | SigProtocol m \<Rightarrow> SaltyProtocol m
      | SigCrash m \<Rightarrow> SaltyCrash m
      | other \<Rightarrow> SaltyCrash (''Unexpected signaling error: '' @ fmt_signaling_error other))"

definition encrypt_task_message ::
  "('t, 'v, 'z) env_scheme \<Rightarrow> 'v \<Rightarrow> ('t salty_client, salty_error, byte list) proc" where
  "encrypt_task_message E val c =
     (case on_signaling (encode_task_message E val) c of
        (r, c') \<Rightarrow> (map_err salty_from_encode (map_ok (byte_box_into_bytes E) r), c'))"

definition encrypt_close_message ::
  "('t, 'v, 'z) env_scheme \<Rightarrow> close_code \<Rightarrow> ('t salty_client, salty_error, byte list) proc" where
  "encrypt_close_message E reason c =
     (case on_signaling (encode_close_message E reason) c of
        (r, c') \<Rightarrow> (map_err salty_from_encode (map_ok (byte_box_into_bytes E) r), c'))"

definition client_current_peer_sequence_numbers :: "'t salty_client \<Rightarrow> peer_sequence_numbers option" where
  "client_current_peer_sequence_numbers c = current_peer_sequence_numbers (cl_signaling c)"

definition client_encrypt_raw ::
  "'z libs_scheme \<Rightarrow> byte list \<Rightarrow> byte list \<Rightarrow> 't salty_client \<Rightarrow> (salty_error, byte list) outcome" where
  "client_encrypt_raw L data nonce c =
     bindO (ok_or (SaltyCrypto ''Invalid nonce bytes'') (box_nonce_from_slice L nonce)) (\<lambda>sodium_nonce.
       map_err salty_from_signaling (encrypt_raw_with_session_keys L data sodium_nonce (cl_signaling c)))"

definition client_decrypt_raw ::
  "'z libs_scheme \<Rightarrow> byte list \<Rightarrow> byte list \<Rightarrow> 't salty_client \<Rightarrow> (salty_error, byte list) outcome" where
  "client_decrypt_raw L data nonce c =
     bindO (ok_or (SaltyCrypto ''Invalid nonce bytes'') (box_nonce_from_slice L nonce)) (\<lambda>sodium_nonce.
       map_err salty_from_signaling (decrypt_raw_with_session_keys L data sodium_nonce (cl_signaling c)))"

section \<open>Connecting\<close>

text \<open>
  \<open>Arc<RwLock<SaltyClient>>\<close>: a call that panics while it holds the write lock poisons the
  lock, and every later attempt to take it fails.
\<close>

record 't shared_client =
  sh_client :: "'t salty_client"
  sh_poisoned :: bool

definition m_poisoned :: string where
  "m_poisoned = ''poisoned lock: another task failed inside''"

definition with_write_lock ::
  "(string \<Rightarrow> 'e) \<Rightarrow> ('t salty_client, 'e, 'a) proc \<Rightarrow> ('t shared_client, 'e, 'a) proc" where
  "with_write_lock lock_error m s =
     (if sh_poisoned s then (Err (lock_error m_poisoned), s)
      else case m (sh_client s) of
        (r, c) \<Rightarrow> (r, s\<lparr>sh_client := c, sh_poisoned := is_panic r\<rparr>))"

definition connect_url :: "'z libs_scheme \<Rightarrow> string \<Rightarrow> u16 \<Rightarrow> 't salty_client \<Rightarrow> string" where
  "connect_url L host port c =
     ''wss://'' @ host @ '':'' @ fmt_nat (unat port) @ ''/'' @ hexlower_encode L (client_initiator_pubkey c)"

definition libsodium_init :: "'z libs_scheme \<Rightarrow> (salty_error, unit) outcome" where
  "libsodium_init L =
     map_err (\<lambda>_. SaltyCrypto ''Could not initialize libsodium'') (if sodium_init L then Ok () else Err ())"

text \<open>
  \<open>connect\<close> up to the creation of the future: the parsed URL it will use. Parsing URLs is
  the function \<open>url_parse\<close>.
\<close>

definition connect ::
  "'z libs_scheme \<Rightarrow> (string \<Rightarrow> string + 'u) \<Rightarrow> string \<Rightarrow> u16 \<Rightarrow> 't shared_client \<Rightarrow>
   (salty_error, 'u) outcome" where
  "connect L url_parse host port s =
     bindO (libsodium_init L) (\<lambda>_.
      if sh_poisoned s then Err (SaltyCrash ''connect: Could not read-lock SaltyClient'')
      else case url_parse (connect_url L host port (sh_client s)) of
        Inr url \<Rightarrow> Ok url
      | Inl e \<Rightarrow> Err (SaltyDecode (''Could not parse URL: '' @ e)))"

text \<open>
  The result of the future: the WebSocket library reports an error with an optional cause, or
  the subprotocols the server chose.
\<close>

definition connect_result ::
  "string \<Rightarrow> u16 \<Rightarrow> (string \<times> string option) + string list option \<Rightarrow> (salty_error, unit) outcome" where
  "connect_result host port answer =
     (let server = host @ '':'' @ fmt_nat (unat port) in
      case answer of
        Inl (e, Some cause) \<Rightarrow>
          Err (SaltyNetwork (''Could not connect to server ('' @ server @ ''): '' @ e @ '': '' @ cause))
      | Inl (e, None) \<Rightarrow> Err (SaltyNetwork (''Could not connect to server ('' @ server @ ''): '' @ e))
      | Inr (Some proto) \<Rightarrow>
          if length proto = 1 \<and> hd proto = subprotocol then Ok ()
          else Err (SaltyProtocol ''More than one websocket subprotocol chosen by server'')
      | Inr None \<Rightarrow> Err (SaltyProtocol ''Websocket subprotocol not accepted by server''))"

section \<open>WebSocket messages\<close>

datatype owned_message =
    WsText string
  | WsBinary "byte list"
  | WsClose "(u16 \<times> string) option"
  | WsPing "byte list"
  | WsPong "byte list"

datatype ws_message_decoded =
    DecodedByteBox byte_box
  | DecodedPing "byte list"
  | DecodedClose "close_code option"
  | DecodedIgnore

definition decode_ws_message ::
  "'z libs_scheme \<Rightarrow> owned_message \<Rightarrow> (salty_error, ws_message_decoded) outcome" where
  "decode_ws_message L msg =
     (case msg of
        WsBinary bytes \<Rightarrow>
          bindO (map_err (\<lambda>e. SaltyProtocol (fmt_signaling_error e)) (byte_box_from_slice L bytes))
            (\<lambda>bbox. Ok (DecodedByteBox bbox))
      | WsPing payload \<Rightarrow> Ok (DecodedPing payload)
      | WsPong _ \<Rightarrow> Ok DecodedIgnore
      | WsClose (Some (status_code, reason)) \<Rightarrow> Ok (DecodedClose (Some (from_number status_code)))
      | WsClose None \<Rightarrow> Ok (DecodedClose None)
      | WsText payload \<Rightarrow> Ok DecodedIgnore)"

text \<open>
  \<open>Loop<WsClient, WsClient>\<close>, and what a step of the pipeline asks for. A future of the
  source that is passed on sends a pong and goes on, ends the loop, or goes on.
\<close>

datatype loop_action = LoopContinue | LoopBreak

datatype pipeline_action =
    PipelineByteBox byte_box
  | PipelinePong owned_message
  | PipelineReady loop_action

definition preprocess_ws_message :: "ws_message_decoded \<Rightarrow> pipeline_action" where
  "preprocess_ws_message decoded =
     (case decoded of
        DecodedByteBox bbox \<Rightarrow> PipelineByteBox bbox
      | DecodedPing payload \<Rightarrow> PipelinePong (WsPong payload)
      | DecodedClose _ \<Rightarrow> PipelineReady LoopBreak
      | DecodedIgnore \<Rightarrow> PipelineReady LoopContinue)"

section \<open>The handshake loop\<close>

text \<open>
  One round of the loop sees the next item of the message stream (an error, the end, or a
  message), the result of sending if something is sent, and whether the receiver of the event
  channel still exists.
\<close>

record ws_turn =
  turn_next :: "string + owned_message option"
  turn_send_error :: "string option"
  turn_listening :: bool

record 't handshake =
  hs_shared :: "'t shared_client"
  hs_sent :: "owned_message list"
  hs_events :: "event list"

record handshake_actions =
  ha_messages :: "owned_message list"
  ha_done :: bool
  ha_late_error :: "salty_error option"
  ha_events :: "event list"

definition m_no_event_channel :: string where
  "m_no_event_channel = ''Could not send event through channel''"

definition send_event :: "bool \<Rightarrow> event \<Rightarrow> (handshake_actions, salty_error, unit) proc" where
  "send_event listening e =
     thenS (guardS listening (SaltyCrash m_no_event_channel))
     (modifyS (ha_events_update (\<lambda>es. es @ [e])))"

definition handshake_action ::
  "'z libs_scheme \<Rightarrow> bool \<Rightarrow> 'v handle_action \<Rightarrow> (handshake_actions, salty_error, unit) proc" where
  "handshake_action L listening action =
     (case action of
        Reply bbox \<Rightarrow> modifyS (ha_messages_update (\<lambda>ms. ms @ [WsBinary (byte_box_into_bytes L bbox)]))
      | HandshakeDone \<Rightarrow>
          thenS (modifyS (ha_done_update (\<lambda>_. True))) (send_event listening PeerHandshakeDone)
      | ActionTaskMessage _ \<Rightarrow> failS (SaltyCrash ''Received task message during handshake'')
      | ActionEvent e \<Rightarrow> send_event listening e
      | HandshakeError e \<Rightarrow>
          modifyS (ha_late_error_update (\<lambda>late. if late = None then Some e else late)))"

definition no_handshake_actions :: "event list \<Rightarrow> handshake_actions" where
  "no_handshake_actions events =
     \<lparr>ha_messages = [], ha_done = False, ha_late_error = None, ha_events = events\<rparr>"

text \<open>Sending through \<open>send_all\<close>: an error of the sink ends the loop.\<close>

definition ws_send ::
  "string \<Rightarrow> string option \<Rightarrow> owned_message list \<Rightarrow> ('t handshake, salty_error, unit) proc" where
  "ws_send what send_error messages =
     (case send_error of
        Some e \<Rightarrow> failS (SaltyNetwork (what @ e))
      | None \<Rightarrow> modifyS (hs_sent_update (\<lambda>ms. ms @ messages)))"

definition loop_action_of :: "bool \<Rightarrow> loop_action" where
  "loop_action_of handshake_done = (if handshake_done then LoopBreak else LoopContinue)"

text \<open>
  The last step of a round: the call of \<open>handle_message\<close> under the write lock, the loop over
  the actions, and sending the replies.
\<close>

definition m_handshake_lock :: "string \<Rightarrow> string" where
  "m_handshake_lock e = ''do_handshake: Could not write-lock SaltyClient: '' @ e"

definition locked_handle_message ::
  "('t, 'v, 'z) env_scheme \<Rightarrow> (string \<Rightarrow> string) \<Rightarrow> byte_box \<Rightarrow>
   ('t shared_client, salty_error, 'v handle_action list) proc" where
  "locked_handle_message E lock_error bbox =
     with_write_lock (\<lambda>e. SaltyCrash (lock_error e))
       (\<lambda>c. case client_handle_message E bbox c of (r, c') \<Rightarrow> (map_err salty_from_signaling r, c'))"

definition handshake_send ::
  "string option \<Rightarrow> handshake_actions \<Rightarrow> ('t handshake, salty_error, loop_action) proc" where
  "handshake_send send_error acc =
     (if ha_messages acc = [] then returnS (loop_action_of (ha_done acc))
      else thenS (ws_send ''Could not send message: '' send_error (ha_messages acc))
        (case ha_late_error acc of
           Some e \<Rightarrow> failS e
         | None \<Rightarrow> returnS (loop_action_of (ha_done acc))))"

definition handshake_message ::
  "('t, 'v, 'z) env_scheme \<Rightarrow> ws_turn \<Rightarrow> byte_box \<Rightarrow> ('t handshake, salty_error, loop_action) proc" where
  "handshake_message E turn bbox =
     bindS (zoomS hs_shared hs_shared_update (locked_handle_message E m_handshake_lock bbox)) (\<lambda>actions.
     bindS (getS (\<lambda>s. mapS (handshake_action E (turn_listening turn)) actions
                        (no_handshake_actions (hs_events s)))) (\<lambda>result.
     thenS (modifyS (hs_events_update (\<lambda>_. ha_events (snd result))))
     (thenS (liftO (fst result))
     (handshake_send (turn_send_error turn) (snd result)))))"

definition handshake_round ::
  "('t, 'v, 'z) env_scheme \<Rightarrow> ws_turn \<Rightarrow> ('t handshake, salty_error, loop_action) proc" where
  "handshake_round E turn =
     (case turn_next turn of
        Inl e \<Rightarrow> failS (SaltyNetwork (''Could not receive message from server: '' @ e))
      | Inr None \<Rightarrow> failS (SaltyNetwork ''Server message stream ended without close message'')
      | Inr (Some msg) \<Rightarrow>
          bindS (liftO (decode_ws_message E msg)) (\<lambda>decoded.
            case preprocess_ws_message decoded of
              PipelineByteBox bbox \<Rightarrow> handshake_message E turn bbox
            | PipelinePong pong \<Rightarrow>
                thenS (ws_send ''Could not send pong message: '' (turn_send_error turn) [pong])
                (returnS LoopContinue)
            | PipelineReady action \<Rightarrow> returnS action))"

text \<open>
  The future that \<open>do_handshake\<close> returns, run over what the runtime delivers: rounds, and
  the expiry of the timer if a timeout was given. It is pending when it needs more.
\<close>

datatype turn = Round ws_turn | TimerElapsed

datatype handshake_result =
    HandshakePending
  | HandshakeCompleted
  | HandshakeFailed salty_error
  | HandshakePanicked string

fun do_handshake ::
  "('t, 'v, 'z) env_scheme \<Rightarrow> u64 option \<Rightarrow> turn list \<Rightarrow> 't handshake \<Rightarrow> handshake_result \<times> 't handshake" where
  "do_handshake E timeout [] s = (HandshakePending, s)"
| "do_handshake E timeout (TimerElapsed # turns) s =
     (case timeout of
        Some _ \<Rightarrow> (HandshakeFailed SaltyTimeout, s)
      | None \<Rightarrow> do_handshake E timeout turns s)"
| "do_handshake E timeout (Round t # turns) s =
     (case handshake_round E t s of
        (Ok LoopContinue, s') \<Rightarrow> do_handshake E timeout turns s'
      | (Ok LoopBreak, s') \<Rightarrow> (HandshakeCompleted, s')
      | (Err e, s') \<Rightarrow> (HandshakeFailed e, s')
      | (Panic p, s') \<Rightarrow> (HandshakePanicked p, s'))"

end
