(* ===== verification/Client_Laws.thy ===== *)
theory Client_Laws
  imports Authentication Client
begin

text \<open>
  What the client guarantees on top of the protocol: the builder yields sessions that satisfy
  the invariant, the handshake loop is a session, it ends with the task state or a close
  message of the server, and it executes the actions of every message in order.
\<close>

section \<open>Actions of a message, by phase\<close>

lemma handle_message_Ok_cases:
  assumes "handle_message E bbox s = (Ok acts, s')"
  obtains (accepted) t where "validate_nonce (bb_nonce bbox) s = (Ok (), t)"
      "dispatch_message E bbox t = (Ok acts, s')"
      "cm_signaling_state (sig_common t) = cm_signaling_state (sig_common s)"
    | (dropped) e where "validate_nonce (bb_nonce bbox) s = (Err e, s')" "acts = []"
proof (cases "validate_nonce (bb_nonce bbox) s")
  case (Pair r t)
  with assms show thesis
    by (cases r) (auto simp: handle_message_def split: validation_error.splits
        intro: that dest: validated_common(1))
qed

lemma task_phase_actions:
  assumes "handle_message E bbox s = (Ok acts, s')" "cm_signaling_state (sig_common s) = TaskState"
  shows "HandshakeDone \<notin> set acts" "HandshakeError e \<notin> set acts"
  using assms by (auto elim!: handle_message_Ok_cases dest!: task_phase.task_dispatch)

lemma handshake_phase_actions:
  assumes "handle_message E bbox s = (Ok acts, s')" "cm_signaling_state (sig_common s) \<noteq> TaskState"
  shows "ActionTaskMessage m \<notin> set acts"
  using assms by (auto elim!: handle_message_Ok_cases dest!: handshake_phase.handshake_dispatch)

lemma dispatch_done_state:
  assumes "dispatch_message E bbox s = (Ok acts, s')" "HandshakeDone \<in> set acts"
  shows "cm_signaling_state (sig_common s') = TaskState"
  using dispatch_done [OF assms] assms(2)
  by (cases s) (auto simp: on_sig_Ok_iff dest!: initiator_peer_message_done responder_peer_message_done)

lemma handshake_done_iff:
  assumes "handle_message E bbox s = (Ok acts, s')" "cm_signaling_state (sig_common s) \<noteq> TaskState"
  shows "HandshakeDone \<in> set acts \<longleftrightarrow> cm_signaling_state (sig_common s') = TaskState"
  using assms(1)
proof (cases rule: handle_message_Ok_cases)
  case (accepted t)
  with assms(2) enters_dispatch [OF accepted(2)] show ?thesis by (auto dest: dispatch_done_state)
next
  case (dropped e)
  with assms(2) preservesD [OF before_task.keeps_validate_nonce, of s] show ?thesis by auto
qed

lemma handle_message_stays:
  assumes "handle_message E bbox s = (r, s')" "cm_signaling_state (sig_common s) \<noteq> TaskState" "\<And>acts. r \<noteq> Ok acts"
  shows "cm_signaling_state (sig_common s') \<noteq> TaskState"
proof (cases "validate_nonce (bb_nonce bbox) s")
  case (Pair q t)
  with preservesD [OF before_task.keeps_validate_nonce, of s] assms(2)
  have t: "cm_signaling_state (sig_common t) \<noteq> TaskState" by blast
  from Pair assms(1) have "s' = t \<or> dispatch_message E bbox t = (r, s')"
    by (cases q) (auto simp: handle_message_def split: validation_error.splits)
  with t assms(3) enters_dispatch show ?thesis by blast
qed

text \<open>
  C12. The handshake and the task phase are separate: a message that is handled before the task
  state never yields a task message, and it ends the handshake exactly if the task state is
  entered; a message that is handled in the task state neither ends nor fails a handshake.
\<close>

theorem actions_by_phase:
  assumes run: "handle_message E bbox s = (Ok acts, s')"
  shows "if cm_signaling_state (sig_common s) = TaskState
    then HandshakeDone \<notin> set acts \<and> (\<forall>e. HandshakeError e \<notin> set acts)
    else (\<forall>m. ActionTaskMessage m \<notin> set acts) \<and>
      (HandshakeDone \<in> set acts \<longleftrightarrow> cm_signaling_state (sig_common s') = TaskState)"
  using task_phase_actions [OF run] handshake_phase_actions [OF run] handshake_done_iff [OF run] by auto

theorem actions_by_phase_witness:
  "HandshakeDone \<in> set [Reply initiator_auth_box, HandshakeDone] \<and>
   cm_signaling_state (sig_common (snd initiator_finished)) = TaskState"
proof -
  have "fst (handle_message scenario_env responder_auth_box (snd initiator_keyed)) =
      Ok [Reply initiator_auth_box, HandshakeDone]"
    "snd (handle_message scenario_env responder_auth_box (snd initiator_keyed)) = snd initiator_finished"
    "cm_signaling_state (sig_common (snd initiator_keyed)) \<noteq> TaskState"
    by code_simp+
  then show ?thesis
    using actions_by_phase [of scenario_env responder_auth_box "snd initiator_keyed"]
    by (metis list.set_intros prod.collapse)
qed

section \<open>The loop over the actions\<close>

primrec replies_of :: "'z libs_scheme \<Rightarrow> 'v handle_action \<Rightarrow> owned_message list" where
  "replies_of L (Reply b) = [WsBinary (byte_box_into_bytes L b)]"
| "replies_of L (HandshakeError e) = []"
| "replies_of L HandshakeDone = []"
| "replies_of L (ActionEvent e) = []"
| "replies_of L (ActionTaskMessage m) = []"

primrec events_of :: "'v handle_action \<Rightarrow> event list" where
  "events_of (Reply b) = []"
| "events_of (HandshakeError e) = []"
| "events_of HandshakeDone = [PeerHandshakeDone]"
| "events_of (ActionEvent e) = [e]"
| "events_of (ActionTaskMessage m) = []"

primrec errors_of :: "'v handle_action \<Rightarrow> salty_error list" where
  "errors_of (Reply b) = []"
| "errors_of (HandshakeError e) = [e]"
| "errors_of HandshakeDone = []"
| "errors_of (ActionEvent e) = []"
| "errors_of (ActionTaskMessage m) = []"

definition first_error :: "salty_error option \<Rightarrow> salty_error list \<Rightarrow> salty_error option" where
  "first_error late es = (case late of Some e \<Rightarrow> Some e | None \<Rightarrow> (case es of [] \<Rightarrow> None | e # _ \<Rightarrow> Some e))"

lemma handshake_action_eq:
  assumes "\<forall>m. a \<noteq> ActionTaskMessage m"
  shows "handshake_action L True a acc = (Ok (), acc
    \<lparr>ha_messages := ha_messages acc @ replies_of L a, ha_done := ha_done acc \<or> a = HandshakeDone,
     ha_late_error := first_error (ha_late_error acc) (errors_of a), ha_events := ha_events acc @ events_of a\<rparr>)"
  using assms
  by (cases a) (auto simp: handshake_action_def send_event_def proc_defs first_error_def split: option.split)

lemma handshake_actions_eq:
  assumes "\<forall>m. ActionTaskMessage m \<notin> set acts"
  shows "mapS (handshake_action L True) acts acc = (Ok (map (\<lambda>_. ()) acts), acc
    \<lparr>ha_messages := ha_messages acc @ concat (map (replies_of L) acts),
     ha_done := ha_done acc \<or> HandshakeDone \<in> set acts,
     ha_late_error := first_error (ha_late_error acc) (concat (map errors_of acts)),
     ha_events := ha_events acc @ concat (map events_of acts)\<rparr>)"
  using assms
proof (induction acts arbitrary: acc)
  case Nil
  then show ?case by (simp add: proc_defs first_error_def split: option.split)
next
  case (Cons a acts)
  have e: "first_error (first_error l es) fs = first_error l (es @ fs)" for l es fs
    by (cases es) (simp_all add: first_error_def split: option.split)
  have a: "\<forall>m. a \<noteq> ActionTaskMessage m" using Cons.prems by auto
  show ?case
    using Cons by (simp add: bindS_def returnS_def handshake_action_eq [OF a] e eq_commute [of a])
qed

lemma handshake_action_OkD:
  "handshake_action L b a acc = (Ok u, acc') \<Longrightarrow>
     handshake_action L True a acc = (Ok u, acc') \<and> (\<forall>m. a \<noteq> ActionTaskMessage m)"
  by (cases a; cases b) (auto simp: handshake_action_def send_event_def proc_defs)

lemma handshake_actions_OkD:
  "mapS (handshake_action L b) acts acc = (Ok us, acc') \<Longrightarrow>
     mapS (handshake_action L True) acts acc = (Ok us, acc') \<and> (\<forall>m. ActionTaskMessage m \<notin> set acts)"
proof (induction acts arbitrary: acc us)
  case (Cons a acts)
  from Cons.prems obtain u vs mid where a: "handshake_action L b a acc = (Ok u, mid)"
    and rest: "mapS (handshake_action L b) acts mid = (Ok vs, acc')" "us = u # vs"
    by (auto simp: ok_iffs)
  from handshake_action_OkD [OF a] Cons.IH [OF rest(1)] rest(2) show ?case
    by (auto simp: bindS_def returnS_def)
qed simp

section \<open>Rounds of the handshake loop\<close>

abbreviation hs_signaling :: "'t handshake \<Rightarrow> 't signaling" where
  "hs_signaling s \<equiv> cl_signaling (sh_client (hs_shared s))"

lemma locked_handle_message_eq:
  "locked_handle_message E f bbox c =
     (if sh_poisoned c then (Err (SaltyCrash (f m_poisoned)), c)
      else case handle_message E bbox (cl_signaling (sh_client c)) of
        (q, sg) \<Rightarrow> (map_err salty_from_signaling q,
          c\<lparr>sh_client := (sh_client c)\<lparr>cl_signaling := sg\<rparr>, sh_poisoned := is_panic q\<rparr>))"
  by (simp add: locked_handle_message_def with_write_lock_def client_handle_message_def on_signaling_def
      zoomS_def split: prod.split)

lemma handshake_send_OkD:
  assumes "handshake_send e acc s = (Ok action, s')"
  shows "hs_shared s' = hs_shared s \<and> hs_events s' = hs_events s \<and> hs_sent s' = hs_sent s @ ha_messages acc \<and>
    action = loop_action_of (ha_done acc)"
  using assms by (auto simp: handshake_send_def ws_send_def ok_iffs split: if_splits option.splits)

lemma handshake_send_shared: "handshake_send e acc s = (r, s') \<Longrightarrow> hs_shared s' = hs_shared s"
  by (auto simp: handshake_send_def ws_send_def thenS_def bindS_def proc_defs split: if_splits option.splits)

lemma handshake_message_cases:
  assumes run: "handshake_message E t bbox s = (r, s')"
  obtains (poisoned) "sh_poisoned (hs_shared s)" "r = Err (SaltyCrash (m_handshake_lock m_poisoned))" "s' = s"
    | (failed) q where "handle_message E bbox (hs_signaling s) = (q, hs_signaling s')"
        "\<And>acts. q \<noteq> Ok acts" "r = (case q of Err e \<Rightarrow> Err (salty_from_signaling e) | Panic p \<Rightarrow> Panic p)"
    | (handled) acts where "handle_message E bbox (hs_signaling s) = (Ok acts, hs_signaling s')"
        "\<And>action. r = Ok action \<Longrightarrow> action = loop_action_of (HandshakeDone \<in> set acts) \<and>
           hs_events s' = hs_events s @ concat (map events_of acts) \<and>
           hs_sent s' = hs_sent s @ concat (map (replies_of E) acts)"
proof (cases "sh_poisoned (hs_shared s)")
  case True
  with run show thesis
    by (auto simp: handshake_message_def bindS_def zoomS_def locked_handle_message_eq intro: poisoned)
next
  case False
  obtain q sg where q: "handle_message E bbox (hs_signaling s) = (q, sg)" by fastforce
  show thesis
  proof (cases q)
    case (Ok acts)
    let ?u = "s\<lparr>hs_shared := (hs_shared s)\<lparr>sh_client := (sh_client (hs_shared s))\<lparr>cl_signaling := sg\<rparr>, sh_poisoned := False\<rparr>\<rparr>"
    obtain a acc where m: "mapS (handshake_action E (turn_listening t)) acts (no_handshake_actions (hs_events ?u)) = (a, acc)"
      by fastforce
    with run q False Ok have rest: "thenS (liftO a) (handshake_send (turn_send_error t) acc) (?u\<lparr>hs_events := ha_events acc\<rparr>) = (r, s')"
      by (cases a) (simp_all add: handshake_message_def bindS_def thenS_def zoomS_def locked_handle_message_eq getS_def
          modifyS_def liftO_def)
    show thesis
    proof (rule handled)
      have "hs_shared s' = hs_shared ?u"
        using rest by (cases a) (auto simp: thenS_def bindS_def liftO_def dest: handshake_send_shared)
      then show "handle_message E bbox (hs_signaling s) = (Ok acts, hs_signaling s')" using q Ok by simp
      fix action assume "r = Ok action"
      with rest obtain us where us: "a = Ok us"
        and send: "handshake_send (turn_send_error t) acc (?u\<lparr>hs_events := ha_events acc\<rparr>) = (Ok action, s')"
        by (auto simp: ok_iffs)
      from handshake_actions_OkD [OF m [unfolded us]] handshake_actions_eq [of acts E "no_handshake_actions (hs_events ?u)"]
      have "acc = \<lparr>ha_messages = concat (map (replies_of E) acts), ha_done = (HandshakeDone \<in> set acts),
          ha_late_error = first_error None (concat (map errors_of acts)),
          ha_events = hs_events s @ concat (map events_of acts)\<rparr>"
        by (simp add: no_handshake_actions_def)
      with handshake_send_OkD [OF send] show "action = loop_action_of (HandshakeDone \<in> set acts) \<and>
           hs_events s' = hs_events s @ concat (map events_of acts) \<and>
           hs_sent s' = hs_sent s @ concat (map (replies_of E) acts)" by simp
    qed
  qed (use run q False in \<open>auto simp: handshake_message_def bindS_def zoomS_def locked_handle_message_eq
      intro!: failed\<close>)
qed

lemma handshake_round_cases:
  assumes "handshake_round E t s = (r, s')"
  obtains (message) bytes bbox where "turn_next t = Inr (Some (WsBinary bytes))"
      "byte_box_from_slice E bytes = Ok bbox" "handshake_message E t bbox s = (r, s')"
    | (closed) d where "turn_next t = Inr (Some (WsClose d))" "r = Ok LoopBreak" "s' = s"
    | (other) "hs_shared s' = hs_shared s" "hs_events s' = hs_events s" "r \<noteq> Ok LoopBreak"
proof -
  consider (err) e where "turn_next t = Inl e" | (ended) "turn_next t = Inr None"
    | (msg) m where "turn_next t = Inr (Some m)" by (cases "turn_next t") (auto split: option.splits)
  then show thesis
  proof cases
    case (msg m)
    with assms show thesis
      by (cases m; cases "byte_box_from_slice E (case m of WsBinary bytes \<Rightarrow> bytes)")
        (auto simp: handshake_round_def decode_ws_message_def preprocess_ws_message_def proc_defs ws_send_def
          split: option.splits intro: that)
  qed (use assms in \<open>auto simp: handshake_round_def failS_def intro: that\<close>)
qed

lemma handshake_round_run: "handshake_round E t s = (r, s') \<Longrightarrow> session_run E (hs_signaling s) (hs_signaling s')"
  by (elim handshake_round_cases handshake_message_cases) (auto intro: received)

lemma do_handshake_run:
  "do_handshake E timeout turns s = (r, s') \<Longrightarrow> session_run E (hs_signaling s) (hs_signaling s')"
proof (induction E timeout turns s rule: do_handshake.induct)
  case (3 E timeout t turns s)
  obtain q u where round: "handshake_round E t s = (q, u)" by fastforce
  from 3 round handshake_round_run [OF round] show ?case
    by (auto split: outcome.splits loop_action.splits intro: rtranclp_trans)
qed (auto split: option.splits)

lemma handshake_round_before_task:
  assumes round: "handshake_round E t s = (Ok action, s')" and "cm_signaling_state (sig_common (hs_signaling s)) \<noteq> TaskState"
  shows "(cm_signaling_state (sig_common (hs_signaling s')) = TaskState \<and> action = LoopBreak \<and>
      PeerHandshakeDone \<in> set (hs_events s')) \<or>
    (cm_signaling_state (sig_common (hs_signaling s')) \<noteq> TaskState \<and>
      (action = LoopBreak \<longrightarrow> (\<exists>d. turn_next t = Inr (Some (WsClose d)))))"
  using round
proof (cases rule: handshake_round_cases)
  case (message bytes bbox)
  from message(3) show ?thesis
  proof (cases rule: handshake_message_cases)
    case (handled acts)
    with assms(2) handshake_done_iff [OF handled(1) assms(2)] show ?thesis
      by (force simp: loop_action_of_def)
  qed (auto split: outcome.splits)
qed (use assms in auto)

text \<open>
  C11. The handshake loop, started before the task state: it only makes steps of a session; while
  it waits for messages the task state is not reached; and when it completes, either the peer
  handshake is done, the task state is reached and the event was sent, or the server closed
  the connection.
\<close>

theorem do_handshake_outcome:
  assumes "do_handshake E timeout turns s = (r, s')"
    and "cm_signaling_state (sig_common (hs_signaling s)) \<noteq> TaskState"
  shows "session_run E (hs_signaling s) (hs_signaling s') \<and>
    (r = HandshakePending \<longrightarrow> cm_signaling_state (sig_common (hs_signaling s')) \<noteq> TaskState) \<and>
    (r = HandshakeCompleted \<longrightarrow>
      (cm_signaling_state (sig_common (hs_signaling s')) = TaskState \<and> PeerHandshakeDone \<in> set (hs_events s')) \<or>
      (cm_signaling_state (sig_common (hs_signaling s')) \<noteq> TaskState \<and>
       (\<exists>t d. Round t \<in> set turns \<and> turn_next t = Inr (Some (WsClose d)))))"
proof -
  have "(r = HandshakePending \<longrightarrow> cm_signaling_state (sig_common (hs_signaling s')) \<noteq> TaskState) \<and>
    (r = HandshakeCompleted \<longrightarrow>
      (cm_signaling_state (sig_common (hs_signaling s')) = TaskState \<and> PeerHandshakeDone \<in> set (hs_events s')) \<or>
      (cm_signaling_state (sig_common (hs_signaling s')) \<noteq> TaskState \<and>
       (\<exists>t d. Round t \<in> set turns \<and> turn_next t = Inr (Some (WsClose d)))))"
    using assms
  proof (induction E timeout turns s rule: do_handshake.induct)
    case (3 E timeout t turns s)
    obtain q u where round: "handshake_round E t s = (q, u)" by fastforce
    from 3 round handshake_round_before_task [of E t s _ u] show ?case
      by (fastforce split: outcome.splits loop_action.splits)
  qed (fastforce split: option.splits)+
  with do_handshake_run [OF assms(1)] show ?thesis by blast
qed

definition received_turn :: "byte_box \<Rightarrow> turn" where
  "received_turn b = Round \<lparr>turn_next = Inr (Some (WsBinary (byte_box_into_bytes scenario_env b))),
     turn_send_error = None, turn_listening = True\<rparr>"

definition scenario_handshake :: "string signaling \<Rightarrow> string handshake" where
  "scenario_handshake s =
     \<lparr>hs_shared = \<lparr>sh_client = \<lparr>cl_signaling = s\<rparr>, sh_poisoned = False\<rparr>, hs_sent = [], hs_events = []\<rparr>"

definition scenario_turns :: "turn list" where
  "scenario_turns = map received_turn [server_hello_box, server_box 1 6 5, responder_key_box, responder_auth_box]"

theorem do_handshake_outcome_witness:
  "let s' = snd (do_handshake scenario_env None scenario_turns (scenario_handshake scenario_initiator))
   in cm_signaling_state (sig_common (hs_signaling s')) = TaskState \<and> PeerHandshakeDone \<in> set (hs_events s')"
proof -
  have "fst (do_handshake scenario_env None scenario_turns (scenario_handshake scenario_initiator)) = HandshakeCompleted"
    by code_simp
  moreover have "cm_signaling_state (sig_common (hs_signaling (scenario_handshake scenario_initiator))) \<noteq> TaskState"
    by code_simp
  moreover have "\<not> (\<exists>t d. Round t \<in> set scenario_turns \<and> turn_next t = Inr (Some (WsClose d)))"
    by (auto simp: scenario_turns_def received_turn_def)
  ultimately show ?thesis
    using do_handshake_outcome [of scenario_env None scenario_turns "scenario_handshake scenario_initiator"]
    by (auto simp: Let_def prod_eq_iff)
qed

section \<open>The builder\<close>

definition draws :: "(nat, 'e, 'a) proc \<Rightarrow> bool" where
  "draws m \<longleftrightarrow> (\<forall>i. \<exists>x j. m i = (Ok x, j))"

lemma draws_rules:
  "draws (returnS x)" "draws (getS f)" "draws (modifyS g)"
  "draws m \<Longrightarrow> (\<And>x. draws (k x)) \<Longrightarrow> draws (bindS m k)"
  "draws m \<Longrightarrow> draws n \<Longrightarrow> draws (thenS m n)"
  unfolding draws_def thenS_def bindS_def by (simp_all add: proc_defs) (metis (no_types, lifting) case_prod_conv outcome.simps(10))+

lemma draws_basic:
  assumes "random_laws L"
  shows "draws (libsodium_init_or_panic L)" "draws (random_sequence L)" "draws (random_cookie L)"
proof -
  show "draws (libsodium_init_or_panic L)"
    using assms by (simp add: libsodium_init_or_panic_def random_laws_def draws_rules)
  show "draws (random_sequence L)"
    unfolding draws_def using random_sequence_ok [OF assms] by metis
  show "draws (random_cookie L)"
    unfolding draws_def using random_cookie_ok(1) [OF assms] by metis
qed

lemma draws_random:
  assumes "random_laws L"
  shows "draws (server_context_new L)" "draws (initiator_context_new L key)" "draws (new_auth_token L)"
  unfolding server_context_new_def initiator_context_new_def new_auth_token_def new_csn_pair_def
    new_cookie_pair_def new_key_pair_def
  by (auto intro!: draws_rules draws_basic [OF assms])

lemma initiator_new_draws: "random_laws L \<Longrightarrow> draws (initiator_new L kp tasks trusted srv ping)"
  unfolding initiator_new_def by (cases trusted) (auto intro!: draws_rules draws_random)

lemma responder_new_draws: "random_laws L \<Longrightarrow> draws (responder_new L kp key token srv tasks ping)"
  unfolding responder_new_def by (intro draws_rules draws_random)

definition fresh_client :: "role \<Rightarrow> public_key \<Rightarrow> 't salty_client \<Rightarrow> bool" where
  "fresh_client role key c \<longleftrightarrow> client_role c = role \<and> sig_inv key (cl_signaling c) \<and>
     cm_signaling_state (sig_common (cl_signaling c)) = ServerHandshake"

definition yields_client :: "role \<Rightarrow> public_key \<Rightarrow> ('e, 't salty_client) outcome \<times> nat \<Rightarrow> bool" where
  "yields_client role key result = (case result of (Ok c, _) \<Rightarrow> fresh_client role key c | _ \<Rightarrow> False)"

lemma built:
  assumes "draws m" "\<And>s j. m i = (Ok s, j) \<Longrightarrow> fresh_client role key (f s)"
  shows "yields_client role key (bindS m (\<lambda>s. returnS (f s)) i)"
proof -
  from assms(1) obtain s j where "m i = (Ok s, j)" unfolding draws_def by metis
  with assms(2) show ?thesis by (simp add: bindS_def returnS_def yields_client_def)
qed

text \<open>
  C13. The builder fails with \<open>MissingTask\<close> if no task was added. Otherwise, and if the random
  generator works, it returns a client with the chosen role that satisfies the invariant of
  sessions and waits for the server, whatever else was configured.
\<close>

theorem builder_builds:
  assumes "(role, build) \<in> {(RoleInitiator, builder_initiator L b), (RoleInitiator, builder_initiator_trusted L trusted b),
      (RoleResponder, builder_responder L key token b), (RoleResponder, builder_responder_trusted L key b)}"
    and "random_laws L"
  shows "if bd_tasks b = [] then build i = (Err MissingTask, i)
    else yields_client role key (build i)"
proof -
  note defs = builder_initiator_def builder_initiator_trusted_def builder_responder_def
    builder_responder_trusted_def builder_tasks_def tasks_from_vec_def liftO_Ok client_role_def
  show ?thesis
  proof (cases "bd_tasks b = []")
    case True
    with assms(1) show ?thesis by (auto simp: defs bindS_def liftO_def)
  next
    case False
    with assms show ?thesis
      by (auto simp: defs fresh_client_def [of _ _ "\<lparr>cl_signaling = _\<rparr>"] dest: initiator_new_OkD responder_new_OkD
          intro!: built initiator_new_draws responder_new_draws initiator_new_inv responder_new_inv)
  qed
qed

theorem builder_builds_witness:
  "yields_client RoleResponder (scenario_key 3) (builder_responder scenario_env (scenario_key 3) (scenario_key 9)
     (builder_add_task ''t'' (builder_new (sample_key_pair 5))) 0)"
proof -
  have "random_laws scenario_env" unfolding scenario_env_def by (rule sample_env_laws(2))
  then show ?thesis
    using builder_builds [where role = RoleResponder and b = "builder_add_task ''t'' (builder_new (sample_key_pair 5))"
        and L = scenario_env and key = "scenario_key 3" and token = "scenario_key 9" and i = 0]
    by (simp add: builder_add_task_def builder_new_def)
qed

end
