(* ===== verification/Task_Loop.thy ===== *)
theory Task_Loop
  imports Client
begin

text \<open>
  The task loop (\<open>task_loop\<close> in \<open>src/lib.rs\<close>): three futures that run concurrently. The
  reader handles incoming WebSocket messages, the transformer encrypts the messages of the
  task, and the writer sends what both have enqueued. They share the client and communicate
  through unbounded channels. Each future is a function that makes one step; the step relation
  interleaves them with the steps of the task and of the WebSocket connection. The text of
  errors of the channels is the parameter \<open>gone\<close>.
\<close>

section \<open>State\<close>

text \<open>A future is running or has finished with a result; a panic is a result, too.\<close>

datatype future_state = Running | Finished "(salty_error, unit) outcome"

text \<open>The oneshot channel through which the task closes the connection.\<close>

datatype oneshot = OneshotWaiting | OneshotSent "close_code option" | OneshotDropped

text \<open>
  Items of the stream of the transformer: a message, or \<open>Err(Ok(()))\<close>, which ends the
  transformer without an error.
\<close>

datatype transformed = Transformed owned_message | EndTransformer

text \<open>
  The queues of the three channels, the messages handed to the WebSocket sink, the events, the
  rest of the stream that \<open>flatten\<close> is in, and which ends of the channels the task holds.
\<close>

record ('t, 'v) task_loop_state =
  tl_shared :: "'t shared_client"
  tl_outgoing :: "'v task_message list"
  tl_raw :: "owned_message list"
  tl_incoming :: "'v task_message list"
  tl_events :: "event list"
  tl_sent :: "owned_message list"
  tl_current :: "transformed list"
  tl_reader :: future_state
  tl_transformer :: future_state
  tl_writer :: future_state
  tl_disconnect :: oneshot
  tl_task_sends :: bool
  tl_task_receives :: bool
  tl_listening :: bool

section \<open>Starting the loop\<close>

definition m_task_lock :: "string \<Rightarrow> string" where
  "m_task_lock e = ''task_loop/task: Could not write-lock SaltyClient: '' @ e"

text \<open>
  The call of \<open>task_loop\<close>: the task and the futures, before the first poll. \<open>Task::start\<close>
  hands the ends of the channels to the task.
\<close>

definition task_loop ::
  "'t shared_client \<Rightarrow> (salty_error, 't \<times> ('t, 'v) task_loop_state) outcome" where
  "task_loop salty =
     (if sh_poisoned salty then Err (SaltyCrash (m_task_lock m_poisoned))
      else bindO (ok_or (SaltyCrash ''Task not set'') (client_task (sh_client salty))) (\<lambda>task.
        Ok (task,
          \<lparr>tl_shared = salty, tl_outgoing = [], tl_raw = [], tl_incoming = [], tl_events = [], tl_sent = [],
           tl_current = [], tl_reader = Running, tl_transformer = Running, tl_writer = Running,
           tl_disconnect = OneshotWaiting, tl_task_sends = True, tl_task_receives = True,
           tl_listening = True\<rparr>)))"

section \<open>The reader\<close>

record 'v reader_actions =
  ra_out_messages :: "owned_message list"
  ra_in_messages :: "'v task_message list"
  ra_close_stream :: bool
  ra_events :: "event list"

definition no_reader_actions :: "event list \<Rightarrow> 'v reader_actions" where
  "no_reader_actions events =
     \<lparr>ra_out_messages = [], ra_in_messages = [], ra_close_stream = False, ra_events = events\<rparr>"

definition is_close :: "'v task_message \<Rightarrow> bool" where
  "is_close msg = (case msg of TaskClose _ \<Rightarrow> True | _ \<Rightarrow> False)"

definition m_handshake_done_in_loop :: string where
  "m_handshake_done_in_loop = ''Got HandleAction::HandshakeDone in task loop''"

definition m_handshake_error_in_loop :: string where
  "m_handshake_error_in_loop = ''Got HandleAction::HandshakeError in task loop''"

definition reader_action ::
  "'z libs_scheme \<Rightarrow> bool \<Rightarrow> 'v handle_action \<Rightarrow> ('v reader_actions, salty_error, unit) proc" where
  "reader_action L listening action =
     (case action of
        Reply bbox \<Rightarrow>
          modifyS (ra_out_messages_update (\<lambda>ms. ms @ [WsBinary (byte_box_into_bytes L bbox)]))
      | ActionTaskMessage msg \<Rightarrow>
          thenS (modifyS (ra_close_stream_update (\<lambda>c. c \<or> is_close msg)))
          (modifyS (ra_in_messages_update (\<lambda>ms. ms @ [msg])))
      | ActionEvent e \<Rightarrow>
          thenS (guardS listening (SaltyCrash m_no_event_channel))
          (modifyS (ra_events_update (\<lambda>es. es @ [e])))
      | HandshakeDone \<Rightarrow> failS (SaltyCrash m_handshake_done_in_loop)
      | HandshakeError _ \<Rightarrow> failS (SaltyCrash m_handshake_error_in_loop))"

text \<open>Sending to a channel fails when the receiver is gone.\<close>

definition send_raw ::
  "salty_error \<Rightarrow> owned_message list \<Rightarrow> (('t, 'v) task_loop_state, salty_error, unit) proc" where
  "send_raw error messages =
     (if messages = [] then returnS ()
      else bindS (getS tl_writer) (\<lambda>writer.
        thenS (guardS (writer = Running) error)
        (modifyS (tl_raw_update (\<lambda>raw. raw @ messages)))))"

definition send_incoming ::
  "salty_error \<Rightarrow> 'v task_message list \<Rightarrow> (('t, 'v) task_loop_state, salty_error, unit) proc" where
  "send_incoming error messages =
     (if messages = [] then returnS ()
      else bindS (getS tl_task_receives) (\<lambda>receiver.
        thenS (guardS receiver error)
        (modifyS (tl_incoming_update (\<lambda>incoming. incoming @ messages)))))"

definition m_reader_lock :: "string \<Rightarrow> string" where
  "m_reader_lock e = ''task_loop/reader: Could not write-lock SaltyClient: '' @ e"

text \<open>
  The closure of \<open>for_each\<close>. Its result tells whether the stream is processed further.
\<close>

definition reader_byte_box ::
  "('t, 'v, 'z) env_scheme \<Rightarrow> string \<Rightarrow> byte_box \<Rightarrow> (('t, 'v) task_loop_state, salty_error, bool) proc" where
  "reader_byte_box E gone bbox =
     bindS (zoomS tl_shared tl_shared_update (locked_handle_message E m_reader_lock bbox)) (\<lambda>actions.
     bindS (getS (\<lambda>s. mapS (reader_action E (tl_listening s)) actions (no_reader_actions (tl_events s))))
       (\<lambda>result.
     thenS (modifyS (tl_events_update (\<lambda>_. ra_events (snd result))))
     (thenS (liftO (fst result))
     (thenS (send_raw (SaltyNetwork (''Sink error: '' @ gone)) (ra_out_messages (snd result)))
     (thenS (send_incoming (SaltyCrash (''Channel error: '' @ gone)) (ra_in_messages (snd result)))
     (returnS (\<not> ra_close_stream (snd result))))))))"

definition reader_message ::
  "('t, 'v, 'z) env_scheme \<Rightarrow> string \<Rightarrow> ws_message_decoded \<Rightarrow>
   (('t, 'v) task_loop_state, salty_error, bool) proc" where
  "reader_message E gone msg =
     (case msg of
        DecodedByteBox bbox \<Rightarrow> reader_byte_box E gone bbox
      | DecodedPing payload \<Rightarrow>
          thenS (send_raw (SaltyNetwork (''Could not enqueue pong message: '' @ gone)) [WsPong payload])
          (returnS True)
      | DecodedClose _ \<Rightarrow> returnS True
      | DecodedIgnore \<Rightarrow> returnS True)"

definition reader_item ::
  "('t, 'v, 'z) env_scheme \<Rightarrow> string \<Rightarrow> string + owned_message option \<Rightarrow>
   (('t, 'v) task_loop_state, salty_error, bool) proc" where
  "reader_item E gone item =
     (case item of
        Inl e \<Rightarrow> failS (SaltyNetwork (''Could not receive message from server: '' @ e))
      | Inr None \<Rightarrow> returnS False
      | Inr (Some msg) \<Rightarrow> bindS (liftO (decode_ws_message E msg)) (reader_message E gone))"

text \<open>One step of the reader on an item of the WebSocket stream.\<close>

definition reader_step ::
  "('t, 'v, 'z) env_scheme \<Rightarrow> string \<Rightarrow> string + owned_message option \<Rightarrow>
   ('t, 'v) task_loop_state \<Rightarrow> ('t, 'v) task_loop_state" where
  "reader_step E gone item s =
     (case reader_item E gone item s of
        (Ok True, s') \<Rightarrow> s'
      | (Ok False, s') \<Rightarrow> s'\<lparr>tl_reader := Finished (Ok ())\<rparr>
      | (Err e, s') \<Rightarrow> s'\<lparr>tl_reader := Finished (Err e)\<rparr>
      | (Panic p, s') \<Rightarrow> s'\<lparr>tl_reader := Finished (Panic p)\<rparr>)"

text \<open>
  The other half of \<open>select\<close>: the task asked to disconnect, or dropped its end of the channel.
  A close message that cannot be enqueued is ignored.
\<close>

definition reader_disconnect :: "('t, 'v) task_loop_state \<Rightarrow> ('t, 'v) task_loop_state" where
  "reader_disconnect s =
     (case tl_disconnect s of
        OneshotWaiting \<Rightarrow> s
      | OneshotSent reason_opt \<Rightarrow>
          (let s' = s\<lparr>tl_reader := Finished (Ok ())\<rparr> in
           if tl_transformer s = Running
           then s'\<lparr>tl_outgoing := tl_outgoing s @
                     [TaskClose (case reason_opt of Some reason \<Rightarrow> reason | None \<Rightarrow> WsGoingAway)]\<rparr>
           else s')
      | OneshotDropped \<Rightarrow> s\<lparr>tl_reader := Finished (Ok ())\<rparr>)"

section \<open>The transformer\<close>

definition value_message ::
  "('t, 'v, 'z) env_scheme \<Rightarrow> (string, 'v) hashmap \<Rightarrow> 'v" where
  "value_message E entries = value_map E (map (\<lambda>(k, v). (value_string E k, v)) (entry_order E entries))"

definition application_message :: "('t, 'v, 'z) env_scheme \<Rightarrow> 'v \<Rightarrow> 'v" where
  "application_message E data =
     value_map E [(value_string E ''type'', value_string E ''application''), (value_string E ''data'', data)]"

text \<open>The stream a message of the task becomes; every error is the same \<open>Err(())\<close>.\<close>

definition transform_message ::
  "('t, 'v, 'z) env_scheme \<Rightarrow> 'v task_message \<Rightarrow> ('t salty_client, unit, transformed list) proc" where
  "transform_message E msg c =
     (case msg of
        TaskValue entries \<Rightarrow>
          (case encrypt_task_message E (value_message E entries) c of
             (r, c') \<Rightarrow> (map_err (\<lambda>_. ()) (map_ok (\<lambda>bytes. [Transformed (WsBinary bytes)]) r), c'))
      | TaskApplication data \<Rightarrow>
          (case encrypt_task_message E (application_message E data) c of
             (r, c') \<Rightarrow> (map_err (\<lambda>_. ()) (map_ok (\<lambda>bytes. [Transformed (WsBinary bytes)]) r), c'))
      | TaskClose reason \<Rightarrow>
          (case encrypt_close_message E reason c of
             (r, c') \<Rightarrow> (map_err (\<lambda>_. ()) (map_ok (\<lambda>bytes.
               [Transformed (WsBinary bytes),
                Transformed (WsClose (Some (as_number reason, fmt_close_code reason))),
                EndTransformer]) r), c')))"

definition m_transformer_error :: string where
  "m_transformer_error = ''Transformer future error (TODO)''"

text \<open>
  One step of the transformer: the next item of the current stream is forwarded; when there is
  none, the next message of the task is transformed. Without senders the stream has ended.
\<close>

definition transformer_step ::
  "('t, 'v, 'z) env_scheme \<Rightarrow> ('t, 'v) task_loop_state \<Rightarrow> ('t, 'v) task_loop_state" where
  "transformer_step E s =
     (case tl_current s of
        EndTransformer # _ \<Rightarrow> s\<lparr>tl_current := [], tl_transformer := Finished (Ok ())\<rparr>
      | Transformed m # rest \<Rightarrow>
          if tl_writer s = Running then s\<lparr>tl_current := rest, tl_raw := tl_raw s @ [m]\<rparr>
          else s\<lparr>tl_current := rest, tl_transformer := Finished (Err (SaltyCrash m_transformer_error))\<rparr>
      | [] \<Rightarrow>
          (case tl_outgoing s of
             [] \<Rightarrow>
               if \<not> tl_task_sends s \<and> tl_reader s \<noteq> Running
               then s\<lparr>tl_transformer := Finished (Ok ())\<rparr> else s
           | msg # rest \<Rightarrow>
               (case with_write_lock (\<lambda>_. ()) (transform_message E msg) (tl_shared s) of
                  (Ok items, c) \<Rightarrow> s\<lparr>tl_shared := c, tl_outgoing := rest, tl_current := items\<rparr>
                | (Err _, c) \<Rightarrow>
                    s\<lparr>tl_shared := c, tl_outgoing := rest,
                      tl_transformer := Finished (Err (SaltyCrash m_transformer_error))\<rparr>
                | (Panic p, c) \<Rightarrow>
                    s\<lparr>tl_shared := c, tl_outgoing := rest, tl_transformer := Finished (Panic p)\<rparr>)))"

section \<open>The writer\<close>

text \<open>
  One step of the writer: the next message goes to the WebSocket sink, which may report an
  error. When the other futures have dropped their ends of the channel, the writer is done.
\<close>

definition writer_step ::
  "string option \<Rightarrow> ('t, 'v) task_loop_state \<Rightarrow> ('t, 'v) task_loop_state" where
  "writer_step sink_error s =
     (case tl_raw s of
        m # rest \<Rightarrow>
          (case sink_error of
             None \<Rightarrow> s\<lparr>tl_raw := rest, tl_sent := tl_sent s @ [m]\<rparr>
           | Some e \<Rightarrow> s\<lparr>tl_raw := rest, tl_writer := Finished (Err (SaltyCrash (''TODO sink error: '' @ e)))\<rparr>)
      | [] \<Rightarrow>
          if tl_reader s \<noteq> Running \<and> tl_transformer s \<noteq> Running
          then s\<lparr>tl_writer := Finished (Ok ())\<rparr> else s)"

section \<open>The loop\<close>

text \<open>
  The result of \<open>reader.join(transformer).join(writer)\<close>: the first error, or success when
  all three have finished.
\<close>

fun failure :: "future_state \<Rightarrow> (salty_error, unit) outcome option" where
  "failure Running = None"
| "failure (Finished (Ok _)) = None"
| "failure (Finished (Err e)) = Some (Err e)"
| "failure (Finished (Panic p)) = Some (Panic p)"

definition loop_result :: "('t, 'v) task_loop_state \<Rightarrow> (salty_error, unit) outcome option" where
  "loop_result s =
     (case failure (tl_reader s) of
        Some r \<Rightarrow> Some r
      | None \<Rightarrow>
          (case failure (tl_transformer s) of
             Some r \<Rightarrow> Some r
           | None \<Rightarrow>
               (case failure (tl_writer s) of
                  Some r \<Rightarrow> Some r
                | None \<Rightarrow>
                    if tl_reader s \<noteq> Running \<and> tl_transformer s \<noteq> Running \<and> tl_writer s \<noteq> Running
                    then Some (Ok ()) else None)))"

text \<open>What the task and the user do with their ends of the channels.\<close>

datatype 'v task_operation =
    TaskSends "'v task_message"
  | TaskReceives
  | TaskDisconnects "close_code option"
  | TaskDropsOutgoing
  | TaskDropsIncoming
  | TaskDropsDisconnect
  | UserDropsEvents

definition task_operation ::
  "'v task_operation \<Rightarrow> ('t, 'v) task_loop_state \<Rightarrow> ('t, 'v) task_loop_state" where
  "task_operation op s =
     (case op of
        TaskSends msg \<Rightarrow>
          if tl_task_sends s \<and> tl_transformer s = Running
          then s\<lparr>tl_outgoing := tl_outgoing s @ [msg]\<rparr> else s
      | TaskReceives \<Rightarrow> if tl_task_receives s then s\<lparr>tl_incoming := tl (tl_incoming s)\<rparr> else s
      | TaskDisconnects reason \<Rightarrow>
          if tl_disconnect s = OneshotWaiting then s\<lparr>tl_disconnect := OneshotSent reason\<rparr> else s
      | TaskDropsOutgoing \<Rightarrow> s\<lparr>tl_task_sends := False\<rparr>
      | TaskDropsIncoming \<Rightarrow> s\<lparr>tl_task_receives := False\<rparr>
      | TaskDropsDisconnect \<Rightarrow>
          if tl_disconnect s = OneshotWaiting then s\<lparr>tl_disconnect := OneshotDropped\<rparr> else s
      | UserDropsEvents \<Rightarrow> s\<lparr>tl_listening := False\<rparr>)"

text \<open>
  A step of the loop: one of the futures runs while the loop has no result, or the task uses
  its ends of the channels.
\<close>

inductive loop_step ::
  "('t, 'v, 'z) env_scheme \<Rightarrow> string \<Rightarrow> ('t, 'v) task_loop_state \<Rightarrow> ('t, 'v) task_loop_state \<Rightarrow> bool"
  for E gone where
  read: "loop_result s = None \<Longrightarrow> tl_reader s = Running \<Longrightarrow> loop_step E gone s (reader_step E gone item s)"
| disconnected: "loop_result s = None \<Longrightarrow> tl_reader s = Running \<Longrightarrow> tl_disconnect s \<noteq> OneshotWaiting \<Longrightarrow>
    loop_step E gone s (reader_disconnect s)"
| transformed: "loop_result s = None \<Longrightarrow> tl_transformer s = Running \<Longrightarrow>
    loop_step E gone s (transformer_step E s)"
| written: "loop_result s = None \<Longrightarrow> tl_writer s = Running \<Longrightarrow> loop_step E gone s (writer_step e s)"
| operated: "loop_step E gone s (task_operation op s)"

abbreviation loop_run ::
  "('t, 'v, 'z) env_scheme \<Rightarrow> string \<Rightarrow> ('t, 'v) task_loop_state \<Rightarrow> ('t, 'v) task_loop_state \<Rightarrow> bool" where
  "loop_run E gone \<equiv> (loop_step E gone)\<^sup>*\<^sup>*"

inductive_cases loop_stepE: "loop_step E gone s s'"

end
