(* ===== verification/Task_Loop_Laws.thy ===== *)
theory Task_Loop_Laws
  imports Client_Laws Task_Loop "HOL-Library.Sublist"
begin

text \<open>
  What holds of the task loop under every interleaving of its futures, the task and the
  connection: it is a session that stays in the task phase, messages leave in the order in
  which they were enqueued, at most one close frame is sent, and the loop comes to rest.
\<close>

abbreviation tl_signaling :: "('t, 'v) task_loop_state \<Rightarrow> 't signaling" where
  "tl_signaling s \<equiv> cl_signaling (sh_client (tl_shared s))"

lemma step_runs:
  "handle_message E bbox s = (r, s') \<Longrightarrow> session_run E s s'"
  "encode_task_message E v s = (q, s') \<Longrightarrow> session_run E s s'"
  "encode_close_message E reason s = (q, s') \<Longrightarrow> session_run E s s'"
  by (rule r_into_rtranclp, erule session_step.intros)+

section \<open>Sending to the channels\<close>

lemma send_raw_cases:
  assumes "send_raw e ms s = (r, s')"
  obtains "r = Ok ()" "s' = s\<lparr>tl_raw := tl_raw s @ ms\<rparr>" "ms = [] \<or> tl_writer s = Running"
    | "r = Err e" "s' = s" "tl_writer s \<noteq> Running"
  using assms by (auto simp: send_raw_def proc_defs split: if_splits)

lemma send_incoming_cases:
  assumes "send_incoming e ms s = (r, s')"
  obtains "r = Ok ()" "s' = s\<lparr>tl_incoming := tl_incoming s @ ms\<rparr>" "ms = [] \<or> tl_task_receives s"
    | "r = Err e" "s' = s" "\<not> tl_task_receives s"
  using assms by (auto simp: send_incoming_def proc_defs split: if_splits)

section \<open>One message of the reader\<close>

primrec task_messages_of :: "'v handle_action \<Rightarrow> 'v task_message list" where
  "task_messages_of (Reply b) = []"
| "task_messages_of (HandshakeError e) = []"
| "task_messages_of HandshakeDone = []"
| "task_messages_of (ActionEvent e) = []"
| "task_messages_of (ActionTaskMessage m) = [m]"

lemma reader_action_eq:
  assumes "a \<noteq> HandshakeDone" "\<forall>e. a \<noteq> HandshakeError e"
  shows "reader_action L True a acc = (Ok (), acc
    \<lparr>ra_out_messages := ra_out_messages acc @ replies_of L a,
     ra_in_messages := ra_in_messages acc @ task_messages_of a,
     ra_close_stream := ra_close_stream acc \<or> list_ex is_close (task_messages_of a),
     ra_events := ra_events acc @ events_of a\<rparr>)"
  using assms by (cases a) (auto simp: reader_action_def proc_defs)

lemma reader_actions_eq:
  assumes "HandshakeDone \<notin> set acts" "\<forall>e. HandshakeError e \<notin> set acts"
  shows "mapS (reader_action L True) acts acc = (Ok (map (\<lambda>_. ()) acts), acc
    \<lparr>ra_out_messages := ra_out_messages acc @ concat (map (replies_of L) acts),
     ra_in_messages := ra_in_messages acc @ concat (map task_messages_of acts),
     ra_close_stream := ra_close_stream acc \<or> list_ex is_close (concat (map task_messages_of acts)),
     ra_events := ra_events acc @ concat (map events_of acts)\<rparr>)"
  using assms
proof (induction acts arbitrary: acc)
  case Nil
  then show ?case by (simp add: proc_defs)
next
  case (Cons a acts)
  have a: "a \<noteq> HandshakeDone" "\<forall>e. a \<noteq> HandshakeError e" using Cons.prems by auto
  show ?case
    using Cons by (simp add: bindS_def returnS_def reader_action_eq [OF a])
qed

text \<open>
  C18. A message of the peer or the server in the task phase: when the client handles it and the
  channels are open, its replies are enqueued for the writer, its task messages are delivered
  to the task and its events to the user, all in order, and the reader goes on unless a close
  message was among them.
\<close>

theorem reader_delivers:
  assumes "handle_message E bbox (tl_signaling s) = (Ok acts, sg)"
    and "cm_signaling_state (sig_common (tl_signaling s)) = TaskState"
    and "\<not> sh_poisoned (tl_shared s)" "tl_writer s = Running" "tl_task_receives s" "tl_listening s"
  shows "reader_byte_box E gone bbox s =
    (Ok (\<not> list_ex is_close (concat (map task_messages_of acts))), s
      \<lparr>tl_shared := (tl_shared s)\<lparr>sh_client := (sh_client (tl_shared s))\<lparr>cl_signaling := sg\<rparr>, sh_poisoned := False\<rparr>,
       tl_events := tl_events s @ concat (map events_of acts),
       tl_raw := tl_raw s @ concat (map (replies_of E) acts),
       tl_incoming := tl_incoming s @ concat (map task_messages_of acts)\<rparr>)"
proof -
  have "mapS (reader_action E True) acts (no_reader_actions (tl_events s)) = (Ok (map (\<lambda>_. ()) acts),
    \<lparr>ra_out_messages = concat (map (replies_of E) acts), ra_in_messages = concat (map task_messages_of acts),
     ra_close_stream = list_ex is_close (concat (map task_messages_of acts)),
     ra_events = tl_events s @ concat (map events_of acts)\<rparr>)"
    using task_phase_actions [OF assms(1,2)]
    by (subst reader_actions_eq) (auto simp: no_reader_actions_def)
  then show ?thesis
    using assms
    by (simp add: reader_byte_box_def bindS_def thenS_def zoomS_def locked_handle_message_eq getS_def modifyS_def
        liftO_def returnS_def send_raw_def send_incoming_def guardS_def)
qed

section \<open>What a step of the reader may change\<close>

definition is_ws_close :: "owned_message \<Rightarrow> bool" where
  "is_ws_close m = (case m of WsClose _ \<Rightarrow> True | _ \<Rightarrow> False)"

text \<open>Everything but the client, the events, the incoming and the raw queue is kept.\<close>

definition reader_frame ::
  "('t, 'v, 'z) env_scheme \<Rightarrow> ('t, 'v) task_loop_state \<Rightarrow> ('t, 'v) task_loop_state \<Rightarrow> bool" where
  "reader_frame E s s' \<longleftrightarrow> session_run E (tl_signaling s) (tl_signaling s') \<and>
     (\<exists>ms. tl_raw s' = tl_raw s @ ms \<and> (\<forall>m\<in>set ms. \<not> is_ws_close m)) \<and>
     prefix (tl_events s) (tl_events s') \<and> prefix (tl_incoming s) (tl_incoming s') \<and>
     tl_outgoing s' = tl_outgoing s \<and> tl_sent s' = tl_sent s \<and> tl_current s' = tl_current s \<and>
     tl_reader s' = tl_reader s \<and> tl_transformer s' = tl_transformer s \<and> tl_writer s' = tl_writer s \<and>
     tl_disconnect s' = tl_disconnect s \<and> tl_task_sends s' = tl_task_sends s"

lemma reader_actions_accumulate:
  "mapS (reader_action L b) acts acc = (r, acc') \<Longrightarrow>
     (\<exists>ms. ra_out_messages acc' = ra_out_messages acc @ ms \<and> (\<forall>m\<in>set ms. \<not> is_ws_close m)) \<and>
     prefix (ra_events acc) (ra_events acc')"
proof (induction acts arbitrary: acc r)
  case (Cons a acts)
  obtain q mid where a: "reader_action L b a acc = (q, mid)" by fastforce
  then have step: "(\<exists>ms. ra_out_messages mid = ra_out_messages acc @ ms \<and> (\<forall>m\<in>set ms. \<not> is_ws_close m)) \<and>
      prefix (ra_events acc) (ra_events mid)"
    by (cases a) (auto simp: reader_action_def proc_defs is_ws_close_def split: if_splits)
  show ?case
  proof (cases q)
    case (Ok u)
    with Cons.prems a obtain r' where "mapS (reader_action L b) acts mid = (r', acc')"
      by (cases "mapS (reader_action L b) acts mid") (auto simp: bindS_def returnS_def split: outcome.splits)
    with Cons.IH [of mid r'] step show ?thesis by (fastforce intro: prefix_order.trans)
  qed (use Cons.prems a step in \<open>auto simp: bindS_def\<close>)
qed (auto simp: returnS_def)

lemma locked_run:
  assumes "locked_handle_message E f bbox c = (r, c')"
  shows "session_run E (cl_signaling (sh_client c)) (cl_signaling (sh_client c'))"
  using assms by (auto simp: locked_handle_message_eq split: if_splits prod.splits dest: step_runs(1))

lemma reader_byte_box_frame:
  assumes run: "reader_byte_box E gone bbox s = (r, s')"
  shows "reader_frame E s s'"
proof -
  obtain q c where lock: "locked_handle_message E m_reader_lock bbox (tl_shared s) = (q, c)" by fastforce
  note session = locked_run [OF lock]
  show ?thesis
  proof (cases q)
    case (Ok acts)
    obtain a acc where m: "mapS (reader_action E (tl_listening s)) acts (no_reader_actions (tl_events s)) = (a, acc)"
      by fastforce
    from reader_actions_accumulate [OF m]
    have out: "\<forall>m\<in>set (ra_out_messages acc). \<not> is_ws_close m" and ev: "prefix (tl_events s) (ra_events acc)"
      by (simp_all add: no_reader_actions_def)
    from run lock Ok m have rest: "thenS (liftO a)
       (thenS (send_raw (SaltyNetwork (''Sink error: '' @ gone)) (ra_out_messages acc))
       (thenS (send_incoming (SaltyCrash (''Channel error: '' @ gone)) (ra_in_messages acc))
       (returnS (\<not> ra_close_stream acc)))) (s\<lparr>tl_shared := c, tl_events := ra_events acc\<rparr>) = (r, s')"
      by (cases a) (simp_all add: reader_byte_box_def bindS_def thenS_def zoomS_def getS_def modifyS_def liftO_def)
    show ?thesis
    proof (cases a)
      case (Ok us)
      obtain x t where raw: "send_raw (SaltyNetwork (''Sink error: '' @ gone)) (ra_out_messages acc)
          (s\<lparr>tl_shared := c, tl_events := ra_events acc\<rparr>) = (x, t)" by fastforce
      obtain y u where inc: "send_incoming (SaltyCrash (''Channel error: '' @ gone)) (ra_in_messages acc) t = (y, u)"
        by fastforce
      have "s' = t \<or> s' = u"
        using rest Ok raw inc by (cases x; cases y) (auto simp: thenS_def bindS_def liftO_def returnS_def)
      with raw inc session ev out show ?thesis
        by (elim send_raw_cases send_incoming_cases disjE) (auto simp: reader_frame_def)
    qed (use rest session ev in \<open>auto simp: thenS_def bindS_def liftO_def reader_frame_def\<close>)
  next
    case (Err e)
    with run lock session show ?thesis
      by (auto simp: reader_byte_box_def bindS_def zoomS_def reader_frame_def)
  next
    case (Panic p)
    with run lock session show ?thesis
      by (auto simp: reader_byte_box_def bindS_def zoomS_def reader_frame_def)
  qed
qed

lemma reader_item_frame:
  assumes "reader_item E gone item s = (r, s')"
  shows "reader_frame E s s'"
proof -
  have stay: "reader_frame E s s" by (simp add: reader_frame_def)
  have msg: "reader_frame E s s'" if "reader_message E gone m s = (r, s')" for m
  proof (cases m)
    case (DecodedByteBox bbox)
    with that reader_byte_box_frame show ?thesis by (simp add: reader_message_def)
  next
    case (DecodedPing payload)
    obtain x t where raw: "send_raw (SaltyNetwork (''Could not enqueue pong message: '' @ gone)) [WsPong payload] s = (x, t)"
      by fastforce
    then have "s' = t" using that DecodedPing
      by (cases x) (auto simp: reader_message_def thenS_def bindS_def returnS_def)
    with raw show ?thesis by (elim send_raw_cases) (auto simp: reader_frame_def is_ws_close_def)
  qed (use that stay in \<open>auto simp: reader_message_def returnS_def\<close>)
  with assms stay show ?thesis
    by (cases "decode_ws_message E (the (projr item))")
      (auto simp: reader_item_def bindS_def liftO_def proc_defs split: sum.splits option.splits)
qed

section \<open>Sessions\<close>

lemma transform_message_run:
  "transform_message E msg c = (r, c') \<Longrightarrow> session_run E (cl_signaling c) (cl_signaling c')"
  by (auto simp: transform_message_def encrypt_task_message_def encrypt_close_message_def on_signaling_def zoomS_def
      split: task_message.splits prod.splits
      dest: step_runs(2,3))

lemma with_lock_run:
  assumes "with_write_lock f (transform_message E msg) c = (r, c')"
  shows "session_run E (cl_signaling (sh_client c)) (cl_signaling (sh_client c'))"
  using assms by (auto simp: with_write_lock_def split: if_splits prod.splits dest: transform_message_run)

lemma reader_step_run: "session_run E (tl_signaling s) (tl_signaling (reader_step E gone item s))"
proof -
  obtain r s' where "reader_item E gone item s = (r, s')" by fastforce
  with reader_item_frame [OF this] show ?thesis
    by (auto simp: reader_step_def reader_frame_def split: outcome.splits bool.splits)
qed

lemma transformer_step_run: "session_run E (tl_signaling s) (tl_signaling (transformer_step E s))"
  by (auto simp: transformer_step_def split: list.splits transformed.splits prod.splits outcome.splits
      dest: with_lock_run)

lemma others_run:
  "tl_shared (reader_disconnect s) = tl_shared s" "tl_shared (writer_step e s) = tl_shared s"
  "tl_shared (task_operation op s) = tl_shared s"
  by (auto simp: reader_disconnect_def writer_step_def task_operation_def Let_def
      split: oneshot.splits list.splits option.splits task_operation.splits)

lemma loop_run_session: "loop_run E gone s s' \<Longrightarrow> session_run E (tl_signaling s) (tl_signaling s')"
proof (induction rule: rtranclp_induct)
  case (step t u)
  from step(2) have "session_run E (tl_signaling t) (tl_signaling u)"
    by (cases rule: loop_step.cases) (auto simp: others_run reader_step_run transformer_step_run)
  with step(3) show ?case by (rule rtranclp_trans)
qed simp

interpretation in_task: common_invariant "\<lambda>c. cm_signaling_state c = TaskState"
  by unfold_locales simp_all

lemma loop_step_events:
  "loop_step E gone s s' \<Longrightarrow> prefix (tl_events s) (tl_events s')"
proof (induction rule: loop_step.induct)
  case (read s item)
  obtain r s' where "reader_item E gone item s = (r, s')" by fastforce
  with reader_item_frame [OF this] show ?case
    by (auto simp: reader_step_def reader_frame_def split: outcome.splits bool.splits)
qed (auto simp: reader_disconnect_def transformer_step_def writer_step_def task_operation_def Let_def
    split: oneshot.splits list.splits transformed.splits prod.splits outcome.splits option.splits
      task_operation.splits)

text \<open>
  C16. The task loop never leaves the task phase: under every interleaving of the futures, the
  task and the connection, what happens to the client is a session that keeps the invariant
  and the task state; events are only added.
\<close>

theorem loop_stays_in_task_phase:
  assumes "loop_run E gone s s'" "order_laws E" "sig_inv key (tl_signaling s)"
    and "cm_signaling_state (sig_common (tl_signaling s)) = TaskState"
  shows "session_run E (tl_signaling s) (tl_signaling s') \<and> sig_inv key (tl_signaling s') \<and>
    cm_signaling_state (sig_common (tl_signaling s')) = TaskState \<and> prefix (tl_events s) (tl_events s')"
proof -
  note run = loop_run_session [OF assms(1)]
  have "prefix (tl_events s) (tl_events s')"
    using assms(1) by (induction rule: rtranclp_induct) (auto dest: loop_step_events intro: prefix_order.trans)
  with run sig_inv_run [OF assms(2) run assms(3)] in_task.keeps_run [OF run assms(4)]
  show ?thesis by blast
qed

section \<open>Order of the messages\<close>

abbreviation enqueued :: "('t, 'v) task_loop_state \<Rightarrow> owned_message list" where
  "enqueued s \<equiv> tl_sent s @ tl_raw s"

lemma loop_result_None:
  "loop_result s = None \<Longrightarrow> failure (tl_reader s) = None \<and> failure (tl_transformer s) = None \<and>
    failure (tl_writer s) = None"
  by (auto simp: loop_result_def split: option.splits)

lemma loop_step_writer:
  "loop_step E gone s s' \<Longrightarrow> failure (tl_writer s') = None \<Longrightarrow> failure (tl_writer s) = None"
  by (induction rule: loop_step.induct)
    (auto simp: task_operation_def dest: loop_result_None split: task_operation.splits if_splits)

lemma loop_step_enqueued:
  "loop_step E gone s s' \<Longrightarrow> failure (tl_writer s') = None \<Longrightarrow> prefix (enqueued s) (enqueued s')"
proof (induction rule: loop_step.induct)
  case (read s item)
  obtain r s' where "reader_item E gone item s = (r, s')" by fastforce
  with reader_item_frame [OF this] show ?case
    by (auto simp: reader_step_def reader_frame_def split: outcome.splits bool.splits)
qed (auto simp: reader_disconnect_def transformer_step_def writer_step_def task_operation_def Let_def
    split: oneshot.splits list.splits transformed.splits prod.splits outcome.splits option.splits
      task_operation.splits)

text \<open>
  C21. Messages are sent in the order in which they were enqueued, and none is lost or sent
  twice: unless the WebSocket sink fails, what was sent and what is enqueued at some moment
  stays the beginning of what is sent and enqueued later.
\<close>

theorem sent_in_order:
  assumes "loop_run E gone s s'" "failure (tl_writer s') = None"
  shows "prefix (tl_sent s @ tl_raw s) (tl_sent s' @ tl_raw s')"
  using assms
proof (induction rule: rtranclp_induct)
  case (step t u)
  with loop_step_writer [OF step(2)] loop_step_enqueued [OF step(2)] show ?case
    by (auto intro: prefix_order.trans)
qed simp

section \<open>Closing\<close>

definition closes :: "('t, 'v) task_loop_state \<Rightarrow> nat" where
  "closes s = length (filter is_ws_close (tl_sent s @ tl_raw s))"

lemma transform_message_items:
  assumes "transform_message E msg c = (Ok items, c')"
  shows "\<exists>b. if is_close msg then \<exists>d. items = [Transformed (WsBinary b), Transformed (WsClose d), EndTransformer]
    else items = [Transformed (WsBinary b)]"
  using assms
  by (auto simp: transform_message_def encrypt_task_message_def encrypt_close_message_def is_close_def
      split: task_message.splits prod.splits)

lemma locked_transform_items:
  assumes "with_write_lock f (transform_message E msg) c = (Ok items, c')"
  shows "\<exists>b. if is_close msg then \<exists>d. items = [Transformed (WsBinary b), Transformed (WsClose d), EndTransformer]
    else items = [Transformed (WsBinary b)]"
proof -
  from assms have "\<exists>x. transform_message E msg (sh_client c) = (Ok items, x)"
    by (auto simp: with_write_lock_def split: if_splits prod.splits)
  then show ?thesis by (elim exE) (rule transform_message_items)
qed

text \<open>
  The stream of the transformer between two steps, and how many close frames were enqueued.
\<close>

definition stream_ok :: "('t, 'v) task_loop_state \<Rightarrow> bool" where
  "stream_ok s \<longleftrightarrow>
     (if tl_transformer s = Running \<and> failure (tl_writer s) = None
      then (tl_current s = [EndTransformer] \<and> closes s = 1) \<or>
        (closes s = 0 \<and> (\<exists>b d. tl_current s \<in> {[], [Transformed (WsBinary b)],
          [Transformed (WsBinary b), Transformed (WsClose d), EndTransformer], [Transformed (WsClose d), EndTransformer]}))
      else closes s \<le> 1)"

lemma stream_ok_le: "stream_ok s \<Longrightarrow> closes s \<le> 1"
  by (auto simp: stream_ok_def split: if_splits)

lemma stream_ok_cong:
  assumes "tl_transformer s' = tl_transformer s" "tl_writer s' = tl_writer s" "tl_current s' = tl_current s"
    "closes s' = closes s"
  shows "stream_ok s' = stream_ok s"
  using assms by (simp add: stream_ok_def)

lemma reader_step_fields:
  "tl_transformer (reader_step E gone item s) = tl_transformer s"
  "tl_writer (reader_step E gone item s) = tl_writer s"
  "tl_current (reader_step E gone item s) = tl_current s"
  "tl_outgoing (reader_step E gone item s) = tl_outgoing s"
  "closes (reader_step E gone item s) = closes s"
proof -
  obtain r s' where run: "reader_item E gone item s = (r, s')" by fastforce
  have c: "closes (t\<lparr>tl_reader := x\<rparr>) = closes t" for t :: "('a, 'b) task_loop_state" and x
    by (simp add: closes_def)
  from reader_item_frame [OF run] run show
    "tl_transformer (reader_step E gone item s) = tl_transformer s"
    "tl_writer (reader_step E gone item s) = tl_writer s"
    "tl_current (reader_step E gone item s) = tl_current s"
    "tl_outgoing (reader_step E gone item s) = tl_outgoing s"
    "closes (reader_step E gone item s) = closes s"
    by (auto simp: reader_step_def reader_frame_def closes_def filter_empty_conv split: outcome.splits bool.splits)
qed

lemma transformer_step_stream:
  assumes "stream_ok s" "tl_transformer s = Running" "failure (tl_writer s) = None"
  shows "stream_ok (transformer_step E s)"
proof (cases "tl_current s")
  case Nil
  with assms have none: "closes s = 0" by (auto simp: stream_ok_def)
  show ?thesis
  proof (cases "tl_outgoing s")
    case (Cons msg rest)
    obtain r c where lock: "with_write_lock (\<lambda>_. ()) (transform_message E msg) (tl_shared s) = (r, c)" by fastforce
    show ?thesis
    proof (cases r)
      case (Ok items)
      with locked_transform_items [OF lock [unfolded Ok]] lock Nil Cons none assms show ?thesis
        by (auto simp: transformer_step_def stream_ok_def closes_def split: if_splits)
    qed (use Nil Cons lock none in \<open>auto simp: transformer_step_def stream_ok_def closes_def\<close>)
  qed (use Nil none assms in \<open>auto simp: transformer_step_def stream_ok_def closes_def\<close>)
next
  case (Cons item rest)
  with assms show ?thesis
    by (cases item)
      (auto simp: transformer_step_def stream_ok_def closes_def is_ws_close_def split: owned_message.splits)
qed

lemma writer_step_stream:
  assumes "stream_ok s" "failure (tl_writer s) = None"
  shows "stream_ok (writer_step e s)"
proof (cases "tl_raw s")
  case (Cons m rest)
  show ?thesis
  proof (cases e)
    case None
    with Cons have "closes (writer_step e s) = closes s" by (simp add: writer_step_def closes_def)
    with Cons None assms(1) show ?thesis
      by (subst stream_ok_cong [of _ s]) (simp_all add: writer_step_def)
  next
    case (Some x)
    with Cons have "closes (writer_step e s) \<le> closes s" by (simp add: writer_step_def closes_def)
    with Cons Some stream_ok_le [OF assms(1)] show ?thesis
      by (auto simp: stream_ok_def writer_step_def)
  qed
qed (use assms in \<open>auto simp: writer_step_def stream_ok_def closes_def\<close>)

lemma stream_ok_step: "loop_step E gone s s' \<Longrightarrow> stream_ok s \<Longrightarrow> stream_ok s'"
proof (induction rule: loop_step.induct)
  case (read s item)
  then show ?case using stream_ok_cong [of "reader_step E gone item s" s] by (simp add: reader_step_fields)
next
  case (disconnected s)
  then show ?case
    by (subst stream_ok_cong [of _ s]) (auto simp: reader_disconnect_def closes_def Let_def split: oneshot.splits)
next
  case (operated s op)
  then show ?case
    by (subst stream_ok_cong [of _ s]) (auto simp: task_operation_def closes_def split: task_operation.splits)
qed (auto simp: transformer_step_stream writer_step_stream dest: loop_result_None)

lemma loop_start:
  assumes "task_loop salty = Ok (task, s)"
  shows "stream_ok s" "tl_reader s = Running" "tl_transformer s = Running" "tl_writer s = Running"
    "tl_disconnect s = OneshotWaiting" "tl_shared s = salty" "tl_sent s = []" "tl_raw s = []"
  using assms by (auto simp: task_loop_def bindO_eq_Ok_iff stream_ok_def closes_def split: if_splits)

lemma stream_ok_run:
  assumes "loop_run E gone s s'" "stream_ok s"
  shows "stream_ok s'"
  using assms by (induction rule: rtranclp_induct) (auto intro: stream_ok_step)

lemma closed_keeps_outgoing:
  assumes "loop_step E gone s s'" "stream_ok s" "closes s = 1"
  shows "prefix (tl_outgoing s) (tl_outgoing s')"
  using assms
proof (induction rule: loop_step.induct)
  case (transformed s)
  then show ?case
    by (auto simp: stream_ok_def transformer_step_def dest: loop_result_None)
qed (auto simp: reader_step_fields reader_disconnect_def writer_step_def task_operation_def Let_def
    split: oneshot.splits list.splits option.splits task_operation.splits)

lemma closes_mono:
  assumes "loop_step E gone s s'" "failure (tl_writer s') = None"
  shows "closes s \<le> closes s'"
proof -
  from loop_step_enqueued [OF assms] obtain ms where "enqueued s' = enqueued s @ ms" by (auto simp: prefix_def)
  then show ?thesis by (simp add: closes_def del: filter_append) simp
qed


section \<open>Termination\<close>

text \<open>Steps of the futures that need nothing from the connection or the task.\<close>

inductive internal_step ::
  "('t, 'v, 'z) env_scheme \<Rightarrow> ('t, 'v) task_loop_state \<Rightarrow> ('t, 'v) task_loop_state \<Rightarrow> bool" for E where
  "loop_result s = None \<Longrightarrow> tl_reader s = Running \<Longrightarrow> tl_disconnect s \<noteq> OneshotWaiting \<Longrightarrow>
    internal_step E s (reader_disconnect s)"
| "loop_result s = None \<Longrightarrow> tl_transformer s = Running \<Longrightarrow> transformer_step E s \<noteq> s \<Longrightarrow>
    internal_step E s (transformer_step E s)"
| "loop_result s = None \<Longrightarrow> tl_writer s = Running \<Longrightarrow> writer_step e s \<noteq> s \<Longrightarrow>
    internal_step E s (writer_step e s)"

definition work :: "('t, 'v) task_loop_state \<Rightarrow> nat" where
  "work s = 7 * length (tl_outgoing s) + 2 * length (tl_current s) + length (tl_raw s) +
     (if tl_reader s = Running then 8 else 0) + (if tl_transformer s = Running then 1 else 0) +
     (if tl_writer s = Running then 1 else 0)"

lemma internal_step_work: "internal_step E s s' \<Longrightarrow> work s' < work s"
proof (induction rule: internal_step.induct)
  case (1 s)
  then show ?case by (auto simp: work_def reader_disconnect_def Let_def split: oneshot.splits)
next
  case (2 s)
  show ?case
  proof (cases "tl_current s")
    case Nil
    show ?thesis
    proof (cases "tl_outgoing s")
      case (Cons msg rest)
      obtain r c where lock: "with_write_lock (\<lambda>_. ()) (transform_message E msg) (tl_shared s) = (r, c)" by fastforce
      show ?thesis
      proof (cases r)
        case (Ok items)
        with locked_transform_items [OF lock [unfolded Ok]] lock Nil Cons show ?thesis
          by (auto simp: transformer_step_def work_def split: if_splits)
      qed (use Nil Cons lock 2 in \<open>auto simp: transformer_step_def work_def\<close>)
    qed (use Nil 2 in \<open>auto simp: transformer_step_def work_def split: if_splits\<close>)
  next
    case (Cons item rest)
    with 2 show ?thesis by (cases item) (auto simp: transformer_step_def work_def)
  qed
next
  case (3 s e)
  then show ?case by (auto simp: writer_step_def work_def split: list.splits option.splits if_splits)
qed

text \<open>
  C22. The futures come to rest: without new messages of the connection or the task, the loop
  makes at most as many steps as the queues allow.
\<close>

theorem loop_comes_to_rest:
  assumes "(internal_step E ^^ n) s s'"
  shows "n + work s' \<le> work s"
  using assms
proof (induction n arbitrary: s')
  case (Suc n)
  from Suc.prems obtain t where "(internal_step E ^^ n) s t" "internal_step E t s'" by auto
  with Suc.IH [of t] internal_step_work [of E t s'] show ?case by simp
qed simp

section \<open>Disconnecting\<close>

text \<open>The writer finishes last.\<close>

definition writer_ok :: "('t, 'v) task_loop_state \<Rightarrow> bool" where
  "writer_ok s \<longleftrightarrow> (tl_writer s = Finished (Ok ()) \<longrightarrow>
     tl_raw s = [] \<and> tl_reader s \<noteq> Running \<and> tl_transformer s \<noteq> Running)"

lemma writer_ok_step: "loop_step E gone s s' \<Longrightarrow> writer_ok s \<Longrightarrow> writer_ok s'"
proof (induction rule: loop_step.induct)
  case (read s item)
  then show ?case by (simp add: writer_ok_def reader_step_fields)
qed (auto simp: writer_ok_def reader_disconnect_def transformer_step_def writer_step_def task_operation_def Let_def
    split: oneshot.splits list.splits transformed.splits prod.splits outcome.splits option.splits
      task_operation.splits if_splits)

lemma writer_ok_run: "loop_run E gone s s' \<Longrightarrow> writer_ok s \<Longrightarrow> writer_ok s'"
  by (induction rule: rtranclp_induct) (auto intro: writer_ok_step)

lemma internal_loop_step: "internal_step E s s' \<Longrightarrow> loop_step E gone s s'"
  by (induction rule: internal_step.induct) (auto intro: loop_step.intros)

text \<open>A close message is on its way, or was enqueued.\<close>

definition closing :: "('t, 'v) task_loop_state \<Rightarrow> bool" where
  "closing s \<longleftrightarrow> tl_disconnect s \<noteq> OneshotWaiting \<and> tl_disconnect s \<noteq> OneshotDropped \<and>
     (failure (tl_writer s) = None \<longrightarrow> failure (tl_transformer s) = None \<longrightarrow>
      (if tl_transformer s = Running
       then tl_reader s = Running \<or> list_ex is_close (tl_outgoing s) \<or> EndTransformer \<in> set (tl_current s)
       else closes s = 1))"

lemma closing_transformer:
  assumes "closing s" "stream_ok s" "tl_transformer s = Running" "loop_result s = None" "transformer_step E s \<noteq> s"
  shows "closing (transformer_step E s)"
proof (cases "tl_current s")
  case Nil
  show ?thesis
  proof (cases "tl_outgoing s")
    case Nil' : Nil
    with Nil assms show ?thesis
      by (auto simp: closing_def transformer_step_def dest!: loop_result_None split: if_splits)
  next
    case (Cons msg rest)
    obtain r c where lock: "with_write_lock (\<lambda>_. ()) (transform_message E msg) (tl_shared s) = (r, c)" by fastforce
    show ?thesis
    proof (cases r)
      case (Ok items)
      with locked_transform_items [OF lock [unfolded Ok]] lock Nil Cons assms show ?thesis
        by (auto simp: closing_def transformer_step_def dest!: loop_result_None split: if_splits)
    qed (use Nil Cons lock assms in \<open>auto simp: closing_def transformer_step_def\<close>)
  qed
next
  case (Cons item rest)
  with assms show ?thesis
    by (cases item)
      (auto simp: closing_def transformer_step_def stream_ok_def closes_def dest!: loop_result_None)
qed

lemma closing_step:
  assumes "internal_step E s s'" "closing s" "stream_ok s"
  shows "closing s'"
  using assms
proof (induction rule: internal_step.induct)
  case (1 s)
  then show ?case
    by (auto simp: closing_def reader_disconnect_def is_close_def closes_def Let_def dest!: loop_result_None
        split: oneshot.splits)
next
  case (2 s)
  then show ?case by (auto intro: closing_transformer)
next
  case (3 s e)
  then show ?case
    by (auto simp: closing_def writer_step_def closes_def split: list.splits option.splits if_splits)
qed

lemma transformer_step_changes:
  assumes "tl_current s \<noteq> [] \<or> tl_outgoing s \<noteq> []"
  shows "transformer_step E s \<noteq> s"
proof -
  have "tl_current (transformer_step E s) \<noteq> tl_current s \<or> tl_outgoing (transformer_step E s) \<noteq> tl_outgoing s"
  proof (cases "tl_current s")
    case Nil
    with assms obtain msg rest where "tl_outgoing s = msg # rest" by (cases "tl_outgoing s") auto
    with Nil show ?thesis
      by (cases "with_write_lock (\<lambda>_. ()) (transform_message E msg) (tl_shared s)")
        (auto simp: transformer_step_def split: outcome.splits)
  next
    case (Cons item rest)
    then show ?thesis by (cases item) (auto simp: transformer_step_def)
  qed
  then show ?thesis by auto
qed

lemma writer_step_changes:
  assumes "tl_reader s \<noteq> Running" "tl_transformer s \<noteq> Running" "tl_writer s = Running"
  shows "writer_step None s \<noteq> s"
proof -
  have "tl_raw (writer_step None s) \<noteq> tl_raw s \<or> tl_writer (writer_step None s) \<noteq> tl_writer s"
    using assms by (auto simp: writer_step_def split: list.splits)
  then show ?thesis by auto
qed

lemma at_rest_result:
  assumes "closing s" "\<And>s'. \<not> internal_step E s s'"
  shows "loop_result s \<noteq> None"
proof
  assume running: "loop_result s = None"
  note ok = loop_result_None [OF running]
  have "tl_reader s \<noteq> Running"
    using assms running internal_step.intros(1) [of s] by (auto simp: closing_def)
  moreover have "tl_transformer s \<noteq> Running"
  proof
    assume t: "tl_transformer s = Running"
    with assms(1) ok \<open>tl_reader s \<noteq> Running\<close> have "tl_current s \<noteq> [] \<or> tl_outgoing s \<noteq> []"
      by (auto simp: closing_def)
    with assms(2) internal_step.intros(2) [OF running t] transformer_step_changes show False by blast
  qed
  moreover from calculation have "tl_writer s \<noteq> Running"
    using assms(2) internal_step.intros(3) [OF running, where e = None] writer_step_changes by blast
  ultimately show False using running ok by (auto simp: loop_result_def)
qed


section \<open>A concrete loop\<close>

lemma rest_exists: "\<exists>s'. (internal_step E)\<^sup>*\<^sup>* s s' \<and> (\<forall>t. \<not> internal_step E s' t)"
proof (induction "work s" arbitrary: s rule: less_induct)
  case less
  show ?case
  proof (cases "\<exists>t. internal_step E s t")
    case True
    then obtain t where t: "internal_step E s t" by blast
    from less [OF internal_step_work [OF t]] obtain s' where
      "(internal_step E)\<^sup>*\<^sup>* t s'" "\<forall>u. \<not> internal_step E s' u" by blast
    with t show ?thesis by (blast intro: converse_rtranclp_into_rtranclp)
  qed blast
qed

text \<open>The loop of the initiator at the end of the concrete handshake.\<close>

definition scenario_shared :: "string shared_client" where
  "scenario_shared = \<lparr>sh_client = \<lparr>cl_signaling = snd initiator_finished\<rparr>, sh_poisoned = False\<rparr>"

definition scenario_loop :: "(string, sample_value) task_loop_state" where
  "scenario_loop =
     \<lparr>tl_shared = scenario_shared, tl_outgoing = [], tl_raw = [], tl_incoming = [], tl_events = [], tl_sent = [],
      tl_current = [], tl_reader = Running, tl_transformer = Running, tl_writer = Running,
      tl_disconnect = OneshotWaiting, tl_task_sends = True, tl_task_receives = True, tl_listening = True\<rparr>"

lemma scenario_loop_start: "task_loop scenario_shared = Ok (''t'', scenario_loop)"
proof -
  have "client_task (sh_client scenario_shared) = Some ''t''" by code_simp
  then show ?thesis unfolding task_loop_def scenario_loop_def by (simp add: scenario_shared_def)
qed

definition scenario_closing :: "(string, sample_value) task_loop_state" where
  "scenario_closing = task_operation (TaskDisconnects (Some WsGoingAway)) scenario_loop"

lemma scenario_closing_run: "loop_run scenario_env gone scenario_loop scenario_closing"
  unfolding scenario_closing_def by (rule r_into_rtranclp) (rule operated)

lemma scenario_closing_fields:
  "tl_reader scenario_closing = Running" "tl_transformer scenario_closing = Running"
  "tl_disconnect scenario_closing = OneshotSent (Some WsGoingAway)" "tl_writer scenario_closing = Running"
  "tl_sent scenario_closing = []" "tl_raw scenario_closing = []" "tl_outgoing scenario_closing = []"
  by (simp_all add: scenario_closing_def task_operation_def scenario_loop_def)



theorem loop_comes_to_rest_witness: "1 + work (reader_disconnect scenario_closing) \<le> work scenario_closing"
proof -
  have "loop_result scenario_closing = None" by (simp add: loop_result_def scenario_closing_fields)
  then have "internal_step scenario_env scenario_closing (reader_disconnect scenario_closing)"
    by (intro internal_step.intros) (simp_all add: scenario_closing_fields)
  then show ?thesis using loop_comes_to_rest [of 1 scenario_env scenario_closing] by (simp add: eq_OO)
qed

definition scenario_ping :: "(string, sample_value) task_loop_state" where
  "scenario_ping = reader_step scenario_env ''gone'' (Inr (Some (WsPing [7]))) scenario_loop"

lemma scenario_ping_fields: "tl_raw scenario_ping = [WsPong [7]]" "tl_sent scenario_ping = []"
    "tl_writer scenario_ping = Running" "loop_result scenario_ping = None"
  by (simp_all add: scenario_ping_def reader_step_def reader_item_def reader_message_def decode_ws_message_def
      send_raw_def proc_defs scenario_loop_def loop_result_def)

theorem sent_in_order_witness: "prefix [WsPong [7]] (tl_sent (writer_step None scenario_ping))"
proof -
  have "loop_step scenario_env ''gone'' scenario_ping (writer_step None scenario_ping)"
    using scenario_ping_fields by (intro written)
  moreover have "tl_raw (writer_step None scenario_ping) = []" "tl_writer (writer_step None scenario_ping) = Running"
    using scenario_ping_fields by (simp_all add: writer_step_def)
  ultimately show ?thesis
    using sent_in_order [of scenario_env "''gone''" scenario_ping "writer_step None scenario_ping"] scenario_ping_fields
    by auto
qed

theorem loop_stays_in_task_phase_witness:
  "sig_inv (scenario_key 3) (tl_signaling scenario_closing) \<and>
   cm_signaling_state (sig_common (tl_signaling scenario_closing)) = TaskState"
proof -
  have sig: "tl_signaling scenario_loop = snd initiator_finished" by (simp add: scenario_loop_def scenario_shared_def)
  have "sig_inv (scenario_key 3) (tl_signaling scenario_loop)"
    unfolding sig using sig_inv_run [OF scenario_order_laws scenario_runs(4) scenario_states_inv(2)] .
  moreover have "cm_signaling_state (sig_common (tl_signaling scenario_loop)) = TaskState"
    unfolding sig by code_simp
  ultimately show ?thesis
    using loop_stays_in_task_phase [OF scenario_closing_run [of "''gone''"] scenario_order_laws] by blast
qed

definition responder_task_box :: byte_box where
  "responder_task_box = peer_box 24 2 1 387455261 11"

theorem reader_delivers_witness:
  "fst (reader_byte_box scenario_env ''gone'' responder_task_box scenario_loop) = Ok True \<and>
   tl_incoming (snd (reader_byte_box scenario_env ''gone'' responder_task_box scenario_loop)) =
     [TaskValue [(''type'', SampleString ''data'')]]"
proof -
  let ?acts = "[ActionTaskMessage (TaskValue [(''type'', SampleString ''data'')])]"
  have sig: "tl_signaling scenario_loop = snd initiator_finished" by (simp add: scenario_loop_def scenario_shared_def)
  have run: "handle_message scenario_env responder_task_box (tl_signaling scenario_loop) =
      (Ok ?acts, snd (handle_message scenario_env responder_task_box (snd initiator_finished)))"
    unfolding sig prod_eq_iff by (intro conjI) (code_simp, simp)
  have "cm_signaling_state (sig_common (tl_signaling scenario_loop)) = TaskState" unfolding sig by code_simp
  from reader_delivers [OF run this] show ?thesis
    by (simp add: scenario_loop_def scenario_shared_def is_close_def)
qed

end
