(* ===== verification/Send_All.thy ===== *)
theory Send_All
  imports Prelude "HOL-Library.Sublist"
begin

text \<open>
  The future that sends a stream of items to a sink without closing it (\<open>src/send_all.rs\<close>).
  The sink and the stream are third-party trait objects: their methods are the record
  \<open>sink_stream\<close>, an argument of the definitions, and what the futures crate documents about
  them are the laws \<open>sink_laws\<close> and \<open>stream_laws\<close>. The loop of \<open>poll\<close> ends only if the
  stream does not yield items forever, so it is a partial function.
\<close>

section \<open>The future\<close>

datatype 'a async = Ready 'a | NotReady

text \<open>
  \<open>start_send\<close> returns whether the sink took the item; otherwise it gives the item back.
\<close>

record ('k, 'u, 'i, 'e) sink_stream =
  start_send :: "'i \<Rightarrow> ('k, 'e, bool) proc"
  poll_complete :: "('k, 'e, unit async) proc"
  stream_poll :: "('u, 'e, 'i option async) proc"

text \<open>A fused stream is not polled again after its end.\<close>

record 'u fuse =
  fuse_stream :: 'u
  fuse_done :: bool

definition fuse_poll :: "('k, 'u, 'i, 'e, 'z) sink_stream_scheme \<Rightarrow> ('u fuse, 'e, 'i option async) proc" where
  "fuse_poll P f =
     (if fuse_done f then (Ok (Ready None), f)
      else case stream_poll P (fuse_stream f) of
        (Ok (Ready None), u) \<Rightarrow> (Ok (Ready None), f\<lparr>fuse_stream := u, fuse_done := True\<rparr>)
      | (r, u) \<Rightarrow> (r, f\<lparr>fuse_stream := u\<rparr>))"

record ('k, 'u, 'i) send_all =
  sa_sink :: "'k option"
  sa_stream :: "'u fuse option"
  sa_buffered :: "'i option"

definition send_all_new :: "'k \<Rightarrow> 'u \<Rightarrow> ('k, 'u, 'i) send_all" where
  "send_all_new sink stream =
     \<lparr>sa_sink = Some sink, sa_stream = Some \<lparr>fuse_stream = stream, fuse_done = False\<rparr>, sa_buffered = None\<rparr>"

definition m_send_all_polled :: string where
  "m_send_all_polled = ''Attempted to poll SendAll after completion''"

definition m_forward_polled :: string where
  "m_forward_polled = ''Attempted to poll Forward after completion''"

text \<open>\<open>sink_mut\<close> and \<open>stream_mut\<close>: a method on the sink or stream, in place.\<close>

definition sink_mut :: "('k, 'e, 'a) proc \<Rightarrow> (('k, 'u, 'i) send_all, 'e, 'a) proc" where
  "sink_mut m s =
     (case sa_sink s of
        None \<Rightarrow> (Panic m_send_all_polled, s)
      | Some k \<Rightarrow> (case m k of (r, k') \<Rightarrow> (r, s\<lparr>sa_sink := Some k'\<rparr>)))"

definition stream_mut :: "('u fuse, 'e, 'a) proc \<Rightarrow> (('k, 'u, 'i) send_all, 'e, 'a) proc" where
  "stream_mut m s =
     (case sa_stream s of
        None \<Rightarrow> (Panic m_send_all_polled, s)
      | Some f \<Rightarrow> (case m f of (r, f') \<Rightarrow> (r, s\<lparr>sa_stream := Some f'\<rparr>)))"

definition take_result :: "(('k, 'u, 'i) send_all, 'e, 'k \<times> 'u) proc" where
  "take_result s =
     (case sa_sink s of
        None \<Rightarrow> (Panic m_forward_polled, s)
      | Some sink \<Rightarrow>
          (case sa_stream s of
             None \<Rightarrow> (Panic m_forward_polled, s\<lparr>sa_sink := None\<rparr>)
           | Some f \<Rightarrow> (Ok (sink, fuse_stream f), s\<lparr>sa_sink := None, sa_stream := None\<rparr>)))"

definition try_start_send ::
  "('k, 'u, 'i, 'e, 'z) sink_stream_scheme \<Rightarrow> 'i \<Rightarrow> (('k, 'u, 'i) send_all, 'e, unit async) proc" where
  "try_start_send P item =
     bindS (sink_mut (start_send P item)) (\<lambda>accepted.
       if accepted then returnS (Ready ())
       else thenS (modifyS (sa_buffered_update (\<lambda>_. Some item))) (returnS NotReady))"

text \<open>
  The loop of \<open>poll\<close>. \<open>try_ready!\<close> returns early when its argument is not ready.
\<close>

partial_function (option) poll_loop ::
  "('k, 'u, 'i, 'e, 'z) sink_stream_scheme \<Rightarrow> ('k, 'u, 'i) send_all \<Rightarrow>
   (('e, ('k \<times> 'u) async) outcome \<times> ('k, 'u, 'i) send_all) option" where
  "poll_loop P s =
     (case stream_mut (fuse_poll P) s of
        (Ok (Ready (Some item)), s') \<Rightarrow>
          (case try_start_send P item s' of
             (Ok (Ready _), s'') \<Rightarrow> poll_loop P s''
           | (Ok NotReady, s'') \<Rightarrow> Some (Ok NotReady, s'')
           | (Err e, s'') \<Rightarrow> Some (Err e, s'')
           | (Panic p, s'') \<Rightarrow> Some (Panic p, s''))
      | (Ok (Ready None), s') \<Rightarrow>
          (case sink_mut (poll_complete P) s' of
             (Ok (Ready _), s'') \<Rightarrow> (case take_result s'' of (r, t) \<Rightarrow> Some (map_ok Ready r, t))
           | (Ok NotReady, s'') \<Rightarrow> Some (Ok NotReady, s'')
           | (Err e, s'') \<Rightarrow> Some (Err e, s'')
           | (Panic p, s'') \<Rightarrow> Some (Panic p, s''))
      | (Ok NotReady, s') \<Rightarrow>
          (case sink_mut (poll_complete P) s' of
             (Ok (Ready _), s'') \<Rightarrow> Some (Ok NotReady, s'')
           | (Ok NotReady, s'') \<Rightarrow> Some (Ok NotReady, s'')
           | (Err e, s'') \<Rightarrow> Some (Err e, s'')
           | (Panic p, s'') \<Rightarrow> Some (Panic p, s''))
      | (Err e, s') \<Rightarrow> Some (Err e, s')
      | (Panic p, s') \<Rightarrow> Some (Panic p, s'))"

definition send_all_poll ::
  "('k, 'u, 'i, 'e, 'z) sink_stream_scheme \<Rightarrow> ('k, 'u, 'i) send_all \<Rightarrow>
   (('e, ('k \<times> 'u) async) outcome \<times> ('k, 'u, 'i) send_all) option" where
  "send_all_poll P s =
     (case sa_buffered s of
        None \<Rightarrow> poll_loop P s
      | Some item \<Rightarrow>
          (case try_start_send P item (s\<lparr>sa_buffered := None\<rparr>) of
             (Ok (Ready _), s') \<Rightarrow> poll_loop P s'
           | (Ok NotReady, s') \<Rightarrow> Some (Ok NotReady, s')
           | (Err e, s') \<Rightarrow> Some (Err e, s')
           | (Panic p, s') \<Rightarrow> Some (Panic p, s')))"

section \<open>Laws of sinks and streams\<close>

text \<open>
  \<open>accepted\<close> is what a sink has taken so far, \<open>remaining\<close> what a stream will still yield.
\<close>

definition sink_laws :: "('k, 'u, 'i, 'e, 'z) sink_stream_scheme \<Rightarrow> ('k \<Rightarrow> 'i list) \<Rightarrow> bool" where
  "sink_laws P accepted \<longleftrightarrow>
     (\<forall>i k. case start_send P i k of
        (Ok b, k') \<Rightarrow> accepted k' = (if b then accepted k @ [i] else accepted k)
      | (Err _, k') \<Rightarrow> accepted k' = accepted k
      | (Panic _, _) \<Rightarrow> True) \<and>
     (\<forall>k. case poll_complete P k of
        (Panic _, _) \<Rightarrow> True
      | (_, k') \<Rightarrow> accepted k' = accepted k)"

definition stream_laws :: "('k, 'u, 'i, 'e, 'z) sink_stream_scheme \<Rightarrow> ('u \<Rightarrow> 'i list) \<Rightarrow> bool" where
  "stream_laws P remaining \<longleftrightarrow>
     (\<forall>u. case stream_poll P u of
        (Ok (Ready (Some i)), u') \<Rightarrow> remaining u = i # remaining u'
      | (Ok (Ready None), u') \<Rightarrow> remaining u = [] \<and> remaining u' = []
      | (Ok NotReady, u') \<Rightarrow> remaining u' = remaining u
      | (Err _, u') \<Rightarrow> True
      | (Panic _, _) \<Rightarrow> True)"

section \<open>Every item is sent once and in order\<close>

definition fuse_remaining :: "('u \<Rightarrow> 'i list) \<Rightarrow> 'u fuse \<Rightarrow> 'i list" where
  "fuse_remaining remaining f = (if fuse_done f then [] else remaining (fuse_stream f))"

text \<open>All items of a future that has not completed: taken, buffered, and still to come.\<close>

definition items :: "('k \<Rightarrow> 'i list) \<Rightarrow> ('u \<Rightarrow> 'i list) \<Rightarrow> ('k, 'u, 'i) send_all \<Rightarrow> 'i list option" where
  "items accepted remaining s =
     (case (sa_sink s, sa_stream s) of
        (Some k, Some f) \<Rightarrow> Some (accepted k @
          (case sa_buffered s of None \<Rightarrow> [] | Some i \<Rightarrow> [i]) @ fuse_remaining remaining f)
      | _ \<Rightarrow> None)"

text \<open>The panics of the sink and the stream.\<close>

definition panics_of :: "('k, 'u, 'i, 'e, 'z) sink_stream_scheme \<Rightarrow> string set" where
  "panics_of P = {p. (\<exists>i k. fst (start_send P i k) = Panic p) \<or> (\<exists>k. fst (poll_complete P k) = Panic p) \<or>
     (\<exists>u. fst (stream_poll P u) = Panic p)}"

text \<open>
  What a call of \<open>poll\<close> may return, given all the items. The future itself does not panic.
\<close>

definition poll_ok ::
  "('k, 'u, 'i, 'e, 'z) sink_stream_scheme \<Rightarrow> ('k \<Rightarrow> 'i list) \<Rightarrow> ('u \<Rightarrow> 'i list) \<Rightarrow> 'i list \<Rightarrow>
   ('e, ('k \<times> 'u) async) outcome \<times> ('k, 'u, 'i) send_all \<Rightarrow> bool" where
  "poll_ok P accepted remaining all result =
     (case result of
        (Ok (Ready (k, u)), s) \<Rightarrow> accepted k = all \<and> sa_sink s = None \<and> sa_stream s = None \<and> sa_buffered s = None
      | (Ok NotReady, s) \<Rightarrow> items accepted remaining s = Some all
      | (Err e, s) \<Rightarrow> (\<exists>k. sa_sink s = Some k \<and> prefix (accepted k) all)
      | (Panic p, s) \<Rightarrow> p \<in> panics_of P)"

lemma panics_of_I:
  "start_send P i k = (Panic p, k') \<Longrightarrow> p \<in> panics_of P" "poll_complete P k = (Panic p, k') \<Longrightarrow> p \<in> panics_of P"
  "stream_poll P u = (Panic p, u') \<Longrightarrow> p \<in> panics_of P"
  by (auto simp: panics_of_def) (metis fst_conv)+

lemma fuse_poll_cases:
  assumes "stream_laws P remaining" "fuse_poll P f = (r, f')"
  shows "case r of
      Ok (Ready (Some i)) \<Rightarrow> fuse_remaining remaining f = i # fuse_remaining remaining f'
    | Ok (Ready None) \<Rightarrow> fuse_remaining remaining f = [] \<and> fuse_remaining remaining f' = []
    | Ok NotReady \<Rightarrow> fuse_remaining remaining f' = fuse_remaining remaining f
    | Err _ \<Rightarrow> True
    | Panic p \<Rightarrow> p \<in> panics_of P"
proof (cases "fuse_done f")
  case False
  obtain q u where q: "stream_poll P (fuse_stream f) = (q, u)" by fastforce
  with assms(1) have "case q of
      Ok (Ready (Some i)) \<Rightarrow> remaining (fuse_stream f) = i # remaining u
    | Ok (Ready None) \<Rightarrow> remaining (fuse_stream f) = [] \<and> remaining u = []
    | Ok NotReady \<Rightarrow> remaining u = remaining (fuse_stream f)
    | Err _ \<Rightarrow> True
    | Panic p \<Rightarrow> p \<in> panics_of P"
    using panics_of_I(3) [of P "fuse_stream f" _ u]
    unfolding stream_laws_def by (auto dest!: spec [of _ "fuse_stream f"] split: outcome.splits async.splits option.splits)
  with False q assms(2) show ?thesis
    by (auto simp: fuse_poll_def fuse_remaining_def split: outcome.splits async.splits option.splits)
qed (use assms(2) in \<open>auto simp: fuse_poll_def fuse_remaining_def\<close>)

lemma try_start_send_cases:
  assumes "sink_laws P accepted" "sa_sink s = Some k" "try_start_send P i s = (r, s')"
  shows "case r of
      Ok (Ready _) \<Rightarrow> (\<exists>k'. s' = s\<lparr>sa_sink := Some k'\<rparr> \<and> accepted k' = accepted k @ [i])
    | Ok NotReady \<Rightarrow> (\<exists>k'. s' = s\<lparr>sa_sink := Some k', sa_buffered := Some i\<rparr> \<and> accepted k' = accepted k)
    | Err _ \<Rightarrow> (\<exists>k'. s' = s\<lparr>sa_sink := Some k'\<rparr> \<and> accepted k' = accepted k)
    | Panic p \<Rightarrow> p \<in> panics_of P"
proof -
  obtain q k' where q: "start_send P i k = (q, k')" by fastforce
  with assms(1) have "case q of
      Ok b \<Rightarrow> accepted k' = (if b then accepted k @ [i] else accepted k)
    | Err _ \<Rightarrow> accepted k' = accepted k | Panic p \<Rightarrow> p \<in> panics_of P"
    using panics_of_I(1) [of P i k _ k']
    unfolding sink_laws_def by (auto dest!: spec [of _ i] spec [of _ k] split: outcome.splits)
  with q assms(2,3) show ?thesis
    by (cases q) (auto simp: try_start_send_def sink_mut_def proc_defs split: if_splits)
qed

lemma poll_complete_cases:
  assumes "sink_laws P accepted" "sa_sink s = Some k" "sink_mut (poll_complete P) s = (r, s')"
  shows "case r of
      Panic p \<Rightarrow> p \<in> panics_of P
    | _ \<Rightarrow> \<exists>k'. s' = s\<lparr>sa_sink := Some k'\<rparr> \<and> accepted k' = accepted k"
proof -
  obtain q k' where q: "poll_complete P k = (q, k')" by fastforce
  with assms(1) have "case q of Panic p \<Rightarrow> p \<in> panics_of P | _ \<Rightarrow> accepted k' = accepted k"
    using panics_of_I(2) [of P k _ k']
    unfolding sink_laws_def by (auto dest!: spec [of _ k] split: outcome.splits)
  with q assms(2,3) show ?thesis by (cases q) (auto simp: sink_mut_def)
qed

lemma poll_loop_ok:
  assumes sink: "sink_laws P accepted" and stream: "stream_laws P remaining"
    and "sa_sink s = Some k" "sa_stream s = Some f" "sa_buffered s = None"
  shows "case poll_loop P s of
      Some result \<Rightarrow> poll_ok P accepted remaining (accepted k @ fuse_remaining remaining f) result
    | None \<Rightarrow> False"
  using assms(3-)
proof (induction "length (fuse_remaining remaining f)" arbitrary: s k f rule: less_induct)
  case less
  let ?all = "accepted k @ fuse_remaining remaining f"
  obtain r f' where poll: "fuse_poll P f = (r, f')" by fastforce
  let ?s = "s\<lparr>sa_stream := Some f'\<rparr>"
  have mut: "stream_mut (fuse_poll P) s = (r, ?s)" using poll less.prems by (simp add: stream_mut_def)
  note law = fuse_poll_cases [OF stream poll]
  obtain c t where complete: "sink_mut (poll_complete P) ?s = (c, t)" by fastforce
  note done' = poll_complete_cases [OF sink _ complete, of k]
  consider (item) i where "r = Ok (Ready (Some i))" | (ended) "r = Ok (Ready None)" | (pending) "r = Ok NotReady"
    | (err) e where "r = Err e" | (panic) p where "r = Panic p"
    by (cases r) (metis async.exhaust option.exhaust)+
  then show ?case
  proof cases
    case (item i)
    with law have f: "fuse_remaining remaining f = i # fuse_remaining remaining f'" by simp
    obtain q u where send: "try_start_send P i ?s = (q, u)" by fastforce
    note sent = try_start_send_cases [OF sink _ send, of k]
    have unfold: "poll_loop P s = (case q of
         Ok (Ready _) \<Rightarrow> poll_loop P u | Ok NotReady \<Rightarrow> Some (Ok NotReady, u)
       | Err e \<Rightarrow> Some (Err e, u) | Panic p \<Rightarrow> Some (Panic p, u))"
      by (subst poll_loop.simps) (simp add: mut item send split: outcome.split async.split)
    show ?thesis
    proof (cases "\<exists>x. q = Ok (Ready x)")
      case True
      with sent less.prems obtain k' where k': "u = ?s\<lparr>sa_sink := Some k'\<rparr>" "accepted k' = accepted k @ [i]"
        by auto
      have "case poll_loop P u of
          Some result \<Rightarrow> poll_ok P accepted remaining (accepted k' @ fuse_remaining remaining f') result
        | None \<Rightarrow> False"
        using f less.prems k' by (intro less.hyps) simp_all
      with True unfold f k' show ?thesis by (auto split: option.splits)
    next
      case False
      with unfold sent f less.prems show ?thesis
        by (auto simp: poll_ok_def items_def split: outcome.splits async.splits)
    qed
  next
    case ended
    with law less.prems mut complete done' show ?thesis
      by (subst poll_loop.simps)
        (auto simp: poll_ok_def items_def take_result_def split: outcome.splits async.splits)
  next
    case pending
    with law less.prems mut complete done' show ?thesis
      by (subst poll_loop.simps) (auto simp: poll_ok_def items_def split: outcome.splits async.splits)
  next
    case (err e)
    with mut less.prems show ?thesis by (subst poll_loop.simps) (auto simp: poll_ok_def)
  next
    case (panic p)
    with mut law show ?thesis by (subst poll_loop.simps) (auto simp: poll_ok_def)
  qed
qed

lemma send_all_poll_ok:
  assumes "sink_laws P accepted" "stream_laws P remaining" "items accepted remaining s = Some all"
  shows "case send_all_poll P s of Some result \<Rightarrow> poll_ok P accepted remaining all result | None \<Rightarrow> False"
proof -
  from assms(3) obtain k f where s: "sa_sink s = Some k" "sa_stream s = Some f"
    by (auto simp: items_def split: option.splits)
  show ?thesis
  proof (cases "sa_buffered s")
    case None
    with s assms poll_loop_ok [OF assms(1,2) s None] show ?thesis
      by (auto simp: send_all_poll_def items_def split: option.splits)
  next
    case (Some i)
    let ?s = "s\<lparr>sa_buffered := None\<rparr>"
    obtain q u where send: "try_start_send P i ?s = (q, u)" by fastforce
    note sent = try_start_send_cases [OF assms(1) _ send, of k]
    show ?thesis
    proof (cases "\<exists>x. q = Ok (Ready x)")
      case True
      with sent s obtain k' where k': "u = ?s\<lparr>sa_sink := Some k'\<rparr>" "accepted k' = accepted k @ [i]" by auto
      with True Some s assms send poll_loop_ok [OF assms(1,2), of u k' f] show ?thesis
        by (auto simp: send_all_poll_def items_def split: option.splits)
    next
      case False
      with Some s assms send sent show ?thesis
        by (auto simp: send_all_poll_def items_def poll_ok_def split: outcome.splits async.splits)
    qed
  qed
qed

section \<open>Completed futures\<close>

text \<open>
  The future is polled until it is ready; between two polls the sink may write out what it has
  taken, and the stream may prepare items.
\<close>

inductive completes ::
  "('k, 'u, 'i, 'e, 'z) sink_stream_scheme \<Rightarrow> ('k \<Rightarrow> 'i list) \<Rightarrow> ('u \<Rightarrow> 'i list) \<Rightarrow>
   ('k, 'u, 'i) send_all \<Rightarrow> 'k \<Rightarrow> bool" for P accepted remaining where
  ready: "send_all_poll P s = Some (Ok (Ready (k, u)), s') \<Longrightarrow> completes P accepted remaining s k"
| again: "send_all_poll P s = Some (Ok NotReady, s') \<Longrightarrow>
    items accepted remaining t = items accepted remaining s' \<Longrightarrow>
    completes P accepted remaining t k \<Longrightarrow> completes P accepted remaining s k"

lemma completes_items:
  assumes "sink_laws P accepted" "stream_laws P remaining"
    and "completes P accepted remaining s k" "items accepted remaining s = Some all"
  shows "accepted k = all"
  using assms(3,4)
proof (induction rule: completes.induct)
  case (ready s k u s')
  with send_all_poll_ok [OF assms(1,2) ready(2)] show ?case by (simp add: poll_ok_def)
next
  case (again s s' t k)
  with send_all_poll_ok [OF assms(1,2) again(5)] show ?case by (simp add: poll_ok_def)
qed

text \<open>
  C23. Polling terminates and loses nothing: when the future has not completed and its stream is
  finite, a call of \<open>poll\<close> returns. If it is not ready, the items taken by the sink, the
  buffered item and the items still to come are the same as before; after an error, the sink
  has taken a beginning of them; it panics only if the sink or the stream does. When the future is polled until it is ready, the sink has
  taken all items, in order and once.
\<close>

theorem send_all_sends:
  assumes "sink_laws P accepted" "stream_laws P remaining" "items accepted remaining s = Some all"
  shows "(\<exists>result. send_all_poll P s = Some result \<and> poll_ok P accepted remaining all result) \<and>
    (\<forall>k. completes P accepted remaining s k \<longrightarrow> accepted k = all)"
  using send_all_poll_ok [OF assms] completes_items [OF assms(1,2) _ assms(3)]
  by (auto split: option.splits)

text \<open>A sink with room for two items that writes one item out when it is flushed.\<close>

definition sample_sink_stream :: "('i list \<times> 'i list, 'i list, 'i, unit) sink_stream" where
  "sample_sink_stream =
     \<lparr>start_send = (\<lambda>i (out, buf). if length buf < 2 then (Ok True, (out, buf @ [i])) else (Ok False, (out, buf))),
      poll_complete = (\<lambda>(out, buf). case buf of [] \<Rightarrow> (Ok (Ready ()), (out, buf))
        | b # bs \<Rightarrow> (Ok NotReady, (out @ [b], bs))),
      stream_poll = (\<lambda>xs. case xs of [] \<Rightarrow> (Ok (Ready None), []) | x # xs \<Rightarrow> (Ok (Ready (Some x)), xs))\<rparr>"

lemma sample_sink_stream_laws:
  "sink_laws sample_sink_stream (\<lambda>(out, buf). out @ buf)" "stream_laws sample_sink_stream (\<lambda>xs. xs)"
  by (auto simp: sink_laws_def stream_laws_def sample_sink_stream_def split: list.splits)

theorem send_all_sends_witness:
  "\<exists>result. send_all_poll sample_sink_stream (send_all_new ([], []) [1, 2, 3 :: nat]) = Some result \<and>
     poll_ok sample_sink_stream (\<lambda>(out, buf). out @ buf) (\<lambda>xs. xs) [1, 2, 3] result"
proof -
  have "items (\<lambda>(out, buf). out @ buf) (\<lambda>xs. xs) (send_all_new ([] :: nat list, []) [1, 2, 3]) = Some [1, 2, 3]"
    by (simp add: items_def send_all_new_def fuse_remaining_def)
  with send_all_sends [OF sample_sink_stream_laws] show ?thesis by blast
qed

end
