(* ===== verification/Channel.thy ===== *)
theory Channel
  imports Authentication
begin

text \<open>
  The channel between the two peers in the task phase. Two clients that have finished the
  handshake with each other are \<open>linked\<close>; whatever one of them encodes, the other accepts,
  decrypts and interprets, and they stay linked, for any interleaving of messages in both
  directions.
\<close>

section \<open>A client in the task phase\<close>

text \<open>The context of the chosen peer of a client with address \<open>own\<close>.\<close>

fun task_side :: "'t signaling \<Rightarrow> address \<Rightarrow> address \<Rightarrow> peer_context \<Rightarrow> bool" where
  "task_side (SignalingInitiator i) own other p \<longleftrightarrow>
     cm_signaling_state (isg_common i) = TaskState \<and> cm_identity (isg_common i) = ClientInitiator \<and>
     own = 1 \<and> is_responder other \<and>
     (case isg_responder i of Some r \<Rightarrow> rc_address r = other \<and> p = PeerResponder r | None \<Rightarrow> False)"
| "task_side (SignalingResponder s) own other p \<longleftrightarrow>
     cm_signaling_state (rsg_common s) = TaskState \<and> cm_identity (rsg_common s) = ClientResponder own \<and>
     is_responder own \<and> other = 1 \<and> p = PeerInitiator (rsg_initiator s)"

lemma task_side_facts:
  assumes "task_side s own other p"
  shows "cm_signaling_state (sig_common s) = TaskState" "get_peer s = Some p" "peer_at s other = Some p"
    "address_from_client_identity (cm_identity (sig_common s)) = Ok own"
    "address_from_identity (peer_identity p) = Ok other" "\<not> is_server other"
    "sender_allowed (cm_identity (sig_common s)) s other" "cm_identity (sig_common s) \<noteq> ClientUnknown"
  using assms
  by (cases s; auto simp: initiator_get_peer_def responder_get_peer_def peer_at_def initiator_peer_at_simps
      responder_peer_at_simps is_responder_iff is_server_def byte_gt_1_iff sender_allowed_def is_initiator_def
      is_responder_identity_def split: option.splits)+

lemma task_side_put:
  assumes "task_side s own other p" "peer_identity p' = peer_identity p"
  shows "task_side (put_peer p' s) own other p'" "task_side (put_peer_with_address other p' s) own other p'"
    "cm_task_supported_types (sig_common (put_peer p' s)) = cm_task_supported_types (sig_common s)"
    "cm_task_supported_types (sig_common (put_peer_with_address other p' s)) = cm_task_supported_types (sig_common s)"
  using assms by (cases s; cases p'; auto split: option.splits)+

section \<open>Sending\<close>

lemma next_nonce_Ok:
  assumes "address_from_client_identity src = (Ok a :: (signaling_error, address) outcome)"
    and "address_from_identity dst = (Ok b :: (signaling_error, address) outcome)" and "Suc (sent_number p) < 2 ^ 48"
  shows "\<exists>n p'. next_nonce src dst ck p = (Ok n, p')"
proof -
  have "\<exists>s. increment (csn_ours p) = (Ok s, sequence_of s)"
    using assms(3) by (cases "csn_ours p" rule: increment_cases) (auto simp: sent_number_def)
  with assms(1,2) show ?thesis
    by (auto simp: next_nonce_def increment_ours_def liftO_Ok zoomS_def bindS_def returnS_def)
qed

text \<open>What is left of a context after sending a message with nonce \<open>n\<close>.\<close>

definition sent_with :: "nonce \<Rightarrow> peer_context \<Rightarrow> peer_context \<Rightarrow> bool" where
  "sent_with n p p' \<longleftrightarrow> peer_identity p' = peer_identity p \<and> peer_keypair p' = peer_keypair p \<and>
     peer_session_key p' = peer_session_key p \<and> peer_cookie_pair p' = peer_cookie_pair p \<and>
     csn_theirs (peer_csn_pair p') = csn_theirs (peer_csn_pair p) \<and>
     sent_number (peer_csn_pair p') = Suc (sent_number (peer_csn_pair p)) \<and>
     nonce_cookie n = cookie_ours (peer_cookie_pair p) \<and>
     unat (snapshot_number (nonce_csn n)) = Suc (sent_number (peer_csn_pair p))"

lemma encode_for_peer_sent:
  assumes side: "task_side s own other p" and keys: "peer_keypair p = Some k" "peer_session_key p = Some pk"
    and room: "Suc (sent_number (peer_csn_pair p)) < 2 ^ 48"
  shows "\<exists>n p'. nonce_source n = own \<and> nonce_destination n = other \<and> sent_with n p p' \<and>
    encode_for_peer seal (cm_identity (sig_common s)) p = (seal n k pk, p')"
proof -
  obtain n c where n: "next_nonce (cm_identity (sig_common s)) (peer_identity p) (peer_cookie_pair p)
      (peer_csn_pair p) = (Ok n, c)"
    using next_nonce_Ok task_side_facts(4,5) [OF side] room by metis
  note facts = next_nonce_OkD [OF n]
  let ?p' = "peer_csn_pair_update (\<lambda>_. c) p"
  have "encode_for_peer seal (cm_identity (sig_common s)) p = (seal n k pk, ?p')"
    using n keys by (simp add: encode_for_peer_def bindS_def zoomS_def liftO_def)
  moreover have "sent_with n p ?p'" using facts by (cases p) (simp_all add: sent_with_def)
  moreover have "nonce_source n = own" "nonce_destination n = other"
    using facts(2,3) task_side_facts(4,5) [OF side] by (metis outcome.inject(1))+
  ultimately show ?thesis by blast
qed

lemma encode_task_message_sent:
  assumes "task_side s own other p" "peer_keypair p = Some k" "peer_session_key p = Some pk"
    "Suc (sent_number (peer_csn_pair p)) < 2 ^ 48"
  shows "\<exists>n p'. nonce_source n = own \<and> nonce_destination n = other \<and> sent_with n p p' \<and>
    encode_task_message E v s = (value_box_encrypt E (open_box_new v n) k pk, put_peer p' s)"
proof -
  from encode_for_peer_sent [OF assms, of "\<lambda>n. value_box_encrypt E (open_box_new v n)"] obtain n p' where
    "nonce_source n = own" "nonce_destination n = other" "sent_with n p p'"
    "encode_for_peer (\<lambda>n. value_box_encrypt E (open_box_new v n)) (cm_identity (sig_common s)) p =
       (value_box_encrypt E (open_box_new v n) k pk, p')" by blast
  then show ?thesis
    using task_side_facts(1,2) [OF assms(1)]
    by (auto simp: encode_task_message_def bindS_def thenS_def getS_def guardS_def returnS_def with_chosen_peer_def)
qed

section \<open>Receiving\<close>

text \<open>The receiver has seen what the sender has sent so far, and knows its cookie.\<close>

definition seen :: "peer_context \<Rightarrow> peer_context \<Rightarrow> bool" where
  "seen p q \<longleftrightarrow> cookie_theirs (peer_cookie_pair q) = Some (cookie_ours (peer_cookie_pair p)) \<and>
     (case csn_theirs (peer_csn_pair q) of
        Some m \<Rightarrow> snapshot_number m \<le> combined_sequence_number (csn_ours (peer_csn_pair p)) | None \<Rightarrow> False)"

lemma seen_after:
  assumes "seen p q" "sent_with n p p'"
  shows "csn_fresh (peer_csn_pair q) n" "cookie_right (peer_cookie_pair q) n" "seen p' (note_nonce n q)"
  using assms by (auto simp: seen_def sent_with_def csn_fresh_def cookie_right_def snapshot_less_iff_unat word_le_nat_alt
      sent_number_def split: option.splits)

lemma validate_nonce_task_side:
  assumes "task_side s own other q" "nonce_source n = other" "nonce_destination n = own"
    "csn_fresh (peer_csn_pair q) n" "cookie_right (peer_cookie_pair q) n"
  shows "validate_nonce n s = (Ok (), put_peer_with_address other (note_nonce n q) s)"
proof -
  note facts = task_side_facts [OF assms(1)]
  have "assigned_identity n s = cm_identity (sig_common s)" using facts(8) by (simp add: assigned_identity_def Let_def)
  moreover have "set_identity (cm_identity (sig_common s)) s = s" by (cases s) simp_all
  ultimately show ?thesis using facts assms by (simp add: validate_nonce_Ok_iff)
qed

lemma handle_message_task_side:
  assumes side: "task_side s own other q" and "nonce_source n = other" "nonce_destination n = own"
    and "csn_fresh (peer_csn_pair q) n" "cookie_right (peer_cookie_pair q) n"
    and keys: "peer_keypair q = Some k" "peer_session_key q = Some pk"
    and opened: "value_box_decrypt E bbox k pk = Ok (open_box_new v n)" and n: "bb_nonce bbox = n"
  shows "handle_message E bbox s =
    (interpret_task_message E (cm_task_supported_types (sig_common s)) v,
     put_peer_with_address other (note_nonce n q) s)"
proof -
  let ?s = "put_peer_with_address other (note_nonce n q) s"
  have v: "validate_nonce (bb_nonce bbox) s = (Ok (), ?s)"
    using validate_nonce_task_side [OF assms(1-5)] n by simp
  have side': "task_side ?s own other (note_nonce n q)" using task_side_put(2) [OF side] by simp
  have k': "peer_keypair (note_nonce n q) = Some k" "peer_session_key (note_nonce n q) = Some pk"
    using keys by (cases q; simp add: note_nonce_def)+
  show ?thesis
    unfolding handle_message_accepted [OF v]
    using task_side_facts [OF side'] task_side_facts(6) [OF side] task_side_put(4) [OF side, of "note_nonce n q"]
      k' opened n assms(2)
    by (simp add: dispatch_message_def handle_task_peer_message_def decode_task_message_def bindS_def thenS_def getS_def
        guardS_def returnS_def liftO_def open_box_new_def split: outcome.split)
qed

section \<open>Linked clients\<close>

definition linked :: "('t, 'v, 'z) env_scheme \<Rightarrow> 't signaling \<Rightarrow> 't signaling \<Rightarrow> nat \<Rightarrow> bool" where
  "linked E s t room \<longleftrightarrow> (\<exists>a b p q k l.
     task_side s a b p \<and> task_side t b a q \<and>
     peer_keypair p = Some k \<and> peer_keypair q = Some l \<and>
     peer_session_key p = Some (public_key l) \<and> peer_session_key q = Some (public_key k) \<and>
     box_correct E k l \<and> box_correct E l k \<and> seen p q \<and> seen q p \<and>
     sent_number (peer_csn_pair p) + room < 2 ^ 48 \<and> sent_number (peer_csn_pair q) + room < 2 ^ 48)"

lemma linked_sym: "linked E s t room \<Longrightarrow> linked E t s room"
  unfolding linked_def by blast

lemma linked_send:
  assumes "linked E s t (Suc room)"
    and codec: "rmps_to_vec_value E v = Inr bs" "rmps_from_slice_value E bs = Inr v"
  shows "\<exists>bbox s' t'. encode_task_message E v s = (Ok bbox, s') \<and>
    handle_message E bbox t = (interpret_task_message E (cm_task_supported_types (sig_common t)) v, t') \<and>
    linked E s' t' room \<and>
    cm_task_supported_types (sig_common s') = cm_task_supported_types (sig_common s) \<and>
    cm_task_supported_types (sig_common t') = cm_task_supported_types (sig_common t)"
proof -
  from assms(1) obtain a b p q k l where link: "task_side s a b p" "task_side t b a q"
    "peer_keypair p = Some k" "peer_keypair q = Some l" "peer_session_key p = Some (public_key l)"
    "peer_session_key q = Some (public_key k)" "box_correct E k l" "box_correct E l k" "seen p q" "seen q p"
    "sent_number (peer_csn_pair p) + Suc room < 2 ^ 48" "sent_number (peer_csn_pair q) + Suc room < 2 ^ 48"
    unfolding linked_def by blast
  from encode_task_message_sent [OF link(1,3,5), of E v] link(11) obtain n p' where
    n: "nonce_source n = a" "nonce_destination n = b" "sent_with n p p'"
    "encode_task_message E v s = (value_box_encrypt E (open_box_new v n) k (public_key l), put_peer p' s)" by auto
  have "bindO (value_box_encrypt E (open_box_new v n) k (public_key l))
      (\<lambda>x. value_box_decrypt E x l (public_key k)) = Ok (open_box_new v n)"
    using value_box_roundtrip [OF _ _ link(7), of "open_box_new v n" bs] codec by (simp add: open_box_new_def)
  then obtain bbox where box: "value_box_encrypt E (open_box_new v n) k (public_key l) = (Ok bbox :: (signaling_error, _) outcome)"
    "value_box_decrypt E bbox l (public_key k) = Ok (open_box_new v n)"
    by (auto simp: bindO_eq_Ok_iff)
  have "bb_nonce bbox = n" using box(1) codec(1) by (auto simp: box_defs)
  note recv = handle_message_task_side [OF link(2) n(1,2) seen_after(1,2) [OF link(9) n(3)] link(4,6) box(2) this]
  have p': "peer_identity p' = peer_identity p" "peer_keypair p' = Some k" "peer_session_key p' = Some (public_key l)"
    "sent_number (peer_csn_pair p') + room < 2 ^ 48"
    using n(3) link(3,5,11) by (simp_all add: sent_with_def)
  have q': "peer_keypair (note_nonce n q) = Some l" "peer_session_key (note_nonce n q) = Some (public_key k)"
    using link(4,6) by (cases q; simp add: note_nonce_def)+
  have "seen (note_nonce n q) p'" using link(10) n(3) by (auto simp: seen_def sent_with_def sent_number_def split: option.splits)
  moreover have "sent_number (peer_csn_pair (note_nonce n q)) + room < 2 ^ 48"
    using link(12) by (simp add: sent_number_def)
  ultimately have "linked E (put_peer p' s) (put_peer_with_address a (note_nonce n q) t) room"
    unfolding linked_def
    using task_side_put(1) [OF link(1) p'(1)] task_side_put(2) [OF link(2), of "note_nonce n q"]
      seen_after(3) [OF link(9) n(3)] link(7,8) p' q' by (metis note_nonce_simps(1))
  with n box recv task_side_put(3) [OF link(1)] task_side_put(4) [OF link(2)] show ?thesis
    by (auto simp: sent_with_def)
qed

text \<open>
  Messages in both directions, one after the other: \<open>True\<close> stands for a message of the first
  client. The result collects what the receivers make of them.
\<close>

fun exchange ::
  "('t, 'v, 'z) env_scheme \<Rightarrow> (bool \<times> 'v) list \<Rightarrow> 't signaling \<Rightarrow> 't signaling \<Rightarrow>
   (signaling_error, 'v handle_action list) outcome list" where
  "exchange E [] s t = []"
| "exchange E ((True, v) # vs) s t =
     (case encode_task_message E v s of
        (Ok bbox, s') \<Rightarrow> (case handle_message E bbox t of (r, t') \<Rightarrow> r # exchange E vs s' t')
      | (_, s') \<Rightarrow> exchange E vs s' t)"
| "exchange E ((False, v) # vs) s t =
     (case encode_task_message E v t of
        (Ok bbox, t') \<Rightarrow> (case handle_message E bbox s of (r, s') \<Rightarrow> r # exchange E vs s' t')
      | (_, t') \<Rightarrow> exchange E vs s t')"

text \<open>
  C17. The channel between two linked clients: every sequence of messages, sent in any
  interleaving of the two directions, is accepted, decrypted and interpreted by the other side,
  in order, as long as the sequence numbers suffice. The only assumption on the values is that
  they survive their MessagePack encoding.
\<close>

theorem channel_delivers:
  assumes "linked E s t (length vs)"
    and "\<forall>(d, v)\<in>set vs. \<exists>bs. rmps_to_vec_value E v = Inr bs \<and> rmps_from_slice_value E bs = Inr v"
  shows "exchange E vs s t = map (\<lambda>(d, v). interpret_task_message E
    (cm_task_supported_types (sig_common (if d then t else s))) v) vs"
  using assms
proof (induction vs arbitrary: s t)
  case (Cons m vs)
  obtain d v where m: "m = (d, v)" by (cases m)
  with Cons.prems obtain bs where codec: "rmps_to_vec_value E v = Inr bs" "rmps_from_slice_value E bs = Inr v" by auto
  show ?case
  proof (cases d)
    case True
    from linked_send [OF Cons.prems(1) [simplified] codec] obtain bbox s' t' where
      "encode_task_message E v s = (Ok bbox, s')" "linked E s' t' (length vs)"
      "handle_message E bbox t = (interpret_task_message E (cm_task_supported_types (sig_common t)) v, t')"
      "cm_task_supported_types (sig_common s') = cm_task_supported_types (sig_common s)"
      "cm_task_supported_types (sig_common t') = cm_task_supported_types (sig_common t)" by auto
    with Cons.IH [of s' t'] Cons.prems(2) m True show ?thesis by (auto cong: map_cong)
  next
    case False
    from linked_send [OF linked_sym [OF Cons.prems(1) [simplified]] codec] obtain bbox s' t' where
      "encode_task_message E v t = (Ok bbox, t')" and link: "linked E t' s' (length vs)" and
      "handle_message E bbox s = (interpret_task_message E (cm_task_supported_types (sig_common s)) v, s')"
      "cm_task_supported_types (sig_common s') = cm_task_supported_types (sig_common s)"
      "cm_task_supported_types (sig_common t') = cm_task_supported_types (sig_common t)" by auto
    with Cons.IH [OF linked_sym [OF link]] Cons.prems(2) m False show ?thesis by (auto cong: map_cong)
  qed
qed simp

lemma linkedI:
  assumes "box_correct E (the (peer_keypair (the (get_peer s)))) (the (peer_keypair (the (get_peer t))))"
    "box_correct E (the (peer_keypair (the (get_peer t)))) (the (peer_keypair (the (get_peer s))))"
    and "let p = the (get_peer s); q = the (get_peer t); k = the (peer_keypair p); l = the (peer_keypair q) in
      task_side s a b p \<and> task_side t b a q \<and> peer_keypair p = Some k \<and> peer_keypair q = Some l \<and>
      peer_session_key p = Some (public_key l) \<and> peer_session_key q = Some (public_key k) \<and> seen p q \<and> seen q p \<and>
      combined_sequence_number (csn_ours (peer_csn_pair p)) < 281474976710000 \<and>
      combined_sequence_number (csn_ours (peer_csn_pair q)) < 281474976710000"
    and "room \<le> 655"
  shows "linked E s t room"
proof -
  have "sent_number c + room < 2 ^ 48" if "combined_sequence_number (csn_ours c) < 281474976710000" for c
    using that assms(4) by (simp add: sent_number_def word_less_nat_alt)
  with assms show ?thesis unfolding linked_def Let_def by blast
qed

lemma scenario_linked: "linked scenario_env (snd initiator_finished) (snd responder_finished) 2"
proof (rule linkedI)
  show "box_correct scenario_env k l" for k l unfolding scenario_env_def by (rule sample_env_laws)
  then show "box_correct scenario_env k l" for k l .
  show "let p = the (get_peer (snd initiator_finished)); q = the (get_peer (snd responder_finished));
      k = the (peer_keypair p); l = the (peer_keypair q) in
      task_side (snd initiator_finished) 1 2 p \<and> task_side (snd responder_finished) 2 1 q \<and>
      peer_keypair p = Some k \<and> peer_keypair q = Some l \<and>
      peer_session_key p = Some (public_key l) \<and> peer_session_key q = Some (public_key k) \<and> seen p q \<and> seen q p \<and>
      combined_sequence_number (csn_ours (peer_csn_pair p)) < 281474976710000 \<and>
      combined_sequence_number (csn_ours (peer_csn_pair q)) < 281474976710000"
    by code_simp
qed simp

definition scenario_value :: sample_value where
  "scenario_value = SampleMap [(SampleString ''type'', SampleString ''data'')]"

theorem channel_delivers_witness:
  "exchange scenario_env [(False, scenario_value), (True, scenario_value)] (snd initiator_finished) (snd responder_finished) =
   [Ok [ActionTaskMessage (TaskValue [(''type'', SampleString ''data'')])],
    Ok [ActionTaskMessage (TaskValue [(''type'', SampleString ''data'')])]]"
proof -
  have "rmps_to_vec_value scenario_env scenario_value = Inr [11]" "rmps_from_slice_value scenario_env [11] = Inr scenario_value"
    by code_simp+
  moreover have "cm_task_supported_types (sig_common (snd initiator_finished)) = Some [''data'']"
    "cm_task_supported_types (sig_common (snd responder_finished)) = Some [''data'']"
    "interpret_task_message scenario_env (Some [''data'']) scenario_value =
       Ok [ActionTaskMessage (TaskValue [(''type'', SampleString ''data'')])]" by code_simp+
  ultimately show ?thesis
    using channel_delivers [of scenario_env "snd initiator_finished" "snd responder_finished"
        "[(False, scenario_value), (True, scenario_value)]"] scenario_linked
    by (simp add: numeral_2_eq_2 del: exchange.simps)
qed

end
