(* ===== verification/Handshake.thy ===== *)
theory Handshake
  imports Channel
begin

text \<open>
  The handshake of two honest peers succeeds. A responder that meets an initiator sends its
  \<open>token\<close> and \<open>key\<close> messages; the messages that follow are handed over one by one. If both
  sides hold matching keys and tokens, share a task and have sequence numbers left, both report
  the end of the handshake and are linked: the channel of the task phase is open.
\<close>

section \<open>Messages in flight\<close>

text \<open>A message that survives its MessagePack encoding.\<close>

definition carried :: "('t, 'v, 'z) env_scheme \<Rightarrow> 'v message \<Rightarrow> bool" where
  "carried E m \<longleftrightarrow>
     (case rmps_to_vec_message E m of Inr bs \<Rightarrow> rmps_from_slice_message E bs = Inr m | Inl e \<Rightarrow> False)"

lemma sealed:
  assumes "carried E m" "box_correct E k l"
  shows "\<exists>b. open_box_encrypt E (open_box_new m n) k (public_key l) = Ok b \<and> bb_nonce b = n \<and>
    open_box_decrypt E b l (public_key k) = Ok (open_box_new m n)"
  using assms(1) by (auto simp: carried_def box_defs message_to_msgpack_def message_from_msgpack_def
      open_box_new_def key_pair_decrypt_encrypt [OF assms(2)] split: sum.splits)

lemma sealed_token:
  assumes "carried E m" "secretbox_correct E tok"
  shows "\<exists>b. open_box_encrypt_token E (open_box_new m n) tok = Ok b \<and> bb_nonce b = n \<and>
    open_box_decrypt_token E b tok = Ok (open_box_new m n)"
  using assms(1) by (auto simp: carried_def box_defs message_to_msgpack_def message_from_msgpack_def
      open_box_new_def auth_token_decrypt_encrypt [OF assms(2)] split: sum.splits)

text \<open>
  The receiver \<open>q\<close> accepts the next message of the sender \<open>p\<close>: it has followed the sender so
  far, or this is the first message.
\<close>

definition hears :: "peer_context \<Rightarrow> peer_context \<Rightarrow> bool" where
  "hears p q \<longleftrightarrow> seen p q \<or>
     csn_theirs (peer_csn_pair q) = None \<and> cookie_theirs (peer_cookie_pair q) = None \<and>
     cookie_ours (peer_cookie_pair p) \<noteq> cookie_ours (peer_cookie_pair q) \<and>
     Suc (sent_number (peer_csn_pair p)) < 2 ^ 32"

text \<open>A message with nonce \<open>n\<close> of the sender, now \<open>p\<close>, on its way to the receiver \<open>q\<close>.\<close>

definition in_flight :: "nonce \<Rightarrow> address \<Rightarrow> address \<Rightarrow> peer_context \<Rightarrow> peer_context \<Rightarrow> bool" where
  "in_flight n src dst p q \<longleftrightarrow> nonce_source n = src \<and> nonce_destination n = dst \<and>
     csn_fresh (peer_csn_pair q) n \<and> cookie_right (peer_cookie_pair q) n \<and> seen p (note_nonce n q)"

lemma overflow_number_0:
  assumes "unat (snapshot_number s) < 2 ^ 32"
  shows "overflow_number s = 0"
proof -
  have "unat (overflow_number s) * 2 ^ 32 < 2 ^ 32"
    using assms by (cases s) (simp add: unat_snapshot_number)
  then have "unat (overflow_number s) = 0" by simp
  then show ?thesis by (simp add: unat_eq_zero)
qed

lemma hears_sent:
  assumes "hears p q" "sent_with n p p'" "nonce_source n = src" "nonce_destination n = dst"
  shows "in_flight n src dst p' q"
proof (cases "seen p q")
  case True
  from seen_after [OF this assms(2)] assms(3,4) show ?thesis by (simp add: in_flight_def)
next
  case False
  then have first: "csn_theirs (peer_csn_pair q) = None" "cookie_theirs (peer_cookie_pair q) = None"
    "cookie_ours (peer_cookie_pair p) \<noteq> cookie_ours (peer_cookie_pair q)"
    "Suc (sent_number (peer_csn_pair p)) < 2 ^ 32" using assms(1) by (auto simp: hears_def)
  have "csn_fresh (peer_csn_pair q) n"
    using overflow_number_0 [of "nonce_csn n"] first assms(2) by (simp add: csn_fresh_def sent_with_def)
  moreover have "cookie_right (peer_cookie_pair q) n" using first assms(2) by (simp add: cookie_right_def sent_with_def)
  moreover have "seen p' (note_nonce n q)"
    using assms(2) by (simp add: seen_def sent_with_def sent_number_def word_le_nat_alt)
  ultimately show ?thesis using assms(3,4) by (simp add: in_flight_def)
qed

text \<open>
  The bound is needed: a counter that starts at the largest 32 bit number, as a random start may
  do, overflows with its first message, which the receiver then refuses.
\<close>

lemma last_start_refused:
  assumes "next_nonce src dst ck p = (Ok n, p')" "sent_number p = 2 ^ 32 - 1" "csn_theirs q = None"
  shows "\<not> csn_fresh q n"
proof -
  have "unat (snapshot_number (nonce_csn n)) = 2 ^ 32" using next_nonce_OkD(4) [OF assms(1)] assms(2) by simp
  moreover have "unat (sequence_number (nonce_csn n)) < 2 ^ 32" using unsigned_less [of "sequence_number (nonce_csn n)"] by simp
  ultimately have "overflow_number (nonce_csn n) \<noteq> 0"
    by (cases "nonce_csn n") (auto simp: unat_snapshot_number)
  then show ?thesis using assms(3) by (simp add: csn_fresh_def)
qed

text \<open>
  Only the counters and the cookies of the two contexts matter.
\<close>

definition same_counters :: "peer_context \<Rightarrow> peer_context \<Rightarrow> bool" where
  "same_counters p q \<longleftrightarrow> csn_ours (peer_csn_pair p) = csn_ours (peer_csn_pair q) \<and>
     cookie_ours (peer_cookie_pair p) = cookie_ours (peer_cookie_pair q)"

definition same_view :: "peer_context \<Rightarrow> peer_context \<Rightarrow> bool" where
  "same_view p q \<longleftrightarrow> csn_theirs (peer_csn_pair p) = csn_theirs (peer_csn_pair q) \<and>
     peer_cookie_pair p = peer_cookie_pair q"

lemma seen_ctx:
  assumes "seen p q" "same_counters p' p" "same_view q' q"
  shows "seen p' q'"
  using assms by (auto simp: seen_def same_counters_def same_view_def split: option.splits)

lemma hears_ctx:
  assumes "hears p q" "same_counters p' p" "same_view q' q"
  shows "hears p' q'"
  using assms seen_ctx [of p q p' q'] by (auto simp: hears_def same_counters_def same_view_def sent_number_def)

lemma in_flight_ctx:
  assumes "in_flight n s d p q" "same_counters p' p" "same_view q' q"
  shows "in_flight n s d p' q'"
proof -
  have "same_view (note_nonce n q') (note_nonce n q)" using assms(3) by (simp add: same_view_def)
  then show ?thesis
    using assms seen_ctx [of p "note_nonce n q" p' "note_nonce n q'"]
    by (simp add: in_flight_def csn_fresh_def same_view_def)
qed

lemmas same_defs = same_counters_def same_view_def

lemma next_nonce_sent:
  assumes "address_from_client_identity src = (Ok a :: (signaling_error, address) outcome)"
    and "address_from_identity (peer_identity p) = (Ok b :: (signaling_error, address) outcome)"
    and "Suc (sent_number (peer_csn_pair p)) < 2 ^ 48"
  shows "\<exists>n c. next_nonce src (peer_identity p) (peer_cookie_pair p) (peer_csn_pair p) = (Ok n, c) \<and>
    nonce_source n = a \<and> nonce_destination n = b \<and> sent_with n p (peer_csn_pair_update (\<lambda>_. c) p)"
proof -
  obtain n c where n: "next_nonce src (peer_identity p) (peer_cookie_pair p) (peer_csn_pair p) = (Ok n, c)"
    using next_nonce_Ok [OF assms] by blast
  note facts = next_nonce_OkD [OF n]
  have "sent_with n p (peer_csn_pair_update (\<lambda>_. c) p)" using facts by (cases p) (simp_all add: sent_with_def)
  with n facts(2,3) assms(1,2) show ?thesis by auto
qed

section \<open>Two peers that meet\<close>

text \<open>
  An initiator \<open>i\<close> that knows the responder with address \<open>a\<close> by the context \<open>r\<close>, and that
  responder \<open>p\<close>.
\<close>

definition meeting ::
  "address \<Rightarrow> 't initiator_signaling \<Rightarrow> 't responder_signaling \<Rightarrow> responder_context \<Rightarrow> bool" where
  "meeting a i p r \<longleftrightarrow> is_responder a \<and>
     cm_signaling_state (isg_common i) = PeerHandshake \<and> cm_identity (isg_common i) = ClientInitiator \<and>
     hm_get (isg_responders i) a = Some r \<and> rc_address r = a \<and>
     cm_identity (rsg_common p) = ClientResponder a"

lemma initiator_receives:
  assumes meet: "meeting a i p r" and flight: "in_flight n a 1 q (PeerResponder r)"
    and r': "note_nonce n (PeerResponder r) = PeerResponder r'"
    and n: "bb_nonce b = n" and i': "i' = i\<lparr>isg_responders := hm_insert a r' (isg_responders i)\<rparr>"
    and opened: "initiator_decode_peer_message E i' b = Ok (open_box_new m n)"
    and handled: "initiator_handle_peer_message E (open_box_new m n) i' = (x, j)"
  shows "handle_message E b (SignalingInitiator i) = (x, SignalingInitiator j)"
proof -
  let ?s = "SignalingInitiator i"
  have at: "peer_at ?s a = Some (PeerResponder r)"
    using meet by (simp add: peer_at_def initiator_peer_at_simps meeting_def)
  have "assigned_identity n ?s = cm_identity (sig_common ?s)"
    using meet by (simp add: assigned_identity_def Let_def meeting_def)
  moreover have "set_identity (cm_identity (sig_common ?s)) ?s = ?s" by simp
  ultimately have "validate_nonce n ?s = (Ok (), put_peer_with_address a (PeerResponder r') ?s)"
    using meet flight at r' by (simp add: validate_nonce_Ok_iff in_flight_def meeting_def sender_allowed_def)
  then have v: "validate_nonce (bb_nonce b) ?s = (Ok (), SignalingInitiator i')"
    using meet n i' by (simp add: meeting_def)
  have "nonce_source n = a" "\<not> is_server a" "cm_signaling_state (isg_common i') = PeerHandshake"
    using flight meet i' by (auto simp: in_flight_def meeting_def is_responder_iff is_server_def)
  then show ?thesis
    unfolding handle_message_accepted [OF v]
    using opened handled n by (simp add: dispatch_message_def handle_handshake_peer_message_def bindS_def thenS_def
        getS_def guardS_def returnS_def on_sig_def open_box_new_def)
qed

lemma responder_receives:
  assumes meet: "meeting a i p r" and state: "cm_signaling_state (rsg_common p) = PeerHandshake" and flight: "in_flight n 1 a q (PeerInitiator (rsg_initiator p))"
    and c': "note_nonce n (PeerInitiator (rsg_initiator p)) = PeerInitiator c'"
    and n: "bb_nonce b = n" and p': "p' = p\<lparr>rsg_initiator := c'\<rparr>"
    and opened: "responder_decode_peer_message E p' b = Ok (open_box_new m n)"
    and handled: "responder_handle_peer_message E (open_box_new m n) p' = (x, j)"
  shows "handle_message E b (SignalingResponder p) = (x, SignalingResponder j)"
proof -
  let ?s = "SignalingResponder p"
  have at: "peer_at ?s 1 = Some (PeerInitiator (rsg_initiator p))"
    by (simp add: peer_at_def responder_peer_at_simps)
  have "assigned_identity n ?s = cm_identity (sig_common ?s)"
    using meet by (simp add: assigned_identity_def Let_def meeting_def)
  moreover have "set_identity (cm_identity (sig_common ?s)) ?s = ?s" by simp
  ultimately have "validate_nonce n ?s = (Ok (), put_peer_with_address 1 (PeerInitiator c') ?s)"
    using meet flight at c'
    by (simp add: validate_nonce_Ok_iff in_flight_def meeting_def sender_allowed_def is_initiator_def is_responder_identity_def
        is_responder_iff byte_gt_1_iff)
  then have v: "validate_nonce (bb_nonce b) ?s = (Ok (), SignalingResponder p')"
    using n p' by simp
  have "nonce_source n = 1" "\<not> is_server 1" "cm_signaling_state (rsg_common p') = PeerHandshake"
    using flight state p' by (auto simp: in_flight_def meeting_def is_server_def)
  then show ?thesis
    unfolding handle_message_accepted [OF v]
    using opened handled n by (simp add: dispatch_message_def handle_handshake_peer_message_def bindS_def thenS_def
        getS_def guardS_def returnS_def on_sig_def open_box_new_def)
qed

text \<open>
  The keys of the two sides: the responder knows the permanent key of the initiator, the
  session keys are not the permanent ones, and what one side seals the other can open.
\<close>

definition keys_fit ::
  "('t, 'v, 'z) env_scheme \<Rightarrow> 't initiator_signaling \<Rightarrow> 't responder_signaling \<Rightarrow> responder_context \<Rightarrow> bool" where
  "keys_fit E i p r \<longleftrightarrow>
     (let c = rsg_initiator p; ki = cm_permanent_keypair (isg_common i); kr = cm_permanent_keypair (rsg_common p) in
      ic_permanent_key c = public_key ki \<and> box_correct E ki kr \<and> box_correct E kr ki \<and>
      box_correct E (rc_keypair r) (ic_keypair c) \<and> box_correct E (ic_keypair c) (rc_keypair r) \<and>
      public_key (rc_keypair r) \<noteq> public_key ki \<and> public_key (ic_keypair c) \<noteq> public_key kr \<and>
      carried E (Key (public_key (rc_keypair r))) \<and> carried E (Key (public_key (ic_keypair c))))"

text \<open>
  The tasks of the two sides: the initiator chooses \<open>t\<close>, for which the responder has \<open>u\<close>;
  initialised with the data of the other side they are \<open>t'\<close> and \<open>u'\<close>.
\<close>

definition proposal :: "('t, 'v, 'z) env_scheme \<Rightarrow> 't tasks \<Rightarrow> cookie \<Rightarrow> (signaling_error, 'v auth) outcome" where
  "proposal E us k = bindO (responder_auth_add_tasks E us (responder_auth_new k)) responder_auth_build"

definition chosen_auth :: "('t, 'v, 'z) env_scheme \<Rightarrow> cookie \<Rightarrow> 't \<Rightarrow> 'v auth" where
  "chosen_auth E k t = \<lparr>au_your_cookie = k, au_tasks = None, au_task = Some (task_name E t),
     au_data = hm_insert (task_name E t) (task_data E t) hm_empty\<rparr>"

definition tasks_fit ::
  "('t, 'v, 'z) env_scheme \<Rightarrow> 't initiator_signaling \<Rightarrow> 't responder_signaling \<Rightarrow> responder_context \<Rightarrow>
   't \<Rightarrow> 't \<Rightarrow> bool" where
  "tasks_fit E i p r t' u' \<longleftrightarrow> (\<exists>ts us t u.
     cm_tasks (isg_common i) = Some ts \<and> cm_tasks (rsg_common p) = Some us \<and>
     us \<noteq> [] \<and> distinct (map (task_name E) us) \<and>
     choose_shared_task E ts (map (task_name E) us) = Some t \<and>
     find (\<lambda>x. task_name E x = task_name E t) us = Some u \<and>
     task_init E t (task_data E u) = (Ok (), t') \<and> task_name E t' = task_name E t \<and>
     task_init E u (task_data E t') = (Ok (), u') \<and>
     (\<forall>au. proposal E us (cookie_ours (rc_cookie_pair r)) = Ok au \<longrightarrow> carried E (Auth au)) \<and>
     carried E (Auth (chosen_auth E (cookie_ours (ic_cookie_pair (rsg_initiator p))) t')))"

text \<open>
  The initiator can tell the server to drop the other responders.
\<close>

definition dropped :: "('t, 'v, 'z) env_scheme \<Rightarrow> address \<Rightarrow> 't initiator_signaling \<Rightarrow> address list" where
  "dropped E a i = address_order E (hm_keys (hm_remove a (isg_responders i)))"

definition drops_fit :: "('t, 'v, 'z) env_scheme \<Rightarrow> address list \<Rightarrow> 't common \<Rightarrow> bool" where
  "drops_fit E xs c \<longleftrightarrow> cm_role c = RoleInitiator \<and> cm_identity c = ClientInitiator \<and>
     sc_session_key (cm_server c) \<noteq> None \<and>
     sent_number (sc_csn_pair (cm_server c)) + length xs < 2 ^ 48 \<and>
     list_all (\<lambda>x. carried E (DropResponder (drop_responder_with_reason x DroppedByInitiator))) xs"

definition partners ::
  "('t, 'v, 'z) env_scheme \<Rightarrow> address \<Rightarrow> 't initiator_signaling \<Rightarrow> 't responder_signaling \<Rightarrow>
   responder_context \<Rightarrow> 't \<Rightarrow> 't \<Rightarrow> bool" where
  "partners E a i p r t' u' \<longleftrightarrow> meeting a i p r \<and> keys_fit E i p r \<and> tasks_fit E i p r t' u' \<and>
     drops_fit E (dropped E a i) (isg_common i)"

lemmas partner_defs = partners_def meeting_def keys_fit_def tasks_fit_def Let_def

lemma hm_remove_insert: "hm_remove k (hm_insert k v m) = hm_remove k m"
  by (simp add: hm_remove_def hm_insert_def delete_update_same)

text \<open>Neither side changes what the other relies on while it answers.\<close>

lemma partners_initiator:
  assumes "partners E a i p r t' u'"
    and "i' = i\<lparr>isg_common := (isg_common i)\<lparr>cm_auth_provider := x\<rparr>,
           isg_responders := hm_insert a r' (isg_responders i)\<rparr>"
    and "rc_address r' = rc_address r" "rc_keypair r' = rc_keypair r"
      "cookie_ours (rc_cookie_pair r') = cookie_ours (rc_cookie_pair r)"
  shows "partners E a i' p r' t' u'"
  using assms by (simp add: partner_defs dropped_def drops_fit_def hm_get_insert hm_remove_insert)

lemma partners_responder:
  assumes "partners E a i p r t' u'"
    and "p' = p\<lparr>rsg_common := (rsg_common p)\<lparr>cm_auth_provider := x\<rparr>, rsg_initiator := c'\<rparr>"
    and "ic_permanent_key c' = ic_permanent_key (rsg_initiator p)" "ic_keypair c' = ic_keypair (rsg_initiator p)"
      "cookie_ours (ic_cookie_pair c') = cookie_ours (ic_cookie_pair (rsg_initiator p))"
  shows "partners E a i p' r t' u'"
  using assms by (simp add: partner_defs)

section \<open>The key message of the responder\<close>

definition key_sent ::
  "('t, 'v, 'z) env_scheme \<Rightarrow> 't initiator_signaling \<Rightarrow> 't responder_signaling \<Rightarrow> responder_context \<Rightarrow>
   nat \<Rightarrow> byte_box \<Rightarrow> bool" where
  "key_sent E i p r room b \<longleftrightarrow> (let c = rsg_initiator p in
     rc_handshake_state r = ResponderTokenReceived \<and> rc_session_key r = None \<and>
     rc_permanent_key r = Some (public_key (cm_permanent_keypair (rsg_common p))) \<and>
     ic_handshake_state c = InitiatorKeySent \<and> ic_session_key c = None \<and>
     hears (PeerResponder r) (PeerInitiator c) \<and>
     sent_number (rc_csn_pair r) + 2 + room < 2 ^ 48 \<and> sent_number (ic_csn_pair c) + 1 + room < 2 ^ 48 \<and>
     in_flight (bb_nonce b) (rc_address r) 1 (PeerInitiator c) (PeerResponder r) \<and>
     open_box_decrypt E b (cm_permanent_keypair (isg_common i)) (public_key (cm_permanent_keypair (rsg_common p))) =
       Ok (open_box_new (Key (public_key (ic_keypair c))) (bb_nonce b)))"

definition key_answered ::
  "('t, 'v, 'z) env_scheme \<Rightarrow> 't initiator_signaling \<Rightarrow> 't responder_signaling \<Rightarrow> responder_context \<Rightarrow>
   nat \<Rightarrow> byte_box \<Rightarrow> bool" where
  "key_answered E i p r room b \<longleftrightarrow> (let c = rsg_initiator p in
     rc_handshake_state r = ResponderKeySent \<and> rc_session_key r = Some (public_key (ic_keypair c)) \<and>
     ic_handshake_state c = InitiatorKeySent \<and> ic_session_key c = None \<and>
     seen (PeerInitiator c) (PeerResponder r) \<and>
     sent_number (rc_csn_pair r) + 1 + room < 2 ^ 48 \<and> sent_number (ic_csn_pair c) + 1 + room < 2 ^ 48 \<and>
     in_flight (bb_nonce b) 1 (rc_address r) (PeerResponder r) (PeerInitiator c) \<and>
     open_box_decrypt E b (cm_permanent_keypair (rsg_common p)) (public_key (cm_permanent_keypair (isg_common i))) =
       Ok (open_box_new (Key (public_key (rc_keypair r))) (bb_nonce b)))"

text \<open>\<open>handle_key\<close> on the context of the responder.\<close>

lemma key_exchange:
  assumes "rc_session_key r = None" "rc_permanent_key r = Some (public_key l)" "public_key l \<noteq> key"
    "is_responder (rc_address r)" "Suc (sent_number (rc_csn_pair r)) < 2 ^ 48"
    "carried E (Key (public_key (rc_keypair r)))" "box_correct E k l"
  shows "\<exists>b c r'. responder_key_exchange E ClientInitiator k key r = (Ok [Reply b], r') \<and>
    r' = r\<lparr>rc_session_key := Some key, rc_csn_pair := c, rc_handshake_state := ResponderKeySent\<rparr> \<and>
    nonce_source (bb_nonce b) = 1 \<and> nonce_destination (bb_nonce b) = rc_address r \<and>
    sent_with (bb_nonce b) (PeerResponder r) (PeerResponder (r\<lparr>rc_csn_pair := c\<rparr>)) \<and>
    open_box_decrypt E b l (public_key k) = Ok (open_box_new (Key (public_key (rc_keypair r))) (bb_nonce b))"
proof -
  have "address_from_identity (IdResponder (rc_address r)) = (Ok (rc_address r) :: (signaling_error, address) outcome)"
    using assms(4) by (simp add: is_responder_iff byte_gt_1_iff)
  then obtain n c where n: "next_nonce ClientInitiator (IdResponder (rc_address r)) (rc_cookie_pair r) (rc_csn_pair r) = (Ok n, c)"
    "nonce_source n = 1" "nonce_destination n = rc_address r"
    "sent_with n (PeerResponder r) (PeerResponder (r\<lparr>rc_csn_pair := c\<rparr>))"
    using next_nonce_sent [of ClientInitiator 1 "PeerResponder r" "rc_address r"] assms(5) by auto
  obtain b where b: "open_box_encrypt E (open_box_new (Key (public_key (rc_keypair r))) n) k (public_key l) = (Ok b :: (signaling_error, _) outcome)"
    "bb_nonce b = n" "open_box_decrypt E b l (public_key k) = Ok (open_box_new (Key (public_key (rc_keypair r))) n)"
    using sealed [OF assms(6,7)] by blast
  have "responder_key_exchange E ClientInitiator k key r =
      (Ok [Reply b], r\<lparr>rc_session_key := Some key, rc_csn_pair := c, rc_handshake_state := ResponderKeySent\<rparr>)"
    using assms(1-3) n(1) b(1)
    by (simp add: responder_key_exchange_def set_responder_handshake_state_def proc_defs zoomS_def)
  with n b show ?thesis by auto
qed

lemma key_step:
  assumes part: "partners E a i p r t' u'" and sent: "key_sent E i p r room b"
  shows "\<exists>b' i' r'. handle_message E b (SignalingInitiator i) = (Ok [Reply b'], SignalingInitiator i') \<and>
    partners E a i' p r' t' u' \<and> key_answered E i' p r' room b'"
proof -
  let ?c = "rsg_initiator p" and ?k = "cm_permanent_keypair (isg_common i)" and ?l = "cm_permanent_keypair (rsg_common p)"
  have meet: "meeting a i p r" using part by (simp add: partners_def)
  have a: "is_responder a" "rc_address r = a" using meet by (simp_all add: meeting_def)
  obtain r1 where r1: "note_nonce (bb_nonce b) (PeerResponder r) = PeerResponder r1"
    "r1 = r\<lparr>rc_csn_pair := (rc_csn_pair r)\<lparr>csn_theirs := Some (nonce_csn (bb_nonce b))\<rparr>,
       rc_cookie_pair := (rc_cookie_pair r)\<lparr>cookie_theirs := Some (nonce_cookie (bb_nonce b))\<rparr>\<rparr>"
    by (simp add: note_nonce_def)
  let ?i = "i\<lparr>isg_responders := hm_insert a r1 (isg_responders i)\<rparr>"
  have "\<exists>b' c r'. responder_key_exchange E ClientInitiator ?k (public_key (ic_keypair ?c)) r1 = (Ok [Reply b'], r') \<and>
    r' = r1\<lparr>rc_session_key := Some (public_key (ic_keypair ?c)), rc_csn_pair := c, rc_handshake_state := ResponderKeySent\<rparr> \<and>
    nonce_source (bb_nonce b') = 1 \<and> nonce_destination (bb_nonce b') = rc_address r1 \<and>
    sent_with (bb_nonce b') (PeerResponder r1) (PeerResponder (r1\<lparr>rc_csn_pair := c\<rparr>)) \<and>
    open_box_decrypt E b' ?l (public_key ?k) = Ok (open_box_new (Key (public_key (rc_keypair r1))) (bb_nonce b'))"
    using part sent r1(2) a
    by (intro key_exchange) (auto simp: partner_defs key_sent_def Let_def sent_number_def)
  then obtain b' c r' where ex: "responder_key_exchange E ClientInitiator ?k (public_key (ic_keypair ?c)) r1 = (Ok [Reply b'], r')"
    "r' = r1\<lparr>rc_session_key := Some (public_key (ic_keypair ?c)), rc_csn_pair := c, rc_handshake_state := ResponderKeySent\<rparr>"
    "nonce_source (bb_nonce b') = 1" "nonce_destination (bb_nonce b') = a"
    "sent_with (bb_nonce b') (PeerResponder r1) (PeerResponder (r1\<lparr>rc_csn_pair := c\<rparr>))"
    "open_box_decrypt E b' ?l (public_key ?k) = Ok (open_box_new (Key (public_key (rc_keypair r1))) (bb_nonce b'))"
    using r1(2) a by auto
  let ?i' = "i\<lparr>isg_responders := hm_insert a r' (isg_responders i)\<rparr>"
  have "handle_message E b (SignalingInitiator i) = (Ok [Reply b'], SignalingInitiator ?i')"
  proof (rule initiator_receives [OF meet _ r1(1) refl refl, where m = "Key (public_key (ic_keypair ?c))"])
    show "in_flight (bb_nonce b) a 1 (PeerInitiator ?c) (PeerResponder r)" using sent a by (simp add: key_sent_def Let_def)
    show "initiator_decode_peer_message E ?i b = Ok (open_box_new (Key (public_key (ic_keypair ?c))) (bb_nonce b))"
      using sent a r1(2) by (simp add: initiator_decode_peer_message_def key_sent_def Let_def in_flight_def hm_get_insert)
    show "initiator_handle_peer_message E (open_box_new (Key (public_key (ic_keypair ?c))) (bb_nonce b)) ?i =
        (Ok [Reply b'], ?i')"
      using sent a r1(2) meet ex(1)
      by (simp add: initiator_handle_peer_message_def initiator_handle_key_def at_responder_def proc_defs open_box_new_def
          key_sent_def Let_def in_flight_def hm_get_insert meeting_def)
  qed
  moreover have "partners E a ?i' p r' t' u'"
    using part r1(2) ex(2) by (rule_tac partners_initiator [where r = r and x = "cm_auth_provider (isg_common i)"]) auto
  moreover have "key_answered E ?i' p r' room b'"
  proof -
    have "hears (PeerResponder r1) (PeerInitiator ?c)"
      using sent by (rule_tac hears_ctx [of "PeerResponder r" "PeerInitiator ?c"]) (simp_all add: key_sent_def Let_def same_defs r1(2))
    from hears_sent [OF this ex(5,3,4)]
    have "in_flight (bb_nonce b') 1 a (PeerResponder r') (PeerInitiator ?c)"
      by (rule in_flight_ctx) (simp_all add: ex(2) same_defs)
    moreover have "seen (PeerInitiator ?c) (PeerResponder r')"
    proof (rule seen_ctx)
      show "seen (PeerInitiator ?c) (PeerResponder r1)"
        using sent r1(1) by (simp add: key_sent_def Let_def in_flight_def)
      show "same_view (PeerResponder r') (PeerResponder r1)"
        using ex(2,5) by (simp add: same_defs sent_with_def)
    qed (simp add: same_defs)
    moreover have "sent_number (rc_csn_pair r') = Suc (sent_number (rc_csn_pair r))"
      using ex(2,5) r1(2) by (simp add: sent_with_def sent_number_def)
    ultimately show ?thesis
      using sent ex(2,6) r1(2) a by (simp add: key_answered_def key_sent_def Let_def)
  qed
  ultimately show ?thesis by blast
qed

section \<open>The auth message of the responder\<close>

lemma add_tasks_wf:
  "responder_auth_add_tasks E us a = Ok b \<Longrightarrow> hm_wf (au_data a) \<Longrightarrow> hm_wf (au_data b)"
  by (induction us arbitrary: a) (auto simp: hm.wf_insert split: option.splits)

lemma check_task_data_Ok:
  "\<forall>n\<in>set names. hm_get (au_data au) n \<noteq> None \<Longrightarrow> check_task_data au names = Ok ()"
  by (induction names) (auto simp: hm_contains_key_def)

text \<open>The initiator accepts what the responder proposes.\<close>

lemma proposal_accepted:
  assumes "us \<noteq> []" "distinct (map (task_name E) us)"
  shows "\<exists>au. proposal E us k = Ok au \<and> au_your_cookie au = k \<and> proposed_tasks au = Ok (map (task_name E) us) \<and>
    (\<forall>u\<in>set us. hm_get (au_data au) (task_name E u) = Some (task_data E u))"
proof -
  obtain b where b: "responder_auth_add_tasks E us (responder_auth_new k) = Ok b"
    "au_your_cookie b = k" "au_task b = None" "au_tasks b = Some (map (task_name E) us)"
    "\<And>n. hm_get (au_data b) n = (case find (\<lambda>t. task_name E t = n) (rev us) of
        None \<Rightarrow> None | Some t \<Rightarrow> Some (task_data E t))"
    using responder_auth_add_tasks_Ok [of "responder_auth_new k" "[]" E us]
    by (auto simp: responder_auth_new_def cong: option.case_cong)
  have data: "\<forall>u\<in>set us. hm_get (au_data b) (task_name E u) = Some (task_data E u)"
    using find_name_distinct [OF assms(2)] by (simp add: b(5))
  have dom: "dom (hm_get (au_data b)) = set (map (task_name E) us)"
    by (auto simp: dom_def b(5) find_None_iff image_iff split: option.splits)
  have "hm_wf (au_data b)"
    using add_tasks_wf [OF b(1)] by (simp add: responder_auth_new_def hm.wf_empty)
  then have "hm_len (au_data b) = length us"
    using distinct_card [OF assms(2)] by (simp add: hm.len_card dom)
  then have "proposed_tasks b = Ok (map (task_name E) us)"
    using assms(1) b(3,4) check_task_data_Ok [of "map (task_name E) us" b] data
    by (auto simp: proposed_tasks_def)
  moreover have "proposal E us k = Ok b"
    using assms b(1,3,4) length_dedup_sort [of "map (task_name E) us"] by (simp add: proposal_def responder_auth_build_def)
  ultimately show ?thesis using b(2) data by blast
qed

definition auth_sent ::
  "('t, 'v, 'z) env_scheme \<Rightarrow> 't initiator_signaling \<Rightarrow> 't responder_signaling \<Rightarrow> responder_context \<Rightarrow>
   nat \<Rightarrow> byte_box \<Rightarrow> bool" where
  "auth_sent E i p r room b \<longleftrightarrow> (let c = rsg_initiator p in
     rc_handshake_state r = ResponderKeySent \<and> rc_session_key r = Some (public_key (ic_keypair c)) \<and>
     ic_handshake_state c = InitiatorAuthSent \<and> ic_session_key c = Some (public_key (rc_keypair r)) \<and>
     seen (PeerResponder r) (PeerInitiator c) \<and>
     sent_number (rc_csn_pair r) + 1 + room < 2 ^ 48 \<and> sent_number (ic_csn_pair c) + room < 2 ^ 48 \<and>
     in_flight (bb_nonce b) (rc_address r) 1 (PeerInitiator c) (PeerResponder r) \<and>
     (\<exists>au. proposal E (the (cm_tasks (rsg_common p))) (cookie_ours (rc_cookie_pair r)) = Ok au \<and>
        open_box_decrypt E b (rc_keypair r) (public_key (ic_keypair c)) = Ok (open_box_new (Auth au) (bb_nonce b))))"

text \<open>The next message of a responder to the initiator.\<close>

lemma initiator_nonce_sent:
  assumes "cm_identity (rsg_common p) = ClientResponder a" "is_responder a"
    "Suc (sent_number (ic_csn_pair (rsg_initiator p))) < 2 ^ 48"
  shows "\<exists>n c. initiator_nonce p = (Ok n, p\<lparr>rsg_initiator := (rsg_initiator p)\<lparr>ic_csn_pair := c\<rparr>\<rparr>) \<and>
    nonce_source n = a \<and> nonce_destination n = 1 \<and>
    sent_with n (PeerInitiator (rsg_initiator p)) (PeerInitiator ((rsg_initiator p)\<lparr>ic_csn_pair := c\<rparr>))"
proof -
  have "address_from_client_identity (ClientResponder a) = (Ok a :: (signaling_error, address) outcome)"
    using assms(2) by (simp add: is_responder_iff byte_gt_1_iff)
  then obtain n c where "next_nonce (ClientResponder a) IdInitiator (ic_cookie_pair (rsg_initiator p))
      (ic_csn_pair (rsg_initiator p)) = (Ok n, c)" "nonce_source n = a" "nonce_destination n = 1"
    "sent_with n (PeerInitiator (rsg_initiator p)) (PeerInitiator ((rsg_initiator p)\<lparr>ic_csn_pair := c\<rparr>))"
    using next_nonce_sent [of "ClientResponder a" a "PeerInitiator (rsg_initiator p)" 1] assms(3) by auto
  then show ?thesis using assms(1) by (auto simp: initiator_nonce_def zoomS_def)
qed

lemma key_handled:
  assumes "ic_session_key (rsg_initiator p) = None" "ic_permanent_key (rsg_initiator p) \<noteq> public_key l"
    and "cm_tasks (rsg_common p) = Some us" "proposal E us (nonce_cookie n) = Ok au" "carried E (Auth au)"
    and "box_correct E (ic_keypair (rsg_initiator p)) l"
    and "cm_identity (rsg_common p) = ClientResponder a" "is_responder a"
      "Suc (sent_number (ic_csn_pair (rsg_initiator p))) < 2 ^ 48"
  shows "\<exists>b c c'. responder_handle_key E (public_key l) n p = (Ok [Reply b], p\<lparr>rsg_initiator := c'\<rparr>) \<and>
    c' = (rsg_initiator p)\<lparr>ic_session_key := Some (public_key l), ic_csn_pair := c, ic_handshake_state := InitiatorAuthSent\<rparr> \<and>
    nonce_source (bb_nonce b) = a \<and> nonce_destination (bb_nonce b) = 1 \<and>
    sent_with (bb_nonce b) (PeerInitiator (rsg_initiator p)) (PeerInitiator ((rsg_initiator p)\<lparr>ic_csn_pair := c\<rparr>)) \<and>
    open_box_decrypt E b l (public_key (ic_keypair (rsg_initiator p))) = Ok (open_box_new (Auth au) (bb_nonce b))"
proof -
  let ?p = "p\<lparr>rsg_initiator := (rsg_initiator p)\<lparr>ic_session_key := Some (public_key l),
    ic_handshake_state := InitiatorKeyReceived\<rparr>\<rparr>"
  obtain m c where m: "initiator_nonce ?p = (Ok m, ?p\<lparr>rsg_initiator := (rsg_initiator ?p)\<lparr>ic_csn_pair := c\<rparr>\<rparr>)"
    "nonce_source m = a" "nonce_destination m = 1"
    "sent_with m (PeerInitiator (rsg_initiator ?p)) (PeerInitiator ((rsg_initiator ?p)\<lparr>ic_csn_pair := c\<rparr>))"
    using initiator_nonce_sent [of ?p a] assms(7-9) by auto
  obtain b where b: "open_box_encrypt E (open_box_new (Auth au) m) (ic_keypair (rsg_initiator p)) (public_key l) =
      (Ok b :: (signaling_error, _) outcome)" "bb_nonce b = m"
    "open_box_decrypt E b l (public_key (ic_keypair (rsg_initiator p))) = Ok (open_box_new (Auth au) m)"
    using sealed [OF assms(5,6)] by blast
  have "sent_with m (PeerInitiator (rsg_initiator p)) (PeerInitiator ((rsg_initiator p)\<lparr>ic_csn_pair := c\<rparr>))"
    using m(4) by (simp add: sent_with_def)
  moreover have "responder_handle_key E (public_key l) n p = (Ok [Reply b], p\<lparr>rsg_initiator := (rsg_initiator p)\<lparr>
      ic_session_key := Some (public_key l), ic_csn_pair := c, ic_handshake_state := InitiatorAuthSent\<rparr>\<rparr>)"
    using assms(1-4) m(1) b(1)
    by (cases p) (simp add: responder_handle_key_def set_initiator_handshake_state_def proc_defs proposal_def)
  ultimately show ?thesis using m(2,3) b(2,3) by blast
qed

lemma auth_step:
  assumes part: "partners E a i p r t' u'" and state: "cm_signaling_state (rsg_common p) = PeerHandshake"
    and sent: "key_answered E i p r room b"
  shows "\<exists>b' p'. handle_message E b (SignalingResponder p) = (Ok [Reply b'], SignalingResponder p') \<and>
    partners E a i p' r t' u' \<and> cm_signaling_state (rsg_common p') = PeerHandshake \<and> auth_sent E i p' r room b'"
proof -
  let ?c = "rsg_initiator p" and ?k = "cm_permanent_keypair (isg_common i)" and ?l = "cm_permanent_keypair (rsg_common p)"
  have meet: "meeting a i p r" using part by (simp add: partners_def)
  have a: "is_responder a" "rc_address r = a" using meet by (simp_all add: meeting_def)
  obtain c1 where c1: "note_nonce (bb_nonce b) (PeerInitiator ?c) = PeerInitiator c1"
    "c1 = ?c\<lparr>ic_csn_pair := (ic_csn_pair ?c)\<lparr>csn_theirs := Some (nonce_csn (bb_nonce b))\<rparr>,
       ic_cookie_pair := (ic_cookie_pair ?c)\<lparr>cookie_theirs := Some (nonce_cookie (bb_nonce b))\<rparr>\<rparr>"
    by (simp add: note_nonce_def)
  let ?p = "p\<lparr>rsg_initiator := c1\<rparr>"
  have flight: "in_flight (bb_nonce b) 1 a (PeerResponder r) (PeerInitiator ?c)"
    using sent a by (simp add: key_answered_def Let_def)
  then have ck: "nonce_cookie (bb_nonce b) = cookie_ours (rc_cookie_pair r)"
    by (simp add: in_flight_def seen_def)
  obtain us where "cm_tasks (rsg_common p) = Some us" "us \<noteq> []" "distinct (map (task_name E) us)"
    "\<forall>au. proposal E us (cookie_ours (rc_cookie_pair r)) = Ok au \<longrightarrow> carried E (Auth au)"
    using part unfolding partners_def tasks_fit_def by blast
  then obtain au where us: "cm_tasks (rsg_common p) = Some us"
    "proposal E us (cookie_ours (rc_cookie_pair r)) = Ok au" "carried E (Auth au)"
    using proposal_accepted by metis
  obtain b' c c' where ex: "responder_handle_key E (public_key (rc_keypair r)) (bb_nonce b) ?p =
      (Ok [Reply b'], ?p\<lparr>rsg_initiator := c'\<rparr>)"
    "c' = c1\<lparr>ic_session_key := Some (public_key (rc_keypair r)), ic_csn_pair := c, ic_handshake_state := InitiatorAuthSent\<rparr>"
    "nonce_source (bb_nonce b') = a" "nonce_destination (bb_nonce b') = 1"
    "sent_with (bb_nonce b') (PeerInitiator c1) (PeerInitiator (c1\<lparr>ic_csn_pair := c\<rparr>))"
    "open_box_decrypt E b' (rc_keypair r) (public_key (ic_keypair c1)) = Ok (open_box_new (Auth au) (bb_nonce b'))"
    using key_handled [of ?p "rc_keypair r" us E "bb_nonce b" au a] part sent us c1(2) ck
    by (auto simp: partner_defs key_answered_def sent_number_def)
  have "handle_message E b (SignalingResponder p) = (Ok [Reply b'], SignalingResponder (p\<lparr>rsg_initiator := c'\<rparr>))"
  proof (rule responder_receives [OF meet state flight c1(1) refl refl, where m = "Key (public_key (rc_keypair r))"])
    show "responder_decode_peer_message E ?p b = Ok (open_box_new (Key (public_key (rc_keypair r))) (bb_nonce b))"
      using sent part c1(2) flight
      by (simp add: responder_decode_peer_message_def key_answered_def in_flight_def partner_defs is_initiator_def)
    show "responder_handle_peer_message E (open_box_new (Key (public_key (rc_keypair r))) (bb_nonce b)) ?p =
        (Ok [Reply b'], p\<lparr>rsg_initiator := c'\<rparr>)"
      using sent c1(2) ex(1)
      by (simp add: responder_handle_peer_message_def proc_defs open_box_new_def key_answered_def Let_def)
  qed
  moreover have "partners E a i (p\<lparr>rsg_initiator := c'\<rparr>) r t' u'"
    by (rule partners_responder [OF part, where x = "cm_auth_provider (rsg_common p)" and c' = c'])
      (simp_all add: c1(2) ex(2))
  moreover have "auth_sent E i (p\<lparr>rsg_initiator := c'\<rparr>) r room b'"
  proof -
    have "hears (PeerInitiator c1) (PeerResponder r)"
      using sent by (rule_tac hears_ctx [of "PeerInitiator ?c" "PeerResponder r"])
        (simp_all add: key_answered_def Let_def hears_def same_defs c1(2))
    from hears_sent [OF this ex(5,3,4)]
    have "in_flight (bb_nonce b') a 1 (PeerInitiator c') (PeerResponder r)"
      by (rule in_flight_ctx) (simp_all add: ex(2) same_defs)
    moreover have "seen (PeerResponder r) (PeerInitiator c')"
    proof (rule seen_ctx)
      show "seen (PeerResponder r) (PeerInitiator c1)" using flight c1(1) by (simp add: in_flight_def)
      show "same_view (PeerInitiator c') (PeerInitiator c1)" using ex(2,5) by (simp add: same_defs sent_with_def)
    qed (simp add: same_defs)
    moreover have "sent_number (ic_csn_pair c') = Suc (sent_number (ic_csn_pair ?c))"
      using ex(2,5) c1(2) by (simp add: sent_with_def sent_number_def)
    ultimately show ?thesis
      using sent ex(2,6) c1(2) a us by (simp add: key_answered_def auth_sent_def Let_def)
  qed
  ultimately show ?thesis using state by fastforce
qed

section \<open>The auth message of the initiator\<close>

lemma sealed_anyhow:
  assumes "carried E m"
  shows "\<exists>b. open_box_encrypt E (open_box_new m n) k pk = Ok b \<and> bb_nonce b = n"
  using assms by (auto simp: carried_def box_defs message_to_msgpack_def open_box_new_def split: sum.splits)

lemma relayed_append: "relayed (xs @ ys) = relayed xs @ relayed ys"
  by (simp add: relayed_def map_filter_def)

lemma relayed_simps:
  "relayed [] = []" "relayed (HandshakeDone # acts) = relayed acts"
  "relayed (Reply b # acts) = (if nonce_destination (bb_nonce b) = 0 then relayed acts else b # relayed acts)"
  by (simp_all add: relayed_def map_filter_def)

text \<open>Nothing but messages to the server.\<close>

definition for_server :: "'v handle_action list \<Rightarrow> bool" where
  "for_server acts \<longleftrightarrow> list_all (\<lambda>a. case a of Reply b \<Rightarrow> nonce_destination (bb_nonce b) = 0 | _ \<Rightarrow> False) acts"

lemma for_server_simps [simp]:
  "for_server []" "for_server (Reply b # acts) \<longleftrightarrow> nonce_destination (bb_nonce b) = 0 \<and> for_server acts"
  "for_server (acts @ acts') \<longleftrightarrow> for_server acts \<and> for_server acts'"
  by (simp_all add: for_server_def)

lemma for_server_relayed: "for_server acts \<Longrightarrow> relayed acts = []"
  by (induction acts) (auto simp: for_server_def relayed_def map_filter_def split: handle_action.splits)

text \<open>The messages that make the server drop the other responders.\<close>

lemma drop_sent:
  assumes "drops_fit E (x # xs) c"
  shows "\<exists>b sc. send_drop_responder E x DroppedByInitiator c = (Ok (Reply b), c\<lparr>cm_server := sc\<rparr>) \<and>
    nonce_destination (bb_nonce b) = 0 \<and> drops_fit E xs (c\<lparr>cm_server := sc\<rparr>)"
proof -
  let ?s = "cm_server c" and ?m = "DropResponder (drop_responder_with_reason x DroppedByInitiator)"
  have fit: "cm_role c = RoleInitiator" "cm_identity c = ClientInitiator" "carried E ?m"
    using assms by (simp_all add: drops_fit_def)
  obtain key where key: "sc_session_key ?s = Some key" using assms by (auto simp: drops_fit_def)
  obtain n d where n: "next_nonce ClientInitiator IdServer (sc_cookie_pair ?s) (sc_csn_pair ?s) = (Ok n, d)"
    "nonce_destination n = 0" "sent_with n (PeerServer ?s) (PeerServer (?s\<lparr>sc_csn_pair := d\<rparr>))"
    using next_nonce_sent [of ClientInitiator 1 "PeerServer ?s" 0] assms by (auto simp: drops_fit_def)
  obtain b where b: "open_box_encrypt E (open_box_new ?m n) (cm_permanent_keypair c) key = (Ok b :: (signaling_error, _) outcome)"
    "bb_nonce b = n" using sealed_anyhow [OF fit(3)] by blast
  have "send_drop_responder E x DroppedByInitiator c = (Ok (Reply b), c\<lparr>cm_server := ?s\<lparr>sc_csn_pair := d\<rparr>\<rparr>)"
    using fit(1,2) key n(1) b(1) by (simp add: send_drop_responder_def server_nonce_def proc_defs zoomS_def)
  moreover have "drops_fit E xs (c\<lparr>cm_server := ?s\<lparr>sc_csn_pair := d\<rparr>\<rparr>)"
    using assms n(3) key by (simp add: drops_fit_def sent_with_def)
  ultimately show ?thesis using n(2) b(2) by blast
qed

lemma drops_sent:
  "drops_fit E xs (isg_common i) \<Longrightarrow>
   \<exists>acts sc. mapS (\<lambda>addr. on_common (send_drop_responder E addr DroppedByInitiator)) xs i =
     (Ok acts, i\<lparr>isg_common := (isg_common i)\<lparr>cm_server := sc\<rparr>\<rparr>) \<and> for_server acts"
proof (induction xs arbitrary: i)
  case Nil
  have "i\<lparr>isg_common := (isg_common i)\<lparr>cm_server := cm_server (isg_common i)\<rparr>\<rparr> = i" by simp
  then show ?case by (metis mapS.simps(1) for_server_simps(1) returnS_def)
next
  case (Cons x xs)
  from drop_sent [OF Cons.prems] obtain b sc where b:
    "send_drop_responder E x DroppedByInitiator (isg_common i) = (Ok (Reply b), (isg_common i)\<lparr>cm_server := sc\<rparr>)"
    "nonce_destination (bb_nonce b) = 0" "drops_fit E xs ((isg_common i)\<lparr>cm_server := sc\<rparr>)" by blast
  from Cons.IH [of "i\<lparr>isg_common := (isg_common i)\<lparr>cm_server := sc\<rparr>\<rparr>"] b(3) obtain acts sc' where
    "mapS (\<lambda>addr. on_common (send_drop_responder E addr DroppedByInitiator)) xs
       (i\<lparr>isg_common := (isg_common i)\<lparr>cm_server := sc\<rparr>\<rparr>) =
     (Ok acts, i\<lparr>isg_common := (isg_common i)\<lparr>cm_server := sc'\<rparr>\<rparr>)" "for_server acts" by auto
  moreover have "on_common (send_drop_responder E x DroppedByInitiator) i =
      (Ok (Reply b), i\<lparr>isg_common := (isg_common i)\<lparr>cm_server := sc\<rparr>\<rparr>)"
    using b(1) by (simp add: on_common_def zoomS_def)
  ultimately show ?case
    using b(2) by (intro exI [of _ "Reply b # acts"] exI [of _ sc']) (simp add: bindS_def returnS_def)
qed

text \<open>Our \<open>auth\<close> message for the responder.\<close>

lemma auth_reply:
  assumes "cookie_theirs (rc_cookie_pair r) = Some k" "rc_session_key r = Some (public_key l)"
    and "is_responder (rc_address r)" "Suc (sent_number (rc_csn_pair r)) < 2 ^ 48"
    and "carried E (Auth (chosen_auth E k t))" "box_correct E (rc_keypair r) l"
  shows "\<exists>b c r'. initiator_auth_reply E ClientInitiator t r = (Ok b, r') \<and>
    r' = r\<lparr>rc_csn_pair := c, rc_handshake_state := ResponderAuthSent\<rparr> \<and>
    nonce_source (bb_nonce b) = 1 \<and> nonce_destination (bb_nonce b) = rc_address r \<and>
    sent_with (bb_nonce b) (PeerResponder r) (PeerResponder (r\<lparr>rc_csn_pair := c\<rparr>)) \<and>
    open_box_decrypt E b l (public_key (rc_keypair r)) = Ok (open_box_new (Auth (chosen_auth E k t)) (bb_nonce b))"
proof -
  have "address_from_identity (IdResponder (rc_address r)) = (Ok (rc_address r) :: (signaling_error, address) outcome)"
    using assms(3) by (simp add: is_responder_iff byte_gt_1_iff)
  then obtain n c where n: "next_nonce ClientInitiator (IdResponder (rc_address r)) (rc_cookie_pair r) (rc_csn_pair r) = (Ok n, c)"
    "nonce_source n = 1" "nonce_destination n = rc_address r"
    "sent_with n (PeerResponder r) (PeerResponder (r\<lparr>rc_csn_pair := c\<rparr>))"
    using next_nonce_sent [of ClientInitiator 1 "PeerResponder r" "rc_address r"] assms(4) by auto
  obtain b where b: "open_box_encrypt E (open_box_new (Auth (chosen_auth E k t)) n) (rc_keypair r) (public_key l) =
      (Ok b :: (signaling_error, _) outcome)" "bb_nonce b = n"
    "open_box_decrypt E b l (public_key (rc_keypair r)) = Ok (open_box_new (Auth (chosen_auth E k t)) n)"
    using sealed [OF assms(5,6)] by blast
  have "initiator_auth_reply E ClientInitiator t r =
      (Ok b, r\<lparr>rc_csn_pair := c, rc_handshake_state := ResponderAuthSent\<rparr>)"
    using assms(1,2) n(1) b(1) next_nonce_to_eq [OF assms(3)]
    by (simp add: initiator_auth_reply_def set_responder_handshake_state_def initiator_auth_build_set_task
        chosen_auth_def proc_defs zoomS_def)
  with n b show ?thesis by auto
qed

definition auth_answered ::
  "('t, 'v, 'z) env_scheme \<Rightarrow> address \<Rightarrow> 't initiator_signaling \<Rightarrow> 't responder_signaling \<Rightarrow> responder_context \<Rightarrow>
   't \<Rightarrow> nat \<Rightarrow> byte_box \<Rightarrow> bool" where
  "auth_answered E a i p r t room b \<longleftrightarrow> (let c = rsg_initiator p in
     task_side (SignalingInitiator i) 1 a (PeerResponder r) \<and> cm_task (isg_common i) = Some t \<and>
     rc_session_key r = Some (public_key (ic_keypair c)) \<and>
     ic_handshake_state c = InitiatorAuthSent \<and> ic_session_key c = Some (public_key (rc_keypair r)) \<and>
     seen (PeerInitiator c) (PeerResponder r) \<and>
     sent_number (rc_csn_pair r) + room < 2 ^ 48 \<and> sent_number (ic_csn_pair c) + room < 2 ^ 48 \<and>
     in_flight (bb_nonce b) 1 a (PeerResponder r) (PeerInitiator c) \<and>
     open_box_decrypt E b (ic_keypair c) (public_key (rc_keypair r)) =
       Ok (open_box_new (Auth (chosen_auth E (cookie_ours (ic_cookie_pair c)) t)) (bb_nonce b)))"

text \<open>\<open>handle_auth\<close> of the initiator, once the message is opened.\<close>

lemma auth_handled:
  assumes r: "hm_get (isg_responders i) a = Some r" "rc_address r = a" "is_responder a"
    and au: "au_your_cookie au = cookie_ours (rc_cookie_pair r)" "proposed_tasks au = Ok names"
      "hm_get (au_data au) (task_name E t) = Some (task_data E u)"
    and tasks: "cm_tasks (isg_common i) = Some ts" "choose_shared_task E ts names = Some t"
      "task_init E t (task_data E u) = (Ok (), t')"
    and drops: "drops_fit E (dropped E a i) (isg_common i)" and state: "cm_signaling_state (isg_common i) = PeerHandshake"
    and reply: "initiator_auth_reply E ClientInitiator t' r = (Ok b, r')"
  shows "\<exists>acts i'. initiator_handle_auth E au a i = (Ok (acts @ [Reply b, HandshakeDone]), i') \<and> for_server acts \<and>
    isg_responder i' = Some r' \<and> cm_task (isg_common i') = Some t' \<and> cm_signaling_state (isg_common i') = TaskState \<and>
    cm_identity (isg_common i') = ClientInitiator"
proof -
  let ?i = "i\<lparr>isg_responders := hm_remove a (isg_responders i), isg_common := (isg_common i)\<lparr>cm_tasks := None\<rparr>\<rparr>"
  have "drops_fit E (dropped E a i) (isg_common ?i)" using drops by (simp add: drops_fit_def)
  from drops_sent [OF this] obtain acts sc where acts:
    "mapS (\<lambda>addr. on_common (send_drop_responder E addr DroppedByInitiator)) (dropped E a i) ?i =
      (Ok acts, ?i\<lparr>isg_common := (isg_common ?i)\<lparr>cm_server := sc\<rparr>\<rparr>)" "for_server acts" by blast
  let ?j = "?i\<lparr>isg_common := (isg_common ?i)\<lparr>cm_server := sc\<rparr>, isg_responders := hm_empty\<rparr>"
  have "drop_other_responders E ?i = (Ok acts, ?j)"
    using acts(1) by (simp add: drop_other_responders_def bindS_def thenS_def getS_def modifyS_def returnS_def dropped_def)
  moreover have "initiator_handle_auth E au a i =
      bindS (drop_other_responders E) (initiator_finish_auth E r t') ?i"
    using r au tasks
    by (cases i) (simp add: initiator_handle_auth_def validate_repeated_cookie_def take_tasks_def init_task_def on_common_def zoomS_def
        bindS_def thenS_def getS_def modifyS_def liftO_def guardS_def returnS_def)
  moreover have "\<exists>i'. initiator_finish_auth E r t' acts ?j = (Ok (acts @ [Reply b, HandshakeDone]), i') \<and>
    isg_responder i' = Some r' \<and> cm_task (isg_common i') = Some t' \<and> cm_signaling_state (isg_common i') = TaskState \<and>
    cm_identity (isg_common i') = ClientInitiator"
    using reply state drops
    by (simp add: initiator_finish_auth_def localS_def store_task_def set_signaling_state_def on_common_def zoomS_def
        proc_defs drops_fit_def)
  ultimately show ?thesis using acts(2) by (auto simp: bindS_def)
qed

lemma finish_step:
  assumes part: "partners E a i p r t' u'" and sent: "auth_sent E i p r room b"
  shows "\<exists>acts b' i' r'. handle_message E b (SignalingInitiator i) =
      (Ok (acts @ [Reply b', HandshakeDone]), SignalingInitiator i') \<and>
    for_server acts \<and> auth_answered E a i' p r' t' room b' \<and> rc_keypair r' = rc_keypair r"
proof -
  let ?c = "rsg_initiator p"
  have meet: "meeting a i p r" using part by (simp add: partners_def)
  have a: "is_responder a" "rc_address r = a" using meet by (simp_all add: meeting_def)
  obtain r1 where r1: "note_nonce (bb_nonce b) (PeerResponder r) = PeerResponder r1"
    "r1 = r\<lparr>rc_csn_pair := (rc_csn_pair r)\<lparr>csn_theirs := Some (nonce_csn (bb_nonce b))\<rparr>,
       rc_cookie_pair := (rc_cookie_pair r)\<lparr>cookie_theirs := Some (nonce_cookie (bb_nonce b))\<rparr>\<rparr>"
    by (simp add: note_nonce_def)
  let ?i = "i\<lparr>isg_responders := hm_insert a r1 (isg_responders i)\<rparr>"
  have flight: "in_flight (bb_nonce b) a 1 (PeerInitiator ?c) (PeerResponder r)"
    using sent a by (simp add: auth_sent_def Let_def)
  then have ck: "nonce_cookie (bb_nonce b) = cookie_ours (ic_cookie_pair ?c)"
    by (simp add: in_flight_def seen_def)
  obtain ts us t u where tasks: "cm_tasks (isg_common i) = Some ts" "cm_tasks (rsg_common p) = Some us"
    "us \<noteq> []" "distinct (map (task_name E) us)" "choose_shared_task E ts (map (task_name E) us) = Some t"
    "find (\<lambda>x. task_name E x = task_name E t) us = Some u" "task_init E t (task_data E u) = (Ok (), t')"
    "carried E (Auth (chosen_auth E (cookie_ours (ic_cookie_pair ?c)) t'))"
    using part unfolding partners_def tasks_fit_def by blast
  obtain au where au: "proposal E us (cookie_ours (rc_cookie_pair r)) = Ok au"
    "open_box_decrypt E b (rc_keypair r) (public_key (ic_keypair ?c)) = Ok (open_box_new (Auth au) (bb_nonce b))"
    using sent tasks(2) by (auto simp: auth_sent_def Let_def)
  have au': "au_your_cookie au = cookie_ours (rc_cookie_pair r1)" "proposed_tasks au = Ok (map (task_name E) us)"
    "hm_get (au_data au) (task_name E t) = Some (task_data E u)"
    using proposal_accepted [OF tasks(3,4), of "cookie_ours (rc_cookie_pair r)"] au(1) find_SomeD [OF tasks(6)]
    by (auto simp: r1(2))
  obtain b' c r' where reply: "initiator_auth_reply E ClientInitiator t' r1 = (Ok b', r')"
    "r' = r1\<lparr>rc_csn_pair := c, rc_handshake_state := ResponderAuthSent\<rparr>"
    "nonce_source (bb_nonce b') = 1" "nonce_destination (bb_nonce b') = a"
    "sent_with (bb_nonce b') (PeerResponder r1) (PeerResponder (r1\<lparr>rc_csn_pair := c\<rparr>))"
    "open_box_decrypt E b' (ic_keypair ?c) (public_key (rc_keypair r1)) =
       Ok (open_box_new (Auth (chosen_auth E (cookie_ours (ic_cookie_pair ?c)) t')) (bb_nonce b'))"
    using auth_reply [of r1 "cookie_ours (ic_cookie_pair ?c)" "ic_keypair ?c" E t'] part sent tasks(8) r1(2) ck a
    by (auto simp: partner_defs auth_sent_def sent_number_def)
  have "drops_fit E (dropped E a ?i) (isg_common ?i)" "cm_signaling_state (isg_common ?i) = PeerHandshake"
    using part by (simp_all add: partner_defs dropped_def hm_remove_insert)
  from auth_handled [of ?i a r1 au "map (task_name E) us", OF _ _ a(1) au' _ tasks(5,7) this reply(1)] a tasks(1) r1(2)
  obtain acts i' where h: "initiator_handle_auth E au a ?i = (Ok (acts @ [Reply b', HandshakeDone]), i')" "for_server acts"
    "isg_responder i' = Some r'" "cm_task (isg_common i') = Some t'" "cm_signaling_state (isg_common i') = TaskState"
    "cm_identity (isg_common i') = ClientInitiator" by auto
  have "handle_message E b (SignalingInitiator i) = (Ok (acts @ [Reply b', HandshakeDone]), SignalingInitiator i')"
  proof (rule initiator_receives [OF meet flight r1(1) refl refl, where m = "Auth au"])
    show "initiator_decode_peer_message E ?i b = Ok (open_box_new (Auth au) (bb_nonce b))"
      using sent a r1(2) au(2) flight
      by (simp add: initiator_decode_peer_message_def auth_sent_def Let_def in_flight_def)
    show "initiator_handle_peer_message E (open_box_new (Auth au) (bb_nonce b)) ?i =
        (Ok (acts @ [Reply b', HandshakeDone]), i')"
      using sent r1(2) h(1) flight
      by (simp add: initiator_handle_peer_message_def proc_defs open_box_new_def auth_sent_def Let_def in_flight_def)
  qed
  moreover have "auth_answered E a i' p r' t' room b'"
  proof -
    have "hears (PeerResponder r1) (PeerInitiator ?c)"
      using sent by (rule_tac hears_ctx [of "PeerResponder r" "PeerInitiator ?c"])
        (simp_all add: auth_sent_def Let_def hears_def same_defs r1(2))
    from hears_sent [OF this reply(5,3,4)]
    have "in_flight (bb_nonce b') 1 a (PeerResponder r') (PeerInitiator ?c)"
      by (rule in_flight_ctx) (simp_all add: reply(2) same_defs)
    moreover have "seen (PeerInitiator ?c) (PeerResponder r')"
    proof (rule seen_ctx)
      show "seen (PeerInitiator ?c) (PeerResponder r1)" using flight r1(1) by (simp add: in_flight_def)
      show "same_view (PeerResponder r') (PeerResponder r1)" using reply(2,5) by (simp add: same_defs sent_with_def)
    qed (simp add: same_defs)
    moreover have "sent_number (rc_csn_pair r') = Suc (sent_number (rc_csn_pair r))"
      using reply(2,5) r1(2) by (simp add: sent_with_def sent_number_def)
    ultimately show ?thesis
      using sent reply(2,6) r1(2) a h(3-6) by (simp add: auth_sent_def auth_answered_def Let_def)
  qed
  ultimately show ?thesis using h(2) reply(2) r1(2) by auto
qed

section \<open>The end of the handshake\<close>

lemma hm_len_single: "hm_len (hm_insert k v hm_empty) = 1"
  by (simp add: hm_len_def hm_insert_def hm_empty_def)

lemma chosen_handled:
  assumes "cm_tasks (rsg_common p) = Some us" "find (\<lambda>x. task_name E x = task_name E t) us = Some u"
    "task_name E t' = task_name E t" "task_init E u (task_data E t') = (Ok (), u')"
    and "cm_signaling_state (rsg_common p) = PeerHandshake"
  shows "\<exists>p'. responder_handle_auth E (chosen_auth E (cookie_ours (ic_cookie_pair (rsg_initiator p))) t') s p =
      (Ok [HandshakeDone], p') \<and> cm_task (rsg_common p') = Some u' \<and> cm_signaling_state (rsg_common p') = TaskState \<and>
    cm_identity (rsg_common p') = cm_identity (rsg_common p) \<and>
    rsg_initiator p' = (rsg_initiator p)\<lparr>ic_handshake_state := InitiatorAuthReceived\<rparr>"
proof -
  have "task_name E u = task_name E t" using find_SomeD [OF assms(2)] by simp
  then show ?thesis
    using assms by (simp add: hm_len_single responder_handle_auth_def chosen_auth_def validate_repeated_cookie_def take_tasks_def
        init_task_def store_task_def set_signaling_state_def set_initiator_handshake_state_def on_responder_common_def zoomS_def
        proc_defs)
qed

lemma done_step:
  assumes part: "partners E a i p r t' u'" and state: "cm_signaling_state (rsg_common p) = PeerHandshake" and sent: "auth_answered E a i' p r' t' room b"
    and keys: "rc_keypair r' = rc_keypair r"
  shows "\<exists>p'. handle_message E b (SignalingResponder p) = (Ok [HandshakeDone], SignalingResponder p') \<and>
    cm_task (rsg_common p') = Some u' \<and> linked E (SignalingInitiator i') (SignalingResponder p') room"
proof -
  let ?c = "rsg_initiator p" and ?au = "chosen_auth E (cookie_ours (ic_cookie_pair (rsg_initiator p))) t'"
  have meet: "meeting a i p r" using part by (simp add: partners_def)
  obtain c1 where c1: "note_nonce (bb_nonce b) (PeerInitiator ?c) = PeerInitiator c1"
    "c1 = ?c\<lparr>ic_csn_pair := (ic_csn_pair ?c)\<lparr>csn_theirs := Some (nonce_csn (bb_nonce b))\<rparr>,
       ic_cookie_pair := (ic_cookie_pair ?c)\<lparr>cookie_theirs := Some (nonce_cookie (bb_nonce b))\<rparr>\<rparr>"
    by (simp add: note_nonce_def)
  let ?p = "p\<lparr>rsg_initiator := c1\<rparr>"
  have flight: "in_flight (bb_nonce b) 1 a (PeerResponder r') (PeerInitiator ?c)"
    using sent by (simp add: auth_answered_def Let_def)
  obtain us t u where tasks: "cm_tasks (rsg_common p) = Some us"
    "find (\<lambda>x. task_name E x = task_name E t) us = Some u" "task_name E t' = task_name E t"
    "task_init E u (task_data E t') = (Ok (), u')"
    using part unfolding partners_def tasks_fit_def by blast
  obtain p' where p': "responder_handle_auth E ?au 1 ?p = (Ok [HandshakeDone], p')" "cm_task (rsg_common p') = Some u'"
    "cm_signaling_state (rsg_common p') = TaskState" "cm_identity (rsg_common p') = ClientResponder a"
    "rsg_initiator p' = c1\<lparr>ic_handshake_state := InitiatorAuthReceived\<rparr>"
    using chosen_handled [of ?p us E t u t' u' 1] tasks meet state by (auto simp: meeting_def c1(2))
  have "handle_message E b (SignalingResponder p) = (Ok [HandshakeDone], SignalingResponder p')"
  proof (rule responder_receives [OF meet state flight c1(1) refl refl, where m = "Auth ?au"])
    show "responder_decode_peer_message E ?p b = Ok (open_box_new (Auth ?au) (bb_nonce b))"
      using sent c1(2) flight
      by (simp add: responder_decode_peer_message_def auth_answered_def Let_def in_flight_def is_initiator_def)
    show "responder_handle_peer_message E (open_box_new (Auth ?au) (bb_nonce b)) ?p = (Ok [HandshakeDone], p')"
      using sent c1(2) p'(1) flight
      by (simp add: responder_handle_peer_message_def proc_defs open_box_new_def auth_answered_def Let_def in_flight_def)
  qed
  moreover have "linked E (SignalingInitiator i') (SignalingResponder p') room"
  proof -
    let ?q = "PeerInitiator (rsg_initiator p')"
    have "task_side (SignalingResponder p') a 1 ?q" using p'(3,4) meet by (simp add: meeting_def)
    moreover have "seen (PeerResponder r') ?q"
      by (rule seen_ctx [of "PeerResponder r'" "PeerInitiator c1"])
        (use flight c1(1) in \<open>simp_all add: in_flight_def same_defs p'(5)\<close>)
    moreover have "seen ?q (PeerResponder r')"
      by (rule seen_ctx [of "PeerInitiator ?c" "PeerResponder r'"])
        (use sent in \<open>simp_all add: auth_answered_def Let_def same_defs p'(5) c1(2)\<close>)
    ultimately show ?thesis
      unfolding linked_def
      using sent part keys
      by (intro exI [of _ 1] exI [of _ a] exI [of _ "PeerResponder r'"] exI [of _ ?q] exI [of _ "rc_keypair r'"]
          exI [of _ "ic_keypair ?c"])
        (simp add: auth_answered_def partner_defs p'(5) c1(2) sent_number_def del: task_side.simps)
  qed
  ultimately show ?thesis using p'(2) by blast
qed

section \<open>The first messages of the responder\<close>

text \<open>What a responder does when it learns that the initiator is there.\<close>

definition announce :: "('t, 'v, 'z) env_scheme \<Rightarrow> ('t responder_signaling, 'v) handler" where
  "announce E =
     bindS (send_token_and_key E) (\<lambda>actions.
     thenS (set_initiator_handshake_state InitiatorKeySent)
     (returnS actions))"

lemma announce_handlers:
  "responder_handle_new_initiator E =
     bindS (getS (\<lambda>s. ic_permanent_key (rsg_initiator s))) (\<lambda>permanent_key.
     bindS (on_responder_common (with_entropy (initiator_context_new E permanent_key))) (\<lambda>initiator.
     thenS (modifyS (rsg_initiator_update (\<lambda>_. initiator))) (announce E)))"
  "responder_handle_server_auth_impl E msg =
     thenS (guardS (sa_responders msg = None) (SigInvalidMessage m_responders_set))
     (case sa_initiator_connected msg of
        Some True \<Rightarrow> bindS (announce E) (\<lambda>actions. returnS (actions @ [ActionEvent (ServerHandshakeDone True)]))
      | Some False \<Rightarrow> returnS [ActionEvent (ServerHandshakeDone False)]
      | None \<Rightarrow> failS (SigInvalidMessage m_initiator_connected_not_set))"
  by (simp_all add: responder_handle_new_initiator_def responder_handle_server_auth_impl_def announce_def
      thenS_def bindS_assoc bindS_return_left split: option.split bool.split)

text \<open>
  How the initiator comes to know the permanent key of the responder: by the token both
  share, or because it trusts the key from the start.
\<close>

definition introduced ::
  "('t, 'v, 'z) env_scheme \<Rightarrow> 't initiator_signaling \<Rightarrow> 't responder_signaling \<Rightarrow> responder_context \<Rightarrow> bool" where
  "introduced E i p r \<longleftrightarrow> (let key = public_key (cm_permanent_keypair (rsg_common p)) in
     case cm_auth_provider (rsg_common p) of
       Some (AuthProviderToken tok) \<Rightarrow> cm_auth_provider (isg_common i) = Some (AuthProviderToken tok) \<and>
         rc_handshake_state r = ResponderNew \<and> rc_permanent_key r = None \<and>
         secretbox_correct E tok \<and> carried E (Token key)
     | Some (AuthProviderTrustedKey _) \<Rightarrow> rc_handshake_state r = ResponderTokenReceived \<and> rc_permanent_key r = Some key
     | None \<Rightarrow> False)"

text \<open>Fresh contexts on both sides; the counters leave room for messages of the task phase.\<close>

definition strangers :: "responder_context \<Rightarrow> initiator_context \<Rightarrow> bool" where
  "strangers r c \<longleftrightarrow> rc_session_key r = None \<and> ic_session_key c = None \<and>
     csn_theirs (rc_csn_pair r) = None \<and> cookie_theirs (rc_cookie_pair r) = None \<and>
     csn_theirs (ic_csn_pair c) = None \<and> cookie_theirs (ic_cookie_pair c) = None \<and>
     cookie_ours (rc_cookie_pair r) \<noteq> cookie_ours (ic_cookie_pair c) \<and>
     Suc (sent_number (rc_csn_pair r)) < 2 ^ 32 \<and> Suc (sent_number (ic_csn_pair c)) < 2 ^ 32"

lemma key_announced:
  assumes part: "partners E a i p r t' u'" and room: "Suc (sent_number (ic_csn_pair (rsg_initiator p))) < 2 ^ 48"
  shows "\<exists>b c. send_key E p = (Ok (Reply b), p\<lparr>rsg_initiator := (rsg_initiator p)\<lparr>ic_csn_pair := c\<rparr>\<rparr>) \<and>
    nonce_source (bb_nonce b) = a \<and> nonce_destination (bb_nonce b) = 1 \<and>
    sent_with (bb_nonce b) (PeerInitiator (rsg_initiator p)) (PeerInitiator ((rsg_initiator p)\<lparr>ic_csn_pair := c\<rparr>)) \<and>
    open_box_decrypt E b (cm_permanent_keypair (isg_common i)) (public_key (cm_permanent_keypair (rsg_common p))) =
      Ok (open_box_new (Key (public_key (ic_keypair (rsg_initiator p)))) (bb_nonce b))"
proof -
  let ?m = "Key (public_key (ic_keypair (rsg_initiator p)))"
  have fit: "cm_identity (rsg_common p) = ClientResponder a" "is_responder a" "carried E ?m"
    "box_correct E (cm_permanent_keypair (rsg_common p)) (cm_permanent_keypair (isg_common i))"
    "ic_permanent_key (rsg_initiator p) = public_key (cm_permanent_keypair (isg_common i))"
    using part by (simp_all add: partners_def meeting_def keys_fit_def Let_def)
  obtain n c where n: "initiator_nonce p = (Ok n, p\<lparr>rsg_initiator := (rsg_initiator p)\<lparr>ic_csn_pair := c\<rparr>\<rparr>)"
    "nonce_source n = a" "nonce_destination n = 1"
    "sent_with n (PeerInitiator (rsg_initiator p)) (PeerInitiator ((rsg_initiator p)\<lparr>ic_csn_pair := c\<rparr>))"
    using initiator_nonce_sent [OF fit(1,2) room] by blast
  obtain b where b: "open_box_encrypt E (open_box_new ?m n) (cm_permanent_keypair (rsg_common p))
      (public_key (cm_permanent_keypair (isg_common i))) = (Ok b :: (signaling_error, _) outcome)" "bb_nonce b = n"
    "open_box_decrypt E b (cm_permanent_keypair (isg_common i)) (public_key (cm_permanent_keypair (rsg_common p))) =
      Ok (open_box_new ?m n)"
    using sealed [OF fit(3,4)] by blast
  have "send_key E p = (Ok (Reply b), p\<lparr>rsg_initiator := (rsg_initiator p)\<lparr>ic_csn_pair := c\<rparr>\<rparr>)"
    using n(1) b(1) fit(5) by (simp add: send_key_def proc_defs)
  with n b show ?thesis by blast
qed

lemma token_announced:
  assumes meet: "meeting a i p r" and room: "Suc (sent_number (ic_csn_pair (rsg_initiator p))) < 2 ^ 48"
    and tok: "secretbox_correct E tok" "carried E (Token (public_key (cm_permanent_keypair (rsg_common p))))"
  shows "\<exists>b c. send_token E tok p = (Ok (Reply b), p\<lparr>rsg_initiator := (rsg_initiator p)\<lparr>ic_csn_pair := c\<rparr>\<rparr>) \<and>
    nonce_source (bb_nonce b) = a \<and> nonce_destination (bb_nonce b) = 1 \<and>
    sent_with (bb_nonce b) (PeerInitiator (rsg_initiator p)) (PeerInitiator ((rsg_initiator p)\<lparr>ic_csn_pair := c\<rparr>)) \<and>
    open_box_decrypt_token E b tok =
      Ok (open_box_new (Token (public_key (cm_permanent_keypair (rsg_common p)))) (bb_nonce b))"
proof -
  let ?m = "Token (public_key (cm_permanent_keypair (rsg_common p)))"
  obtain n c where n: "initiator_nonce p = (Ok n, p\<lparr>rsg_initiator := (rsg_initiator p)\<lparr>ic_csn_pair := c\<rparr>\<rparr>)"
    "nonce_source n = a" "nonce_destination n = 1"
    "sent_with n (PeerInitiator (rsg_initiator p)) (PeerInitiator ((rsg_initiator p)\<lparr>ic_csn_pair := c\<rparr>))"
    using initiator_nonce_sent [of p a] meet room by (auto simp: meeting_def)
  obtain b where b: "open_box_encrypt_token E (open_box_new ?m n) tok = (Ok b :: (signaling_error, _) outcome)" "bb_nonce b = n"
    "open_box_decrypt_token E b tok = Ok (open_box_new ?m n)"
    using sealed_token [OF tok(2,1)] by blast
  have "send_token E tok p = (Ok (Reply b), p\<lparr>rsg_initiator := (rsg_initiator p)\<lparr>ic_csn_pair := c\<rparr>\<rparr>)"
    using n(1) b(1) by (simp add: send_token_def proc_defs)
  with n b show ?thesis by blast
qed

text \<open>The initiator takes the permanent key from the token message.\<close>

lemma token_step:
  assumes meet: "meeting a i p r" and flight: "in_flight (bb_nonce b) a 1 q (PeerResponder r)"
    and "cm_auth_provider (isg_common i) = Some (AuthProviderToken tok)"
      "rc_handshake_state r = ResponderNew" "rc_permanent_key r = None"
    and "open_box_decrypt_token E b tok = Ok (open_box_new (Token key) (bb_nonce b))"
    and r': "note_nonce (bb_nonce b) (PeerResponder r) = PeerResponder r'"
  shows "handle_message E b (SignalingInitiator i) = (Ok [], SignalingInitiator
    (i\<lparr>isg_common := (isg_common i)\<lparr>cm_auth_provider := None\<rparr>, isg_responders := hm_insert a
       (r'\<lparr>rc_permanent_key := Some key, rc_handshake_state := ResponderTokenReceived\<rparr>) (isg_responders i)\<rparr>))"
proof (rule initiator_receives [OF meet flight r' refl refl, where m = "Token key"])
  let ?i = "i\<lparr>isg_responders := hm_insert a r' (isg_responders i)\<rparr>"
  have a: "is_responder a" "nonce_source (bb_nonce b) = a" using meet flight by (simp_all add: meeting_def in_flight_def)
  have st: "rc_handshake_state r' = ResponderNew" "rc_permanent_key r' = None" "rc_address r' = rc_address r"
    using r' assms(4,5) by (auto simp: note_nonce_def)
  show "initiator_decode_peer_message E ?i b = Ok (open_box_new (Token key) (bb_nonce b))"
    using assms(3,6) a st by (simp add: initiator_decode_peer_message_def)
  show "initiator_handle_peer_message E (open_box_new (Token key) (bb_nonce b)) ?i = (Ok [],
    i\<lparr>isg_common := (isg_common i)\<lparr>cm_auth_provider := None\<rparr>, isg_responders := hm_insert a
       (r'\<lparr>rc_permanent_key := Some key, rc_handshake_state := ResponderTokenReceived\<rparr>) (isg_responders i)\<rparr>)"
    using assms(3) a st
    by (cases i) (simp add: initiator_handle_peer_message_def initiator_handle_token_def at_responder_def
        set_responder_handshake_state_def auth_token_of_def on_common_def zoomS_def proc_defs open_box_new_def)
qed

lemma key_on_its_way:
  assumes part: "partners E a i p r t' u'"
    and r: "rc_handshake_state r = ResponderTokenReceived" "rc_session_key r = None"
      "rc_permanent_key r = Some (public_key (cm_permanent_keypair (rsg_common p)))"
    and c: "ic_session_key (rsg_initiator p) = None"
    and hear: "hears (PeerInitiator (rsg_initiator p)) (PeerResponder r)" "hears (PeerResponder r) (PeerInitiator (rsg_initiator p))"
    and room: "sent_number (rc_csn_pair r) + 2 + room < 2 ^ 48" "sent_number (ic_csn_pair (rsg_initiator p)) + 2 + room < 2 ^ 48"
  shows "\<exists>b p'. bindS (send_key E) (\<lambda>k. thenS (set_initiator_handshake_state InitiatorKeySent) (returnS (ts @ [k]))) p =
      (Ok (ts @ [Reply b]), p') \<and> cm_signaling_state (rsg_common p') = cm_signaling_state (rsg_common p) \<and>
    partners E a i p' r t' u' \<and> key_sent E i p' r room b"
proof -
  obtain b d where b: "send_key E p = (Ok (Reply b), p\<lparr>rsg_initiator := (rsg_initiator p)\<lparr>ic_csn_pair := d\<rparr>\<rparr>)"
    "nonce_source (bb_nonce b) = a" "nonce_destination (bb_nonce b) = 1"
    "sent_with (bb_nonce b) (PeerInitiator (rsg_initiator p)) (PeerInitiator ((rsg_initiator p)\<lparr>ic_csn_pair := d\<rparr>))"
    "open_box_decrypt E b (cm_permanent_keypair (isg_common i)) (public_key (cm_permanent_keypair (rsg_common p))) =
      Ok (open_box_new (Key (public_key (ic_keypair (rsg_initiator p)))) (bb_nonce b))"
    using key_announced [OF part] room(2) by auto
  define c' where "c' = (rsg_initiator p)\<lparr>ic_csn_pair := d, ic_handshake_state := InitiatorKeySent\<rparr>"
  let ?p = "p\<lparr>rsg_initiator := c'\<rparr>"
  have "bindS (send_key E) (\<lambda>k. thenS (set_initiator_handshake_state InitiatorKeySent) (returnS (ts @ [k]))) p =
      (Ok (ts @ [Reply b]), ?p)"
    using b(1) by (simp add: set_initiator_handshake_state_def proc_defs c'_def)
  moreover have "partners E a i ?p r t' u'"
    by (rule partners_responder [OF part, where x = "cm_auth_provider (rsg_common p)" and c' = c']) (simp_all add: c'_def)
  moreover have "key_sent E i ?p r room b"
  proof -
    from hears_sent [OF hear(1) b(4,2,3)]
    have "in_flight (bb_nonce b) a 1 (PeerInitiator c') (PeerResponder r)"
      by (rule in_flight_ctx) (simp_all add: c'_def same_defs)
    moreover have "hears (PeerResponder r) (PeerInitiator c')"
      using hear(2) by (rule hears_ctx) (use b(4) in \<open>simp_all add: c'_def same_defs sent_with_def\<close>)
    moreover have "sent_number (ic_csn_pair c') = Suc (sent_number (ic_csn_pair (rsg_initiator p)))"
      using b(4) by (simp add: c'_def sent_with_def)
    ultimately show ?thesis
      using r c room b(5) part by (simp add: key_sent_def partners_def meeting_def c'_def)
  qed
  moreover have "cm_signaling_state (rsg_common ?p) = cm_signaling_state (rsg_common p)" by simp
  ultimately show ?thesis by blast
qed

lemma strangers_hear:
  assumes "strangers r c"
  shows "hears (PeerInitiator c) (PeerResponder r)" "hears (PeerResponder r) (PeerInitiator c)"
  using assms by (auto simp: strangers_def hears_def)

text \<open>Messages that are all handled without an error, and the actions they cause.\<close>

fun accepts ::
  "('t, 'v, 'z) env_scheme \<Rightarrow> byte_box list \<Rightarrow> 't signaling \<Rightarrow> ('v handle_action list \<times> 't signaling) option" where
  "accepts E [] s = Some ([], s)"
| "accepts E (b # bs) s =
     (case handle_message E b s of
        (Ok acts, s') \<Rightarrow> map_option (\<lambda>(rest, s''). (acts @ rest, s'')) (accepts E bs s')
      | _ \<Rightarrow> None)"

lemma accepts_deliver: "accepts E bs s = Some (acts, s') \<Longrightarrow> deliver E bs s = (acts, s')"
  by (induction bs arbitrary: s acts) (auto split: prod.splits outcome.splits)

lemma accepts_append:
  "accepts E (bs @ cs) s =
     (case accepts E bs s of
        Some (acts, s') \<Rightarrow> map_option (\<lambda>(rest, s''). (acts @ rest, s'')) (accepts E cs s')
      | None \<Rightarrow> None)"
  by (induction bs arbitrary: s)
    (auto simp: option.map_ident option.map_comp o_def case_prod_unfold split: prod.splits outcome.splits option.splits)

text \<open>
  The first messages of the responder, up to the key message, of which the initiator has
  handled all but the last.
\<close>

definition overture ::
  "('t, 'v, 'z) env_scheme \<Rightarrow> address \<Rightarrow> 't initiator_signaling \<Rightarrow> 't responder_signaling \<Rightarrow> 't \<Rightarrow> 't \<Rightarrow> nat \<Rightarrow> bool" where
  "overture E a i p t' u' room \<longleftrightarrow> (\<exists>acts bs b i1 p1 r1. announce E p = (Ok acts, p1) \<and>
     cm_signaling_state (rsg_common p1) = cm_signaling_state (rsg_common p) \<and>
     relayed acts = bs @ [b] \<and> accepts E bs (SignalingInitiator i) = Some ([], SignalingInitiator i1) \<and>
     partners E a i1 p1 r1 t' u' \<and> key_sent E i1 p1 r1 room b)"

lemma overture_trusted:
  assumes part: "partners E a i p r t' u'" and str: "strangers r (rsg_initiator p)"
    and "introduced E i p r" "cm_auth_provider (rsg_common p) = Some (AuthProviderTrustedKey k)" "room \<le> 2 ^ 47"
  shows "overture E a i p t' u' room"
proof -
  obtain b p' where b: "bindS (send_key E) (\<lambda>k. thenS (set_initiator_handshake_state InitiatorKeySent) (returnS ([] @ [k]))) p =
      (Ok ([] @ [Reply b]), p')" "partners E a i p' r t' u'" "key_sent E i p' r room b"
      "cm_signaling_state (rsg_common p') = cm_signaling_state (rsg_common p)"
    using key_on_its_way [OF part, of room "[]"] assms(3-5) str strangers_hear [OF str]
    by (auto simp: introduced_def Let_def strangers_def)
  have "announce E p = (Ok [Reply b], p')"
    using b(1) assms(4)
    by (simp add: announce_def send_token_and_key_def getS_def bindS_def returnS_def thenS_def split: prod.splits outcome.splits)
  moreover have "nonce_destination (bb_nonce b) = 1" using b(3) by (simp add: key_sent_def Let_def in_flight_def)
  ultimately show ?thesis using b(2-4) unfolding overture_def
    by (intro exI [of _ "[Reply b]"] exI [of _ "[]"] exI [of _ b] exI [of _ i] exI [of _ p'] exI [of _ r])
      (simp add: relayed_simps)
qed

lemma overture_token:
  assumes part: "partners E a i p r t' u'" and str: "strangers r (rsg_initiator p)"
    and intro: "introduced E i p r" and prov: "cm_auth_provider (rsg_common p) = Some (AuthProviderToken tok)"
    and room: "room \<le> 2 ^ 47"
  shows "overture E a i p t' u' room"
proof -
  let ?c = "rsg_initiator p" and ?key = "public_key (cm_permanent_keypair (rsg_common p))"
  let ?p = "p\<lparr>rsg_common := (rsg_common p)\<lparr>cm_auth_provider := None\<rparr>\<rparr>"
  have meet: "meeting a i p r" and meet': "meeting a i ?p r" using part by (simp_all add: partners_def meeting_def)
  have tok: "secretbox_correct E tok" "carried E (Token ?key)" "cm_auth_provider (isg_common i) = Some (AuthProviderToken tok)"
    "rc_handshake_state r = ResponderNew" "rc_permanent_key r = None"
    using intro prov by (simp_all add: introduced_def Let_def)
  obtain bt d where bt: "send_token E tok ?p = (Ok (Reply bt), ?p\<lparr>rsg_initiator := ?c\<lparr>ic_csn_pair := d\<rparr>\<rparr>)"
    "nonce_source (bb_nonce bt) = a" "nonce_destination (bb_nonce bt) = 1"
    "sent_with (bb_nonce bt) (PeerInitiator ?c) (PeerInitiator (?c\<lparr>ic_csn_pair := d\<rparr>))"
    "open_box_decrypt_token E bt tok = Ok (open_box_new (Token ?key) (bb_nonce bt))"
    using token_announced [OF meet' _ tok(1)] tok(2) str by (auto simp: strangers_def)
  let ?p1 = "?p\<lparr>rsg_initiator := ?c\<lparr>ic_csn_pair := d\<rparr>\<rparr>"
  obtain r1 where r1: "note_nonce (bb_nonce bt) (PeerResponder r) = PeerResponder r1"
    "r1 = r\<lparr>rc_csn_pair := (rc_csn_pair r)\<lparr>csn_theirs := Some (nonce_csn (bb_nonce bt))\<rparr>,
       rc_cookie_pair := (rc_cookie_pair r)\<lparr>cookie_theirs := Some (nonce_cookie (bb_nonce bt))\<rparr>\<rparr>"
    by (simp add: note_nonce_def)
  define r' where "r' = r1\<lparr>rc_permanent_key := Some ?key, rc_handshake_state := ResponderTokenReceived\<rparr>"
  let ?i = "i\<lparr>isg_common := (isg_common i)\<lparr>cm_auth_provider := None\<rparr>, isg_responders := hm_insert a r' (isg_responders i)\<rparr>"
  note flight = hears_sent [OF strangers_hear(1) [OF str] bt(4,2,3)]
  have handled: "handle_message E bt (SignalingInitiator i) = (Ok [], SignalingInitiator ?i)"
    unfolding r'_def by (rule token_step [OF meet flight tok(3-5) bt(5) r1(1)])
  have "partners E a i ?p1 r t' u'"
    by (rule partners_responder [OF part, where x = None and c' = "?c\<lparr>ic_csn_pair := d\<rparr>"]) simp_all
  then have part': "partners E a ?i ?p1 r' t' u'"
    by (rule partners_initiator [where x = None]) (simp_all add: r'_def r1(2))
  have "hears (PeerInitiator (rsg_initiator ?p1)) (PeerResponder r')"
    using flight seen_ctx [of "PeerInitiator (?c\<lparr>ic_csn_pair := d\<rparr>)" "PeerResponder r1" _ "PeerResponder r'"] r1(1)
    by (simp add: hears_def in_flight_def r'_def same_defs)
  moreover have "hears (PeerResponder r') (PeerInitiator (rsg_initiator ?p1))"
    using strangers_hear(2) [OF str]
    by (rule hears_ctx) (use bt(4) in \<open>simp_all add: r'_def r1(2) same_defs sent_with_def\<close>)
  ultimately obtain b p' where b: "bindS (send_key E) (\<lambda>k. thenS (set_initiator_handshake_state InitiatorKeySent)
      (returnS ([Reply bt] @ [k]))) ?p1 = (Ok ([Reply bt] @ [Reply b]), p')" "partners E a ?i p' r' t' u'"
      "key_sent E ?i p' r' room b" "cm_signaling_state (rsg_common p') = cm_signaling_state (rsg_common p)"
    using key_on_its_way [OF part', of room "[Reply bt]"] str room bt(4)
    by (auto simp: r'_def r1(2) strangers_def sent_with_def sent_number_def)
  have "announce E p = (Ok [Reply bt, Reply b], p')"
    using b(1) bt(1) prov
    by (simp add: announce_def send_token_and_key_def on_responder_common_def zoomS_def modifyS_def getS_def bindS_def returnS_def
        thenS_def split: prod.splits outcome.splits)
  moreover have "nonce_destination (bb_nonce b) = 1" using b(3) by (simp add: key_sent_def Let_def in_flight_def)
  ultimately show ?thesis using b(2-4) bt(3) handled unfolding overture_def
    by (intro exI [of _ "[Reply bt, Reply b]"] exI [of _ "[bt]"] exI [of _ b] exI [of _ ?i] exI [of _ p'] exI [of _ r'])
      (simp add: relayed_simps)
qed

lemma overture_any:
  assumes "partners E a i p r t' u'" "strangers r (rsg_initiator p)" "introduced E i p r" "room \<le> 2 ^ 47"
  shows "overture E a i p t' u' room"
proof (cases "cm_auth_provider (rsg_common p)")
  case None
  with assms(3) show ?thesis by (simp add: introduced_def)
next
  case (Some x)
  show ?thesis
  proof (cases x)
    case (AuthProviderToken tok)
    from overture_token [OF assms(1-3) _ assms(4)] Some this show ?thesis by simp
  next
    case (AuthProviderTrustedKey k)
    from overture_trusted [OF assms(1-3) _ assms(4)] Some this show ?thesis by simp
  qed
qed

section \<open>The whole handshake\<close>

text \<open>
  Meeting the initiator ends with the responder in the peer handshake. The two handlers of the
  server's messages come to this: \<open>server-auth\<close> when the initiator is connected already, and
  \<open>new-initiator\<close> when it connects later.
\<close>

definition introduction :: "('t, 'v, 'z) env_scheme \<Rightarrow> ('t responder_signaling, 'v) handler" where
  "introduction E =
     bindS (announce E) (\<lambda>actions.
     thenS (on_responder_common server_handshake_completed)
     (returnS actions))"

lemma introduction_server_auth:
  assumes "sa_responders msg = None" "sa_initiator_connected msg = Some True"
  shows "handle_server_auth E msg n (SignalingResponder p) =
    (case bindS (on_responder_common (server_auth_checks E msg n)) (\<lambda>_.
       bindS (introduction E) (\<lambda>acts. returnS (acts @ [ActionEvent (ServerHandshakeDone True)]))) p of
     (x, q) \<Rightarrow> (x, SignalingResponder q))"
  using assms
  by (simp add: handle_server_auth_def announce_handlers(2) introduction_def on_sig_def on_sig_common_def
      bindS_def thenS_def guardS_def returnS_def split: prod.split outcome.split)

lemma introduction_new_initiator:
  assumes "cm_signaling_state (rsg_common p) = PeerHandshake" "sc_handshake_state (cm_server (rsg_common p)) = ServerDone"
    and "announce E p = (Ok acts, q)"
  shows "introduction E p = (Ok acts, q)"
proof -
  obtain q0 where q0: "send_token_and_key E p = (Ok acts, q0)" "rsg_common q = rsg_common q0"
    using assms(3) by (auto simp: announce_def set_initiator_handshake_state_def ok_iffs)
  have "cm_signaling_state (rsg_common q) = PeerHandshake" "sc_handshake_state (cm_server (rsg_common q)) = ServerDone"
    using preservesD [OF core_send_token_and_key refl q0(1)] assms(1,2) q0(2)
    by (simp_all add: responder_core_def responder_view_def)
  then show ?thesis
    using assms(3)
    by (cases q) (simp add: introduction_def on_responder_common_def zoomS_def server_handshake_completed_def
        set_server_handshake_state_def set_signaling_state_def proc_defs)
qed

lemma completed:
  assumes part: "partners E a i p r t' u'" and sent: "key_sent E i p r room b"
    and state: "cm_signaling_state (rsg_common p) \<noteq> TaskState"
  shows "\<exists>q. on_responder_common server_handshake_completed p = (Ok (), q) \<and>
    cm_signaling_state (rsg_common q) = PeerHandshake \<and> partners E a i q r t' u' \<and> key_sent E i q r room b"
proof -
  let ?q = "p\<lparr>rsg_common := (rsg_common p)\<lparr>cm_server := (cm_server (rsg_common p))\<lparr>sc_handshake_state := ServerDone\<rparr>,
    cm_signaling_state := PeerHandshake\<rparr>\<rparr>"
  have "on_responder_common server_handshake_completed p = (Ok (), ?q)"
    using state by (cases "cm_signaling_state (rsg_common p)")
      (simp_all add: on_responder_common_def zoomS_def server_handshake_completed_def set_server_handshake_state_def
        set_signaling_state_def proc_defs)
  moreover have "partners E a i ?q r t' u'" using part by (simp add: partner_defs)
  moreover have "key_sent E i ?q r room b" using sent by (simp add: key_sent_def)
  ultimately show ?thesis by fastforce
qed

text \<open>
  The messages of the peers, handed over by the server one by one. The result is what each
  side does in the last round, and its state.
\<close>

definition peer_handshake ::
  "('t, 'v, 'z) env_scheme \<Rightarrow> 't initiator_signaling \<Rightarrow> 't responder_signaling \<Rightarrow>
   ('v handle_action list \<times> 't signaling) \<times> ('v handle_action list \<times> 't signaling)" where
  "peer_handshake E i p =
     (case introduction E p of
        (Ok acts, p1) \<Rightarrow>
          (case deliver E (relayed acts) (SignalingInitiator i) of (acts1, s1) \<Rightarrow>
           case deliver E (relayed acts1) (SignalingResponder p1) of (acts2, q1) \<Rightarrow>
           case deliver E (relayed acts2) s1 of (acts3, s2) \<Rightarrow>
           case deliver E (relayed acts3) q1 of (acts4, q2) \<Rightarrow> ((acts3, s2), (acts4, q2)))
      | (_, p1) \<Rightarrow> (([], SignalingInitiator i), ([], SignalingResponder p1)))"

text \<open>The messages one by one, and what each side does with them.\<close>

lemma handshake_run:
  assumes "partners E a i p r t u" "strangers r (rsg_initiator p)" "introduced E i p r"
    and "cm_signaling_state (rsg_common p) \<noteq> TaskState" "room \<le> 2 ^ 47"
  shows "\<exists>acts p1 b1 i2 b2 p2 acts3 b3 i3 p3. introduction E p = (Ok acts, p1) \<and>
    accepts E (relayed acts) (SignalingInitiator i) = Some ([Reply b1], SignalingInitiator i2) \<and>
    handle_message E b1 (SignalingResponder p1) = (Ok [Reply b2], SignalingResponder p2) \<and>
    handle_message E b2 (SignalingInitiator i2) = (Ok (acts3 @ [Reply b3, HandshakeDone]), SignalingInitiator i3) \<and>
    handle_message E b3 (SignalingResponder p2) = (Ok [HandshakeDone], SignalingResponder p3) \<and>
    for_server acts3 \<and> nonce_destination (bb_nonce b1) \<noteq> 0 \<and> nonce_destination (bb_nonce b2) \<noteq> 0 \<and>
    nonce_destination (bb_nonce b3) \<noteq> 0 \<and> linked E (SignalingInitiator i3) (SignalingResponder p3) room \<and>
    cm_task (isg_common i3) = Some t \<and> cm_task (rsg_common p3) = Some u"
proof -
  obtain acts bs b i1 p0 r1 where o: "announce E p = (Ok acts, p0)"
    "cm_signaling_state (rsg_common p0) = cm_signaling_state (rsg_common p)"
    "relayed acts = bs @ [b]" "accepts E bs (SignalingInitiator i) = Some ([], SignalingInitiator i1)"
    "partners E a i1 p0 r1 t u" "key_sent E i1 p0 r1 room b"
    using overture_any [OF assms(1-3,5)] unfolding overture_def by blast
  from completed [OF o(5,6)] o(2) assms(4) obtain p1 where p1: "on_responder_common server_handshake_completed p0 = (Ok (), p1)"
    "cm_signaling_state (rsg_common p1) = PeerHandshake" "partners E a i1 p1 r1 t u" "key_sent E i1 p1 r1 room b" by auto
  have i: "introduction E p = (Ok acts, p1)" using o(1) p1(1) by (simp add: introduction_def bindS_def thenS_def returnS_def)
  from key_step [OF p1(3,4)] obtain b1 i2 r2 where 1: "handle_message E b (SignalingInitiator i1) = (Ok [Reply b1], SignalingInitiator i2)"
    "partners E a i2 p1 r2 t u" "key_answered E i2 p1 r2 room b1" by blast
  from auth_step [OF 1(2) p1(2) 1(3)] obtain b2 p2 where 2: "handle_message E b1 (SignalingResponder p1) = (Ok [Reply b2], SignalingResponder p2)"
    "partners E a i2 p2 r2 t u" "auth_sent E i2 p2 r2 room b2" "cm_signaling_state (rsg_common p2) = PeerHandshake" by blast
  from finish_step [OF 2(2,3)] obtain acts3 b3 i3 r3 where 3: "handle_message E b2 (SignalingInitiator i2) =
      (Ok (acts3 @ [Reply b3, HandshakeDone]), SignalingInitiator i3)"
    "for_server acts3" "auth_answered E a i3 p2 r3 t room b3" "rc_keypair r3 = rc_keypair r2" by blast
  from done_step [OF 2(2,4) 3(3,4)] obtain p3 where 4: "handle_message E b3 (SignalingResponder p2) = (Ok [HandshakeDone], SignalingResponder p3)"
    "cm_task (rsg_common p3) = Some u" "linked E (SignalingInitiator i3) (SignalingResponder p3) room" by blast
  have "a \<noteq> 0" "rc_address r2 = a" using assms(1) 1(2) by (auto simp: partners_def meeting_def is_responder_iff)
  then have "nonce_destination (bb_nonce b1) \<noteq> 0" "nonce_destination (bb_nonce b2) \<noteq> 0" "nonce_destination (bb_nonce b3) \<noteq> 0"
    using 1(3) 2(3) 3(3) by (simp_all add: key_answered_def auth_sent_def auth_answered_def Let_def in_flight_def)
  moreover have "accepts E (relayed acts) (SignalingInitiator i) = Some ([Reply b1], SignalingInitiator i2)"
    using o(3,4) 1(1) by (simp add: accepts_append)
  moreover have "cm_task (isg_common i3) = Some t" using 3(3) by (simp add: auth_answered_def Let_def)
  ultimately show ?thesis using i 2(1) 3(1,2) 4 by blast
qed

text \<open>
  C4. The handshake of two honest peers completes. Let the initiator know the responder by a
  fresh context and the responder know the permanent key of the initiator; let the responder
  be trusted, or both hold the same token; let the session keys differ from the permanent ones
  and the cookies from each other; let the two sides share a task that both can initialise, and
  let the messages that occur survive their MessagePack encoding and the boxes open. Then the
  four or five messages of the handshake are all accepted, both sides report its end with the
  negotiated task, and they are linked: the channel of the task phase delivers the messages
  that follow. The counters of both sides may start anywhere below \<open>2 ^ 32 - 1\<close>.
\<close>

theorem handshake_completes:
  assumes "partners E a i p r t u" "strangers r (rsg_initiator p)" "introduced E i p r"
    and "cm_signaling_state (rsg_common p) \<noteq> TaskState" "room \<le> 2 ^ 47"
  shows "\<exists>acts i' p'. peer_handshake E i p =
      ((acts @ [HandshakeDone], SignalingInitiator i'), ([HandshakeDone], SignalingResponder p')) \<and>
    linked E (SignalingInitiator i') (SignalingResponder p') room \<and>
    cm_task (isg_common i') = Some t \<and> cm_task (rsg_common p') = Some u"
proof -
  obtain acts p1 b1 i2 b2 p2 acts3 b3 i3 p3 where run: "introduction E p = (Ok acts, p1)"
    "accepts E (relayed acts) (SignalingInitiator i) = Some ([Reply b1], SignalingInitiator i2)"
    "handle_message E b1 (SignalingResponder p1) = (Ok [Reply b2], SignalingResponder p2)"
    "handle_message E b2 (SignalingInitiator i2) = (Ok (acts3 @ [Reply b3, HandshakeDone]), SignalingInitiator i3)"
    "handle_message E b3 (SignalingResponder p2) = (Ok [HandshakeDone], SignalingResponder p3)"
    "for_server acts3" "nonce_destination (bb_nonce b1) \<noteq> 0" "nonce_destination (bb_nonce b2) \<noteq> 0"
    "nonce_destination (bb_nonce b3) \<noteq> 0" "linked E (SignalingInitiator i3) (SignalingResponder p3) room"
    "cm_task (isg_common i3) = Some t" "cm_task (rsg_common p3) = Some u"
    using handshake_run [OF assms] by blast
  then have "peer_handshake E i p = (((acts3 @ [Reply b3]) @ [HandshakeDone], SignalingInitiator i3), ([HandshakeDone], SignalingResponder p3))"
    using accepts_deliver [OF run(2)]
    by (simp add: peer_handshake_def relayed_simps relayed_append for_server_relayed)
  with run(10-12) show ?thesis by blast
qed

text \<open>The scenario again, before the responder has met the initiator.\<close>

definition meeting_initiator :: "string initiator_signaling" where
  "meeting_initiator = (case snd initiator_joined of SignalingInitiator i \<Rightarrow> i)"

definition meeting_responder :: "string responder_signaling" where
  "meeting_responder = (case snd responder_joined of SignalingResponder p \<Rightarrow>
     p\<lparr>rsg_initiator := (rsg_initiator p)\<lparr>ic_handshake_state := InitiatorNew\<rparr>\<rparr>)"

definition meeting_context :: responder_context where
  "meeting_context = the (hm_get (isg_responders meeting_initiator) 2)"

lemma scenario_box_correct: "box_correct scenario_env k l"
  unfolding scenario_env_def by (rule sample_env_laws)


lemma meeting_partners: "partners scenario_env 2 meeting_initiator meeting_responder meeting_context ''t'' ''t''"
  unfolding partners_def
proof (intro conjI)
  let ?i = meeting_initiator and ?p = meeting_responder and ?r = meeting_context
  show "meeting 2 ?i ?p ?r" by code_simp
  have "cm_role (isg_common ?i) = RoleInitiator" "cm_identity (isg_common ?i) = ClientInitiator"
    "sc_session_key (cm_server (isg_common ?i)) \<noteq> None" "dropped scenario_env 2 ?i = []"
    "combined_sequence_number (csn_ours (sc_csn_pair (cm_server (isg_common ?i)))) < 281474976710655"
    by code_simp+
  then show "drops_fit scenario_env (dropped scenario_env 2 ?i) (isg_common ?i)"
    by (simp add: drops_fit_def sent_number_def word_less_nat_alt)
  show "keys_fit scenario_env ?i ?p ?r"
    unfolding keys_fit_def Let_def by (intro conjI scenario_box_correct) code_simp+
  have "proposal scenario_env [''t''] (cookie_ours (rc_cookie_pair ?r)) = Ok \<lparr>au_your_cookie = count_up 4,
      au_tasks = Some [''t''], au_task = None, au_data = [(''t'', None)]\<rparr>"
    "carried scenario_env (Auth \<lparr>au_your_cookie = count_up 4, au_tasks = Some [''t''], au_task = None, au_data = [(''t'', None)]\<rparr>)"
    "cm_tasks (isg_common ?i) = Some [''t'']" "cm_tasks (rsg_common ?p) = Some [''t'']"
    "choose_shared_task scenario_env [''t''] (map (task_name scenario_env) [''t'']) = Some ''t''"
    "find (\<lambda>x. task_name scenario_env x = task_name scenario_env ''t'') [''t''] = Some ''t''"
    "task_init scenario_env ''t'' (task_data scenario_env ''t'') = (Ok (), ''t'')"
    "carried scenario_env (Auth (chosen_auth scenario_env (cookie_ours (ic_cookie_pair (rsg_initiator ?p))) ''t''))"
    "distinct (map (task_name scenario_env) [''t''])"
    by code_simp+
  then show "tasks_fit scenario_env ?i ?p ?r ''t'' ''t''"
    unfolding tasks_fit_def
    by (intro exI [of _ "[''t'']"] exI [of _ "''t''"]) auto
qed

lemma meeting_strangers: "strangers meeting_context (rsg_initiator meeting_responder)"
proof -
  have "combined_sequence_number (csn_ours (rc_csn_pair meeting_context)) < 4294967295"
    "combined_sequence_number (csn_ours (ic_csn_pair (rsg_initiator meeting_responder))) < 4294967295"
    "cookie_ours (rc_cookie_pair meeting_context) \<noteq> cookie_ours (ic_cookie_pair (rsg_initiator meeting_responder))"
    "csn_theirs (rc_csn_pair meeting_context) = None" "cookie_theirs (rc_cookie_pair meeting_context) = None"
    "csn_theirs (ic_csn_pair (rsg_initiator meeting_responder)) = None"
    "cookie_theirs (ic_cookie_pair (rsg_initiator meeting_responder)) = None"
    "rc_session_key meeting_context = None" "ic_session_key (rsg_initiator meeting_responder) = None"
    by code_simp+
  then show ?thesis by (simp add: strangers_def sent_number_def word_less_nat_alt)
qed

theorem handshake_completes_witness:
  "\<exists>acts i p. peer_handshake scenario_env meeting_initiator meeting_responder =
      ((acts @ [HandshakeDone], SignalingInitiator i), ([HandshakeDone], SignalingResponder p)) \<and>
    linked scenario_env (SignalingInitiator i) (SignalingResponder p) 1000000 \<and>
    cm_task (isg_common i) = Some ''t'' \<and> cm_task (rsg_common p) = Some ''t''"
proof (rule handshake_completes [OF meeting_partners meeting_strangers])
  have "\<exists>k. cm_auth_provider (rsg_common meeting_responder) = Some (AuthProviderTrustedKey k)"
    by (rule exI [of _ "scenario_key 3"]) code_simp
  moreover have "rc_handshake_state meeting_context = ResponderTokenReceived"
    "rc_permanent_key meeting_context = Some (public_key (cm_permanent_keypair (rsg_common meeting_responder)))"
    by code_simp+
  ultimately show "introduced scenario_env meeting_initiator meeting_responder meeting_context"
    by (auto simp: introduced_def Let_def)
  show "cm_signaling_state (rsg_common meeting_responder) \<noteq> TaskState" by code_simp
qed simp

end
