(* ===== verification/Panics.thy ===== *)
theory Panics
  imports Client_Laws
begin

text \<open>
  Which panics a call of \<open>handle_message\<close> can cause. \<open>panics_in I N m\<close> says that \<open>m\<close>, run in a
  state that satisfies \<open>I\<close>, panics only with the messages in \<open>N\<close>. It is shown along the
  structure of the handlers; the frame conditions are those of the invariants.
\<close>

section \<open>Rules\<close>

definition panics_in :: "('s \<Rightarrow> bool) \<Rightarrow> string set \<Rightarrow> ('s, 'e, 'a) proc \<Rightarrow> bool" where
  "panics_in I N m \<longleftrightarrow> (\<forall>s p t. I s \<longrightarrow> m s = (Panic p, t) \<longrightarrow> p \<in> N)"

named_theorems panic_rules \<open>introduction rules for bounds on panics\<close>

lemma panics_inI: "(\<And>s p t. I s \<Longrightarrow> m s = (Panic p, t) \<Longrightarrow> p \<in> N) \<Longrightarrow> panics_in I N m"
  by (simp add: panics_in_def)

lemma panics_inD: "panics_in I N m \<Longrightarrow> I s \<Longrightarrow> m s = (Panic p, t) \<Longrightarrow> p \<in> N"
  by (simp add: panics_in_def)

lemma panics_in_weaken: "panics_in I M m \<Longrightarrow> (\<And>s. J s \<Longrightarrow> I s) \<Longrightarrow> M \<subseteq> N \<Longrightarrow> panics_in J N m"
  by (auto simp: panics_in_def)

lemma panics_in_bindS:
  assumes "panics_in I N m" "preserves I m" "\<And>x. panics_in I N (k x)"
  shows "panics_in I N (bindS m k)"
proof (rule panics_inI)
  fix s p t assume s: "I s" "bindS m k s = (Panic p, t)"
  obtain r u where m: "m s = (r, u)" by fastforce
  with assms(2) s(1) have "I u" by (rule preservesD)
  with assms s m show "p \<in> N" by (cases r) (auto simp: bindS_def dest: panics_inD)
qed

lemma panics_in_thenS:
  "panics_in I N m \<Longrightarrow> preserves I m \<Longrightarrow> panics_in I N k \<Longrightarrow> panics_in I N (thenS m k)"
  unfolding thenS_def by (rule panics_in_bindS)

lemma panics_in_get [panic_rules]:
  "(\<And>s. I s \<Longrightarrow> panics_in I N (k (f s))) \<Longrightarrow> panics_in I N (bindS (getS f) k)"
  by (auto simp: panics_in_def proc_defs)

lemma panics_in_check [panic_rules]:
  "(b \<Longrightarrow> panics_in I N k) \<Longrightarrow> panics_in I N (thenS (guardS b e) k)"
  by (auto simp: panics_in_def proc_defs)

lemma panics_in_value [panic_rules]:
  "(\<And>p. r = Panic p \<Longrightarrow> p \<in> N) \<Longrightarrow> (\<And>x. r = Ok x \<Longrightarrow> panics_in I N (k x)) \<Longrightarrow> panics_in I N (bindS (liftO r) k)"
  by (cases r) (auto simp: panics_in_def proc_defs)

lemma panics_in_pure [panic_rules]:
  "panics_in I N (returnS x)" "panics_in I N (failS e)" "panics_in I N (getS f)" "panics_in I N (guardS b e)"
  "panics_in I N (modifyS g)" "(\<And>p. r = Panic p \<Longrightarrow> p \<in> N) \<Longrightarrow> panics_in I N (liftO r)"
  "p \<in> N \<Longrightarrow> panics_in I N (panicS p)"
  by (auto simp: panics_in_def proc_defs)

lemma panics_in_cases [panic_rules]:
  "(b \<Longrightarrow> panics_in I N m) \<Longrightarrow> (\<not> b \<Longrightarrow> panics_in I N k) \<Longrightarrow> panics_in I N (if b then m else k)"
  "(x = None \<Longrightarrow> panics_in I N m) \<Longrightarrow> (\<And>y. x = Some y \<Longrightarrow> panics_in I N (g y)) \<Longrightarrow>
     panics_in I N (case x of None \<Rightarrow> m | Some y \<Rightarrow> g y)"
  "(\<And>a b. y = (a, b) \<Longrightarrow> panics_in I N (h a b)) \<Longrightarrow> panics_in I N (case y of (a, b) \<Rightarrow> h a b)"
  by (auto split: option.splits prod.splits)

lemma panics_in_auth_provider [panic_rules]:
  "(\<And>t. y = AuthProviderToken t \<Longrightarrow> panics_in I N (f t)) \<Longrightarrow>
   (\<And>k. y = AuthProviderTrustedKey k \<Longrightarrow> panics_in I N (g k)) \<Longrightarrow>
   panics_in I N (case y of AuthProviderToken t \<Rightarrow> f t | AuthProviderTrustedKey k \<Rightarrow> g k)"
  by (cases y) auto

lemma preserves_auth_provider:
  "(\<And>t. y = AuthProviderToken t \<Longrightarrow> preserves I (f t)) \<Longrightarrow>
   (\<And>k. y = AuthProviderTrustedKey k \<Longrightarrow> preserves I (g k)) \<Longrightarrow>
   preserves I (case y of AuthProviderToken t \<Rightarrow> f t | AuthProviderTrustedKey k \<Rightarrow> g k)"
  by (cases y) auto

lemma panics_in_mapS [panic_rules]:
  assumes "\<And>x. x \<in> set xs \<Longrightarrow> panics_in I N (f x)" "\<And>x. preserves I (f x)"
  shows "panics_in I N (mapS f xs)"
  using assms(1) by (induction xs) (auto intro!: panics_in_bindS panic_rules pres_rules assms(2))

lemma panics_in_zoomS:
  "panics_in J N m \<Longrightarrow> (\<And>s. I s \<Longrightarrow> J (get s)) \<Longrightarrow> panics_in I N (zoomS get upd m)"
  by (auto simp: panics_in_def zoomS_def split: prod.splits)

lemma panics_in_localS: "(\<And>p t. m c = (Panic p, t) \<Longrightarrow> p \<in> N) \<Longrightarrow> panics_in I N (localS m c)"
  by (auto simp: panics_in_def localS_def split: prod.splits outcome.splits)

lemma panics_in_common:
  "panics_in J N m \<Longrightarrow> panics_in (\<lambda>s. J (isg_common s)) N (on_common m)"
  "panics_in J N m \<Longrightarrow> panics_in (\<lambda>s. J (rsg_common s)) N (on_responder_common m)"
  unfolding on_common_def on_responder_common_def by (erule panics_in_zoomS; simp)+

lemma panics_in_on_sig:
  assumes "panics_in (\<lambda>i. I (SignalingInitiator i)) N f" "panics_in (\<lambda>p. I (SignalingResponder p)) N g"
  shows "panics_in I N (on_sig f g)"
  using assms by (auto simp: panics_in_def on_sig_def split: signaling.splits prod.splits)

section \<open>Panics of the parameters\<close>

text \<open>
  Serializing a message is an \<open>expect\<close> in the source, and the task is code of the user.
\<close>

definition env_panics :: "('t, 'v, 'z) env_scheme \<Rightarrow> string set" where
  "env_panics E = insert ''Serialization failed'' {p. \<exists>t d. fst (task_init E t d) = Panic p}"

text \<open>A decoded \<open>server-auth\<close> message holds signed keys of the type's length.\<close>

definition signed_keys_laws :: "('t, 'v, 'z) env_scheme \<Rightarrow> bool" where
  "signed_keys_laws E \<longleftrightarrow> (\<forall>bs msg keys. rmps_from_slice_message E bs = Inr (ServerAuth msg) \<longrightarrow>
     sa_signed_keys msg = Some keys \<longrightarrow> signed_keys_wf keys)"

lemma bindO_eq_Panic_iff: "bindO m k = Panic p \<longleftrightarrow> m = Panic p \<or> (\<exists>x. m = Ok x \<and> k x = Panic p)"
  by (cases m) auto

lemma proposed_tasks_no_panic: "proposed_tasks msg \<noteq> Panic p"
proof -
  have "check_task_data msg ts \<noteq> Panic p" for ts by (induction ts) auto
  then show ?thesis by (auto simp: proposed_tasks_def bindO_eq_Panic_iff split: option.splits)
qed

lemma seal_panics:
  "open_box_encode E ob = Panic p \<Longrightarrow> p \<in> env_panics E"
  "open_box_encrypt E ob kp k = Panic p \<Longrightarrow> p \<in> env_panics E"
  "open_box_encrypt_token E ob tok = Panic p \<Longrightarrow> p \<in> env_panics E"
  by (auto simp: box_defs message_to_msgpack_def env_panics_def bindO_eq_Panic_iff split: sum.splits)

lemma init_task_panics: "init_task E t d = Panic p \<Longrightarrow> p \<in> env_panics E"
  by (auto simp: init_task_def env_panics_def split: prod.splits outcome.splits) (metis fst_conv)

lemma draws_panics: "draws m \<Longrightarrow> panics_in I N (with_entropy m)"
  unfolding with_entropy_def
  by (rule panics_in_zoomS [where J = "\<lambda>_. True"]) (auto simp: panics_in_def draws_def, metis Pair_inject outcome.distinct(3))

lemma draws_responder_context: "random_laws L \<Longrightarrow> draws (responder_context_new L a n)"
  unfolding responder_context_new_def new_csn_pair_def new_cookie_pair_def new_key_pair_def
  by (auto intro!: draws_rules draws_basic)

section \<open>Methods on the common state\<close>

definition identified :: "'t common \<Rightarrow> bool" where
  "identified c \<longleftrightarrow> client_identity_ok (cm_identity c)"

definition greeted :: "'t common \<Rightarrow> bool" where
  "greeted c \<longleftrightarrow> identified c \<and> cookie_theirs (sc_cookie_pair (cm_server c)) \<noteq> None"

interpretation identified: common_frame identified
  by unfold_locales (simp_all add: identified_def)

interpretation greeted: common_frame greeted
  by unfold_locales (simp_all add: greeted_def identified_def)

lemma server_nonce_panics: "panics_in identified N server_nonce"
  using next_nonce_no_panic [of _ IdServer]
  by (fastforce simp: panics_in_def server_nonce_def zoomS_def identified_def split: prod.splits)

lemma send_client_hello_panics: "panics_in identified (env_panics E) (send_client_hello E)"
  unfolding send_client_hello_def
  by (intro panic_rules panics_in_bindS server_nonce_panics identified.keeps_basic) (rule seal_panics)

lemma send_client_auth_panics: "panics_in greeted (env_panics E) (send_client_auth E)"
  unfolding send_client_auth_def
  by (intro panic_rules panics_in_bindS panics_in_weaken [OF server_nonce_panics] greeted.keeps_basic)
    (auto simp: greeted_def intro: seal_panics)

lemma send_drop_responder_panics: "panics_in identified (env_panics E) (send_drop_responder E a r)"
  unfolding send_drop_responder_def
  by (intro panic_rules panics_in_bindS server_nonce_panics identified.keeps_basic) (auto intro: seal_panics)

lemma handle_server_hello_panics: "panics_in greeted (env_panics E) (handle_server_hello E key)"
proof -
  have "panics_in greeted (env_panics E) (send_client_hello E)"
    by (rule panics_in_weaken [OF send_client_hello_panics]) (simp_all add: greeted_def)
  then show ?thesis
    unfolding handle_server_hello_def set_server_handshake_state_def
    by (intro panic_rules panics_in_bindS panics_in_thenS send_client_auth_panics greeted.keeps_basic
        greeted.keeps_send_client_hello greeted.keeps_send_client_auth)
      (simp_all add: greeted_def identified_def)
qed

section \<open>Methods of the initiator\<close>

abbreviation initiator_identified :: "'t initiator_signaling \<Rightarrow> bool" where
  "initiator_identified s \<equiv> identified (isg_common s)"

lemmas initiator_panics = panic_rules panics_in_common(1) send_drop_responder_panics
lemmas initiator_keeps = identified.keeps_basic preserves_auth_provider identified.keeps_send_drop_responder

lemma drop_oldest_panics:
  "panics_in initiator_identified (env_panics E) (drop_oldest_inactive_responder E)"
  unfolding drop_oldest_inactive_responder_def
  by (intro initiator_panics panics_in_bindS panics_in_thenS initiator_keeps) simp_all

lemma process_new_responder_panics:
  assumes "random_laws E"
  shows "panics_in initiator_identified (env_panics E) (process_new_responder E a)"
proof -
  have "panics_in initiator_identified (env_panics E)
      (zoomS isg_responder_counter isg_responder_counter_update responder_counter_increment)"
    by (rule panics_in_zoomS [where J = "\<lambda>_. True"])
      (auto simp: panics_in_def responder_counter_increment_def split: option.splits)
  then show ?thesis
    unfolding process_new_responder_def
    by (intro initiator_panics panics_in_bindS panics_in_thenS initiator_keeps drop_oldest_panics
        draws_panics draws_responder_context assms) simp_all
qed

lemma initiator_server_auth_panics:
  assumes "random_laws E"
  shows "panics_in initiator_identified (env_panics E) (initiator_handle_server_auth_impl E msg)"
  unfolding initiator_handle_server_auth_impl_def Let_def
  by (intro initiator_panics panics_in_bindS panics_in_thenS initiator_keeps
      identified.keeps_process_new_responder process_new_responder_panics assms) simp

lemma initiator_new_responder_panics:
  assumes "random_laws E"
  shows "panics_in initiator_identified (env_panics E) (initiator_handle_new_responder E i)"
  unfolding initiator_handle_new_responder_def
  by (intro initiator_panics panics_in_bindS panics_in_thenS initiator_keeps
      identified.keeps_process_new_responder process_new_responder_panics assms)

text \<open>Methods that use the contexts of the responders need their addresses.\<close>

definition initiator_addressed :: "'t initiator_signaling \<Rightarrow> bool" where
  "initiator_addressed s \<longleftrightarrow> initiator_identified s \<and>
     (\<forall>a r. hm_get (isg_responders s) a = Some r \<longrightarrow> is_responder (rc_address r))"

lemma next_nonce_panics:
  assumes "client_identity_ok src" "\<And>a. dst = IdResponder a \<Longrightarrow> is_responder a"
  shows "panics_in I N (zoomS get upd (next_nonce src dst ck))"
  by (rule panics_in_zoomS [where J = "\<lambda>_. True"]) (auto simp: panics_in_def next_nonce_no_panic [OF assms])

lemma encode_for_peer_panics:
  assumes "client_identity_ok src" "\<And>n kp k p. seal n kp k = Panic p \<Longrightarrow> p \<in> N"
  shows "panics_in (\<lambda>peer. \<forall>a. peer_identity peer = IdResponder a \<longrightarrow> is_responder a) N (encode_for_peer seal src)"
proof (rule panics_inI)
  fix peer p t
  assume peer: "\<forall>a. peer_identity peer = IdResponder a \<longrightarrow> is_responder a"
    and panic: "encode_for_peer seal src peer = (Panic p, t)"
  have "panics_in (\<lambda>_. True) N (bindS (zoomS peer_csn_pair peer_csn_pair_update
              (next_nonce src (peer_identity peer) (peer_cookie_pair peer))) (\<lambda>nonce.
     bindS (liftO (ok_or (SigCrash m_no_session_keypair) (peer_keypair peer))) (\<lambda>keypair.
     bindS (liftO (ok_or (SigCrash m_no_peer_session_key) (peer_session_key peer))) (\<lambda>session_key.
       liftO (seal nonce keypair session_key)))))"
    using assms peer
    by (intro panic_rules panics_in_bindS next_nonce_panics) (auto simp: preserves_def)
  with panic show "p \<in> N" unfolding encode_for_peer_def panics_in_def by blast
qed

lemma responder_key_exchange_panics:
  assumes "client_identity_ok src"
  shows "panics_in (\<lambda>r. is_responder (rc_address r)) (env_panics E) (responder_key_exchange E src kp key)"
  unfolding responder_key_exchange_def set_responder_handshake_state_def
  using assms
  by (intro panic_rules panics_in_bindS panics_in_thenS next_nonce_panics pres_rules)
    (auto intro: seal_panics)

lemma initiator_auth_reply_panics:
  assumes "client_identity_ok src"
  shows "panics_in (\<lambda>_. True) (env_panics E) (initiator_auth_reply E src t)"
proof -
  have "panics_in (\<lambda>_. True) (env_panics E) (zoomS rc_csn_pair rc_csn_pair_update (next_nonce_to src a ck))" for a ck
    using assms
    by (intro panics_in_zoomS [where J = "\<lambda>_. True"], cases src)
      (auto simp: panics_in_def next_nonce_to_def increment_ours_def proc_defs zoomS_def increment_no_panic
        is_responder_iff byte_gt_1_iff split: prod.splits outcome.splits if_splits)
  then show ?thesis
    unfolding initiator_auth_reply_def set_responder_handshake_state_def
    by (intro panic_rules panics_in_bindS panics_in_thenS pres_rules)
      (auto simp: initiator_auth_build_def initiator_auth_set_task_def initiator_auth_new_def intro: seal_panics)
qed

lemma no_shared_task_panics:
  assumes "is_responder (rc_address r)"
  shows "panics_in initiator_identified (env_panics E) (no_shared_task E r)"
  unfolding no_shared_task_def
proof (rule panics_in_get)
  fix s assume "initiator_identified s"
  then have src: "client_identity_ok (cm_identity (isg_common s))" by (simp add: identified_def)
  have "p \<in> env_panics E" if "fst (encode_close_for_peer E CodeNoSharedTask (cm_identity (isg_common s)) (PeerResponder r)) = Panic p" for p
    using that panics_inD [OF encode_for_peer_panics [OF src seal_panics(2)], where s = "PeerResponder r"] assms
    unfolding encode_close_for_peer_def by (cases "encode_for_peer (\<lambda>nonce. open_box_encrypt E
      (open_box_new (close_from_close_code CodeNoSharedTask) nonce)) (cm_identity (isg_common s)) (PeerResponder r)") simp
  then show "panics_in initiator_identified (env_panics E)
      (case fst (encode_close_for_peer E CodeNoSharedTask (cm_identity (isg_common s)) (PeerResponder r)) of
         Ok bbox \<Rightarrow> returnS [Reply bbox, HandshakeError SaltyNoSharedTask]
       | Err e \<Rightarrow> returnS [HandshakeError SaltyNoSharedTask] | Panic p \<Rightarrow> panicS p)"
    by (auto intro: panic_rules split: outcome.splits)
qed

lemma set_task_state_panics:
  "panics_in identified N (set_signaling_state TaskState)" "preserves identified (set_signaling_state TaskState)"
  by (auto simp: panics_in_def preserves_def set_signaling_state_def identified_def)

lemma take_tasks_panics: "panics_in identified N take_tasks" "preserves identified take_tasks"
  unfolding take_tasks_def by (intro panic_rules panics_in_thenS pres_rules; simp add: identified_def)+

lemma drop_other_responders_panics: "panics_in initiator_identified (env_panics E) (drop_other_responders E)"
  unfolding drop_other_responders_def
  by (intro initiator_panics panics_in_bindS panics_in_thenS initiator_keeps) simp

lemma initiator_finish_auth_panics:
  "panics_in initiator_identified (env_panics E) (initiator_finish_auth E r t drops)"
proof -
  have reply: "panics_in initiator_identified (env_panics E) (localS (initiator_auth_reply E src t) r)"
    if "client_identity_ok src" for src
    using panics_inD [OF initiator_auth_reply_panics [OF that] TrueI] by (intro panics_in_localS)
  show ?thesis
    unfolding initiator_finish_auth_def store_task_def
    by (intro initiator_panics panics_in_bindS panics_in_thenS initiator_keeps reply set_task_state_panics)
      (simp_all add: identified_def)
qed

lemma initiator_handle_auth_panics:
  "panics_in initiator_addressed (env_panics E) (initiator_handle_auth E msg a)"
  unfolding initiator_handle_auth_def
proof (rule panics_in_get, rule panics_in_value, goal_cases)
  case (2 s r)
  then have r: "is_responder (rc_address r)" by (auto simp: initiator_addressed_def split: option.splits)
  show ?case
    unfolding validate_repeated_cookie_def
    by (rule panics_in_weaken [where I = initiator_identified, OF _ _ subset_refl],
        intro initiator_panics panics_in_bindS panics_in_thenS initiator_keeps no_shared_task_panics [OF r]
          initiator_finish_auth_panics identified.keeps_drop_other_responders take_tasks_panics
          drop_other_responders_panics)
      (auto simp: initiator_addressed_def proposed_tasks_no_panic intro: init_task_panics)
qed simp

lemma at_responder_panics:
  assumes "panics_in (\<lambda>r. is_responder (rc_address r)) N m"
  shows "panics_in initiator_addressed N (at_responder a m)"
  using assms
  by (auto simp: panics_in_def at_responder_def initiator_addressed_def split: option.splits prod.splits)

lemma initiator_handle_key_panics: "panics_in initiator_addressed (env_panics E) (initiator_handle_key E key a)"
  unfolding initiator_handle_key_def
  by (rule panics_in_get)
    (auto simp: initiator_addressed_def identified_def intro!: at_responder_panics responder_key_exchange_panics)

lemma initiator_handle_token_panics: "panics_in I N (initiator_handle_token key a)"
  by (auto simp: panics_in_def initiator_handle_token_def at_responder_def set_responder_handshake_state_def
      on_common_def proc_defs zoomS_def split: option.splits if_splits)

lemma initiator_peer_message_panics:
  "panics_in initiator_addressed (env_panics E) (initiator_handle_peer_message E obox)"
  unfolding initiator_handle_peer_message_def Let_def
  by (intro panic_rules)
    (auto split: responder_handshake_state.split message.split
      intro: panic_rules initiator_handle_token_panics initiator_handle_key_panics initiator_handle_auth_panics)

section \<open>Methods of the responder\<close>

abbreviation responder_identified :: "'t responder_signaling \<Rightarrow> bool" where
  "responder_identified s \<equiv> identified (rsg_common s)"

lemma initiator_nonce_panics: "panics_in responder_identified N initiator_nonce"
  using next_nonce_no_panic [of _ IdInitiator]
  by (fastforce simp: panics_in_def initiator_nonce_def zoomS_def identified_def split: prod.splits)

lemmas responder_panics = panic_rules panics_in_common(2) initiator_nonce_panics

lemma send_panics:
  "panics_in responder_identified (env_panics E) (send_token E t)"
  "panics_in responder_identified (env_panics E) (send_key E)"
  unfolding send_token_def send_key_def
  by (intro responder_panics panics_in_bindS initiator_keeps; rule seal_panics; assumption)+

lemma send_token_and_key_panics: "panics_in responder_identified (env_panics E) (send_token_and_key E)"
  unfolding send_token_and_key_def
  by (intro responder_panics panics_in_bindS panics_in_thenS initiator_keeps send_panics
      identified.keeps_send_token identified.keeps_send_key) (simp_all add: identified_def)

lemma responder_server_auth_panics:
  "panics_in responder_identified (env_panics E) (responder_handle_server_auth_impl E msg)"
  unfolding responder_handle_server_auth_impl_def set_initiator_handshake_state_def
  by (rule panics_in_check, cases "sa_initiator_connected msg")
    (auto intro!: responder_panics panics_in_bindS panics_in_thenS initiator_keeps send_token_and_key_panics
      identified.keeps_send_token_and_key split: bool.split)

lemma responder_new_initiator_panics:
  assumes "random_laws E"
  shows "panics_in responder_identified (env_panics E) (responder_handle_new_initiator E)"
  unfolding responder_handle_new_initiator_def set_initiator_handshake_state_def
  by (intro responder_panics panics_in_bindS panics_in_thenS initiator_keeps send_token_and_key_panics
      identified.keeps_send_token_and_key draws_panics draws_random assms) simp_all

lemma responder_auth_no_panic:
  "bindO (responder_auth_add_tasks E ts (responder_auth_new c)) responder_auth_build \<noteq> Panic p"
proof -
  from responder_auth_add_tasks_Ok [of "responder_auth_new c" "[]" E ts] obtain b where
    "responder_auth_add_tasks E ts (responder_auth_new c) = Ok b" "au_task b = None" "au_tasks b = Some (map (task_name E) ts)"
    by (auto simp: responder_auth_new_def)
  then show ?thesis by (simp add: responder_auth_build_def)
qed

lemma responder_handle_key_panics: "panics_in responder_identified (env_panics E) (responder_handle_key E key n)"
  unfolding responder_handle_key_def set_initiator_handshake_state_def
  by (intro responder_panics panics_in_bindS panics_in_thenS initiator_keeps)
    (auto simp: responder_auth_no_panic intro: seal_panics)

lemma responder_handle_auth_panics: "panics_in responder_identified (env_panics E) (responder_handle_auth E msg a)"
  unfolding responder_handle_auth_def set_initiator_handshake_state_def store_task_def validate_repeated_cookie_def
  by (intro responder_panics panics_in_bindS panics_in_thenS initiator_keeps take_tasks_panics set_task_state_panics)
    (auto simp: identified_def intro: init_task_panics)

lemma responder_peer_message_panics:
  "panics_in responder_identified (env_panics E) (responder_handle_peer_message E obox)"
  unfolding responder_handle_peer_message_def responder_handle_peer_handshake_close_def
  by (rule panics_in_get)
    (auto split: initiator_handshake_state.split message.split close_code.split
      intro: panic_rules responder_handle_key_panics responder_handle_auth_panics)

section \<open>Validation\<close>

abbreviation valid_state :: "public_key \<Rightarrow> 't signaling \<Rightarrow> bool" where
  "valid_state key s \<equiv> phase_ok (sig_common s) \<and> role_inv key s"

lemma valid_state_identified: "valid_state key s \<Longrightarrow> identified (sig_common s)"
  by (simp add: phase_ok_def identified_def)

lemma panics_in_common_sig:
  assumes "panics_in J N f" "panics_in J N g"
  shows "panics_in (\<lambda>s. J (sig_common s)) N (on_sig (on_common f) (on_responder_common g))"
  using assms by (intro panics_in_on_sig) (simp_all add: panics_in_common)

lemma validate_destination_panics:
  "panics_in (\<lambda>s. identified (sig_common s)) N (validate_nonce_destination n)"
proof -
  have check: "panics_in identified N (check_destination n)"
    unfolding check_destination_def
    by (intro panic_rules) (auto simp: identified_def is_responder_iff byte_gt_1_iff elim!: address_from_client_identity.elims split: if_splits)
  show ?thesis
    unfolding validate_nonce_destination_def initiator_validate_nonce_destination_def
      responder_validate_nonce_destination_def
    by (intro panics_in_common_sig panic_rules panics_in_thenS pres_rules check) (simp_all add: identified_def)
qed

lemma validate_source_panics: "panics_in (\<lambda>s. identified (sig_common s)) N (validate_nonce_source n)"
  unfolding validate_nonce_source_def initiator_validate_nonce_source_def responder_validate_nonce_source_def
  by (intro panics_in_common_sig panic_rules)

lemma with_sender_panics:
  assumes "\<And>q. fst (m q) \<noteq> Panic p"
  shows "valid_state key s \<Longrightarrow> with_sender n m s \<noteq> (Panic p, t)"
proof -
  assume "valid_state key s"
  then have "get_peer_with_address s a \<noteq> (Panic x :: (validation_error, _) outcome)" for a x
    by (cases s; cases a rule: address_cases)
      (auto simp: initiator_get_peer_with_address_def responder_get_peer_with_address_def initiator_inv_def choice_ok_def
        chosen_ok_def is_responder_iff byte_gt_1_iff bindO_eq_Panic_iff split: option.splits identity.splits)
  with assms show ?thesis
    by (auto simp: with_sender_def split: outcome.splits option.splits prod.splits) (metis fst_conv)+
qed

lemma validate_nonce_panics: "panics_in (valid_state key) N (validate_nonce n)"
proof -
  have parts: "panics_in (valid_state key) N (validate_nonce_csn n)" "panics_in (valid_state key) N (validate_nonce_cookie n)"
    unfolding validate_nonce_csn_def validate_nonce_cookie_def panics_in_def zoomS_def
    using check_no_panic by (auto dest!: with_sender_panics [THEN notE, rotated -1] split: prod.splits)
  show ?thesis
    unfolding validate_nonce_def
    by (intro panics_in_thenS preserves_conj phase.keeps_validate_nonce_destination phase.keeps_validate_nonce_source
        phase.keeps_validate_nonce_csn role_inv_validate parts
        panics_in_weaken [OF validate_destination_panics valid_state_identified subset_refl]
        panics_in_weaken [OF validate_source_panics valid_state_identified subset_refl])
qed

section \<open>Messages of the server\<close>

abbreviation sodium_laws :: "('t, 'v, 'z) env_scheme \<Rightarrow> bool" where
  "sodium_laws E \<equiv> random_laws E \<and> from_slice_laws E \<and> box_open_length E"

abbreviation sig_identified :: "'t signaling \<Rightarrow> bool" where
  "sig_identified s \<equiv> identified (sig_common s)"

definition signed_ok :: "server_auth \<Rightarrow> bool" where
  "signed_ok msg \<longleftrightarrow> (\<forall>keys. sa_signed_keys msg = Some keys \<longrightarrow> signed_keys_wf keys)"

lemma server_auth_checks_panics:
  assumes "sodium_laws E" "signed_ok msg"
  shows "panics_in I N (server_auth_checks E msg n)"
proof -
  have "check_signed_keys E msg n c \<noteq> Panic p" for c p
    using signed_keys_decrypt_no_panic [of E] assms
    by (auto simp: check_signed_keys_def bindO_eq_Panic_iff signed_ok_def split: option.splits)
      (metis is_panic.simps(3))
  then show ?thesis
    unfolding server_auth_checks_def validate_repeated_cookie_def by (intro panic_rules) simp
qed

lemma handle_server_auth_panics:
  assumes "sodium_laws E" "signed_ok msg"
  shows "panics_in sig_identified (env_panics E) (handle_server_auth E msg n)"
proof -
  have "panics_in sig_identified (env_panics E)
      (on_sig (initiator_handle_server_auth_impl E msg) (responder_handle_server_auth_impl E msg))"
    using assms(1) by (auto intro!: panics_in_on_sig initiator_server_auth_panics responder_server_auth_panics)
  moreover have "panics_in sig_identified (env_panics E) (on_sig_common (server_auth_checks E msg n))"
    unfolding on_sig_common_def by (intro panics_in_common_sig server_auth_checks_panics assms)
  moreover have "panics_in sig_identified (env_panics E) (on_sig_common server_handshake_completed)"
    unfolding on_sig_common_def
    by (intro panics_in_common_sig)
      (auto simp: panics_in_def server_handshake_completed_def set_server_handshake_state_def set_signaling_state_def
        proc_defs split: if_splits)
  moreover have "preserves sig_identified (on_sig_common (server_auth_checks E msg n))"
    by (intro preserves_on_sig_common) (simp add: preserves_def server_auth_checks_pure)
  moreover have "preserves sig_identified (on_sig (initiator_handle_server_auth_impl E msg) (responder_handle_server_auth_impl E msg))"
    using identified.keeps_initiator_server_auth_impl identified.keeps_responder_server_auth_impl
    by (intro preserves_on_sig) simp_all
  moreover have "preserves sig_identified (on_sig_common server_handshake_completed)"
    by (intro preserves_on_sig_common)
      (auto simp: preserves_def server_handshake_completed_def set_server_handshake_state_def set_signaling_state_def
        proc_defs identified_def)
  ultimately show ?thesis
    unfolding handle_server_auth_def by (intro panics_in_thenS panics_in_bindS panic_rules)
qed

lemma handle_server_message_panics:
  assumes laws: "sodium_laws E" and s: "greeted (sig_common s)"
    and signed: "\<And>msg. ob_message obox = ServerAuth msg \<Longrightarrow> signed_ok msg"
    and panic: "handle_server_message E obox n s = (Panic p, t)"
  shows "p \<in> env_panics E \<or> p = m_drop_responder_unimplemented \<and>
    sc_handshake_state (cm_server (sig_common s)) = ServerDone \<and> (\<exists>m. ob_message obox = DropResponder m)"
proof -
  have id: "sig_identified s" using s by (simp add: greeted_def)
  have hello: "p \<in> env_panics E" if "on_sig_common (handle_server_hello E key) s = (Panic p, t)" for key
    using panics_inD [OF panics_in_common_sig [OF handle_server_hello_panics handle_server_hello_panics] s] that
    unfolding on_sig_common_def .
  have init: "p \<in> env_panics E" if "on_sig initiator_handle_new_initiator (responder_handle_new_initiator E) s = (Panic p, t)"
    using laws by (intro panics_inD [OF panics_in_on_sig [where I = sig_identified] id that])
      (auto simp: initiator_handle_new_initiator_def intro!: panic_rules responder_new_initiator_panics)
  have resp: "p \<in> env_panics E"
    if "on_sig (initiator_handle_new_responder E i) (responder_handle_new_responder i) s = (Panic p, t)" for i
    using laws by (intro panics_inD [OF panics_in_on_sig [where I = sig_identified] id that])
      (auto simp: responder_handle_new_responder_def intro!: panic_rules initiator_new_responder_panics)
  have gone: "p \<in> env_panics E"
    if "on_sig (initiator_handle_disconnected i) (responder_handle_disconnected i) s = (Panic p, t)" for i
    by (intro panics_inD [OF panics_in_on_sig [where I = sig_identified] id that])
      (auto simp: initiator_handle_disconnected_def responder_handle_disconnected_def intro!: panic_rules)
  have auth: "p \<in> env_panics E" if "ob_message obox = ServerAuth msg" "handle_server_auth E msg n s = (Panic p, t)" for msg
    by (rule panics_inD [OF handle_server_auth_panics [OF laws signed] id]) (use that in auto)
  show ?thesis
    using panic hello init resp gone auth
    by (auto simp: handle_server_message_def bindS_def getS_def handle_send_error_def failS_def panicS_def
        split: server_handshake_state.splits message.splits)
qed

section \<open>All messages\<close>

lemma message_from_msgpack_Ok_iff: "message_from_msgpack E bs = Ok m \<longleftrightarrow> rmps_from_slice_message E bs = Inr m"
  by (simp add: message_from_msgpack_def split: sum.split)

lemma decoded_signed_ok:
  assumes "decode_server_message E c bbox = Ok obox" "signed_keys_laws E" "ob_message obox = ServerAuth msg"
  shows "signed_ok msg"
  using assms
  by (auto simp: decode_server_message_def box_defs message_from_msgpack_Ok_iff bindO_eq_Ok_iff
      signed_keys_laws_def signed_ok_def split: if_splits option.splits)

lemma box_not_panic:
  "open_box_decode E b \<noteq> Panic p" "open_box_decrypt E b kp k \<noteq> Panic p"
  "open_box_decrypt_token E b tok \<noteq> Panic p" "value_box_decrypt E b kp k \<noteq> Panic p"
  by (metis open_box_no_panic is_panic.simps(3))+

lemma decode_no_panic: "decode_server_message E c bbox \<noteq> Panic p" "decode_task_message E bbox s \<noteq> Panic p"
  "decode_peer_message E bbox s \<noteq> Panic p"
proof -
  show "decode_server_message E c bbox \<noteq> Panic p" "decode_task_message E bbox s \<noteq> Panic p"
    by (auto simp: decode_server_message_def decode_task_message_def bindO_eq_Panic_iff box_not_panic split: option.split)
  show "decode_peer_message E bbox s \<noteq> Panic p"
    by (cases s)
      (auto simp: initiator_decode_peer_message_def responder_decode_peer_message_def bindO_eq_Panic_iff box_not_panic
        Let_def split: option.split responder_handshake_state.split initiator_handshake_state.split auth_provider.split)
qed

lemma interpret_no_panic: "interpret_task_message E types v \<noteq> Panic p"
proof -
  have "task_message_map E kvs m \<noteq> Panic p" for kvs m
    by (induction E kvs m rule: task_message_map.induct) (auto split: option.splits)
  then show ?thesis
    by (auto simp: interpret_task_message_def bindO_eq_Panic_iff split: option.splits if_splits)
qed

lemma decode_peer_nonce: "decode_peer_message E bbox s = Ok obox \<Longrightarrow> ob_nonce obox = bb_nonce bbox"
  by (cases s) (auto simp: initiator_decode_nonce responder_decode_peer_message_def box_defs bindO_eq_Ok_iff
      split: if_splits option.splits initiator_handshake_state.splits)

lemma valid_state_addressed: "valid_state key (SignalingInitiator i) \<Longrightarrow> initiator_addressed i"
  by (auto simp: initiator_addressed_def initiator_inv_def responders_ok_def listed_ok_def phase_ok_def identified_def)

lemma handshake_message_panics:
  "panics_in (valid_state key) (env_panics E) (handle_handshake_peer_message E bbox)"
  unfolding handle_handshake_peer_message_def
proof (rule panics_in_check, rule panics_in_get, goal_cases)
  case (1 s)
  have peer: "panics_in (valid_state key) (env_panics E)
      (on_sig (initiator_handle_peer_message E obox) (responder_handle_peer_message E obox))" for obox
    by (intro panics_in_on_sig panics_in_weaken [OF initiator_peer_message_panics valid_state_addressed subset_refl]
        panics_in_weaken [OF responder_peer_message_panics _ subset_refl]) (auto simp: phase_ok_def identified_def)
  have drop: "panics_in (valid_state key) (env_panics E) (on_sig_common (send_drop_responder E a r))" for a r
    unfolding on_sig_common_def
    by (rule panics_in_weaken [OF panics_in_common_sig [OF send_drop_responder_panics send_drop_responder_panics]
          valid_state_identified subset_refl])
  show ?case
  proof (cases "decode_peer_message E bbox s")
    case (Ok obox)
    with 1 decode_peer_nonce [OF Ok] show ?thesis
      by (auto intro!: panics_in_get panic_rules peer split: signaling_state.split)
  next
    case (Err e)
    then show ?thesis
      by (auto intro!: panics_in_bindS panic_rules drop preserves_conj role_inv_send_drop preserves_on_sig_common
          phase.keeps_send_drop_responder)
  qed (simp add: decode_no_panic)
qed

lemma task_message_panics: "panics_in I N (handle_task_peer_message E bbox)"
  unfolding handle_task_peer_message_def
  by (intro panic_rules) (simp_all add: decode_no_panic interpret_no_panic)

lemma dispatch_panics:
  assumes laws: "sodium_laws E" "signed_keys_laws E" and s: "valid_state key s"
    and cookie: "is_server (nonce_source (bb_nonce bbox)) \<Longrightarrow> cookie_theirs (sc_cookie_pair (cm_server (sig_common s))) \<noteq> None"
    and panic: "dispatch_message E bbox s = (Panic p, t)"
  shows "p \<in> env_panics E \<or> p = m_drop_responder_unimplemented \<and> is_server (nonce_source (bb_nonce bbox)) \<and>
    sc_handshake_state (cm_server (sig_common s)) = ServerDone \<and>
    (\<exists>obox m. decode_server_message E (sig_common s) bbox = Ok obox \<and> ob_message obox = DropResponder m)"
proof (cases "is_server (nonce_source (bb_nonce bbox))")
  case True
  with cookie valid_state_identified [OF s] have greeted: "greeted (sig_common s)" by (simp add: greeted_def)
  show ?thesis
  proof (cases "decode_server_message E (sig_common s) bbox")
    case (Ok obox)
    have "handle_server_message E obox (if get_type (ob_message obox) = ''server-auth'' then Some (bb_nonce bbox) else None) s = (Panic p, t)"
      using panic True Ok by (simp add: dispatch_message_def proc_defs)
    from handle_server_message_panics [OF laws(1) greeted decoded_signed_ok [OF Ok laws(2)] this] True Ok
    show ?thesis by blast
  qed (use panic True in \<open>simp_all add: dispatch_message_def proc_defs decode_no_panic\<close>)
next
  case False
  then show ?thesis
    using panic panics_inD [OF handshake_message_panics s] panics_inD [OF task_message_panics TrueI]
    by (auto simp: dispatch_message_def bindS_def getS_def split: signaling_state.splits)
qed

text \<open>
  C14. Panics of \<open>handle_message\<close>. Whatever bytes the server or a peer sends, a call in a state
  that satisfies the invariant panics only in three cases: the server sends a valid
  \<open>drop-responder\<close> message after its handshake (the code has no implementation of that
  message), a message of ours cannot be serialized, or the task of the user panics while it is
  initialized. All other \<open>unwrap\<close>, \<open>expect\<close> and \<open>assert!\<close> calls and conversions of addresses that
  the method reaches succeed. The laws are those of the crypto library and the fixed length of
  decoded signed keys.
\<close>

theorem handle_message_panics:
  assumes "sodium_laws E" "signed_keys_laws E" "sig_inv key s"
    and "handle_message E bbox s = (Panic p, t)"
  shows "(p = m_drop_responder_unimplemented \<and> is_server (nonce_source (bb_nonce bbox)) \<and>
      sc_handshake_state (cm_server (sig_common s)) = ServerDone \<and>
      (\<exists>obox m. decode_server_message E (sig_common s) bbox = Ok obox \<and> ob_message obox = DropResponder m)) \<or>
    p = ''Serialization failed'' \<or> (\<exists>task data. fst (task_init E task data) = Panic p)"
proof -
  have s: "valid_state key s" using assms(3) by (simp add: sig_inv_def)
  have "validate_nonce (bb_nonce bbox) s \<noteq> (Panic x, u)" for x u
    using panics_inD [OF validate_nonce_panics [where N = "{}"] s] by blast
  with assms(4) obtain u where valid: "validate_nonce (bb_nonce bbox) s = (Ok (), u)"
    and panic: "dispatch_message E bbox u = (Panic p, t)"
    by (cases "validate_nonce (bb_nonce bbox) s"; cases "fst (validate_nonce (bb_nonce bbox) s)")
      (auto simp: handle_message_def split: validation_error.splits)
  have u: "valid_state key u"
    using preservesD [OF preserves_conj [OF phase.keeps_validate_nonce role_inv_validate_nonce] s valid] .
  have cookie: "cookie_theirs (sc_cookie_pair (cm_server (sig_common u))) \<noteq> None" if "is_server (nonce_source (bb_nonce bbox))"
  proof -
    from peer_at_validated [OF valid] obtain q where
      "peer_at u (nonce_source (bb_nonce bbox)) = Some (note_nonce (bb_nonce bbox) q)" by auto
    with that have "PeerServer (cm_server (sig_common u)) = note_nonce (bb_nonce bbox) q"
      by (simp add: is_server_def peer_at_server)
    then have "peer_cookie_pair (PeerServer (cm_server (sig_common u))) = peer_cookie_pair (note_nonce (bb_nonce bbox) q)"
      by (rule arg_cong)
    then show ?thesis by simp
  qed
  have "decode_server_message E (sig_common u) bbox = decode_server_message E (sig_common s) bbox"
    by (simp add: decode_server_message_def validated_common [OF valid] split: option.split)
  with dispatch_panics [OF assms(1,2) u cookie panic] validated_common(5) [OF valid]
  show ?thesis by (auto simp: env_panics_def)
qed

lemma scenario_signed_keys_laws: "signed_keys_laws scenario_env"
  unfolding signed_keys_laws_def scenario_env_def sample_env_def sample_libs_def table_from_slice_def
  by (auto simp: signed_keys_wf_def signed_keys_bytes_def scenario_key_def split: if_splits option.splits)

theorem handle_message_panics_witness:
  "\<exists>t. handle_message scenario_env (server_box 1 7 12) (snd initiator_keyed) = (Panic m_drop_responder_unimplemented, t) \<and>
     sc_handshake_state (cm_server (sig_common (snd initiator_keyed))) = ServerDone"
proof -
  let ?r = "handle_message scenario_env (server_box 1 7 12) (snd initiator_keyed)"
  have "fst ?r = Panic m_drop_responder_unimplemented" by code_simp
  then obtain t where t: "?r = (Panic m_drop_responder_unimplemented, t)" by (cases ?r) simp
  have laws: "sodium_laws scenario_env" unfolding scenario_env_def by (simp add: sample_env_laws)
  have "fst (task_init scenario_env task data) \<noteq> Panic p" for task data p
    by (simp add: scenario_env_def sample_env_def sample_libs_def)
  moreover have "m_drop_responder_unimplemented \<noteq> ''Serialization failed''"
    by (simp add: m_drop_responder_unimplemented_def)
  ultimately show ?thesis
    using handle_message_panics [OF laws scenario_signed_keys_laws scenario_states_inv(2) t] t by auto
qed

end
