(* ===== verification/Edge_Cases.thy ===== *)
theory Edge_Cases
  imports Panics
begin

text \<open>
  What the handlers do at the edges: when the path is full, when the token is used up, when the
  initiator reconnects, and what the event at the end of the server handshake says.
\<close>

section \<open>A full path\<close>


lemma process_new_responder_OkD:
  assumes "process_new_responder E a s = (Ok d, s')"
  obtains r t where "rc_address r = a" "rc_counter r = isg_responder_counter s"
    "rc_handshake_state r = (if trusted_key (isg_common s) = None then ResponderNew else ResponderTokenReceived)"
    "isg_responders t = hm_remove a (isg_responders s)" "list_new_responder E a r t = (Ok d, s')"
proof -
  let ?s = "\<lambda>i j. (isg_responders_update (hm_remove a) s)\<lparr>isg_responder_counter := i, isg_common := (isg_common s)\<lparr>cm_entropy := j\<rparr>\<rparr>"
  let ?new = "\<lambda>r. case trusted_key (isg_common s) of None \<Rightarrow> r
    | Some key \<Rightarrow> r\<lparr>rc_permanent_key := Some key, rc_handshake_state := ResponderTokenReceived\<rparr>"
  have provider: "trusted_key (isg_common s) = (case cm_auth_provider (isg_common s) of
      Some (AuthProviderTrustedKey k) \<Rightarrow> Some k | _ \<Rightarrow> None)" by (simp add: trusted_key_def)
  have "\<exists>n i r j. responder_counter_increment (isg_responder_counter s) = (Ok n, i) \<and>
      responder_context_new E a n (cm_entropy (isg_common s)) = (Ok r :: (signaling_error, _) outcome, j) \<and> list_new_responder E a (?new r) (?s i j) = (Ok d, s')"
  proof (cases "cm_auth_provider (isg_common s)")
    case None
    with assms show ?thesis
      unfolding process_new_responder_def list_new_responder_def [symmetric] provider
      by (auto simp: ok_iffs on_common_def with_entropy_def)
  next
    case (Some y)
    with assms show ?thesis
      unfolding process_new_responder_def list_new_responder_def [symmetric] provider
      by (cases y) (auto simp: ok_iffs on_common_def with_entropy_def if_else_proc split: if_splits)
  qed
  then obtain n i r j where n: "responder_counter_increment (isg_responder_counter s) = (Ok n, i)"
    and r: "responder_context_new E a n (cm_entropy (isg_common s)) = (Ok r :: (signaling_error, _) outcome, j)"
    and add: "list_new_responder E a (?new r) (?s i j) = (Ok d, s')" by blast
  from n have "n = isg_responder_counter s" by (auto simp: responder_counter_increment_def split: option.splits)
  with responder_context_new_OkD [OF r] show thesis
    by (intro that [OF _ _ _ _ add]) (simp_all split: option.split)
qed

definition oldest_new :: "(address, responder_context) hashmap \<Rightarrow> address \<Rightarrow> responder_context \<Rightarrow> bool" where
  "oldest_new m b q \<longleftrightarrow> hm_get m b = Some q \<and> rc_handshake_state q = ResponderNew \<and>
     (\<forall>c p. hm_get m c = Some p \<longrightarrow> rc_handshake_state p = ResponderNew \<longrightarrow> rc_counter q \<le> rc_counter p)"

lemma list_new_responder_OkD:
  assumes order: "order_laws E" and run: "list_new_responder E a r t = (Ok d, s')"
    and m: "m = hm_insert a r (isg_responders t)" and at: "\<And>b q. hm_get m b = Some q \<Longrightarrow> rc_address q = b"
  shows "hm_len m \<le> 252 \<or> (\<forall>b q. hm_get m b = Some q \<longrightarrow> rc_handshake_state q \<noteq> ResponderNew) \<Longrightarrow>
      d = None \<and> isg_responders s' = m"
    and "\<not> hm_len m \<le> 252 \<Longrightarrow> rc_handshake_state r = ResponderNew \<Longrightarrow>
      \<exists>b q. oldest_new m b q \<and> isg_responders s' = hm_remove b m \<and> d \<noteq> None"
proof -
  let ?t = "isg_responders_update (hm_insert a r) t"
  have m': "isg_responders ?t = m" using m by simp
  have step: "(if hm_len m > 252 then drop_oldest_inactive_responder E ?t else (Ok None, ?t)) = (Ok d, s')"
    using run unfolding list_new_responder_def by (simp add: proc_defs m if_else_proc split: if_splits)
  show "d = None \<and> isg_responders s' = m"
    if "hm_len m \<le> 252 \<or> (\<forall>b q. hm_get m b = Some q \<longrightarrow> rc_handshake_state q \<noteq> ResponderNew)"
    using that step drop_oldest_none [OF order, of ?t] m' by (auto split: if_splits)
  assume full: "\<not> hm_len m \<le> 252" and r: "rc_handshake_state r = ResponderNew"
  from full step have run': "drop_oldest_inactive_responder E ?t = (Ok d, s')" by simp
  have new: "hm_get (isg_responders ?t) a = Some r" unfolding m' using m by simp
  obtain b q where b: "hm_get (isg_responders ?t) b = Some q" "rc_handshake_state q = ResponderNew"
    "\<And>c p. hm_get (isg_responders ?t) c = Some p \<Longrightarrow> rc_handshake_state p = ResponderNew \<Longrightarrow> rc_counter q \<le> rc_counter p"
    "isg_responders (snd (drop_oldest_inactive_responder E ?t)) = hm_remove b (isg_responders ?t)"
    "drop_oldest_inactive_responder E ?t =
       bindS (on_common (send_drop_responder E b DroppedByInitiator)) (\<lambda>d. returnS (Some d))
         (isg_responders_update (hm_remove b) ?t)"
    by (rule drop_oldest_removes [OF order at [folded m'] new r]) blast+
  have "d \<noteq> None" using run' b(5) by (auto simp: bindS_eq_Ok_iff)
  moreover have "isg_responders s' = hm_remove b m" using run' b(4) m' by simp
  moreover have "oldest_new m b q" using b(1-3) unfolding m' oldest_new_def by blast
  ultimately show "\<exists>b q. oldest_new m b q \<and> isg_responders s' = hm_remove b m \<and> d \<noteq> None" by blast
qed



section \<open>The event at the end of the server handshake\<close>

text \<open>
  C40. When \<open>handle_server_auth\<close> succeeds, its last action is the event \<open>ServerHandshakeDone\<close>. For
  a responder its argument tells whether the initiator is connected already; for an initiator it
  is true exactly if \<^emph>\<open>no\<close> responder is connected.
\<close>

theorem server_handshake_event:
  assumes "handle_server_auth E msg n s = (Ok acts, s')"
  shows "acts \<noteq> [] \<and> last acts = ActionEvent (ServerHandshakeDone (case s of
    SignalingInitiator _ \<Rightarrow> sa_responders msg = Some [] | SignalingResponder _ \<Rightarrow> sa_initiator_connected msg = Some True))"
  using assms
  by (cases s)
    (auto simp: handle_server_auth_def ok_iffs on_sig_common_def on_sig_Ok_iff on_common_def on_responder_common_def
      initiator_handle_server_auth_impl_def responder_handle_server_auth_impl_def Let_def
      split: option.splits bool.splits)

theorem server_handshake_event_witness:
  "\<exists>msg acts s'. sa_responders msg = Some [2] \<and> handle_server_auth scenario_env msg (Some (bb_nonce (server_box 1 6 5)))
      (snd (validate_nonce (bb_nonce (server_box 1 6 5)) (snd initiator_greeted))) = (Ok acts, s') \<and>
    last acts = ActionEvent (ServerHandshakeDone False)"
proof -
  let ?msg = "\<lparr>sa_your_cookie = count_up 1, sa_signed_keys = Some (replicate 16 0 @ scenario_key 4 @ scenario_key 3),
    sa_responders = Some [2], sa_initiator_connected = None\<rparr>"
  let ?s = "snd (validate_nonce (bb_nonce (server_box 1 6 5)) (snd initiator_greeted))"
  let ?r = "handle_server_auth scenario_env ?msg (Some (bb_nonce (server_box 1 6 5))) ?s"
  have "case fst ?r of Ok _ \<Rightarrow> True | _ \<Rightarrow> False" "case ?s of SignalingInitiator _ \<Rightarrow> True | _ \<Rightarrow> False"
    by code_simp+
  then obtain acts s' i where r: "?r = (Ok acts, s')" "?s = SignalingInitiator i"
    by (cases ?r; cases "fst ?r"; cases ?s) auto
  from server_handshake_event [OF r(1)] r show ?thesis by (intro exI [of _ ?msg] exI [of _ acts] exI [of _ s']) simp
qed

section \<open>Used tokens\<close>

text \<open>
  C38. A token serves one handshake. In every state that a session reaches after the token was
  consumed, a responder answers a new initiator with a crash error, and an initiator answers the
  first message of any other responder, whatever it contains, with a crash error.
\<close>

theorem token_used_up:
  assumes "random_laws E" "cm_auth_provider (sig_common s) = None" "session_run E s t"
  shows "(\<forall>p. t = SignalingResponder p \<longrightarrow> fst (responder_handle_new_initiator E p) = Err (SigCrash m_no_auth_provider)) \<and>
    (\<forall>i r bbox. t = SignalingInitiator i \<longrightarrow> is_responder (nonce_source (bb_nonce bbox)) \<longrightarrow>
      hm_get (isg_responders i) (nonce_source (bb_nonce bbox)) = Some r \<longrightarrow> rc_handshake_state r = ResponderNew \<longrightarrow>
      initiator_decode_peer_message E i bbox = Err (SigCrash m_new_without_provider))"
proof -
  have none: "cm_auth_provider (sig_common t) = None"
    using progressing.keeps_run [OF assms(3) progress_refl] assms(2) by (auto simp: progress_def auth_token_of_def)
  have "fst (responder_handle_new_initiator E p) = Err (SigCrash m_no_auth_provider)" if "t = SignalingResponder p" for p
  proof -
    from draws_random(2) [OF assms(1), of "ic_permanent_key (rsg_initiator p)"] obtain c j where
      "initiator_context_new E (ic_permanent_key (rsg_initiator p)) (cm_entropy (rsg_common p)) = (Ok c :: (signaling_error, _) outcome, j)"
      unfolding draws_def by metis
    with none that show ?thesis
      by (simp add: responder_handle_new_initiator_def send_token_and_key_def on_responder_common_def with_entropy_def
          zoomS_def proc_defs)
  qed
  then show ?thesis using none by (auto simp: initiator_decode_peer_message_def Let_def)
qed

text \<open>A responder whose token is used up, waiting for its peer.\<close>

definition tokenless_responder :: "string responder_signaling" where
  "tokenless_responder =
     \<lparr>rsg_common = sample_common RoleResponder PeerHandshake ServerDone (ClientResponder 2) None,
      rsg_initiator = sample_initiator_context\<rparr>"

theorem token_used_up_witness:
  "fst (responder_handle_new_initiator scenario_env tokenless_responder) = Err (SigCrash m_no_auth_provider)"
proof -
  have "random_laws scenario_env" unfolding scenario_env_def by (rule sample_env_laws)
  moreover have "cm_auth_provider (sig_common (SignalingResponder tokenless_responder)) = None"
    by (simp add: tokenless_responder_def sample_common_def)
  ultimately show ?thesis using token_used_up [OF _ _ rtranclp.rtrancl_refl] by blast
qed

section \<open>An initiator that reconnects\<close>

text \<open>
  C39. When the initiator reconnects in the task phase, the responder starts a new peer handshake
  but stays in the task state: the context of the initiator is replaced by one without session
  key, so that no message of the task can be encrypted any more.
\<close>

theorem new_initiator_in_task_state:
  assumes "responder_handle_new_initiator E p = (Ok acts, p')" "cm_signaling_state (rsg_common p) = TaskState"
  shows "cm_signaling_state (rsg_common p') = TaskState \<and> ic_handshake_state (rsg_initiator p') = InitiatorKeySent \<and>
    (\<forall>v bbox q. encode_task_message E v (SignalingResponder p') \<noteq> (Ok bbox, q))"
proof -
  from assms(1) obtain c i q where
    c: "initiator_context_new E (ic_permanent_key (rsg_initiator p)) (cm_entropy (rsg_common p)) = (Ok c :: (signaling_error, _) outcome, i)"
    and send: "send_token_and_key E (p\<lparr>rsg_common := (rsg_common p)\<lparr>cm_entropy := i\<rparr>, rsg_initiator := c\<rparr>) = (Ok acts, q)"
    and p': "p' = rsg_initiator_update (ic_handshake_state_update (\<lambda>_. InitiatorKeySent)) q"
    by (auto simp: responder_handle_new_initiator_def ok_iffs on_responder_common_def with_entropy_def
        set_initiator_handshake_state_def)
  have "ic_session_key (rsg_initiator q) = None \<and> cm_signaling_state (rsg_common q) = TaskState"
    using preservesD [OF core_send_token_and_key refl send] initiator_context_new_OkD [OF c] assms(2)
    by (simp add: responder_core_def responder_view_def)
  then have p'': "ic_session_key (rsg_initiator p') = None" "cm_signaling_state (rsg_common p') = TaskState"
    by (simp_all add: p')
  have "encode_task_message E v (SignalingResponder p') \<noteq> (Ok bbox, q)" for v bbox q
    using p'' by (auto simp: encode_task_message_def with_chosen_peer_def responder_get_peer_def encode_for_peer_def ok_iffs
        split: option.splits prod.splits)
  with p'' show ?thesis by (simp add: p')
qed

text \<open>Parameters under which every message can be serialized.\<close>

definition total_env :: "(string, sample_value) env" where
  "total_env = scenario_env\<lparr>rmps_to_vec_message := \<lambda>_. Inr []\<rparr>"

theorem new_initiator_in_task_state_witness:
  "\<exists>p acts p'. snd responder_finished = SignalingResponder p \<and> responder_handle_new_initiator total_env p = (Ok acts, p') \<and>
     cm_signaling_state (rsg_common p') = TaskState \<and>
     (\<forall>v bbox q. encode_task_message total_env v (SignalingResponder p') \<noteq> (Ok bbox, q))"
proof -
  have c: "case snd responder_finished of SignalingResponder p \<Rightarrow> cm_signaling_state (rsg_common p) = TaskState \<and>
      (case fst (responder_handle_new_initiator total_env p) of Ok _ \<Rightarrow> True | _ \<Rightarrow> False) | _ \<Rightarrow> False" by code_simp
  then obtain p where p: "snd responder_finished = SignalingResponder p" by (cases "snd responder_finished") simp_all
  from c [unfolded p] obtain acts p' where "cm_signaling_state (rsg_common p) = TaskState"
    and run: "responder_handle_new_initiator total_env p = (Ok acts, p')"
    by (cases "responder_handle_new_initiator total_env p") (auto split: outcome.splits)
  with p new_initiator_in_task_state [OF run] show ?thesis by blast
qed

end
