(* ===== verification/Server_Handshake.thy ===== *)
theory Server_Handshake
  imports Handshake Client_Laws Edge_Cases
begin

text \<open>
  The handshake with an honest server succeeds: its \<open>server-hello\<close> message and then its
  \<open>server-auth\<close> message, sealed for our key and with our cookie repeated, take a new client to the
  peer handshake. The initiator then knows every responder the server has listed; a responder
  has introduced itself when the initiator is there.
\<close>

section \<open>The honest server\<close>

text \<open>
  A client that has not heard of the server yet; the counter has room for the
  \<open>client-hello\<close> and \<open>client-auth\<close> messages, and both can be encoded.
\<close>

definition awaits_server :: "'t common \<Rightarrow> bool" where
  "awaits_server c \<longleftrightarrow> (let sc = cm_server c in
     cm_signaling_state c = ServerHandshake \<and> cm_identity c = ClientUnknown \<and>
     sc_handshake_state sc = ServerNew \<and> sc_session_key sc = None \<and>
     csn_theirs (sc_csn_pair sc) = None \<and> cookie_theirs (sc_cookie_pair sc) = None \<and>
     Suc (Suc (sent_number (sc_csn_pair sc))) < 2 ^ 48)"

text \<open>The \<open>server-hello\<close> message of a server with the session key pair \<open>k\<close>.\<close>

definition greets :: "('t, 'v, 'z) env_scheme \<Rightarrow> key_pair \<Rightarrow> 't common \<Rightarrow> byte_box \<Rightarrow> bool" where
  "greets E k c b \<longleftrightarrow> (let n = bb_nonce b in
     nonce_source n = 0 \<and> nonce_destination n = 0 \<and> overflow_number (nonce_csn n) = 0 \<and>
     nonce_cookie n \<noteq> cookie_ours (sc_cookie_pair (cm_server c)) \<and>
     (cm_role c = RoleResponder \<longrightarrow> carried E (ClientHello (public_key (cm_permanent_keypair c)))) \<and>
     carried E (ClientAuth \<lparr>ca_your_cookie = nonce_cookie n, ca_subprotocols = [subprotocol],
       ca_ping_interval = ping_interval_secs (cm_ping_interval c),
       ca_your_key = sc_permanent_key (cm_server c)\<rparr>) \<and>
     open_box_decode E b = Ok (open_box_new (ServerHello (public_key k)) n))"

text \<open>
  Its \<open>server-auth\<close> message to the address \<open>a\<close>, after a message with nonce \<open>n\<close>. A client that
  knows the permanent key of the server gets the signed keys.
\<close>

definition signs ::
  "('t, 'v, 'z) env_scheme \<Rightarrow> key_pair \<Rightarrow> 't common \<Rightarrow> server_auth \<Rightarrow> nonce \<Rightarrow> public_key \<Rightarrow> bool" where
  "signs E k c msg n pk \<longleftrightarrow> (\<exists>server signed. pk = public_key server \<and>
     box_correct E server (cm_permanent_keypair c) \<and> sa_signed_keys msg = Some signed \<and>
     unsigned_keys_sign E \<lparr>server_public_session_key = public_key k,
       client_public_permanent_key = public_key (cm_permanent_keypair c)\<rparr>
       server (public_key (cm_permanent_keypair c)) n = Ok signed)"

definition admits ::
  "('t, 'v, 'z) env_scheme \<Rightarrow> key_pair \<Rightarrow> 't common \<Rightarrow> nonce \<Rightarrow> address \<Rightarrow> server_auth \<Rightarrow> byte_box \<Rightarrow> bool" where
  "admits E k c n a msg b \<longleftrightarrow> (let m = bb_nonce b; kp = cm_permanent_keypair c in
     nonce_source m = 0 \<and> nonce_destination m = a \<and> nonce_cookie m = nonce_cookie n \<and> nonce_csn n < nonce_csn m \<and>
     carried E (ServerAuth msg) \<and> box_correct E k kp \<and>
     open_box_encrypt E (open_box_new (ServerAuth msg) m) k (public_key kp) = (Ok b :: (signaling_error, _) outcome) \<and>
     sa_your_cookie msg = cookie_ours (sc_cookie_pair (cm_server c)) \<and>
     length (public_key k) = 32 \<and> length (public_key kp) = 32 \<and>
     (\<forall>pk. sc_permanent_key (cm_server c) = Some pk \<longrightarrow> signs E k c msg m pk))"

text \<open>
  What the message says, by role: the initiator has the address 1 and learns of at most 252
  responders; a responder learns whether the initiator is there, and is then able to introduce
  itself.
\<close>

primrec informs :: "('t, 'v, 'z) env_scheme \<Rightarrow> address \<Rightarrow> server_auth \<Rightarrow> 't signaling \<Rightarrow> bool" where
  "informs E a msg (SignalingInitiator i) \<longleftrightarrow> a = 1 \<and> sa_initiator_connected msg = None \<and>
     isg_responders i = hm_empty \<and>
     (case sa_responders msg of None \<Rightarrow> False
      | Some rs \<Rightarrow> distinct rs \<and> list_all is_responder rs \<and> length rs \<le> 252 \<and>
          unat (isg_responder_counter i) + length rs < 2 ^ 32)"
| "informs E a msg (SignalingResponder p) \<longleftrightarrow> is_responder a \<and> sa_responders msg = None \<and>
     (case sa_initiator_connected msg of None \<Rightarrow> False
      | Some connected \<Rightarrow> connected \<longrightarrow> cm_auth_provider (rsg_common p) \<noteq> None \<and>
          (auth_token_of (rsg_common p) \<noteq> None \<longrightarrow>
            carried E (Token (public_key (cm_permanent_keypair (rsg_common p))))) \<and>
          carried E (Key (public_key (ic_keypair (rsg_initiator p)))) \<and>
          Suc (Suc (sent_number (ic_csn_pair (rsg_initiator p)))) < 2 ^ 48)"

section \<open>The first message\<close>

lemma server_nonce_Ok:
  assumes "cm_identity c = ClientUnknown" "Suc (sent_number (sc_csn_pair (cm_server c))) < 2 ^ 48"
  shows "\<exists>n d. server_nonce c = (Ok n, c\<lparr>cm_server := (cm_server c)\<lparr>sc_csn_pair := d\<rparr>\<rparr>) \<and> nonce_destination n = 0 \<and>
    csn_theirs d = csn_theirs (sc_csn_pair (cm_server c)) \<and> sent_number d = Suc (sent_number (sc_csn_pair (cm_server c)))"
proof -
  obtain n d where n: "next_nonce ClientUnknown IdServer (sc_cookie_pair (cm_server c)) (sc_csn_pair (cm_server c)) = (Ok n, d)"
    using next_nonce_Ok [of ClientUnknown 0 IdServer 0 "sc_csn_pair (cm_server c)" "sc_cookie_pair (cm_server c)"] assms(2)
    by auto
  from next_nonce_OkD(3,5,6) [OF n] n show ?thesis using assms(1) by (auto simp: server_nonce_def zoomS_def)
qed

lemma encoded_anyhow:
  assumes "carried E m"
  shows "\<exists>b. open_box_encode E (open_box_new m n) = Ok b \<and> bb_nonce b = n"
  using assms by (auto simp: carried_def box_defs message_to_msgpack_def open_box_new_def split: sum.splits)

lemma client_hello_sent:
  assumes "cm_identity c = ClientUnknown" "Suc (sent_number (sc_csn_pair (cm_server c))) < 2 ^ 48"
    and "carried E (ClientHello (public_key (cm_permanent_keypair c)))"
  shows "\<exists>acts d. send_client_hello E c = (Ok acts, c\<lparr>cm_server := (cm_server c)\<lparr>sc_csn_pair := d\<rparr>\<rparr>) \<and> for_server acts \<and>
    csn_theirs d = csn_theirs (sc_csn_pair (cm_server c)) \<and> sent_number d = Suc (sent_number (sc_csn_pair (cm_server c)))"
proof -
  obtain n d where n: "server_nonce c = (Ok n, c\<lparr>cm_server := (cm_server c)\<lparr>sc_csn_pair := d\<rparr>\<rparr>)"
    "nonce_destination n = 0" "csn_theirs d = csn_theirs (sc_csn_pair (cm_server c))" "sent_number d = Suc (sent_number (sc_csn_pair (cm_server c)))"
    using server_nonce_Ok [OF assms(1,2)] by blast
  obtain b where b: "bb_nonce b = n" "open_box_encode E (open_box_new (ClientHello (public_key (cm_permanent_keypair c))) n) = (Ok b :: (signaling_error, _) outcome)"
    using encoded_anyhow [OF assms(3)] by blast
  have "send_client_hello E c = (Ok [Reply b], c\<lparr>cm_server := (cm_server c)\<lparr>sc_csn_pair := d\<rparr>\<rparr>)"
    using n(1) b(2) by (simp add: send_client_hello_def proc_defs)
  moreover have "for_server [Reply b]" using n(2) b(1) by simp
  ultimately show ?thesis using n(3,4) by blast
qed

lemma client_auth_sent:
  assumes "cm_identity c = ClientUnknown" "Suc (sent_number (sc_csn_pair (cm_server c))) < 2 ^ 48"
    and "cookie_theirs (sc_cookie_pair (cm_server c)) = Some ck" "sc_session_key (cm_server c) = Some key"
    and "carried E (ClientAuth \<lparr>ca_your_cookie = ck, ca_subprotocols = [subprotocol],
       ca_ping_interval = ping_interval_secs (cm_ping_interval c), ca_your_key = sc_permanent_key (cm_server c)\<rparr>)"
  shows "\<exists>acts d. send_client_auth E c = (Ok acts, c\<lparr>cm_server := (cm_server c)\<lparr>sc_csn_pair := d\<rparr>\<rparr>) \<and> for_server acts \<and>
    csn_theirs d = csn_theirs (sc_csn_pair (cm_server c)) \<and> sent_number d = Suc (sent_number (sc_csn_pair (cm_server c)))"
proof -
  obtain n d where n: "server_nonce c = (Ok n, c\<lparr>cm_server := (cm_server c)\<lparr>sc_csn_pair := d\<rparr>\<rparr>)"
    "nonce_destination n = 0" "csn_theirs d = csn_theirs (sc_csn_pair (cm_server c))"
    "sent_number d = Suc (sent_number (sc_csn_pair (cm_server c)))" using server_nonce_Ok [OF assms(1,2)] by blast
  obtain b where b: "bb_nonce b = n" "open_box_encrypt E (open_box_new (ClientAuth \<lparr>ca_your_cookie = ck, ca_subprotocols = [subprotocol],
       ca_ping_interval = ping_interval_secs (cm_ping_interval c), ca_your_key = sc_permanent_key (cm_server c)\<rparr>) n)
       (cm_permanent_keypair c) key = (Ok b :: (signaling_error, _) outcome)" using sealed_anyhow [OF assms(5)] by blast
  have "send_client_auth E c = (Ok [Reply b], c\<lparr>cm_server := (cm_server c)\<lparr>sc_csn_pair := d\<rparr>\<rparr>)"
    using n(1) b(2) assms(3,4) by (simp add: send_client_auth_def proc_defs)
  moreover have "for_server [Reply b]" using n(2) b(1) by simp
  ultimately show ?thesis using n(3,4) by blast
qed

text \<open>The client after the greeting with nonce \<open>n\<close>, with the counters \<open>d\<close>.\<close>

definition client_greeted :: "key_pair \<Rightarrow> nonce \<Rightarrow> csn_pair \<Rightarrow> 't common \<Rightarrow> 't common" where
  "client_greeted k n d c = c\<lparr>cm_server := (cm_server c)\<lparr>sc_session_key := Some (public_key k), sc_csn_pair := d,
     sc_cookie_pair := (sc_cookie_pair (cm_server c))\<lparr>cookie_theirs := Some (nonce_cookie n)\<rparr>,
     sc_handshake_state := ClientInfoSent\<rparr>\<rparr>"

definition heard :: "client_identity \<Rightarrow> nonce \<Rightarrow> 't common \<Rightarrow> 't common" where
  "heard i n c = c\<lparr>cm_identity := i, cm_server := (cm_server c)\<lparr>
     sc_csn_pair := (sc_csn_pair (cm_server c))\<lparr>csn_theirs := Some (nonce_csn n)\<rparr>,
     sc_cookie_pair := (sc_cookie_pair (cm_server c))\<lparr>cookie_theirs := Some (nonce_cookie n)\<rparr>\<rparr>\<rparr>"

primrec with_common :: "'t common \<Rightarrow> 't signaling \<Rightarrow> 't signaling" where
  "with_common c (SignalingInitiator i) = SignalingInitiator (i\<lparr>isg_common := c\<rparr>)"
| "with_common c (SignalingResponder p) = SignalingResponder (p\<lparr>rsg_common := c\<rparr>)"

lemma with_common_simps [simp]:
  "sig_common (with_common c s) = c" "with_common c (with_common d s) = with_common c s" "with_common (sig_common s) s = s"
  by (cases s; simp)+

lemma on_sig_common_run: "f (sig_common s) = (r, c) \<Longrightarrow> on_sig_common f s = (r, with_common c s)"
  by (cases s) (simp_all add: on_sig_common_def on_sig_def on_common_def on_responder_common_def zoomS_def)

lemma server_validated:
  assumes "nonce_source n = 0" "i = assigned_identity n s"
    and "(address_from_client_identity i :: (validation_error, address) outcome) = Ok (nonce_destination n)"
    and "csn_fresh (sc_csn_pair (cm_server (sig_common s))) n" "cookie_right (sc_cookie_pair (cm_server (sig_common s))) n"
  shows "validate_nonce n s = (Ok (), with_common (heard i n (sig_common s)) s)"
proof -
  have "put_peer_with_address 0 (note_nonce n (PeerServer (cm_server (sig_common s)))) (set_identity i s) =
      with_common (heard i n (sig_common s)) s"
    by (cases s) (simp_all add: heard_def note_nonce_def)
  with assms show ?thesis
    by (simp add: validate_nonce_Ok_iff peer_at_server sender_allowed_def is_server_def)
qed

lemma server_dispatched:
  assumes "nonce_source (bb_nonce b) = 0" "decode_server_message E (sig_common s) b = Ok (open_box_new m n)"
  shows "dispatch_message E b s = handle_server_message E (open_box_new m n)
    (if get_type m = ''server-auth'' then Some (bb_nonce b) else None) s"
  using assms by (simp add: dispatch_message_def is_server_def proc_defs open_box_new_def)

lemma hello_handled:
  assumes c: "cm_identity c = ClientUnknown" "sc_session_key (cm_server c) = None"
    "Suc (Suc (sent_number (sc_csn_pair (cm_server c)))) < 2 ^ 48"
    and ck: "cookie_theirs (sc_cookie_pair (cm_server c)) = Some (nonce_cookie n)"
    and carried: "cm_role c = RoleResponder \<Longrightarrow> carried E (ClientHello (public_key (cm_permanent_keypair c)))"
      "carried E (ClientAuth \<lparr>ca_your_cookie = nonce_cookie n, ca_subprotocols = [subprotocol],
       ca_ping_interval = ping_interval_secs (cm_ping_interval c), ca_your_key = sc_permanent_key (cm_server c)\<rparr>)"
  shows "\<exists>acts d. handle_server_hello E (public_key k) c = (Ok acts, client_greeted k n d c) \<and> for_server acts \<and>
    csn_theirs d = csn_theirs (sc_csn_pair (cm_server c)) \<and> sent_number d \<le> sent_number (sc_csn_pair (cm_server c)) + 2"
proof -
  let ?c = "cm_server_update (sc_session_key_update (\<lambda>_. Some (public_key k))) c"
  have "\<exists>hello d. (if cm_role c = RoleResponder then send_client_hello E else returnS []) ?c =
      (Ok hello, ?c\<lparr>cm_server := (cm_server ?c)\<lparr>sc_csn_pair := d\<rparr>\<rparr>) \<and>
      csn_theirs d = csn_theirs (sc_csn_pair (cm_server c)) \<and> for_server hello \<and>
      sent_number d \<le> Suc (sent_number (sc_csn_pair (cm_server c)))"
  proof (cases "cm_role c = RoleResponder")
    case True
    have room: "Suc (sent_number (sc_csn_pair (cm_server ?c))) < 2 ^ 48" using c(3) by simp
    have "cm_identity ?c = ClientUnknown" "carried E (ClientHello (public_key (cm_permanent_keypair ?c)))"
      using c(1) carried(1) True by simp_all
    from client_hello_sent [OF this(1) room this(2)] obtain acts d where
      "send_client_hello E ?c = (Ok acts, ?c\<lparr>cm_server := (cm_server ?c)\<lparr>sc_csn_pair := d\<rparr>\<rparr>)"
      "csn_theirs d = csn_theirs (sc_csn_pair (cm_server ?c))" "sent_number d = Suc (sent_number (sc_csn_pair (cm_server ?c)))" "for_server acts"
      by blast
    then show ?thesis using True by (intro exI [of _ acts] exI [of _ d]) simp
  next
    case False
    show ?thesis
      using False by (intro exI [of _ "[]"] exI [of _ "sc_csn_pair (cm_server c)"]) (simp add: returnS_def)
  qed
  then obtain hello d where hello: "(if cm_role c = RoleResponder then send_client_hello E else returnS []) ?c =
      (Ok hello, ?c\<lparr>cm_server := (cm_server ?c)\<lparr>sc_csn_pair := d\<rparr>\<rparr>)"
    and d: "csn_theirs d = csn_theirs (sc_csn_pair (cm_server c))" "for_server hello"
      "sent_number d \<le> Suc (sent_number (sc_csn_pair (cm_server c)))" by blast
  let ?c' = "?c\<lparr>cm_server := (cm_server ?c)\<lparr>sc_csn_pair := d\<rparr>\<rparr>"
  obtain auth d' where auth: "send_client_auth E ?c' = (Ok auth, ?c'\<lparr>cm_server := (cm_server ?c')\<lparr>sc_csn_pair := d'\<rparr>\<rparr>)"
    "csn_theirs d' = csn_theirs d" "for_server auth" "sent_number d' = Suc (sent_number d)"
    using client_auth_sent [of ?c' "nonce_cookie n" "public_key k" E] c ck carried(2) d(3) by auto
  have "sc_cookie_pair (cm_server c) = (sc_cookie_pair (cm_server c))\<lparr>cookie_theirs := Some (nonce_cookie n)\<rparr>"
    using ck by simp
  then have "?c'\<lparr>cm_server := (cm_server ?c')\<lparr>sc_csn_pair := d', sc_handshake_state := ClientInfoSent\<rparr>\<rparr> = client_greeted k n d' c"
    unfolding client_greeted_def by simp
  then have "handle_server_hello E (public_key k) c = (Ok (hello @ auth), client_greeted k n d' c)"
    using c(2) hello auth(1)
    by (simp add: handle_server_hello_def set_server_handshake_state_def proc_defs o_def split del: if_split)
  then show ?thesis using d auth(2-) by (intro exI [of _ "hello @ auth"] exI [of _ d']) simp
qed

lemma server_hello_step:
  assumes wait: "awaits_server (sig_common s)" and hello: "greets E k (sig_common s) b"
  shows "\<exists>acts d. handle_message E b s = (Ok acts, with_common (client_greeted k (bb_nonce b) d (sig_common s)) s) \<and>
    csn_theirs d = Some (nonce_csn (bb_nonce b)) \<and> for_server acts \<and>
    sent_number d \<le> sent_number (sc_csn_pair (cm_server (sig_common s))) + 2"
proof -
  let ?n = "bb_nonce b" and ?c = "sig_common s"
  let ?h = "heard ClientUnknown ?n ?c"
  have v: "validate_nonce ?n s = (Ok (), with_common ?h s)"
    using wait hello by (intro server_validated)
      (simp_all add: greets_def awaits_server_def Let_def assigned_identity_def is_unknown_def csn_fresh_def cookie_right_def)
  have dec: "decode_server_message E (sig_common (with_common ?h s)) b = Ok (open_box_new (ServerHello (public_key k)) ?n)"
    using wait hello by (simp add: decode_server_message_def heard_def awaits_server_def greets_def Let_def)
  obtain acts d where run: "handle_server_hello E (public_key k) ?h = (Ok acts, client_greeted k ?n d ?h)"
    "csn_theirs d = csn_theirs (sc_csn_pair (cm_server ?h))" "for_server acts"
    "sent_number d \<le> sent_number (sc_csn_pair (cm_server ?h)) + 2"
    using hello_handled [of ?h ?n E k] wait hello
    by (auto simp: heard_def awaits_server_def greets_def Let_def sent_number_def)
  have "client_greeted k ?n d ?h = client_greeted k ?n d ?c" using wait by (simp add: client_greeted_def heard_def awaits_server_def Let_def)
  moreover have "handle_message E b s = (Ok acts, with_common (client_greeted k ?n d ?h) s)"
    using wait hello on_sig_common_run [of "handle_server_hello E (public_key k)" "with_common ?h s"] run(1)
    unfolding handle_message_accepted [OF v] server_dispatched [OF _ dec]
    by (subst server_dispatched [OF _ dec])
      (auto simp: greets_def awaits_server_def Let_def handle_server_message_def heard_def proc_defs open_box_new_def)
  ultimately show ?thesis using run(2-) by (auto simp: heard_def sent_number_def)
qed

section \<open>The second message\<close>

lemma signs_vouch:
  assumes laws: "from_slice_laws E" and signs: "signs E k c msg n pk"
    and len: "length (public_key k) = 32" "length (public_key (cm_permanent_keypair c)) = 32"
    and d: "cm_permanent_keypair d = cm_permanent_keypair c" "sc_session_key (cm_server d) = Some (public_key k)"
  shows "signed_keys_vouch E msg (Some n) d pk"
proof -
  let ?kp = "cm_permanent_keypair c"
  let ?u = "\<lparr>server_public_session_key = public_key k, client_public_permanent_key = public_key ?kp\<rparr>"
  obtain server signed where s: "pk = public_key server" "box_correct E server ?kp" "sa_signed_keys msg = Some signed"
    "unsigned_keys_sign E ?u server (public_key ?kp) n = Ok signed" using signs by (auto simp: signs_def)
  have "signed = box_seal E (public_key k @ public_key ?kp) (nonce_into_bytes E n) (public_key ?kp) (private_key server)"
    using s(4) by (auto simp: unsigned_keys_sign_def Let_def split: if_splits)
  then have "box_open E signed (nonce_into_bytes E n) (public_key server) (private_key ?kp) = Some (public_key k @ public_key ?kp)"
    using s(2) by (simp add: box_correct_def)
  then have "signed_keys_decrypt E signed ?kp (public_key server) n = Ok ?u"
    using laws len by (simp add: signed_keys_decrypt_def from_slice_laws_def)
  with s d show ?thesis by (auto simp: signed_keys_vouch_def)
qed

definition own_identity :: "address \<Rightarrow> 't signaling \<Rightarrow> client_identity" where
  "own_identity a s = (case s of SignalingInitiator _ \<Rightarrow> ClientInitiator | SignalingResponder _ \<Rightarrow> ClientResponder a)"

lemma informs_identity:
  assumes "informs E a msg s"
  shows "(address_from_client_identity (own_identity a s) :: (validation_error, address) outcome) = Ok a"
    and "a \<noteq> 0"
  using assms by (cases s; auto simp: own_identity_def is_responder_iff byte_gt_1_iff)+

lemma auth_checks_pass:
  assumes laws: "from_slice_laws E" and auth: "admits E k c n a msg b"
    and d: "cm_permanent_keypair d = cm_permanent_keypair c" "sc_session_key (cm_server d) = Some (public_key k)"
      "cookie_ours (sc_cookie_pair (cm_server d)) = cookie_ours (sc_cookie_pair (cm_server c))"
      "sc_permanent_key (cm_server d) = sc_permanent_key (cm_server c)" "cm_identity d \<noteq> ClientUnknown"
  shows "server_auth_checks E msg (Some (bb_nonce b)) d = (Ok (), d)"
proof -
  have "signed_keys_vouch E msg (Some (bb_nonce b)) d pk" if "sc_permanent_key (cm_server d) = Some pk" for pk
    using that auth d by (intro signs_vouch [OF laws]) (simp_all add: admits_def Let_def)
  then have "fst (server_auth_checks E msg (Some (bb_nonce b)) d) = Ok ()"
    using auth d by (simp add: server_auth_checks_Ok_iff admits_def Let_def)
  moreover have "snd (server_auth_checks E msg (Some (bb_nonce b)) d) = d"
    by (auto simp: server_auth_checks_def validate_repeated_cookie_def proc_defs split: outcome.splits)
  ultimately show ?thesis by (metis prod.collapse)
qed

lemma server_auth_step:
  assumes laws: "from_slice_laws E" and wait: "awaits_server (sig_common s)"
    and auth: "admits E k (sig_common s) n a msg b" and info: "informs E a msg s" and d: "csn_theirs d = Some (nonce_csn n)"
    and h: "h = with_common (heard (own_identity a s) (bb_nonce b) (client_greeted k n d (sig_common s))) s"
  shows "handle_message E b (with_common (client_greeted k n d (sig_common s)) s) =
    bindS (on_sig (initiator_handle_server_auth_impl E msg) (responder_handle_server_auth_impl E msg)) (\<lambda>actions.
      thenS (on_sig_common server_handshake_completed) (returnS actions)) h"
proof -
  let ?m = "bb_nonce b" and ?c = "sig_common s" and ?g = "client_greeted k n d (sig_common s)"
  let ?i = "own_identity a s"
  have facts: "nonce_source ?m = 0" "nonce_destination ?m = a" "carried E (ServerAuth msg)"
    "box_correct E k (cm_permanent_keypair ?c)"
    "open_box_encrypt E (open_box_new (ServerAuth msg) ?m) k (public_key (cm_permanent_keypair ?c)) = (Ok b :: (signaling_error, _) outcome)"
    using auth by (simp_all add: admits_def Let_def)
  have "assigned_identity ?m (with_common ?g s) = ?i"
    using wait facts(2) informs_identity(2) [OF info]
    by (cases s) (simp_all add: assigned_identity_def Let_def is_unknown_def own_identity_def client_greeted_def awaits_server_def)
  then have v: "validate_nonce ?m (with_common ?g s) = (Ok (), h)"
    using server_validated [of ?m ?i "with_common ?g s"] informs_identity(1) [OF info] facts(1,2) auth d
    by (simp add: h client_greeted_def csn_fresh_def cookie_right_def admits_def Let_def)
  have "open_box_decrypt E b (cm_permanent_keypair ?c) (public_key k) = Ok (open_box_new (ServerAuth msg) ?m)"
  proof -
    obtain b' where "open_box_encrypt E (open_box_new (ServerAuth msg) ?m) k (public_key (cm_permanent_keypair ?c)) =
        (Ok b' :: (signaling_error, _) outcome)"
      "open_box_decrypt E b' (cm_permanent_keypair ?c) (public_key k) = Ok (open_box_new (ServerAuth msg) ?m)"
      using sealed [OF facts(3,4)] by blast
    with facts(5) show ?thesis by simp
  qed
  then have dec: "decode_server_message E (sig_common h) b = Ok (open_box_new (ServerAuth msg) ?m)"
    by (simp add: h decode_server_message_def heard_def client_greeted_def)
  have "server_auth_checks E msg (Some ?m) (sig_common h) = (Ok (), sig_common h)"
    by (rule auth_checks_pass [OF laws auth])
      (cases s; simp add: h heard_def client_greeted_def own_identity_def)+
  then have checks: "on_sig_common (server_auth_checks E msg (Some ?m)) h = (Ok (), h)"
    using on_sig_common_run [of "server_auth_checks E msg (Some ?m)" h] by simp
  have "sc_handshake_state (cm_server (sig_common h)) = ClientInfoSent" by (simp add: h heard_def client_greeted_def)
  then show ?thesis
    unfolding handle_message_accepted [OF v] server_dispatched [OF facts(1) dec]
    using checks by (simp add: handle_server_message_def handle_server_auth_def open_box_new_def thenS_def bindS_def getS_def)
qed

subsection \<open>The initiator lists the responders\<close>

definition expected :: "'t common \<Rightarrow> address \<Rightarrow> responder_context \<Rightarrow> bool" where
  "expected c x r \<longleftrightarrow> rc_address r = x \<and> rc_session_key r = None \<and> csn_theirs (rc_csn_pair r) = None \<and>
     cookie_theirs (rc_cookie_pair r) = None \<and> rc_permanent_key r = trusted_key c \<and>
     rc_handshake_state r = (if trusted_key c = None then ResponderNew else ResponderTokenReceived)"

definition knows :: "'t common \<Rightarrow> address set \<Rightarrow> (address, responder_context) hashmap \<Rightarrow> bool" where
  "knows c X m \<longleftrightarrow> hm_wf m \<and> dom (hm_get m) = X \<and> (\<forall>x r. hm_get m x = Some r \<longrightarrow> expected c x r)"

lemma knows_insert:
  assumes "knows c X m" "expected c x r"
  shows "knows c (insert x X) (hm_insert x r (hm_remove x m))"
  using assms by (auto simp: knows_def hm.wf_insert hm.wf_remove hm.dom_insert hm.dom_remove split: if_splits)

text \<open>The context made for the responder \<open>x\<close> with serial number \<open>n\<close> from three draws, the first of them \<open>e\<close>.\<close>

definition welcomes :: "('t, 'v, 'z) env_scheme \<Rightarrow> 't common \<Rightarrow> address \<Rightarrow> u32 \<Rightarrow> nat \<Rightarrow> responder_context \<Rightarrow> bool" where
  "welcomes E c x n e r \<longleftrightarrow> (\<exists>q. responder_context_new E x n e = (Ok q :: (signaling_error, _) outcome, e + 3) \<and>
     r = (case trusted_key c of None \<Rightarrow> q
       | Some key \<Rightarrow> q\<lparr>rc_permanent_key := Some key, rc_handshake_state := ResponderTokenReceived\<rparr>))"

lemma one_draw:
  "new_key_pair E e = (Ok k, j) \<Longrightarrow> j = Suc e"
  "random_sequence E e = (Ok c, j) \<Longrightarrow> j = Suc e"
  "random_cookie E e = (Ok d, j) \<Longrightarrow> j = Suc e"
  by (auto simp: new_key_pair_def random_sequence_def random_cookie_def libsodium_init_or_panic_def proc_defs
      split: prod.splits list.splits if_splits)

lemma responder_context_fresh:
  assumes "responder_context_new E x n e = (Ok q, j)"
  shows "j = e + 3 \<and> rc_permanent_key q = None \<and> rc_address q = x \<and> rc_session_key q = None \<and>
    rc_handshake_state q = ResponderNew \<and> csn_theirs (rc_csn_pair q) = None \<and> cookie_theirs (rc_cookie_pair q) = None"
  using assms
  by (auto simp: responder_context_new_def new_csn_pair_def new_cookie_pair_def ok_iffs dest!: one_draw)

lemma welcomes_expected: "welcomes E c x n e r \<Longrightarrow> expected c x r"
  by (cases "trusted_key c") (auto simp: welcomes_def expected_def dest!: responder_context_fresh)

lemma responder_drawn:
  assumes "random_laws E"
  shows "\<exists>q. responder_context_new E x n e = (Ok q :: (signaling_error, _) outcome, e + 3) \<and> rc_permanent_key q = None"
proof -
  have "draws (responder_context_new E x n :: (nat, signaling_error, _) proc)"
    unfolding responder_context_new_def new_csn_pair_def new_cookie_pair_def new_key_pair_def
    by (auto intro!: draws_rules draws_basic [OF assms])
  then obtain q j where "responder_context_new E x n e = (Ok q :: (signaling_error, _) outcome, j)"
    unfolding draws_def by metis
  with responder_context_fresh [OF this] show ?thesis by blast
qed

lemma responder_listed:
  assumes laws: "random_laws E" and room: "Suc (unat (isg_responder_counter s)) < 2 ^ 32"
    and m: "knows (isg_common s) X (isg_responders s)" and few: "card (insert x X) \<le> 252"
  obtains r t where "process_new_responder E x s = (Ok None, t)"
    "welcomes E (isg_common s) x (isg_responder_counter s) (cm_entropy (isg_common s)) r"
    "t = s\<lparr>isg_common := (isg_common s)\<lparr>cm_entropy := cm_entropy (isg_common s) + 3\<rparr>,
       isg_responders := hm_insert x r (hm_remove x (isg_responders s)), isg_responder_counter := isg_responder_counter s + 1\<rparr>"
    "unat (isg_responder_counter s + 1) = Suc (unat (isg_responder_counter s))"
    "knows (isg_common s) (insert x X) (isg_responders t)"
proof -
  let ?n = "isg_responder_counter s" and ?c = "isg_common s"
  from room have "checked_add ?n 1 = Some (?n + 1)" by (simp add: checked_add_unat)
  then have n: "responder_counter_increment ?n = (Ok ?n, ?n + 1)" "unat (?n + 1) = Suc (unat ?n)"
    using checked_add_SomeD by (force simp: responder_counter_increment_def)+
  obtain q where q: "responder_context_new E x ?n (cm_entropy ?c) = (Ok q :: (signaling_error, _) outcome, cm_entropy ?c + 3)"
    "rc_permanent_key q = None" using responder_drawn [OF laws] by blast
  let ?r = "case trusted_key ?c of None \<Rightarrow> q
    | Some key \<Rightarrow> q\<lparr>rc_permanent_key := Some key, rc_handshake_state := ResponderTokenReceived\<rparr>"
  have r: "welcomes E ?c x ?n (cm_entropy ?c) ?r" using q(1) by (auto simp: welcomes_def)
  let ?m = "hm_insert x ?r (hm_remove x (isg_responders s))"
  let ?t = "s\<lparr>isg_common := ?c\<lparr>cm_entropy := cm_entropy ?c + 3\<rparr>, isg_responders := ?m, isg_responder_counter := ?n + 1\<rparr>"
  note listed = knows_insert [OF m welcomes_expected [OF r]]
  then have "hm_len ?m \<le> 252" using few by (simp add: knows_def hm.len_card)
  then have "process_new_responder E x s = (Ok None, ?t)"
    using n(1) q
    by (cases "cm_auth_provider ?c")
      (auto simp: process_new_responder_def on_common_def with_entropy_def trusted_key_def zoomS_def bindS_def thenS_def
        modifyS_def getS_def returnS_def split: auth_provider.split)
  from that [OF this r refl n(2)] listed show thesis by simp
qed

lemma knows_cong: "trusted_key c = trusted_key d \<Longrightarrow> knows c = knows d"
  by (intro ext) (simp add: knows_def expected_def)

lemma responders_listed:
  assumes laws: "random_laws E"
  shows "unat (isg_responder_counter s) + length xs < 2 ^ 32 \<Longrightarrow> knows (isg_common s) X (isg_responders s) \<Longrightarrow>
    card (X \<union> set xs) \<le> 252 \<Longrightarrow>
    \<exists>t. mapS (process_new_responder E) xs s = (Ok (map (\<lambda>_. None) xs), t) \<and>
      isg_common t = (isg_common s)\<lparr>cm_entropy := cm_entropy (isg_common s) + 3 * length xs\<rparr> \<and>
      isg_responder_counter t = isg_responder_counter s + of_nat (length xs) \<and>
      knows (isg_common s) (X \<union> set xs) (isg_responders t)"
proof (induction xs arbitrary: s X)
  case Nil
  then show ?case by (simp add: returnS_def)
next
  case (Cons x xs)
  have "finite X" using Cons.prems(2) hm.finite_dom by (metis knows_def)
  then have "card (insert x X) \<le> card (X \<union> set (x # xs))" by (intro card_mono) auto
  with Cons.prems have few: "card (insert x X) \<le> 252" and room: "Suc (unat (isg_responder_counter s)) < 2 ^ 32" by simp_all
  obtain r t where t: "process_new_responder E x s = (Ok None, t)"
    "t = s\<lparr>isg_common := (isg_common s)\<lparr>cm_entropy := cm_entropy (isg_common s) + 3\<rparr>,
       isg_responders := hm_insert x r (hm_remove x (isg_responders s)), isg_responder_counter := isg_responder_counter s + 1\<rparr>"
    "unat (isg_responder_counter s + 1) = Suc (unat (isg_responder_counter s))"
    "knows (isg_common s) (insert x X) (isg_responders t)"
    by (rule responder_listed [OF laws room Cons.prems(2) few])
  have same: "knows (isg_common t) = knows (isg_common s)" by (rule knows_cong) (simp add: t(2) trusted_key_def)
  have "unat (isg_responder_counter t) + length xs < 2 ^ 32" using Cons.prems(1) t(2,3) by simp
  from Cons.IH [OF this, of "insert x X"] Cons.prems(3) t(4) obtain u where
    "mapS (process_new_responder E) xs t = (Ok (map (\<lambda>_. None) xs), u)"
    "isg_common u = (isg_common t)\<lparr>cm_entropy := cm_entropy (isg_common t) + 3 * length xs\<rparr>"
    "isg_responder_counter u = isg_responder_counter t + of_nat (length xs)"
    "knows (isg_common s) (insert x X \<union> set xs) (isg_responders u)"
    by (auto simp: same)
  with t(1,2) show ?case by (intro exI [of _ u]) (simp add: bindS_def returnS_def algebra_simps)
qed

lemma initiator_informed:
  assumes laws: "random_laws E" "order_laws E" and info: "informs E a msg (SignalingInitiator i)"
    and rs: "sa_responders msg = Some rs"
  shows "\<exists>j. initiator_handle_server_auth_impl E msg (i\<lparr>isg_common := c\<rparr>) =
      (Ok [ActionEvent (ServerHandshakeDone (rs = []))], j) \<and>
    isg_common j = c\<lparr>cm_entropy := cm_entropy c + 3 * length rs\<rparr> \<and>
    isg_responder_counter j = isg_responder_counter i + of_nat (length rs) \<and> knows c (set rs) (isg_responders j)"
proof -
  let ?i = "i\<lparr>isg_common := c\<rparr>" and ?xs = "address_order E rs"
  have info': "sa_initiator_connected msg = None" "isg_responders i = hm_empty" "distinct rs" "list_all is_responder rs"
    "length rs \<le> 252" "unat (isg_responder_counter i) + length rs < 2 ^ 32" using info rs by simp_all
  have xs: "set ?xs = set rs" "length ?xs = length rs"
    using laws(2) by (simp_all add: order_laws_set order_laws_def) (metis laws(2) order_laws_def size_mset)
  have "knows (isg_common ?i) {} (isg_responders ?i)"
    using info'(2) by (auto simp: knows_def hm.wf_empty dom_def)
  moreover have "card ({} \<union> set ?xs) \<le> 252" using info'(3,5) by (simp add: xs(1) distinct_card)
  ultimately obtain j where j: "mapS (process_new_responder E) ?xs ?i = (Ok (map (\<lambda>_. None) ?xs), j)"
    "isg_common j = c\<lparr>cm_entropy := cm_entropy c + 3 * length rs\<rparr>"
    "isg_responder_counter j = isg_responder_counter i + of_nat (length rs)" "knows c (set rs) (isg_responders j)"
    using responders_listed [OF laws(1), of ?i ?xs "{}"] info'(6) xs by auto
  have "0 \<notin> set rs" "1 \<notin> set rs" using info'(4) by (auto simp: list_all_iff is_responder_iff byte_gt_1_iff)
  then have "initiator_handle_server_auth_impl E msg ?i = (Ok [ActionEvent (ServerHandshakeDone (rs = []))], j)"
    using info'(1,3) rs j(1)
    by (simp add: initiator_handle_server_auth_impl_def proc_defs Let_def map_filter_def distinct_remdups_id filter_map o_def)
  with j show ?thesis by blast
qed

subsection \<open>The responder introduces itself\<close>

lemma key_sent_anyhow:
  assumes "cm_identity (rsg_common p) = ClientResponder a" "is_responder a"
    and "Suc (sent_number (ic_csn_pair (rsg_initiator p))) < 2 ^ 48"
    and "carried E (Key (public_key (ic_keypair (rsg_initiator p))))"
  shows "\<exists>b d. send_key E p = (Ok (Reply b), p\<lparr>rsg_initiator := (rsg_initiator p)\<lparr>ic_csn_pair := d\<rparr>\<rparr>)"
proof -
  obtain n d where n: "initiator_nonce p = (Ok n, p\<lparr>rsg_initiator := (rsg_initiator p)\<lparr>ic_csn_pair := d\<rparr>\<rparr>)"
    using initiator_nonce_sent [OF assms(1-3)] by blast
  obtain b where "open_box_encrypt E (open_box_new (Key (public_key (ic_keypair (rsg_initiator p)))) n)
      (cm_permanent_keypair (rsg_common p)) (ic_permanent_key (rsg_initiator p)) = (Ok b :: (signaling_error, _) outcome)"
    using sealed_anyhow [OF assms(4)] by blast
  with n have "send_key E p = (Ok (Reply b), p\<lparr>rsg_initiator := (rsg_initiator p)\<lparr>ic_csn_pair := d\<rparr>\<rparr>)"
    by (simp add: send_key_def proc_defs)
  then show ?thesis by blast
qed

lemma token_sent:
  assumes "cm_identity (rsg_common p) = ClientResponder a" "is_responder a"
    and "Suc (sent_number (ic_csn_pair (rsg_initiator p))) < 2 ^ 48"
    and "carried E (Token (public_key (cm_permanent_keypair (rsg_common p))))"
  shows "\<exists>b d. send_token E tok p = (Ok (Reply b), p\<lparr>rsg_initiator := (rsg_initiator p)\<lparr>ic_csn_pair := d\<rparr>\<rparr>) \<and>
    sent_number d = Suc (sent_number (ic_csn_pair (rsg_initiator p)))"
proof -
  obtain n d where n: "initiator_nonce p = (Ok n, p\<lparr>rsg_initiator := (rsg_initiator p)\<lparr>ic_csn_pair := d\<rparr>\<rparr>)"
    "sent_with n (PeerInitiator (rsg_initiator p)) (PeerInitiator ((rsg_initiator p)\<lparr>ic_csn_pair := d\<rparr>))"
    using initiator_nonce_sent [OF assms(1-3)] by blast
  obtain b where "open_box_encrypt_token E (open_box_new (Token (public_key (cm_permanent_keypair (rsg_common p)))) n) tok =
      (Ok b :: (signaling_error, _) outcome)"
    using assms(4) by (auto simp: carried_def box_defs message_to_msgpack_def open_box_new_def split: sum.splits)
  with n(1) have "send_token E tok p = (Ok (Reply b), p\<lparr>rsg_initiator := (rsg_initiator p)\<lparr>ic_csn_pair := d\<rparr>\<rparr>)"
    by (simp add: send_token_def proc_defs)
  moreover have "sent_number d = Suc (sent_number (ic_csn_pair (rsg_initiator p)))"
    using n(2) by (simp add: sent_with_def)
  ultimately show ?thesis by blast
qed

lemma announced:
  assumes "cm_identity (rsg_common p) = ClientResponder a" "is_responder a" "cm_auth_provider (rsg_common p) \<noteq> None"
    and "auth_token_of (rsg_common p) \<noteq> None \<Longrightarrow> carried E (Token (public_key (cm_permanent_keypair (rsg_common p))))"
    and "carried E (Key (public_key (ic_keypair (rsg_initiator p))))"
    and "Suc (Suc (sent_number (ic_csn_pair (rsg_initiator p)))) < 2 ^ 48"
  shows "\<exists>acts q ap. announce E p = (Ok acts, q) \<and> ic_handshake_state (rsg_initiator q) = InitiatorKeySent \<and>
    rsg_common q = (rsg_common p)\<lparr>cm_auth_provider := ap\<rparr>"
proof -
  obtain provider where provider: "cm_auth_provider (rsg_common p) = Some provider" using assms(3) by auto
  let ?set = "rsg_initiator_update (ic_handshake_state_update (\<lambda>_. InitiatorKeySent))"
  show ?thesis
  proof (cases provider)
    case (AuthProviderToken tok)
    let ?p = "p\<lparr>rsg_common := (rsg_common p)\<lparr>cm_auth_provider := None\<rparr>\<rparr>"
    obtain b d where b: "send_token E tok ?p = (Ok (Reply b), ?p\<lparr>rsg_initiator := (rsg_initiator p)\<lparr>ic_csn_pair := d\<rparr>\<rparr>)"
      "sent_number d = Suc (sent_number (ic_csn_pair (rsg_initiator p)))"
      using token_sent [of ?p a E tok] assms provider AuthProviderToken by (auto simp: auth_token_of_def)
    obtain b' d' where b': "send_key E (?p\<lparr>rsg_initiator := (rsg_initiator p)\<lparr>ic_csn_pair := d\<rparr>\<rparr>) =
        (Ok (Reply b'), ?p\<lparr>rsg_initiator := (rsg_initiator p)\<lparr>ic_csn_pair := d'\<rparr>\<rparr>)"
      using key_sent_anyhow [of "?p\<lparr>rsg_initiator := (rsg_initiator p)\<lparr>ic_csn_pair := d\<rparr>\<rparr>" a E] assms b(2) by auto
    have "announce E p = (Ok [Reply b, Reply b'], ?set (?p\<lparr>rsg_initiator := (rsg_initiator p)\<lparr>ic_csn_pair := d'\<rparr>\<rparr>))"
      using provider AuthProviderToken b(1) b'
      by (simp add: announce_def send_token_and_key_def set_initiator_handshake_state_def on_responder_common_def
          zoomS_def bindS_def thenS_def getS_def modifyS_def returnS_def)
    then show ?thesis by auto
  next
    case (AuthProviderTrustedKey key)
    obtain b' d' where b': "send_key E p = (Ok (Reply b'), p\<lparr>rsg_initiator := (rsg_initiator p)\<lparr>ic_csn_pair := d'\<rparr>\<rparr>)"
      using key_sent_anyhow [of p a E] assms by auto
    have "announce E p = (Ok [Reply b'], ?set (p\<lparr>rsg_initiator := (rsg_initiator p)\<lparr>ic_csn_pair := d'\<rparr>\<rparr>))"
      using provider AuthProviderTrustedKey b'
      by (simp add: announce_def send_token_and_key_def set_initiator_handshake_state_def
          zoomS_def bindS_def thenS_def getS_def modifyS_def returnS_def)
    then show ?thesis
      by (intro exI [of _ "[Reply b']"] exI [of _ "?set (p\<lparr>rsg_initiator := (rsg_initiator p)\<lparr>ic_csn_pair := d'\<rparr>\<rparr>)"]
          exI [of _ "cm_auth_provider (rsg_common p)"]) simp
  qed
qed

lemma responder_informed:
  assumes info: "informs E a msg (SignalingResponder p)" and connected: "sa_initiator_connected msg = Some connected"
    and c: "cm_identity c = ClientResponder a" "cm_auth_provider c = cm_auth_provider (rsg_common p)"
      "cm_permanent_keypair c = cm_permanent_keypair (rsg_common p)"
  shows "\<exists>acts q ap. responder_handle_server_auth_impl E msg (p\<lparr>rsg_common := c\<rparr>) =
      (Ok (acts @ [ActionEvent (ServerHandshakeDone connected)]), q) \<and> rsg_common q = c\<lparr>cm_auth_provider := ap\<rparr> \<and>
    (connected \<longrightarrow> ic_handshake_state (rsg_initiator q) = InitiatorKeySent)"
proof (cases connected)
  case True
  have "auth_token_of c = auth_token_of (rsg_common p)" using c(2) by (simp add: auth_token_of_def)
  with announced [of "p\<lparr>rsg_common := c\<rparr>" a E] info connected c True obtain acts q ap where
    "announce E (p\<lparr>rsg_common := c\<rparr>) = (Ok acts, q)" "ic_handshake_state (rsg_initiator q) = InitiatorKeySent"
    "rsg_common q = c\<lparr>cm_auth_provider := ap\<rparr>" by auto
  then show ?thesis using info connected True
    by (intro exI [of _ acts] exI [of _ q] exI [of _ ap]) (simp add: announce_handlers(2) proc_defs)
next
  case False
  then show ?thesis using info connected
    by (intro exI [of _ "[]"] exI [of _ "p\<lparr>rsg_common := c\<rparr>"] exI [of _ "cm_auth_provider c"])
      (simp add: announce_handlers(2) proc_defs)
qed

section \<open>The handshake succeeds\<close>

text \<open>The client after the handshake with the server.\<close>

definition joined :: "key_pair \<Rightarrow> client_identity \<Rightarrow> 't common \<Rightarrow> bool" where
  "joined k i c \<longleftrightarrow> cm_signaling_state c = PeerHandshake \<and> cm_identity c = i \<and>
     sc_handshake_state (cm_server c) = ServerDone \<and> sc_session_key (cm_server c) = Some (public_key k)"

primrec informed :: "server_auth \<Rightarrow> 't signaling \<Rightarrow> bool" where
  "informed msg (SignalingInitiator i) \<longleftrightarrow>
     knows (isg_common i) (set (the (sa_responders msg))) (isg_responders i)"
| "informed msg (SignalingResponder p) \<longleftrightarrow>
     (sa_initiator_connected msg = Some True \<longrightarrow> ic_handshake_state (rsg_initiator p) = InitiatorKeySent)"

definition done_flag :: "server_auth \<Rightarrow> 't signaling \<Rightarrow> bool" where
  "done_flag msg s = (case s of SignalingInitiator _ \<Rightarrow> sa_responders msg = Some []
     | SignalingResponder _ \<Rightarrow> sa_initiator_connected msg = Some True)"

definition admitted :: "'t common \<Rightarrow> 't common" where
  "admitted c = c\<lparr>cm_server := (cm_server c)\<lparr>sc_handshake_state := ServerDone\<rparr>, cm_signaling_state := PeerHandshake\<rparr>"

lemma completed_run:
  assumes "f h = (Ok acts, t)" "cm_signaling_state (sig_common t) = ServerHandshake"
  shows "bindS f (\<lambda>actions. thenS (on_sig_common server_handshake_completed) (returnS actions)) h =
    (Ok acts, with_common (admitted (sig_common t)) t)"
proof -
  have "server_handshake_completed (sig_common t) = (Ok (), admitted (sig_common t))"
    using assms(2) by (cases "sig_common t") (simp add: server_handshake_completed_def set_server_handshake_state_def
        set_signaling_state_def admitted_def proc_defs)
  from on_sig_common_run [of server_handshake_completed t, OF this] assms(1) show ?thesis
    by (simp add: bindS_def thenS_def returnS_def)
qed

lemma auth_informs:
  assumes laws: "random_laws E" "order_laws E" and info: "informs E a msg s"
    and h: "cm_identity h = own_identity a s" "cm_auth_provider h = cm_auth_provider (sig_common s)"
      "cm_permanent_keypair h = cm_permanent_keypair (sig_common s)"
  shows "\<exists>acts t. on_sig (initiator_handle_server_auth_impl E msg) (responder_handle_server_auth_impl E msg) (with_common h s) =
      (Ok (acts @ [ActionEvent (ServerHandshakeDone (done_flag msg s))]), t) \<and>
    cm_signaling_state (sig_common t) = cm_signaling_state h \<and> cm_identity (sig_common t) = cm_identity h \<and>
    sc_session_key (cm_server (sig_common t)) = sc_session_key (cm_server h) \<and>
    (\<forall>c. trusted_key c = trusted_key (sig_common t) \<longrightarrow> informed msg (with_common c t))"
proof (cases s)
  case (SignalingInitiator i)
  with info obtain rs where rs: "sa_responders msg = Some rs" by (auto split: option.splits)
  from initiator_informed [OF laws info [unfolded SignalingInitiator] rs, of h] obtain j where
    j: "initiator_handle_server_auth_impl E msg (i\<lparr>isg_common := h\<rparr>) = (Ok [ActionEvent (ServerHandshakeDone (rs = []))], j)"
    "isg_common j = h\<lparr>cm_entropy := cm_entropy h + 3 * length rs\<rparr>" "knows h (set rs) (isg_responders j)" by blast
  have "\<forall>c. trusted_key c = trusted_key (isg_common j) \<longrightarrow> knows c (set rs) (isg_responders j)"
    using j(2,3) by (simp add: knows_def expected_def trusted_key_def)
  with j rs h SignalingInitiator show ?thesis
    by (intro exI [of _ "[]"] exI [of _ "SignalingInitiator j"]) (simp add: on_sig_def done_flag_def)
next
  case (SignalingResponder p)
  with info obtain x where x: "sa_initiator_connected msg = Some x" by (auto split: option.splits)
  from responder_informed [OF info [unfolded SignalingResponder] x, of h] h SignalingResponder
  obtain acts' q ap where "responder_handle_server_auth_impl E msg (p\<lparr>rsg_common := h\<rparr>) =
      (Ok (acts' @ [ActionEvent (ServerHandshakeDone x)]), q)" "rsg_common q = h\<lparr>cm_auth_provider := ap\<rparr>"
    "x \<longrightarrow> ic_handshake_state (rsg_initiator q) = InitiatorKeySent" by (auto simp: own_identity_def)
  with x h SignalingResponder show ?thesis
    by (intro exI [of _ acts'] exI [of _ "SignalingResponder q"]) (simp add: on_sig_def done_flag_def)
qed

text \<open>
  C6. The handshake with an honest server succeeds. A new client, of either role, that gets the
  \<open>server-hello\<close> message and then a \<open>server-auth\<close> message that is sealed for its key with the
  session key of the server, repeats its cookie and, if the client knows the permanent key of the
  server, carries the signed keys, accepts both: it takes the address it was given, holds the
  session key of the server, enters the peer handshake and reports the end of the server
  handshake. An initiator then knows exactly the listed responders, each in a fresh context; a
  responder has sent its first messages if the initiator is there.
\<close>

theorem server_handshake_completes:
  assumes laws: "random_laws E" "order_laws E" "from_slice_laws E"
    and wait: "awaits_server (sig_common s)" and hello: "greets E k (sig_common s) b"
    and auth: "admits E k (sig_common s) (bb_nonce b) a msg b'" and info: "informs E a msg s"
  shows "\<exists>acts t acts' u. handle_message E b s = (Ok acts, t) \<and>
    handle_message E b' t = (Ok (acts' @ [ActionEvent (ServerHandshakeDone (done_flag msg s))]), u) \<and>
    joined k (own_identity a s) (sig_common u) \<and> informed msg u"
proof -
  let ?c = "sig_common s" and ?n = "bb_nonce b"
  from server_hello_step [OF wait hello] obtain acts d where first:
    "handle_message E b s = (Ok acts, with_common (client_greeted k ?n d ?c) s)" "csn_theirs d = Some (nonce_csn ?n)"
    by blast
  let ?h = "heard (own_identity a s) (bb_nonce b') (client_greeted k ?n d ?c)"
  let ?f = "on_sig (initiator_handle_server_auth_impl E msg) (responder_handle_server_auth_impl E msg)"
  have h: "cm_identity ?h = own_identity a s" "cm_signaling_state ?h = ServerHandshake"
    "sc_session_key (cm_server ?h) = Some (public_key k)" "cm_auth_provider ?h = cm_auth_provider ?c"
    "cm_permanent_keypair ?h = cm_permanent_keypair ?c"
    using wait by (simp_all add: heard_def client_greeted_def awaits_server_def Let_def)
  obtain acts' t where run: "?f (with_common ?h s) = (Ok (acts' @ [ActionEvent (ServerHandshakeDone (done_flag msg s))]), t)"
    "cm_signaling_state (sig_common t) = ServerHandshake" "cm_identity (sig_common t) = own_identity a s"
    "sc_session_key (cm_server (sig_common t)) = Some (public_key k)"
    "\<And>c. trusted_key c = trusted_key (sig_common t) \<Longrightarrow> informed msg (with_common c t)"
    using auth_informs [OF laws(1,2) info h(1,4,5)] h by auto
  let ?u = "admitted (sig_common t)"
  have "handle_message E b' (with_common (client_greeted k ?n d ?c) s) =
      (Ok (acts' @ [ActionEvent (ServerHandshakeDone (done_flag msg s))]), with_common ?u t)"
    using completed_run [of ?f, OF run(1,2)] server_auth_step [OF laws(3) wait auth info first(2) refl] by simp
  moreover have "joined k (own_identity a s) ?u" "trusted_key ?u = trusted_key (sig_common t)"
    using run(3,4) by (simp_all add: joined_def admitted_def trusted_key_def)
  ultimately show ?thesis using first(1) run(5) by fastforce
qed

text \<open>The scenario: an initiator that knows the permanent key of the server.\<close>

definition scenario_server_auth :: server_auth where
  "scenario_server_auth = \<lparr>sa_your_cookie = count_up 1, sa_signed_keys = Some (replicate 16 0 @ scenario_key 4 @ scenario_key 3),
     sa_responders = Some [2], sa_initiator_connected = None\<rparr>"

lemma scenario_greets: "greets scenario_env (sample_key_pair 4) (sig_common scenario_initiator) server_hello_box"
  by code_simp

lemma scenario_awaits: "awaits_server (sig_common scenario_initiator)"
proof -
  let ?c = "sig_common scenario_initiator"
  have "cm_signaling_state ?c = ServerHandshake" "cm_identity ?c = ClientUnknown"
    "sc_handshake_state (cm_server ?c) = ServerNew" "sc_session_key (cm_server ?c) = None"
    "csn_theirs (sc_csn_pair (cm_server ?c)) = None" "cookie_theirs (sc_cookie_pair (cm_server ?c)) = None"
    "combined_sequence_number (csn_ours (sc_csn_pair (cm_server ?c))) < 4294967295" by code_simp+
  then show ?thesis by (simp add: awaits_server_def Let_def sent_number_def word_less_nat_alt)
qed

lemma scenario_admits:
  "admits scenario_env (sample_key_pair 4) (sig_common scenario_initiator) (bb_nonce server_hello_box) 1
     scenario_server_auth (server_box 1 6 5)"
proof -
  let ?c = "sig_common scenario_initiator" and ?b = "server_box 1 6 5"
  have facts: "nonce_source (bb_nonce ?b) = 0" "nonce_destination (bb_nonce ?b) = 1"
    "nonce_cookie (bb_nonce ?b) = nonce_cookie (bb_nonce server_hello_box)"
    "nonce_csn (bb_nonce server_hello_box) < nonce_csn (bb_nonce ?b)" "carried scenario_env (ServerAuth scenario_server_auth)"
    "open_box_encrypt scenario_env (open_box_new (ServerAuth scenario_server_auth) (bb_nonce ?b)) (sample_key_pair 4)
       (public_key (cm_permanent_keypair ?c)) = (Ok ?b :: (signaling_error, _) outcome)"
    "sa_your_cookie scenario_server_auth = cookie_ours (sc_cookie_pair (cm_server ?c))"
    "length (public_key (sample_key_pair 4)) = 32" "length (public_key (cm_permanent_keypair ?c)) = 32" by code_simp+
  have signed: "sc_permanent_key (cm_server ?c) = Some (public_key (sample_key_pair 6))"
    "unsigned_keys_sign scenario_env \<lparr>server_public_session_key = public_key (sample_key_pair 4),
       client_public_permanent_key = public_key (cm_permanent_keypair ?c)\<rparr> (sample_key_pair 6)
       (public_key (cm_permanent_keypair ?c)) (bb_nonce ?b) = Ok (the (sa_signed_keys scenario_server_auth))"
    "sa_signed_keys scenario_server_auth = Some (the (sa_signed_keys scenario_server_auth))" by code_simp+
  then have "signs scenario_env (sample_key_pair 4) ?c scenario_server_auth (bb_nonce ?b) (public_key (sample_key_pair 6))"
    unfolding signs_def using scenario_box_correct by blast
  then show ?thesis unfolding admits_def Let_def using facts signed(1) scenario_box_correct by auto
qed

lemma scenario_informs: "informs scenario_env 1 scenario_server_auth scenario_initiator"
proof -
  obtain i where i: "scenario_initiator = SignalingInitiator i" using scenario_started(1) by blast
  have "case scenario_initiator of SignalingInitiator i \<Rightarrow> isg_responders i = hm_empty \<and> isg_responder_counter i < 4294967295
    | _ \<Rightarrow> False" by code_simp
  moreover have "is_responder 2" by code_simp
  ultimately show ?thesis by (simp add: i scenario_server_auth_def word_less_nat_alt)
qed

theorem server_handshake_completes_witness:
  "\<exists>acts t acts' u. handle_message scenario_env server_hello_box scenario_initiator = (Ok acts, t) \<and>
    handle_message scenario_env (server_box 1 6 5) t = (Ok (acts' @ [ActionEvent (ServerHandshakeDone False)]), u) \<and>
    joined (sample_key_pair 4) ClientInitiator (sig_common u) \<and> informed scenario_server_auth u"
proof -
  have laws: "random_laws scenario_env" "order_laws scenario_env" "from_slice_laws scenario_env"
    unfolding scenario_env_def by (rule sample_env_laws sample_order_laws)+
  obtain i where i: "scenario_initiator = SignalingInitiator i" using scenario_started(1) by blast
  have "own_identity 1 scenario_initiator = ClientInitiator" "\<not> done_flag scenario_server_auth scenario_initiator"
    by (simp_all add: i own_identity_def done_flag_def scenario_server_auth_def)
  then show ?thesis
    using server_handshake_completes [OF laws scenario_awaits scenario_greets scenario_admits scenario_informs] by simp
qed

end
