(* ===== verification/Network.thy ===== *)
theory Network
  imports Server_Handshake
begin

text \<open>
  Two clients and an honest server between them. Each client has an inbox, which the server fills
  with its own messages and with those it relays; the clients take their messages in any order
  relative to each other. Whatever the schedule, a network that can come to an end with all
  messages handled comes to exactly this end: clients only share the inboxes, so their steps
  commute.
\<close>

section \<open>Runs that do not depend on the schedule\<close>

locale strong_diamond =
  fixes step :: "'a \<Rightarrow> 'a \<Rightarrow> bool"
  assumes diamond: "step x y \<Longrightarrow> step x z \<Longrightarrow> y = z \<or> (\<exists>w. step y w \<and> step z w)"
begin

lemma step_towards_end:
  assumes "(step ^^ n) x z" "\<And>w. \<not> step z w" "step x y"
  shows "\<exists>k. n = Suc k \<and> (step ^^ k) y z"
  using assms(1,3)
proof (induction n arbitrary: x y)
  case 0
  with assms(2) show ?case by auto
next
  case (Suc n)
  from Suc.prems(1) obtain x' where x': "step x x'" "(step ^^ n) x' z" by (blast dest: relpowp_Suc_D2)
  from diamond [OF Suc.prems(2) x'(1)] show ?case
  proof
    assume "y = x'"
    with x'(2) show ?case by blast
  next
    assume "\<exists>w. step y w \<and> step x' w"
    then obtain w where w: "step y w" "step x' w" by blast
    from Suc.IH [OF x'(2) w(2)] obtain k where k: "n = Suc k" "(step ^^ k) w z" by blast
    from relpowp_Suc_I2 [of step, OF w(1) k(2)] k(1) show ?case by blast
  qed
qed

lemma every_run_ends:
  assumes "(step ^^ n) x z" "\<And>w. \<not> step z w" "(step ^^ m) x y"
  shows "m \<le> n \<and> (step ^^ (n - m)) y z"
  using assms(1,3)
proof (induction m arbitrary: x n)
  case (Suc m)
  from Suc.prems(2) obtain x' where x': "step x x'" "(step ^^ m) x' y" by (blast dest: relpowp_Suc_D2)
  from step_towards_end [OF Suc.prems(1) assms(2) x'(1)] obtain k where k: "n = Suc k" "(step ^^ k) x' z" by blast
  from Suc.IH [OF k(2) x'(2)] k(1) show ?case by simp
qed simp

end

section \<open>The network\<close>

text \<open>
  A client with the messages on their way to it, those it has handled, and the actions they have
  caused.
\<close>

record ('t, 'v) node =
  nd_signaling :: "'t signaling"
  nd_inbox :: "byte_box list"
  nd_got :: "byte_box list"
  nd_actions :: "'v handle_action list"

text \<open>The first client handles its next message; the server relays the answers to the second.\<close>

definition receive ::
  "('t, 'v, 'z) env_scheme \<Rightarrow> ('t, 'v) node \<Rightarrow> ('t, 'v) node \<Rightarrow> (('t, 'v) node \<times> ('t, 'v) node) option" where
  "receive E n m =
     (case nd_inbox n of
        [] \<Rightarrow> None
      | b # bs \<Rightarrow>
          (case handle_message E b (nd_signaling n) of
             (Ok acts, s) \<Rightarrow> Some (n\<lparr>nd_signaling := s, nd_inbox := bs, nd_got := nd_got n @ [b],
               nd_actions := nd_actions n @ acts\<rparr>, m\<lparr>nd_inbox := nd_inbox m @ relayed acts\<rparr>)
           | _ \<Rightarrow> None))"

inductive net_step ::
  "('t, 'v, 'z) env_scheme \<Rightarrow> ('t, 'v) node \<times> ('t, 'v) node \<Rightarrow> ('t, 'v) node \<times> ('t, 'v) node \<Rightarrow> bool" for E where
  left: "receive E n m = Some (n', m') \<Longrightarrow> net_step E (n, m) (n', m')"
| right: "receive E m n = Some (m', n') \<Longrightarrow> net_step E (n, m) (n', m')"

inductive_cases net_stepE: "net_step E (n, m) x"

lemma receive_SomeE:
  assumes "receive E n m = Some x"
  obtains b bs acts s where "nd_inbox n = b # bs" "handle_message E b (nd_signaling n) = (Ok acts, s)"
    "x = (n\<lparr>nd_signaling := s, nd_inbox := bs, nd_got := nd_got n @ [b], nd_actions := nd_actions n @ acts\<rparr>,
      m\<lparr>nd_inbox := nd_inbox m @ relayed acts\<rparr>)"
  using assms by (auto simp: receive_def split: list.splits prod.splits outcome.splits)

lemma receive_commutes:
  assumes "receive E n m = Some (n1, m1)" "receive E m n = Some (m2, n2)"
  shows "\<exists>n3 m3. receive E m1 n1 = Some (m3, n3) \<and> receive E n2 m2 = Some (n3, m3)"
  using assms(1)
proof (cases rule: receive_SomeE)
  case (1 b bs acts s)
  note left = this
  from assms(2) show ?thesis
  proof (cases rule: receive_SomeE)
    case (1 c cs acts' s')
    with left show ?thesis by (simp add: receive_def)
  qed
qed

lemma receive_joins:
  assumes "receive E n m = Some (n1, m1)" "receive E m n = Some (m2, n2)"
  shows "\<exists>w. net_step E (n1, m1) w \<and> net_step E (n2, m2) w"
  using receive_commutes [OF assms] by (blast intro: net_step.intros)

interpretation net: strong_diamond "net_step E" for E
proof
  fix x y z assume "net_step E x y" "net_step E x z"
  then show "y = z \<or> (\<exists>w. net_step E y w \<and> net_step E z w)"
    by (cases x, simp only:) (elim net_stepE; use receive_joins in fastforce)
qed

lemma net_stuck: "nd_inbox n = [] \<Longrightarrow> nd_inbox m = [] \<Longrightarrow> \<not> net_step E (n, m) x"
  by (auto elim!: net_stepE simp: receive_def)

text \<open>A client handles the messages at the front of its inbox.\<close>

definition handled :: "byte_box list \<Rightarrow> 'v handle_action list \<Rightarrow> 't signaling \<Rightarrow> ('t, 'v) node \<Rightarrow> ('t, 'v) node" where
  "handled bs acts s n = n\<lparr>nd_signaling := s, nd_inbox := drop (length bs) (nd_inbox n), nd_got := nd_got n @ bs,
     nd_actions := nd_actions n @ acts\<rparr>"

definition sent_to :: "byte_box list \<Rightarrow> ('t, 'v) node \<Rightarrow> ('t, 'v) node" where
  "sent_to bs m = m\<lparr>nd_inbox := nd_inbox m @ bs\<rparr>"

lemma handle_all:
  assumes "accepts E bs (nd_signaling n) = Some (acts, s)" "take (length bs) (nd_inbox n) = bs"
    and "\<And>n m n' m'. receive E n m = Some (n', m') \<Longrightarrow> R (n, m) (n', m')"
  shows "R\<^sup>*\<^sup>* (n, m) (handled bs acts s n, sent_to (relayed acts) m)"
  using assms(1,2)
proof (induction bs arbitrary: n m acts)
  case Nil
  then show ?case by (auto simp: handled_def sent_to_def relayed_def map_filter_def)
next
  case (Cons b bs)
  from Cons.prems(1) obtain as t rest where b: "handle_message E b (nd_signaling n) = (Ok as, t)"
    "accepts E bs t = Some (rest, s)" "acts = as @ rest" by (auto split: prod.splits outcome.splits)
  from Cons.prems(2) obtain cs where cs: "nd_inbox n = b # cs" "take (length bs) cs = bs"
    by (cases "nd_inbox n") auto
  let ?n = "n\<lparr>nd_signaling := t, nd_inbox := cs, nd_got := nd_got n @ [b], nd_actions := nd_actions n @ as\<rparr>"
  have "receive E n m = Some (?n, sent_to (relayed as) m)" using b(1) cs(1) by (simp add: receive_def sent_to_def)
  from assms(3) [OF this] have "R (n, m) (?n, sent_to (relayed as) m)" .
  moreover have "R\<^sup>*\<^sup>* (?n, sent_to (relayed as) m) (handled bs rest s ?n, sent_to (relayed rest) (sent_to (relayed as) m))"
    using b(2) cs(2) by (intro Cons.IH) simp_all
  moreover have "handled bs rest s ?n = handled (b # bs) acts s n" using cs(1) b(3) by (simp add: handled_def)
  moreover have "sent_to (relayed rest) (sent_to (relayed as) m) = sent_to (relayed acts) m"
    using b(3) by (simp add: sent_to_def relayed_append)
  ultimately show ?case by (metis converse_rtranclp_into_rtranclp)
qed

lemma handle_left:
  assumes "accepts E bs (nd_signaling n) = Some (acts, s)" "take (length bs) (nd_inbox n) = bs"
  shows "(net_step E)\<^sup>*\<^sup>* (n, m) (handled bs acts s n, sent_to (relayed acts) m)"
  using assms by (rule handle_all) (rule left)

lemma handle_right:
  assumes "accepts E bs (nd_signaling n) = Some (acts, s)" "take (length bs) (nd_inbox n) = bs"
  shows "(net_step E)\<^sup>*\<^sup>* (m, n) (sent_to (relayed acts) m, handled bs acts s n)"
proof -
  let ?R = "\<lambda>x y. net_step E (prod.swap x) (prod.swap y)"
  have "?R\<^sup>*\<^sup>* (n, m) (handled bs acts s n, sent_to (relayed acts) m)"
    using assms by (rule handle_all) (simp add: right)
  then have "(net_step E)\<^sup>*\<^sup>* (prod.swap (n, m)) (prod.swap (handled bs acts s n, sent_to (relayed acts) m))"
    by (induction rule: rtranclp_induct) auto
  then show ?thesis by simp
qed

section \<open>The handshake loop over accepted messages\<close>

text \<open>A turn of the loop of \<open>do_handshake\<close> in which a message arrives and nothing fails.\<close>

definition arrives :: "'z libs_scheme \<Rightarrow> turn \<Rightarrow> byte_box \<Rightarrow> bool" where
  "arrives L t b = (case t of
     Round w \<Rightarrow> (\<exists>bytes. turn_next w = Inr (Some (WsBinary bytes)) \<and> byte_box_from_slice L bytes = Ok b) \<and>
       turn_send_error w = None \<and> turn_listening w
   | TimerElapsed \<Rightarrow> False)"

lemma arrives_round: "arrives L t b \<Longrightarrow> \<exists>w. t = Round w"
  by (cases t) (simp_all add: arrives_def)

lemma arrives_snoc:
  assumes "list_all2 (arrives L) ts (bs @ [b])"
  obtains ts' w where "ts = ts' @ [Round w]" "list_all2 (arrives L) ts' bs" "arrives L (Round w) b"
  using assms arrives_round by (fastforce simp: list_all2_append2 list_all2_Cons2)

definition harmless :: "'v handle_action \<Rightarrow> bool" where
  "harmless a \<longleftrightarrow> (\<forall>m. a \<noteq> ActionTaskMessage m) \<and> errors_of a = []"

definition looped :: "'z libs_scheme \<Rightarrow> 'v handle_action list \<Rightarrow> 't signaling \<Rightarrow> 't handshake \<Rightarrow> 't handshake" where
  "looped L acts sg s = s\<lparr>hs_shared := (hs_shared s)\<lparr>sh_client := (sh_client (hs_shared s))\<lparr>cl_signaling := sg\<rparr>\<rparr>,
     hs_sent := hs_sent s @ concat (map (replies_of L) acts), hs_events := hs_events s @ concat (map events_of acts)\<rparr>"

lemma looped_simps [simp]:
  "hs_signaling (looped L acts sg s) = sg" "sh_poisoned (hs_shared (looped L acts sg s)) = sh_poisoned (hs_shared s)"
  "looped L acts' sg' (looped L acts sg s) = looped L (acts @ acts') sg' s"
  by (simp_all add: looped_def)

lemma looped_nil [simp]: "hs_signaling s = sg \<Longrightarrow> looped L [] sg s = s"
  by (auto simp: looped_def)

lemma round_handled:
  assumes "arrives E (Round w) b" "\<not> sh_poisoned (hs_shared s)"
    and run: "handle_message E b (hs_signaling s) = (Ok acts, sg)" and ok: "list_all harmless acts"
  shows "handshake_round E w s = (Ok (loop_action_of (HandshakeDone \<in> set acts)), looped E acts sg s)"
proof -
  have no: "\<forall>m. ActionTaskMessage m \<notin> set acts" "concat (map errors_of acts) = []"
    using ok by (auto simp: list_all_iff harmless_def)
  let ?acc = "\<lparr>ha_messages = concat (map (replies_of E) acts), ha_done = (HandshakeDone \<in> set acts), ha_late_error = None,
    ha_events = hs_events s @ concat (map events_of acts)\<rparr>"
  have acc: "mapS (handshake_action E True) acts (no_handshake_actions (hs_events s)) = (Ok (map (\<lambda>_. ()) acts), ?acc)"
    using handshake_actions_eq [OF no(1), of E "no_handshake_actions (hs_events s)"]
    unfolding no(2) by (simp add: no_handshake_actions_def first_error_def)
  have sh: "locked_handle_message E m_handshake_lock b (hs_shared s) =
      (Ok acts, (hs_shared s)\<lparr>sh_client := (sh_client (hs_shared s))\<lparr>cl_signaling := sg\<rparr>\<rparr>)"
    using run assms(2) by (cases "hs_shared s") (simp add: locked_handle_message_eq)
  have "handshake_message E w b s = (Ok (loop_action_of (HandshakeDone \<in> set acts)), looped E acts sg s)"
    using assms(1) acc sh
    by (cases s) (auto simp: handshake_message_def bindS_def thenS_def zoomS_def getS_def modifyS_def liftO_def arrives_def
        handshake_send_def ws_send_def returnS_def looped_def)
  then show ?thesis
    using assms(1) by (auto simp: handshake_round_def arrives_def decode_ws_message_def preprocess_ws_message_def liftO_def
        bindS_def)
qed

lemma loop_goes_on:
  assumes "accepts E bs (hs_signaling s) = Some (acts, sg)" "list_all2 (arrives E) ts bs" "\<not> sh_poisoned (hs_shared s)"
    and "list_all harmless acts" "HandshakeDone \<notin> set acts"
  shows "do_handshake E timeout (ts @ us) s = do_handshake E timeout us (looped E acts sg s)"
  using assms
proof (induction bs arbitrary: s ts acts)
  case (Cons b bs)
  from Cons.prems(1) obtain as t rest where b: "handle_message E b (hs_signaling s) = (Ok as, t)"
    "accepts E bs t = Some (rest, sg)" "acts = as @ rest" by (auto split: prod.splits outcome.splits)
  from Cons.prems(2) obtain w ts' where ts: "ts = Round w # ts'" "arrives E (Round w) b" "list_all2 (arrives E) ts' bs"
    using arrives_round by (fastforce simp: list_all2_Cons2)
  have "handshake_round E w s = (Ok LoopContinue, looped E as t s)"
    using round_handled [OF ts(2) Cons.prems(3) b(1)] Cons.prems(4,5) b(3) by (simp add: loop_action_of_def)
  moreover have "do_handshake E timeout (ts' @ us) (looped E as t s) = do_handshake E timeout us (looped E rest sg (looped E as t s))"
    using Cons.IH [of "looped E as t s" rest ts'] Cons.prems(3-5) b(2,3) ts(3) by simp
  ultimately show ?case using ts(1) b(3) by simp
qed simp

lemma loop_completes:
  assumes "accepts E bs (hs_signaling s) = Some (acts, t)" "handle_message E b t = (Ok acts', sg)"
    and "list_all2 (arrives E) ts (bs @ [b])" "\<not> sh_poisoned (hs_shared s)" "list_all harmless (acts @ acts')"
    and "HandshakeDone \<notin> set acts" "HandshakeDone \<in> set acts'"
  shows "do_handshake E timeout ts s = (HandshakeCompleted, looped E (acts @ acts') sg s)"
proof -
  obtain ts' w where ts: "ts = ts' @ [Round w]" "list_all2 (arrives E) ts' bs" "arrives E (Round w) b"
    using arrives_snoc [OF assms(3)] by blast
  have "handshake_round E w (looped E acts t s) = (Ok LoopBreak, looped E acts' sg (looped E acts t s))"
    using round_handled [OF ts(3), of "looped E acts t s"] assms(2,4,5,7) by (simp add: loop_action_of_def)
  then show ?thesis
    using loop_goes_on [OF assms(1) ts(2) assms(4) _ assms(6), of timeout "[Round w]"] assms(5) ts(1) by simp
qed

end
