(* ===== verification/Rendezvous.thy ===== *)
theory Rendezvous
  imports Network
begin

text \<open>
  From two new clients to an open channel. The initiator connects to an honest server and is told
  which responders are there; then the responder connects, the server tells each of the two about
  the other, and relays between them. Whatever the order in which the clients take their messages,
  both handshakes complete, the two clients are linked, and so the loops of \<open>do_handshake\<close> on both
  sides return.
\<close>

section \<open>The server announces the responder\<close>

definition announces_responder ::
  "('t, 'v, 'z) env_scheme \<Rightarrow> key_pair \<Rightarrow> 't common \<Rightarrow> nonce \<Rightarrow> address \<Rightarrow> byte_box \<Rightarrow> bool" where
  "announces_responder E k c n a b \<longleftrightarrow> (let m = bb_nonce b; kp = cm_permanent_keypair c in
     nonce_source m = 0 \<and> nonce_destination m = 1 \<and> nonce_cookie m = nonce_cookie n \<and> nonce_csn n < nonce_csn m \<and>
     carried E (NewResponder a) \<and> box_correct E k kp \<and>
     open_box_encrypt E (open_box_new (NewResponder a) m) k (public_key kp) = (Ok b :: (signaling_error, _) outcome))"

lemma opened_by_us:
  assumes "carried E m" "box_correct E k l"
    and "open_box_encrypt E (open_box_new m n) k (public_key l) = (Ok b :: (signaling_error, _) outcome)"
  shows "open_box_decrypt E b l (public_key k) = Ok (open_box_new m n)"
proof -
  obtain b' where "open_box_encrypt E (open_box_new m n) k (public_key l) = (Ok b' :: (signaling_error, _) outcome)"
    "open_box_decrypt E b' l (public_key k) = Ok (open_box_new m n)" using sealed [OF assms(1,2)] by blast
  with assms(3) show ?thesis by simp
qed

text \<open>An initiator that has done the server handshake, with the last nonce \<open>n\<close> of the server.\<close>

definition hosting :: "key_pair \<Rightarrow> nonce \<Rightarrow> address set \<Rightarrow> 't initiator_signaling \<Rightarrow> bool" where
  "hosting k n X i \<longleftrightarrow> joined k ClientInitiator (isg_common i) \<and>
     csn_theirs (sc_csn_pair (cm_server (isg_common i))) = Some (nonce_csn n) \<and>
     cookie_theirs (sc_cookie_pair (cm_server (isg_common i))) = Some (nonce_cookie n) \<and>
     knows (isg_common i) X (isg_responders i)"

lemma new_responder_step:
  assumes laws: "random_laws E" and host: "hosting k n X i" and new: "announces_responder E k (isg_common i) n a b"
    and a: "is_responder a" and few: "card (insert a X) \<le> 252" and room: "Suc (unat (isg_responder_counter i)) < 2 ^ 32"
  obtains r j where "handle_message E b (SignalingInitiator i) = (Ok [], SignalingInitiator j)"
    "welcomes E (isg_common i) a (isg_responder_counter i) (cm_entropy (isg_common i)) r"
    "hm_get (isg_responders j) a = Some r" "knows (isg_common j) (insert a X) (isg_responders j)"
    "isg_common j = (heard ClientInitiator (bb_nonce b) (isg_common i))\<lparr>cm_entropy := cm_entropy (isg_common i) + 3\<rparr>"
proof -
  let ?c = "isg_common i" and ?m = "bb_nonce b"
  let ?h = "heard ClientInitiator ?m ?c"
  let ?i = "i\<lparr>isg_common := ?h\<rparr>"
  have facts: "nonce_source ?m = 0" "nonce_destination ?m = 1" "nonce_cookie ?m = nonce_cookie n" "nonce_csn n < nonce_csn ?m"
    "open_box_decrypt E b (cm_permanent_keypair ?c) (public_key k) = Ok (open_box_new (NewResponder a) ?m)"
    using new opened_by_us [of E "NewResponder a" k "cm_permanent_keypair ?c" ?m b]
    by (simp_all add: announces_responder_def Let_def)
  have id: "cm_identity ?c = ClientInitiator" "cm_signaling_state ?c = PeerHandshake"
    "sc_handshake_state (cm_server ?c) = ServerDone" "sc_session_key (cm_server ?c) = Some (public_key k)"
    using host by (simp_all add: hosting_def joined_def)
  have v: "validate_nonce ?m (SignalingInitiator i) = (Ok (), SignalingInitiator ?i)"
    using server_validated [of ?m ClientInitiator "SignalingInitiator i"] facts id host
    by (simp add: assigned_identity_def Let_def hosting_def csn_fresh_def cookie_right_def)
  have dec: "decode_server_message E (sig_common (SignalingInitiator ?i)) b = Ok (open_box_new (NewResponder a) ?m)"
    using facts(5) id by (simp add: decode_server_message_def heard_def)
  have known: "knows (isg_common ?i) X (isg_responders ?i)"
    using host knows_cong [of ?h ?c] by (simp add: hosting_def heard_def trusted_key_def)
  have room': "Suc (unat (isg_responder_counter ?i)) < 2 ^ 32" using room by simp
  obtain r j where "process_new_responder E a ?i = (Ok None, j)"
    "welcomes E (isg_common ?i) a (isg_responder_counter ?i) (cm_entropy (isg_common ?i)) r"
    "j = ?i\<lparr>isg_common := (isg_common ?i)\<lparr>cm_entropy := cm_entropy (isg_common ?i) + 3\<rparr>,
       isg_responders := hm_insert a r (hm_remove a (isg_responders ?i)), isg_responder_counter := isg_responder_counter ?i + 1\<rparr>"
    "knows (isg_common ?i) (insert a X) (isg_responders j)"
    by (rule responder_listed [OF laws room' known few])
  then have j: "process_new_responder E a ?i = (Ok None, j)" "welcomes E ?h a (isg_responder_counter i) (cm_entropy ?h) r"
    "j = i\<lparr>isg_common := ?h\<lparr>cm_entropy := cm_entropy ?h + 3\<rparr>,
       isg_responders := hm_insert a r (hm_remove a (isg_responders i)), isg_responder_counter := isg_responder_counter i + 1\<rparr>"
    "knows ?h (insert a X) (isg_responders j)" by simp_all
  have "handle_message E b (SignalingInitiator i) = (Ok [], SignalingInitiator j)"
    unfolding handle_message_accepted [OF v] server_dispatched [OF facts(1) dec]
    using j(1) a id
    by (simp add: handle_server_message_def initiator_handle_new_responder_def heard_def proc_defs on_sig_def open_box_new_def)
  moreover have "welcomes E ?c a (isg_responder_counter i) (cm_entropy ?c) r"
    using j(2) by (simp add: welcomes_def heard_def trusted_key_def)
  moreover have "knows (isg_common j) (insert a X) (isg_responders j)"
    using j(4) knows_cong [of "isg_common j" ?h] by (simp add: j(3) trusted_key_def)
  ultimately show thesis using that j(3) by (simp add: heard_def)
qed

section \<open>Both sides with the server\<close>

text \<open>What the handshake with the server leaves alone.\<close>

definition same_client :: "'t common \<Rightarrow> 't common \<Rightarrow> bool" where
  "same_client c d \<longleftrightarrow> cm_permanent_keypair d = cm_permanent_keypair c \<and> cm_auth_provider d = cm_auth_provider c \<and>
     cm_tasks d = cm_tasks c \<and> cm_role d = cm_role c"

lemma initiator_joins:
  assumes laws: "random_laws E" "order_laws E" "from_slice_laws E"
    and wait: "awaits_server (isg_common i)" and hello: "greets E k (isg_common i) b"
    and auth: "admits E k (isg_common i) (bb_nonce b) 1 msg b'" and info: "informs E 1 msg (SignalingInitiator i)"
    and rs: "sa_responders msg = Some rs"
  obtains acts j where
    "accepts E [b, b'] (SignalingInitiator i) = Some (acts @ [ActionEvent (ServerHandshakeDone (rs = []))], SignalingInitiator j)"
    "for_server acts" "hosting k (bb_nonce b') (set rs) j" "same_client (isg_common i) (isg_common j)"
    "isg_responder_counter j = isg_responder_counter i + of_nat (length rs)"
    "cm_entropy (isg_common j) = cm_entropy (isg_common i) + 3 * length rs"
    "sent_number (sc_csn_pair (cm_server (isg_common j))) \<le> sent_number (sc_csn_pair (cm_server (isg_common i))) + 2"
proof -
  let ?s = "SignalingInitiator i" and ?c = "isg_common i" and ?n = "bb_nonce b"
  obtain acts d where first: "handle_message E b ?s = (Ok acts, with_common (client_greeted k ?n d ?c) ?s)"
    "csn_theirs d = Some (nonce_csn ?n)" "for_server acts" "sent_number d \<le> sent_number (sc_csn_pair (cm_server ?c)) + 2"
    using server_hello_step [of ?s E k b] wait hello by auto
  let ?h = "heard ClientInitiator (bb_nonce b') (client_greeted k ?n d ?c)"
  let ?f = "on_sig (initiator_handle_server_auth_impl E msg) (responder_handle_server_auth_impl E msg)"
  obtain j where j: "initiator_handle_server_auth_impl E msg (i\<lparr>isg_common := ?h\<rparr>) = (Ok [ActionEvent (ServerHandshakeDone (rs = []))], j)"
    "isg_common j = ?h\<lparr>cm_entropy := cm_entropy ?h + 3 * length rs\<rparr>"
    "isg_responder_counter j = isg_responder_counter i + of_nat (length rs)" "knows ?h (set rs) (isg_responders j)"
    using initiator_informed [OF laws(1,2) info rs] by blast
  have f: "?f (with_common ?h ?s) = (Ok [ActionEvent (ServerHandshakeDone (rs = []))], SignalingInitiator j)"
    using j(1) by (simp add: on_sig_def)
  have st: "cm_signaling_state (sig_common (SignalingInitiator j)) = ServerHandshake"
    using wait j(2) by (simp add: heard_def client_greeted_def awaits_server_def Let_def)
  let ?j = "j\<lparr>isg_common := admitted (isg_common j)\<rparr>"
  have "handle_message E b' (with_common (client_greeted k ?n d ?c) ?s) =
      (Ok [ActionEvent (ServerHandshakeDone (rs = []))], SignalingInitiator ?j)"
    using completed_run [of ?f, OF f st] server_auth_step [OF laws(3) _ _ info first(2) refl, of k b'] wait auth
    by (simp add: own_identity_def)
  with first(1) have "accepts E [b, b'] ?s = Some (acts @ [ActionEvent (ServerHandshakeDone (rs = []))], SignalingInitiator ?j)"
    by simp
  moreover have "knows (isg_common ?j) (set rs) (isg_responders ?j)"
    using j(4) knows_cong [of "isg_common ?j" ?h] by (simp add: j(2) admitted_def trusted_key_def)
  then have "hosting k (bb_nonce b') (set rs) ?j"
    by (simp add: hosting_def joined_def admitted_def j(2) heard_def client_greeted_def)
  moreover have "same_client ?c (isg_common ?j)"
    by (simp add: same_client_def admitted_def j(2) heard_def client_greeted_def)
  moreover have "sent_number (sc_csn_pair (cm_server (isg_common ?j))) \<le> sent_number (sc_csn_pair (cm_server ?c)) + 2"
    using first(4) by (simp add: admitted_def j(2) heard_def client_greeted_def sent_number_def)
  ultimately show thesis
    using that first(3) j(3) by (simp add: admitted_def j(2) heard_def client_greeted_def)
qed

lemma responder_joins:
  assumes laws: "from_slice_laws E" and wait: "awaits_server (rsg_common p)" and hello: "greets E k (rsg_common p) b"
    and auth: "admits E k (rsg_common p) (bb_nonce b) a msg b'" and info: "informs E a msg (SignalingResponder p)"
    and there: "sa_initiator_connected msg = Some True"
  obtains acts q where "for_server acts" "same_client (rsg_common p) (rsg_common q)" "rsg_initiator q = rsg_initiator p"
    "cm_identity (rsg_common q) = ClientResponder a" "cm_signaling_state (rsg_common q) = ServerHandshake"
    "\<And>acts' q'. introduction E q = (Ok acts', q') \<Longrightarrow> accepts E [b, b'] (SignalingResponder p) =
      Some (acts @ acts' @ [ActionEvent (ServerHandshakeDone True)], SignalingResponder q')"
proof -
  let ?s = "SignalingResponder p" and ?c = "rsg_common p" and ?n = "bb_nonce b"
  obtain acts d where first: "handle_message E b ?s = (Ok acts, with_common (client_greeted k ?n d ?c) ?s)"
    "csn_theirs d = Some (nonce_csn ?n)" "for_server acts"
    using server_hello_step [of ?s E k b] wait hello by auto
  let ?h = "heard (ClientResponder a) (bb_nonce b') (client_greeted k ?n d ?c)"
  let ?q = "p\<lparr>rsg_common := ?h\<rparr>"
  have step: "accepts E [b, b'] ?s = Some (acts @ acts' @ [ActionEvent (ServerHandshakeDone True)], SignalingResponder q')"
    if "introduction E ?q = (Ok acts', q')" for acts' q'
  proof -
    have "handle_message E b' (with_common (client_greeted k ?n d ?c) ?s) =
        (Ok (acts' @ [ActionEvent (ServerHandshakeDone True)]), SignalingResponder q')"
      using server_auth_step [OF laws _ _ info first(2) refl, of k b'] wait auth that info there
      by (auto simp: own_identity_def introduction_def announce_handlers(2) on_sig_def on_sig_common_def ok_iffs
          bindS_def thenS_def guardS_def returnS_def split: prod.splits outcome.splits)
    with first(1) show ?thesis by simp
  qed
  have "cm_signaling_state (rsg_common ?q) = ServerHandshake"
    using wait by (simp add: heard_def client_greeted_def awaits_server_def Let_def)
  then show thesis
    using that [OF first(3), of ?q] step by (simp add: same_client_def heard_def client_greeted_def)
qed

section \<open>The meeting\<close>

text \<open>
  The server's messages: \<open>server-hello\<close>, \<open>server-auth\<close> with the responders \<open>rs\<close> and \<open>new-responder\<close> for the
  initiator, \<open>server-hello\<close> and \<open>server-auth\<close> with the initiator connected for the responder.
\<close>

definition serves_both ::
  "('t, 'v, 'z) env_scheme \<Rightarrow> address \<Rightarrow> 't initiator_signaling \<Rightarrow> 't responder_signaling \<Rightarrow> address list \<Rightarrow>
   byte_box list \<Rightarrow> byte_box list \<Rightarrow> bool" where
  "serves_both E a i p rs to_i to_r \<longleftrightarrow> (\<exists>ki hi mi ai ni kr hr mr ar. to_i = [hi, ai, ni] \<and> to_r = [hr, ar] \<and>
     greets E ki (isg_common i) hi \<and> admits E ki (isg_common i) (bb_nonce hi) 1 mi ai \<and>
     informs E 1 mi (SignalingInitiator i) \<and> sa_responders mi = Some rs \<and>
     announces_responder E ki (isg_common i) (bb_nonce ai) a ni \<and>
     greets E kr (rsg_common p) hr \<and> admits E kr (rsg_common p) (bb_nonce hr) a mr ar \<and>
     informs E a mr (SignalingResponder p) \<and> sa_initiator_connected mr = Some True)"

text \<open>
  The clients: \<open>r\<close> is the context that the initiator makes for the responder, from the draws that
  follow those for the responders \<open>rs\<close>.
\<close>

definition suits ::
  "('t, 'v, 'z) env_scheme \<Rightarrow> address \<Rightarrow> 't initiator_signaling \<Rightarrow> 't responder_signaling \<Rightarrow> address list \<Rightarrow>
   responder_context \<Rightarrow> 't \<Rightarrow> 't \<Rightarrow> bool" where
  "suits E a i p rs r t u \<longleftrightarrow>
     awaits_server (isg_common i) \<and> awaits_server (rsg_common p) \<and> cm_role (isg_common i) = RoleInitiator \<and>
     is_responder a \<and> card (insert a (set rs)) \<le> 252 \<and> unat (isg_responder_counter i) + length rs + 1 < 2 ^ 32 \<and>
     welcomes E (isg_common i) a (isg_responder_counter i + of_nat (length rs)) (cm_entropy (isg_common i) + 3 * length rs) r \<and>
     keys_fit E i p r \<and> tasks_fit E i p r t u \<and> strangers r (rsg_initiator p) \<and> introduced E i p r \<and>
     sent_number (sc_csn_pair (cm_server (isg_common i))) + 2 + length rs < 2 ^ 48 \<and>
     list_all (\<lambda>x. carried E (DropResponder (drop_responder_with_reason x DroppedByInitiator))) rs"

lemma welcomes_unique: "welcomes E c x n e r \<Longrightarrow> welcomes E d x n e q \<Longrightarrow> trusted_key c = trusted_key d \<Longrightarrow> r = q"
  by (auto simp: welcomes_def)

lemma drops_fit_others:
  assumes order: "order_laws E" and known: "knows c (insert a (set rs)) (isg_responders j)"
    and c: "joined k ClientInitiator (isg_common j)" "cm_role (isg_common j) = RoleInitiator"
    and room: "sent_number (sc_csn_pair (cm_server (isg_common j))) + length rs < 2 ^ 48"
    and carried: "list_all (\<lambda>x. carried E (DropResponder (drop_responder_with_reason x DroppedByInitiator))) rs"
  shows "drops_fit E (dropped E a j) (isg_common j)"
proof -
  let ?m = "hm_remove a (isg_responders j)"
  have dom: "dom (hm_get ?m) \<subseteq> set rs" "hm_wf ?m" using known by (auto simp: knows_def hm.dom_remove hm.wf_remove)
  have "hm_len ?m \<le> card (set rs)" using dom hm.len_le_card by blast
  then have "length (dropped E a j) \<le> length rs"
    using order card_length [of rs] unfolding dropped_def hm_len_keys by (metis le_trans order_laws_def size_mset)
  moreover have "set (dropped E a j) \<subseteq> set rs"
    using dom(1) order_laws_set [OF order] by (auto simp: dropped_def hm_keys_iff)
  ultimately show ?thesis
    using c room carried by (auto simp: drops_fit_def joined_def list_all_iff)
qed

lemma fits_transfer:
  assumes "same_client (isg_common i) (isg_common j)" "same_client (rsg_common p) (rsg_common q)" "rsg_initiator q = rsg_initiator p"
  shows "keys_fit E j q r = keys_fit E i p r" "tasks_fit E j q r t u = tasks_fit E i p r t u"
    "introduced E j q r = introduced E i p r"
  using assms by (simp_all add: keys_fit_def tasks_fit_def introduced_def same_client_def Let_def
      split: option.split auth_provider.split)

lemma unat_add_of_nat_le: "unat (x + of_nat n) \<le> unat x + n" for x :: "'a::len word"
proof -
  have "unat (x + of_nat n) = (unat x + n) mod 2 ^ LENGTH('a)"
    by (simp add: unat_word_ariths(1) unsigned_of_nat take_bit_eq_mod mod_simps)
  then show ?thesis by simp
qed

lemma initiator_ready:
  assumes laws: "random_laws E" "order_laws E" "from_slice_laws E"
    and suits: "suits E a i p rs r t u" and serves: "serves_both E a i p rs to_i to_r"
    and q: "same_client (rsg_common p) (rsg_common q)" "rsg_initiator q = rsg_initiator p" "cm_identity (rsg_common q) = ClientResponder a"
  obtains acts j where
    "accepts E to_i (SignalingInitiator i) = Some (acts @ [ActionEvent (ServerHandshakeDone (rs = []))], SignalingInitiator j)"
    "for_server acts" "partners E a j q r t u" "introduced E j q r"
proof -
  let ?done = "[ActionEvent (ServerHandshakeDone (rs = []))]"
  obtain k hi mi ai ni where to_i: "to_i = [hi, ai, ni]" "greets E k (isg_common i) hi" "admits E k (isg_common i) (bb_nonce hi) 1 mi ai"
    "informs E 1 mi (SignalingInitiator i)" "sa_responders mi = Some rs" "announces_responder E k (isg_common i) (bb_nonce ai) a ni"
    using serves unfolding serves_both_def by blast
  have s: "awaits_server (isg_common i)" "is_responder a" "card (insert a (set rs)) \<le> 252" "cm_role (isg_common i) = RoleInitiator"
    "keys_fit E i p r" "tasks_fit E i p r t u" "introduced E i p r"
    using suits by (simp_all add: suits_def)
  obtain acts j where j: "accepts E [hi, ai] (SignalingInitiator i) = Some (acts @ ?done, SignalingInitiator j)"
    "for_server acts" "hosting k (bb_nonce ai) (set rs) j" "same_client (isg_common i) (isg_common j)"
    "isg_responder_counter j = isg_responder_counter i + of_nat (length rs)"
    "cm_entropy (isg_common j) = cm_entropy (isg_common i) + 3 * length rs"
    "sent_number (sc_csn_pair (cm_server (isg_common j))) \<le> sent_number (sc_csn_pair (cm_server (isg_common i))) + 2"
    by (rule initiator_joins [OF laws s(1) to_i(2-5)])
  have "unat (isg_responder_counter j) \<le> unat (isg_responder_counter i) + length rs"
    unfolding j(5) by (rule unat_add_of_nat_le)
  then have room: "Suc (unat (isg_responder_counter j)) < 2 ^ 32" using suits by (simp add: suits_def)
  have new: "announces_responder E k (isg_common j) (bb_nonce ai) a ni"
    using to_i(6) j(4) by (simp add: announces_responder_def same_client_def)
  obtain r' i' where i': "handle_message E ni (SignalingInitiator j) = (Ok [], SignalingInitiator i')"
    "welcomes E (isg_common j) a (isg_responder_counter j) (cm_entropy (isg_common j)) r'"
    "hm_get (isg_responders i') a = Some r'" "knows (isg_common i') (insert a (set rs)) (isg_responders i')"
    "isg_common i' = (heard ClientInitiator (bb_nonce ni) (isg_common j))\<lparr>cm_entropy := cm_entropy (isg_common j) + 3\<rparr>"
    by (rule new_responder_step [OF laws(1) j(3) new s(2,3) room])
  have key: "trusted_key (isg_common i) = trusted_key (isg_common j)" using j(4) by (simp add: trusted_key_def same_client_def)
  have "r' = r" using welcomes_unique [OF i'(2), of "isg_common i"] suits key by (simp add: suits_def j(5,6))
  have same: "same_client (isg_common i) (isg_common i')" "joined k ClientInitiator (isg_common i')"
    "sc_csn_pair (cm_server (isg_common i')) = (sc_csn_pair (cm_server (isg_common j)))\<lparr>csn_theirs := Some (nonce_csn (bb_nonce ni))\<rparr>"
    using j(3,4) by (simp_all add: i'(5) same_client_def heard_def hosting_def joined_def)
  have "drops_fit E (dropped E a i') (isg_common i')"
    using suits j(7) same s(4)
    by (intro drops_fit_others [OF laws(2) i'(4) same(2)]) (simp_all add: same_client_def suits_def sent_number_def)
  moreover have "keys_fit E i' q r" "tasks_fit E i' q r t u" "introduced E i' q r"
    using s(5-7) by (simp_all add: fits_transfer [OF same(1) q(1,2)])
  moreover have "rc_address r = a" using welcomes_expected [OF i'(2)] \<open>r' = r\<close> by (simp add: expected_def)
  then have "meeting a i' q r" using s(2) same(2) i'(3) q(3) \<open>r' = r\<close> by (simp add: meeting_def joined_def)
  moreover have "accepts E to_i (SignalingInitiator i) = Some (acts @ ?done, SignalingInitiator i')"
    using accepts_append [of E "[hi, ai]" "[ni]"] j(1) i'(1) by (simp add: to_i(1))
  ultimately show thesis using that j(2) by (simp add: partners_def)
qed

section \<open>From two new clients to an open channel\<close>

definition start_node :: "'t signaling \<Rightarrow> byte_box list \<Rightarrow> ('t, 'v) node" where
  "start_node s bs = \<lparr>nd_signaling = s, nd_inbox = bs, nd_got = [], nd_actions = []\<rparr>"

text \<open>
  The loop of \<open>do_handshake\<close>, started with a client in the state \<open>s\<close>, completes on the messages of a
  node, sends the answers and events that belong to them, and leaves the client in the state of
  the node.
\<close>

definition loop_follows :: "('t, 'v, 'z) env_scheme \<Rightarrow> 't signaling \<Rightarrow> ('t, 'v) node \<Rightarrow> bool" where
  "loop_follows E s n \<longleftrightarrow> (\<forall>hs ts timeout. hs_signaling hs = s \<longrightarrow> \<not> sh_poisoned (hs_shared hs) \<longrightarrow>
     list_all2 (arrives E) ts (nd_got n) \<longrightarrow>
     do_handshake E timeout ts hs = (HandshakeCompleted, looped E (nd_actions n) (nd_signaling n) hs))"

lemma loop_followsI:
  assumes "accepts E bs s = Some (acts, t)" "handle_message E b t = (Ok acts', nd_signaling n)"
    and "nd_got n = bs @ [b]" "nd_actions n = acts @ acts'" "list_all harmless (acts @ acts')"
    and "HandshakeDone \<notin> set acts" "HandshakeDone \<in> set acts'"
  shows "loop_follows E s n"
  unfolding loop_follows_def assms(3,4)
  using loop_completes [of E bs _ acts t b acts' "nd_signaling n"] assms by blast

lemma for_server_harmless: "for_server acts \<Longrightarrow> list_all harmless acts \<and> HandshakeDone \<notin> set acts"
  by (induction acts) (auto simp: for_server_def harmless_def split: handle_action.splits)

lemma plain_harmless: "list_all is_reply_or_event acts \<Longrightarrow> list_all harmless acts \<and> HandshakeDone \<notin> set acts"
proof (induction acts)
  case (Cons a acts)
  then show ?case by (cases a) (auto simp: harmless_def)
qed simp

lemma announce_plain: "introduction E p = (Ok acts, q) \<Longrightarrow> list_all is_reply_or_event acts"
  by (auto simp: introduction_def announce_def send_token_and_key_def send_token_def send_key_def ok_iffs
      split: option.splits auth_provider.splits)

lemma left_run:
  assumes "accepts E bs s = Some (acts, s')"
  shows "(net_step E)\<^sup>*\<^sup>* (\<lparr>nd_signaling = s, nd_inbox = bs @ cs, nd_got = g, nd_actions = as\<rparr>, m)
    (\<lparr>nd_signaling = s', nd_inbox = cs, nd_got = g @ bs, nd_actions = as @ acts\<rparr>, m\<lparr>nd_inbox := nd_inbox m @ relayed acts\<rparr>)"
  using handle_left [of E bs "\<lparr>nd_signaling = s, nd_inbox = bs @ cs, nd_got = g, nd_actions = as\<rparr>" acts s' m] assms
  by (simp add: handled_def sent_to_def)

lemma right_run:
  assumes "accepts E bs s = Some (acts, s')"
  shows "(net_step E)\<^sup>*\<^sup>* (m, \<lparr>nd_signaling = s, nd_inbox = bs @ cs, nd_got = g, nd_actions = as\<rparr>)
    (m\<lparr>nd_inbox := nd_inbox m @ relayed acts\<rparr>, \<lparr>nd_signaling = s', nd_inbox = cs, nd_got = g @ bs, nd_actions = as @ acts\<rparr>)"
  using handle_right [of E bs "\<lparr>nd_signaling = s, nd_inbox = bs @ cs, nd_got = g, nd_actions = as\<rparr>" acts s' m] assms
  by (simp add: handled_def sent_to_def)

text \<open>One order of events: first the server's messages, then the messages of the peers in turn.\<close>

lemma relayed_event: "relayed (as @ [ActionEvent e]) = relayed as"
  by (simp add: relayed_def map_filter_def)

lemma sequential_run:
  assumes i: "accepts E to_i s = Some (as, s1)" "relayed as = []"
    and r: "accepts E to_r q = Some (bs, q1)"
    and 1: "accepts E (relayed bs) s1 = Some ([Reply b1], s2)" "nonce_destination (bb_nonce b1) \<noteq> 0"
    and 2: "handle_message E b1 q1 = (Ok [Reply b2], q2)" "nonce_destination (bb_nonce b2) \<noteq> 0"
    and 3: "handle_message E b2 s2 = (Ok cs, s3)" "relayed cs = [b3]"
    and 4: "handle_message E b3 q2 = (Ok [HandshakeDone], q3)"
  shows "(net_step E)\<^sup>*\<^sup>* (start_node s to_i, start_node q to_r)
    (\<lparr>nd_signaling = s3, nd_inbox = [], nd_got = to_i @ relayed bs @ [b2], nd_actions = as @ [Reply b1] @ cs\<rparr>,
     \<lparr>nd_signaling = q3, nd_inbox = [], nd_got = to_r @ [b1] @ [b3], nd_actions = bs @ [Reply b2] @ [HandshakeDone]\<rparr>)"
proof -
  let ?N = "\<lambda>s i g a. \<lparr>nd_signaling = s, nd_inbox = i, nd_got = g, nd_actions = a\<rparr>"
  have "(net_step E)\<^sup>*\<^sup>* (start_node s to_i, start_node q to_r) (?N s1 [] to_i as, ?N q to_r [] [])"
    using left_run [OF i(1), of "[]" "[]" "[]" "?N q to_r [] []"] i(2) by (simp add: start_node_def)
  also have "(net_step E)\<^sup>*\<^sup>* \<dots> (?N s1 (relayed bs) to_i as, ?N q1 [] to_r bs)"
    using right_run [OF r, of "?N s1 [] to_i as" "[]" "[]" "[]"] by simp
  also have "(net_step E)\<^sup>*\<^sup>* \<dots> (?N s2 [] (to_i @ relayed bs) (as @ [Reply b1]), ?N q1 [b1] to_r bs)"
    using left_run [OF 1(1), of "[]" to_i as "?N q1 [] to_r bs"] 1(2) by (simp add: relayed_simps)
  also have "(net_step E)\<^sup>*\<^sup>* \<dots> (?N s2 [b2] (to_i @ relayed bs) (as @ [Reply b1]), ?N q2 [] (to_r @ [b1]) (bs @ [Reply b2]))"
    using right_run [of E "[b1]" q1 "[Reply b2]" q2 "?N s2 [] (to_i @ relayed bs) (as @ [Reply b1])" "[]" to_r bs] 2
    by (simp add: relayed_simps)
  also have "(net_step E)\<^sup>*\<^sup>* \<dots> (?N s3 [] (to_i @ relayed bs @ [b2]) (as @ [Reply b1] @ cs), ?N q2 [b3] (to_r @ [b1]) (bs @ [Reply b2]))"
    using left_run [of E "[b2]" s2 cs s3 "[]" "to_i @ relayed bs" "as @ [Reply b1]" "?N q2 [] (to_r @ [b1]) (bs @ [Reply b2])"] 3
    by simp
  also have "(net_step E)\<^sup>*\<^sup>* \<dots> (?N s3 [] (to_i @ relayed bs @ [b2]) (as @ [Reply b1] @ cs),
      ?N q3 [] (to_r @ [b1] @ [b3]) (bs @ [Reply b2] @ [HandshakeDone]))"
    using right_run [of E "[b3]" q2 "[HandshakeDone]" q3 "?N s3 [] (to_i @ relayed bs @ [b2]) (as @ [Reply b1] @ cs)" "[]"
        "to_r @ [b1]" "bs @ [Reply b2]"] 4 by (simp add: relayed_simps)
  finally show ?thesis .
qed

lemma sequential_loops:
  assumes "accepts E to_i s = Some (as, s1)" "accepts E to_r q = Some (bs, q1)"
    and "accepts E (relayed bs) s1 = Some ([Reply b1], s2)" "handle_message E b1 q1 = (Ok [Reply b2], q2)"
    and "handle_message E b2 s2 = (Ok (cs @ [HandshakeDone]), s3)" "handle_message E b3 q2 = (Ok [HandshakeDone], q3)"
    and "list_all harmless (as @ bs @ cs)" "HandshakeDone \<notin> set as" "HandshakeDone \<notin> set bs"
    and n: "nd_signaling n = s3" "nd_got n = to_i @ relayed bs @ [b2]" "nd_actions n = as @ [Reply b1] @ cs @ [HandshakeDone]"
    and m: "nd_signaling m = q3" "nd_got m = to_r @ [b1] @ [b3]" "nd_actions m = bs @ [Reply b2] @ [HandshakeDone]"
  shows "loop_follows E s n" "loop_follows E q m"
proof -
  have "accepts E (to_i @ relayed bs) s = Some (as @ [Reply b1], s2)" using assms(1,3) by (simp add: accepts_append)
  from loop_followsI [OF this, of b2 "cs @ [HandshakeDone]" n] show "loop_follows E s n"
    using assms(5,7,8) n by (simp add: harmless_def)
  have "accepts E (to_r @ [b1]) q = Some (bs @ [Reply b2], q2)" using assms(2,4) by (simp add: accepts_append)
  from loop_followsI [OF this, of b3 "[HandshakeDone]" m] show "loop_follows E q m"
    using assms(6,7,9) m by (simp add: harmless_def)
qed

text \<open>Two clients that suit each other get to the end.\<close>

lemma clients_run:
  assumes laws: "random_laws E" "order_laws E" "from_slice_laws E"
    and suits: "suits E a i p rs r t u" and serves: "serves_both E a i p rs to_i to_r" and room: "room \<le> 2 ^ 47"
  obtains n m i' p' where
    "(net_step E)\<^sup>*\<^sup>* (start_node (SignalingInitiator i) to_i, start_node (SignalingResponder p) to_r) (n, m)"
    "nd_inbox n = []" "nd_inbox m = []" "nd_signaling n = SignalingInitiator i'" "nd_signaling m = SignalingResponder p'"
    "linked E (SignalingInitiator i') (SignalingResponder p') room"
    "cm_task (isg_common i') = Some t" "cm_task (rsg_common p') = Some u"
    "loop_follows E (SignalingInitiator i) n" "loop_follows E (SignalingResponder p) m"
proof -
  obtain k hr mr ar where to_r: "to_r = [hr, ar]" "greets E k (rsg_common p) hr" "admits E k (rsg_common p) (bb_nonce hr) a mr ar"
    "informs E a mr (SignalingResponder p)" "sa_initiator_connected mr = Some True"
    using serves unfolding serves_both_def by blast
  have "awaits_server (rsg_common p)" "strangers r (rsg_initiator p)" using suits by (simp_all add: suits_def)
  obtain as q where q: "for_server as" "same_client (rsg_common p) (rsg_common q)" "rsg_initiator q = rsg_initiator p"
    "cm_identity (rsg_common q) = ClientResponder a" "cm_signaling_state (rsg_common q) = ServerHandshake"
    "\<And>acts q'. introduction E q = (Ok acts, q') \<Longrightarrow> accepts E [hr, ar] (SignalingResponder p) =
      Some (as @ acts @ [ActionEvent (ServerHandshakeDone True)], SignalingResponder q')"
    by (rule responder_joins [OF laws(3) \<open>awaits_server _\<close> to_r(2-5)]) blast
  obtain bs j where j: "accepts E to_i (SignalingInitiator i) = Some (bs @ [ActionEvent (ServerHandshakeDone (rs = []))], SignalingInitiator j)"
    "for_server bs" "partners E a j q r t u" "introduced E j q r"
    by (rule initiator_ready [OF laws suits serves q(2-4)])
  obtain acts p1 b1 i2 b2 p2 acts3 b3 i3 p3 where run: "introduction E q = (Ok acts, p1)"
    "accepts E (relayed acts) (SignalingInitiator j) = Some ([Reply b1], SignalingInitiator i2)"
    "handle_message E b1 (SignalingResponder p1) = (Ok [Reply b2], SignalingResponder p2)"
    "handle_message E b2 (SignalingInitiator i2) = (Ok (acts3 @ [Reply b3, HandshakeDone]), SignalingInitiator i3)"
    "handle_message E b3 (SignalingResponder p2) = (Ok [HandshakeDone], SignalingResponder p3)"
    "for_server acts3" "nonce_destination (bb_nonce b1) \<noteq> 0" "nonce_destination (bb_nonce b2) \<noteq> 0"
    "nonce_destination (bb_nonce b3) \<noteq> 0" "linked E (SignalingInitiator i3) (SignalingResponder p3) room"
    "cm_task (isg_common i3) = Some t" "cm_task (rsg_common p3) = Some u"
    using handshake_run [OF j(3) _ j(4) _ room] q(3,5) \<open>strangers r _\<close> by auto
  let ?bs = "bs @ [ActionEvent (ServerHandshakeDone (rs = []))]" and ?as = "as @ acts @ [ActionEvent (ServerHandshakeDone True)]"
  let ?cs = "acts3 @ [Reply b3]"
  have rel: "relayed ?bs = []" "relayed ?as = relayed acts" "relayed (?cs @ [HandshakeDone]) = [b3]"
    using for_server_relayed q(1) j(2) run(6,9) relayed_event [of "as @ acts"] by (simp_all add: relayed_event relayed_append relayed_simps)
  define n where "n = \<lparr>nd_signaling = SignalingInitiator i3, nd_inbox = [], nd_got = to_i @ relayed ?as @ [b2],
    nd_actions = ?bs @ [Reply b1] @ ?cs @ [HandshakeDone]\<rparr>"
  define m where "m = \<lparr>nd_signaling = SignalingResponder p3, nd_inbox = [], nd_got = to_r @ [b1] @ [b3],
    nd_actions = ?as @ [Reply b2] @ [HandshakeDone]\<rparr>"
  have cs: "handle_message E b2 (SignalingInitiator i2) = (Ok (?cs @ [HandshakeDone]), SignalingInitiator i3)" using run(4) by simp
  note r = q(6) [OF run(1), folded to_r(1)] and m1 = run(2) [folded rel(2)]
  have plain: "list_all harmless (?bs @ ?as @ ?cs)" "HandshakeDone \<notin> set ?bs" "HandshakeDone \<notin> set ?as"
    using for_server_harmless q(1) j(2) run(6) plain_harmless [OF announce_plain [OF run(1)]] by (auto simp: harmless_def)
  have "(net_step E)\<^sup>*\<^sup>* (start_node (SignalingInitiator i) to_i, start_node (SignalingResponder p) to_r) (n, m)"
    using sequential_run [OF j(1) rel(1) r m1 run(7,3,8) cs rel(3) run(5)] by (simp add: n_def m_def)
  moreover have "loop_follows E (SignalingInitiator i) n" "loop_follows E (SignalingResponder p) m"
    by (rule sequential_loops [OF j(1) r m1 run(3) cs run(5) plain, of n m]; simp add: n_def m_def)+
  ultimately show thesis using that run(10-12) by (simp add: n_def m_def)
qed

text \<open>
  C3. Two new clients that suit each other and an honest server between them: whatever the order
  in which the clients take their messages, every message is accepted, no run is longer than
  the others, and all end in the same state. Both clients are then in the task phase with the task they
  share and are linked, so that the channel between them is open; and the handshake loop of
  either client, run on the messages it got, has completed and has sent the answers and events.
\<close>

theorem clients_meet:
  assumes laws: "random_laws E" "order_laws E" "from_slice_laws E"
    and suits: "suits E a i p rs r t u" and serves: "serves_both E a i p rs to_i to_r" and room: "room \<le> 2 ^ 47"
    and start: "x = (start_node (SignalingInitiator i) to_i, start_node (SignalingResponder p) to_r)"
  shows "\<exists>steps n m i' p'.
    (\<forall>k y. (net_step E ^^ k) x y \<longrightarrow> k \<le> steps \<and> (net_step E ^^ (steps - k)) y (n, m)) \<and>
    nd_inbox n = [] \<and> nd_inbox m = [] \<and> nd_signaling n = SignalingInitiator i' \<and> nd_signaling m = SignalingResponder p' \<and>
    linked E (SignalingInitiator i') (SignalingResponder p') room \<and>
    cm_task (isg_common i') = Some t \<and> cm_task (rsg_common p') = Some u \<and>
    loop_follows E (SignalingInitiator i) n \<and> loop_follows E (SignalingResponder p) m"
proof -
  obtain n m i' p' where run: "(net_step E)\<^sup>*\<^sup>* x (n, m)" "nd_inbox n = []" "nd_inbox m = []"
    "nd_signaling n = SignalingInitiator i'" "nd_signaling m = SignalingResponder p'"
    "linked E (SignalingInitiator i') (SignalingResponder p') room"
    "cm_task (isg_common i') = Some t" "cm_task (rsg_common p') = Some u"
    "loop_follows E (SignalingInitiator i) n" "loop_follows E (SignalingResponder p) m"
    by (rule clients_run [OF laws suits serves room, folded start])
  then obtain steps where "(net_step E ^^ steps) x (n, m)" using rtranclp_imp_relpowp by metis
  note all = net.every_run_ends [OF this net_stuck [OF run(2,3)]]
  then show ?thesis using run(2-)
    by (intro exI [of _ steps] exI [of _ n] exI [of _ m] exI [of _ i'] exI [of _ p']) simp
qed

text \<open>The scenario, with the initiator alone on the path at first.\<close>

definition first_initiator :: "string initiator_signaling" where
  "first_initiator = (case scenario_initiator of SignalingInitiator i \<Rightarrow> i)"

definition second_responder :: "string responder_signaling" where
  "second_responder = (case scenario_responder of SignalingResponder p \<Rightarrow> p)"

definition lonely_auth :: server_auth where
  "lonely_auth = \<lparr>sa_your_cookie = count_up 1, sa_signed_keys = Some (replicate 16 0 @ scenario_key 4 @ scenario_key 3),
     sa_responders = Some [], sa_initiator_connected = None\<rparr>"

definition company_auth :: server_auth where
  "company_auth = \<lparr>sa_your_cookie = count_up 21, sa_signed_keys = None, sa_responders = None,
     sa_initiator_connected = Some True\<rparr>"

definition welcomed :: responder_context where
  "welcomed = (case responder_context_new scenario_env 2 (isg_responder_counter first_initiator)
       (cm_entropy (isg_common first_initiator)) of
     (Ok q :: (signaling_error, _) outcome, _) \<Rightarrow>
       q\<lparr>rc_permanent_key := Some (scenario_key 5), rc_handshake_state := ResponderTokenReceived\<rparr>)"

lemma first_serves:
  "greets scenario_env (sample_key_pair 4) (isg_common first_initiator) server_hello_box"
  "admits scenario_env (sample_key_pair 4) (isg_common first_initiator) (bb_nonce server_hello_box) 1 lonely_auth (server_box 1 6 14)"
  "informs scenario_env 1 lonely_auth (SignalingInitiator first_initiator)"
  "announces_responder scenario_env (sample_key_pair 4) (isg_common first_initiator) (bb_nonce (server_box 1 6 14)) 2 (server_box 1 7 15)"
proof -
  let ?c = "isg_common first_initiator" and ?b = "server_box 1 6 14"
  show "greets scenario_env (sample_key_pair 4) ?c server_hello_box" by code_simp
  have facts: "nonce_source (bb_nonce ?b) = 0" "nonce_destination (bb_nonce ?b) = 1"
    "nonce_cookie (bb_nonce ?b) = nonce_cookie (bb_nonce server_hello_box)"
    "nonce_csn (bb_nonce server_hello_box) < nonce_csn (bb_nonce ?b)" "carried scenario_env (ServerAuth lonely_auth)"
    "open_box_encrypt scenario_env (open_box_new (ServerAuth lonely_auth) (bb_nonce ?b)) (sample_key_pair 4)
       (public_key (cm_permanent_keypair ?c)) = (Ok ?b :: (signaling_error, _) outcome)"
    "sa_your_cookie lonely_auth = cookie_ours (sc_cookie_pair (cm_server ?c))"
    "length (public_key (sample_key_pair 4)) = 32" "length (public_key (cm_permanent_keypair ?c)) = 32" by code_simp+
  have signed: "sc_permanent_key (cm_server ?c) = Some (public_key (sample_key_pair 6))"
    "unsigned_keys_sign scenario_env \<lparr>server_public_session_key = public_key (sample_key_pair 4),
       client_public_permanent_key = public_key (cm_permanent_keypair ?c)\<rparr> (sample_key_pair 6)
       (public_key (cm_permanent_keypair ?c)) (bb_nonce ?b) = Ok (the (sa_signed_keys lonely_auth))"
    "sa_signed_keys lonely_auth = Some (the (sa_signed_keys lonely_auth))" by code_simp+
  then have "signs scenario_env (sample_key_pair 4) ?c lonely_auth (bb_nonce ?b) (public_key (sample_key_pair 6))"
    unfolding signs_def using scenario_box_correct by blast
  then show "admits scenario_env (sample_key_pair 4) ?c (bb_nonce server_hello_box) 1 lonely_auth ?b"
    unfolding admits_def Let_def using facts signed(1) scenario_box_correct by auto
  have "isg_responders first_initiator = hm_empty" "isg_responder_counter first_initiator < 4294967295" by code_simp+
  then show "informs scenario_env 1 lonely_auth (SignalingInitiator first_initiator)"
    by (simp add: lonely_auth_def word_less_nat_alt)
  have "nonce_source (bb_nonce (server_box 1 7 15)) = 0" "nonce_destination (bb_nonce (server_box 1 7 15)) = 1"
    "nonce_cookie (bb_nonce (server_box 1 7 15)) = nonce_cookie (bb_nonce ?b)"
    "nonce_csn (bb_nonce ?b) < nonce_csn (bb_nonce (server_box 1 7 15))" "carried scenario_env (NewResponder 2)"
    "open_box_encrypt scenario_env (open_box_new (NewResponder 2) (bb_nonce (server_box 1 7 15))) (sample_key_pair 4)
       (public_key (cm_permanent_keypair ?c)) = (Ok (server_box 1 7 15) :: (signaling_error, _) outcome)" by code_simp+
  then show "announces_responder scenario_env (sample_key_pair 4) ?c (bb_nonce ?b) 2 (server_box 1 7 15)"
    unfolding announces_responder_def Let_def using scenario_box_correct by blast
qed

lemma second_serves:
  "greets scenario_env (sample_key_pair 4) (rsg_common second_responder) server_hello_box"
  "admits scenario_env (sample_key_pair 4) (rsg_common second_responder) (bb_nonce server_hello_box) 2 company_auth (server_box 2 6 6)"
  "informs scenario_env 2 company_auth (SignalingResponder second_responder)"
proof -
  let ?c = "rsg_common second_responder" and ?b = "server_box 2 6 6"
  show "greets scenario_env (sample_key_pair 4) ?c server_hello_box" by code_simp
  have facts: "nonce_source (bb_nonce ?b) = 0" "nonce_destination (bb_nonce ?b) = 2"
    "nonce_cookie (bb_nonce ?b) = nonce_cookie (bb_nonce server_hello_box)"
    "nonce_csn (bb_nonce server_hello_box) < nonce_csn (bb_nonce ?b)" "carried scenario_env (ServerAuth company_auth)"
    "open_box_encrypt scenario_env (open_box_new (ServerAuth company_auth) (bb_nonce ?b)) (sample_key_pair 4)
       (public_key (cm_permanent_keypair ?c)) = (Ok ?b :: (signaling_error, _) outcome)"
    "sa_your_cookie company_auth = cookie_ours (sc_cookie_pair (cm_server ?c))"
    "length (public_key (sample_key_pair 4)) = 32" "length (public_key (cm_permanent_keypair ?c)) = 32"
    "sc_permanent_key (cm_server ?c) = None" by code_simp+
  then show "admits scenario_env (sample_key_pair 4) ?c (bb_nonce server_hello_box) 2 company_auth ?b"
    unfolding admits_def Let_def using scenario_box_correct by auto
  have "is_responder 2" "cm_auth_provider ?c \<noteq> None" "auth_token_of ?c = None"
    "carried scenario_env (Key (public_key (ic_keypair (rsg_initiator second_responder))))"
    "combined_sequence_number (csn_ours (ic_csn_pair (rsg_initiator second_responder))) < 4294967295" by code_simp+
  then show "informs scenario_env 2 company_auth (SignalingResponder second_responder)"
    by (simp add: company_auth_def sent_number_def word_less_nat_alt)
qed

lemma scenario_serves:
  "serves_both scenario_env 2 first_initiator second_responder [] [server_hello_box, server_box 1 6 14, server_box 1 7 15]
     [server_hello_box, server_box 2 6 6]"
proof -
  have "sa_responders lonely_auth = Some []" "sa_initiator_connected company_auth = Some True"
    by (simp_all add: lonely_auth_def company_auth_def)
  with first_serves second_serves show ?thesis unfolding serves_both_def by blast
qed

lemma scenario_awaits_both:
  "awaits_server (isg_common first_initiator)" "awaits_server (rsg_common second_responder)"
proof -
  have new: "cm_signaling_state c = ServerHandshake \<and> cm_identity c = ClientUnknown \<and> sc_handshake_state (cm_server c) = ServerNew \<and>
      sc_session_key (cm_server c) = None \<and> csn_theirs (sc_csn_pair (cm_server c)) = None \<and>
      cookie_theirs (sc_cookie_pair (cm_server c)) = None \<and>
      combined_sequence_number (csn_ours (sc_csn_pair (cm_server c))) < 4294967295 \<Longrightarrow> awaits_server c" for c :: "string common"
    by (simp add: awaits_server_def Let_def sent_number_def word_less_nat_alt)
  show "awaits_server (isg_common first_initiator)" by (rule new) code_simp
  show "awaits_server (rsg_common second_responder)" by (rule new) code_simp
qed

lemma scenario_welcomes:
  "welcomes scenario_env (isg_common first_initiator) 2 (isg_responder_counter first_initiator)
     (cm_entropy (isg_common first_initiator)) welcomed"
proof -
  have law: "random_laws scenario_env" unfolding scenario_env_def by (rule sample_env_laws)
  obtain q where q: "responder_context_new scenario_env 2 (isg_responder_counter first_initiator) (cm_entropy (isg_common first_initiator)) =
      (Ok q :: (signaling_error, _) outcome, cm_entropy (isg_common first_initiator) + 3)"
    using responder_drawn [OF law] by blast
  moreover have "trusted_key (isg_common first_initiator) = Some (scenario_key 5)" by code_simp
  moreover have "welcomed = q\<lparr>rc_permanent_key := Some (scenario_key 5), rc_handshake_state := ResponderTokenReceived\<rparr>"
    unfolding welcomed_def q by simp
  ultimately show ?thesis by (simp add: welcomes_def)
qed

lemma scenario_fits:
  "keys_fit scenario_env first_initiator second_responder welcomed"
  "tasks_fit scenario_env first_initiator second_responder welcomed ''t'' ''t''"
  "strangers welcomed (rsg_initiator second_responder)" "introduced scenario_env first_initiator second_responder welcomed"
proof -
  let ?i = first_initiator and ?p = second_responder and ?r = welcomed
  show "keys_fit scenario_env ?i ?p ?r"
    unfolding keys_fit_def Let_def by (intro conjI scenario_box_correct) code_simp+
  have "proposal scenario_env [''t''] (cookie_ours (rc_cookie_pair ?r)) = Ok \<lparr>au_your_cookie = count_up 4,
      au_tasks = Some [''t''], au_task = None, au_data = [(''t'', None)]\<rparr>"
    "carried scenario_env (Auth \<lparr>au_your_cookie = count_up 4, au_tasks = Some [''t''], au_task = None, au_data = [(''t'', None)]\<rparr>)"
    "cm_tasks (isg_common ?i) = Some [''t'']" "cm_tasks (rsg_common ?p) = Some [''t'']"
    "choose_shared_task scenario_env [''t''] (map (task_name scenario_env) [''t'']) = Some ''t''"
    "find (\<lambda>x. task_name scenario_env x = task_name scenario_env ''t'') [''t''] = Some ''t''"
    "task_init scenario_env ''t'' (task_data scenario_env ''t'') = (Ok (), ''t'')"
    "carried scenario_env (Auth (chosen_auth scenario_env (cookie_ours (ic_cookie_pair (rsg_initiator ?p))) ''t''))"
    "distinct (map (task_name scenario_env) [''t''])" by code_simp+
  then show "tasks_fit scenario_env ?i ?p ?r ''t'' ''t''"
    unfolding tasks_fit_def by (intro exI [of _ "[''t'']"] exI [of _ "''t''"]) auto
  have "combined_sequence_number (csn_ours (rc_csn_pair ?r)) < 4294967295"
    "combined_sequence_number (csn_ours (ic_csn_pair (rsg_initiator ?p))) < 4294967295"
    "cookie_ours (rc_cookie_pair ?r) \<noteq> cookie_ours (ic_cookie_pair (rsg_initiator ?p))"
    "csn_theirs (rc_csn_pair ?r) = None" "cookie_theirs (rc_cookie_pair ?r) = None"
    "csn_theirs (ic_csn_pair (rsg_initiator ?p)) = None" "cookie_theirs (ic_cookie_pair (rsg_initiator ?p)) = None"
    "rc_session_key ?r = None" "ic_session_key (rsg_initiator ?p) = None" by code_simp+
  then show "strangers ?r (rsg_initiator ?p)" by (simp add: strangers_def sent_number_def word_less_nat_alt)
  have "cm_auth_provider (rsg_common ?p) = Some (AuthProviderTrustedKey (scenario_key 3))"
    "rc_handshake_state ?r = ResponderTokenReceived"
    "rc_permanent_key ?r = Some (public_key (cm_permanent_keypair (rsg_common ?p)))" by code_simp+
  then show "introduced scenario_env ?i ?p ?r" by (simp add: introduced_def Let_def)
qed

lemma scenario_suits: "suits scenario_env 2 first_initiator second_responder [] welcomed ''t'' ''t''"
proof -
  have "cm_role (isg_common first_initiator) = RoleInitiator" "is_responder 2" "isg_responder_counter first_initiator < 4294967295"
    "combined_sequence_number (csn_ours (sc_csn_pair (cm_server (isg_common first_initiator)))) < 4294967295" by code_simp+
  then show ?thesis
    using scenario_awaits_both scenario_welcomes scenario_fits by (simp add: suits_def sent_number_def word_less_nat_alt)
qed

theorem clients_meet_witness:
  "\<exists>steps n m i' p'.
    (\<forall>k y. (net_step scenario_env ^^ k)
        (start_node (SignalingInitiator first_initiator) [server_hello_box, server_box 1 6 14, server_box 1 7 15],
         start_node (SignalingResponder second_responder) [server_hello_box, server_box 2 6 6]) y \<longrightarrow>
      k \<le> steps \<and> (net_step scenario_env ^^ (steps - k)) y (n, m)) \<and>
    nd_inbox n = [] \<and> nd_inbox m = [] \<and> nd_signaling n = SignalingInitiator i' \<and> nd_signaling m = SignalingResponder p' \<and>
    linked scenario_env (SignalingInitiator i') (SignalingResponder p') 1000000 \<and>
    cm_task (isg_common i') = Some ''t'' \<and> cm_task (rsg_common p') = Some ''t'' \<and>
    loop_follows scenario_env (SignalingInitiator first_initiator) n \<and> loop_follows scenario_env (SignalingResponder second_responder) m"
proof -
  have laws: "random_laws scenario_env" "order_laws scenario_env" "from_slice_laws scenario_env"
    unfolding scenario_env_def by (rule sample_env_laws sample_order_laws)+
  show ?thesis by (rule clients_meet [OF laws scenario_suits scenario_serves _ refl]) simp
qed

end
