(* ===== verification/Chat_Task.thy ===== *)
theory Chat_Task
  imports Channel Task_Loop
begin

text \<open>
  The chat task of the example program (\<open>examples/chat/chat_task.rs\<close>), an implementation of
  the \<open>Task\<close> trait: text messages and changes of the nickname as maps, the nickname as task
  data. The ends of the channels are queues of what was sent through them; futures handed to
  the reactor with \<open>spawn\<close> are a queue of their own, because they run later.
\<close>

section \<open>Definitions\<close>

text \<open>What the task needs of MessagePack values beyond the parameters of the client.\<close>

record ('t, 'v) chat_env = "('t, 'v) env" +
  value_is_string :: "'v \<Rightarrow> bool"
  value_debug :: "'v \<Rightarrow> string"

definition TYPE_MSG :: string where "TYPE_MSG = ''msg''"
definition TYPE_NICK_CHANGE :: string where "TYPE_NICK_CHANGE = ''nick_change''"
definition KEY_TYPE :: string where "KEY_TYPE = ''type''"
definition KEY_TEXT :: string where "KEY_TEXT = ''text''"
definition KEY_NICK :: string where "KEY_NICK = ''nick''"

datatype chat_message = Msg string | NickChange string | Disconnect close_code

record 'v chat_task =
  ct_our_name :: string
  ct_peer_name :: "string option"
  ct_has_outgoing_tx :: bool
  ct_has_disconnect_tx :: bool
  ct_outgoing :: "'v task_message list"
  ct_spawned :: "chat_message list"
  ct_incoming :: "chat_message list"
  ct_disconnect :: "close_code option option"

definition chat_task_new :: "string \<Rightarrow> 'v chat_task" where
  "chat_task_new our_name =
     \<lparr>ct_our_name = our_name, ct_peer_name = None, ct_has_outgoing_tx = False, ct_has_disconnect_tx = False,
      ct_outgoing = [], ct_spawned = [], ct_incoming = [], ct_disconnect = None\<rparr>"

text \<open>
  Sending through the outgoing channel; \<open>open\<close> tells whether its receiver still exists, and
  \<open>gone\<close> is the text of the error otherwise.
\<close>

definition send_outgoing ::
  "bool \<Rightarrow> string \<Rightarrow> 'v task_message \<Rightarrow> ('v chat_task, string, unit) proc" where
  "send_outgoing is_open error msg =
     bindS (getS ct_has_outgoing_tx) (\<lambda>tx.
     if tx then
       thenS (guardS is_open error)
       (modifyS (ct_outgoing_update (\<lambda>ms. ms @ [msg])))
     else panicS ''outgoing_tx is None'')"

definition msg_entries :: "('t, 'v, 'z) env_scheme \<Rightarrow> string \<Rightarrow> (string, 'v) hashmap" where
  "msg_entries E msg =
     hm_insert KEY_TEXT (value_string E msg) (hm_insert KEY_TYPE (value_string E TYPE_MSG) hm_empty)"

definition send_msg ::
  "('t, 'v, 'z) env_scheme \<Rightarrow> bool \<Rightarrow> string \<Rightarrow> string \<Rightarrow> ('v chat_task, string, unit) proc" where
  "send_msg E is_open gone msg =
     send_outgoing is_open (''Could not send message: '' @ gone) (TaskValue (msg_entries E msg))"

definition change_nick ::
  "('t, 'v, 'z) env_scheme \<Rightarrow> bool \<Rightarrow> string \<Rightarrow> string \<Rightarrow> ('v chat_task, string, unit) proc" where
  "change_nick E is_open gone new_nick =
     (let entries = hm_insert KEY_NICK (value_string E new_nick)
                      (hm_insert KEY_TYPE (value_string E TYPE_NICK_CHANGE) hm_empty) in
      thenS (send_outgoing is_open (''Could not change nickname: '' @ gone) (TaskValue entries))
      (modifyS (ct_our_name_update (\<lambda>_. new_nick))))"

definition m_nickname_type :: "string \<Rightarrow> string" where
  "m_nickname_type val = ''The \"nickname\" field has the wrong type: '' @ val"

definition m_no_nickname :: string where
  "m_no_nickname = ''No \"nickname\" field in data passed to task initialization''"

definition chat_init ::
  "('t, 'v, 'z) chat_env_scheme \<Rightarrow> 'v task_data \<Rightarrow> ('v chat_task, string, unit) proc" where
  "chat_init E data =
     bindS (liftO
       (case data of
          Some entries \<Rightarrow>
            (case hm_get entries ''nickname'' of
               Some val \<Rightarrow>
                 if value_is_string E val
                 then Ok (case value_as_str E val of Some nickname \<Rightarrow> nickname | None \<Rightarrow> ''?'')
                 else Err (m_nickname_type (value_debug E val))
             | None \<Rightarrow> Err m_no_nickname)
        | None \<Rightarrow> Err ''No data passed to task initialization'')) (\<lambda>peer_name.
     modifyS (ct_peer_name_update (\<lambda>_. Some peer_name)))"

definition chat_start :: "('v chat_task, 'e, unit) proc" where
  "chat_start = modifyS (\<lambda>t. t\<lparr>ct_has_outgoing_tx := True, ct_has_disconnect_tx := True\<rparr>)"

text \<open>
  The closure that \<open>start\<close> runs for each incoming message; \<open>is_open\<close> tells whether the user
  still receives. The error ends the receiving future.
\<close>

definition chat_receive ::
  "('t, 'v, 'z) env_scheme \<Rightarrow> bool \<Rightarrow> 'v task_message \<Rightarrow> ('v chat_task, unit, unit) proc" where
  "chat_receive E is_open msg =
     (case msg of
        TaskApplication data \<Rightarrow> returnS ()
      | TaskClose reason \<Rightarrow>
          thenS (guardS is_open ())
          (modifyS (ct_incoming_update (\<lambda>ms. ms @ [Disconnect reason])))
      | TaskValue entries \<Rightarrow>
          (case hm_get entries KEY_TYPE of
             None \<Rightarrow> panicS ''Message is missing type''
           | Some msg_type_val \<Rightarrow>
               (case value_as_str E msg_type_val of
                  None \<Rightarrow> panicS ''Message type is not a string''
                | Some msg_type \<Rightarrow>
                    if msg_type = TYPE_MSG then
                      (case Option.bind (hm_get entries KEY_TEXT) (value_as_str E) of
                         Some text \<Rightarrow> modifyS (ct_spawned_update (\<lambda>ms. ms @ [Msg text]))
                       | None \<Rightarrow> returnS ())
                    else if msg_type = TYPE_NICK_CHANGE then
                      (case Option.bind (hm_get entries KEY_NICK) (value_as_str E) of
                         Some nick \<Rightarrow>
                           thenS (modifyS (ct_peer_name_update (\<lambda>_. Some nick)))
                           (modifyS (ct_spawned_update (\<lambda>ms. ms @ [NickChange nick])))
                       | None \<Rightarrow> returnS ())
                    else returnS ())))"

definition chat_supported_types :: "string list" where
  "chat_supported_types = [TYPE_MSG, TYPE_NICK_CHANGE]"

definition chat_name :: string where
  "chat_name = ''v0.simplechat.tasks.saltyrtc.org''"

definition chat_data :: "('t, 'v, 'z) env_scheme \<Rightarrow> 'v chat_task \<Rightarrow> 'v task_data" where
  "chat_data E task = Some (hm_insert ''nickname'' (value_string E (ct_our_name task)) hm_empty)"

definition send_signaling_message :: "byte list \<Rightarrow> ('v chat_task, 'e, unit) proc" where
  "send_signaling_message payload =
     panicS ''send_signaling_message called even though task does not implement handover''"

definition chat_close :: "close_code \<Rightarrow> ('v chat_task, 'e, unit) proc" where
  "chat_close reason =
     bindS (getS ct_has_disconnect_tx) (\<lambda>tx.
     thenS (modifyS (ct_has_disconnect_tx_update (\<lambda>_. False)))
     (if tx then modifyS (ct_disconnect_update (\<lambda>_. Some (Some reason))) else returnS ()))"

section \<open>From one task to the other\<close>

text \<open>Constructors and accessors of MessagePack values, and the iteration order of a map.\<close>

definition value_laws :: "('t, 'v, 'z) env_scheme \<Rightarrow> bool" where
  "value_laws E \<longleftrightarrow> (\<forall>xs. value_as_map E (value_map E xs) = Some xs) \<and>
     (\<forall>x. value_as_str E (value_string E x) = Some x) \<and> (\<forall>xs. mset (entry_order E xs) = mset xs)"

lemma task_message_map_strings:
  assumes "value_laws E"
  shows "task_message_map E (map (\<lambda>(k, v). (value_string E k, v)) xs) m = Ok (fold (\<lambda>(k, v). hm_insert k v) xs m)"
  using assms by (induction xs arbitrary: m) (auto simp: value_laws_def)

lemma hm_get_fold_insert:
  "distinct (map fst xs) \<Longrightarrow>
     hm_get (fold (\<lambda>(k, v). hm_insert k v) xs m) j = (case map_of xs j of Some v \<Rightarrow> Some v | None \<Rightarrow> hm_get m j)"
proof (induction xs arbitrary: m)
  case (Cons x xs)
  moreover have "map_of xs j = None" if "j = fst x"
    using Cons.prems that by (simp add: map_of_eq_None_iff)
  ultimately show ?case by (cases x) (auto split: option.splits)
qed simp

lemma entry_order_get:
  assumes "value_laws E" "hm_wf m"
  shows "distinct (map fst (entry_order E m))" "map_of (entry_order E m) j = hm_get m j"
proof -
  have perm: "mset (entry_order E m) = mset m" using assms(1) by (simp add: value_laws_def)
  then have "mset (map fst (entry_order E m)) = mset (map fst m)" by (metis mset_map)
  with assms(2) show d: "distinct (map fst (entry_order E m))" by (metis hm_wf_def mset_eq_imp_distinct_iff)
  with perm assms(2) show "map_of (entry_order E m) j = hm_get m j"
    unfolding hm_get_def hm_wf_def by (metis map_of_inject_set set_mset_mset)
qed

lemma interpret_value_message:
  assumes laws: "value_laws E" "hm_wf entries" and ty: "hm_get entries ''type'' = Some (value_string E ty)"
    and "ty \<noteq> ''application''" "ty \<noteq> ''close''" "ty \<in> set types"
  shows "\<exists>m. interpret_task_message E (Some types) (value_message E entries) = Ok [ActionTaskMessage (TaskValue m)] \<and>
    (\<forall>k. hm_get m k = hm_get entries k)"
proof -
  define m where "m = fold (\<lambda>(k, v). hm_insert k v) (entry_order E entries) hm_empty"
  have get: "hm_get m k = hm_get entries k" for k
    unfolding m_def hm_get_fold_insert [OF entry_order_get(1) [OF laws]] entry_order_get(2) [OF laws]
    by (simp split: option.split)
  have "interpret_task_message E (Some types) (value_message E entries) = Ok [ActionTaskMessage (TaskValue m)]"
    using laws(1) ty assms(4-) get task_message_map_strings [OF laws(1), of "entry_order E entries" hm_empty]
    by (simp add: interpret_task_message_def value_message_def value_laws_def m_def [symmetric] list_ex_iff)
  with get show ?thesis by blast
qed

text \<open>
  A chat message arrives: what \<open>send_msg\<close> puts into the outgoing channel of one of two
  linked clients is encrypted, accepted and interpreted by the other one as a message that
  makes its chat task forward exactly the text to its user.
\<close>

theorem chat_message_arrives:
  assumes link: "linked E s t (Suc room)" and laws: "value_laws E"
    and types: "cm_task_supported_types (sig_common t) = Some chat_supported_types"
    and sent: "send_msg E is_open gone text task = (Ok (), task')"
    and codec: "rmps_to_vec_value E (value_message E (msg_entries E text)) = Inr bs"
      "rmps_from_slice_value E bs = Inr (value_message E (msg_entries E text))"
  shows "\<exists>entries bbox s' t' m. ct_outgoing task' = ct_outgoing task @ [TaskValue entries] \<and>
    encode_task_message E (value_message E entries) s = (Ok bbox, s') \<and>
    handle_message E bbox t = (Ok [ActionTaskMessage (TaskValue m)], t') \<and> linked E s' t' room \<and>
    chat_receive E is_open' (TaskValue m) peer_task =
      (Ok (), peer_task\<lparr>ct_spawned := ct_spawned peer_task @ [Msg text]\<rparr>)"
proof -
  let ?entries = "msg_entries E text"
  have wf: "hm_wf ?entries" unfolding msg_entries_def by (intro hm.wf_insert hm.wf_empty)
  have "\<exists>m. interpret_task_message E (Some chat_supported_types) (value_message E ?entries) =
      Ok [ActionTaskMessage (TaskValue m)] \<and> (\<forall>k. hm_get m k = hm_get ?entries k)"
    by (rule interpret_value_message [OF laws wf, of TYPE_MSG])
      (simp_all add: msg_entries_def KEY_TYPE_def KEY_TEXT_def TYPE_MSG_def chat_supported_types_def)
  then obtain m where m: "interpret_task_message E (Some chat_supported_types) (value_message E ?entries) =
      Ok [ActionTaskMessage (TaskValue m)]" "\<And>k. hm_get m k = hm_get ?entries k" by blast
  from linked_send [OF link codec] obtain bbox s' t' where
    "encode_task_message E (value_message E ?entries) s = (Ok bbox, s')"
    "handle_message E bbox t = (Ok [ActionTaskMessage (TaskValue m)], t')" "linked E s' t' room"
    using m(1) types by auto
  moreover have "ct_outgoing task' = ct_outgoing task @ [TaskValue ?entries]"
    using sent by (auto simp: send_msg_def send_outgoing_def ok_iffs split: if_splits)
  moreover have "chat_receive E is_open' (TaskValue m) peer_task =
      (Ok (), peer_task\<lparr>ct_spawned := ct_spawned peer_task @ [Msg text]\<rparr>)"
    using laws m(2)
    by (simp add: chat_receive_def value_laws_def msg_entries_def KEY_TYPE_def KEY_TEXT_def TYPE_MSG_def modifyS_def)
  ultimately show ?thesis by blast
qed

text \<open>The concrete clients, with the types of the chat task and an encoding of one message.\<close>

definition chat_value :: sample_value where
  "chat_value = SampleMap [(SampleString ''type'', SampleString ''msg''), (SampleString ''text'', SampleString ''hi'')]"

definition chat_scenario_env :: "(string, sample_value) env" where
  "chat_scenario_env = scenario_env
     \<lparr>rmps_to_vec_value := table_to_vec [(chat_value, [21])],
      rmps_from_slice_value := table_from_slice [(chat_value, [21])]\<rparr>"

primrec set_chat_types :: "'t signaling \<Rightarrow> 't signaling" where
  "set_chat_types (SignalingInitiator i) =
     SignalingInitiator (isg_common_update (cm_task_supported_types_update (\<lambda>_. Some chat_supported_types)) i)"
| "set_chat_types (SignalingResponder r) =
     SignalingResponder (rsg_common_update (cm_task_supported_types_update (\<lambda>_. Some chat_supported_types)) r)"

lemma chat_scenario_linked:
  "linked chat_scenario_env (snd initiator_finished) (set_chat_types (snd responder_finished)) 1"
proof (rule linkedI)
  have same: "box_correct chat_scenario_env = box_correct scenario_env"
    by (simp add: box_correct_def fun_eq_iff chat_scenario_env_def)
  show "box_correct chat_scenario_env k l" for k l
    unfolding same scenario_env_def by (rule sample_env_laws)
  then show "box_correct chat_scenario_env k l" for k l .
  show "let p = the (get_peer (snd initiator_finished)); q = the (get_peer (set_chat_types (snd responder_finished)));
      k = the (peer_keypair p); l = the (peer_keypair q) in
      task_side (snd initiator_finished) 1 2 p \<and> task_side (set_chat_types (snd responder_finished)) 2 1 q \<and>
      peer_keypair p = Some k \<and> peer_keypair q = Some l \<and>
      peer_session_key p = Some (public_key l) \<and> peer_session_key q = Some (public_key k) \<and> seen p q \<and> seen q p \<and>
      combined_sequence_number (csn_ours (peer_csn_pair p)) < 281474976710000 \<and>
      combined_sequence_number (csn_ours (peer_csn_pair q)) < 281474976710000"
    by code_simp
qed simp

theorem chat_message_arrives_witness:
  "\<exists>bbox s' t' m. handle_message chat_scenario_env bbox (set_chat_types (snd responder_finished)) =
     (Ok [ActionTaskMessage (TaskValue m)], t') \<and> linked chat_scenario_env s' t' 0 \<and>
     chat_receive chat_scenario_env True (TaskValue m) (chat_task_new ''bob'') =
       (Ok (), (chat_task_new ''bob'')\<lparr>ct_spawned := [Msg ''hi'']\<rparr>)"
proof -
  let ?task = "(chat_task_new ''alice'')\<lparr>ct_has_outgoing_tx := True\<rparr>"
  have laws: "value_laws chat_scenario_env"
    by (simp add: value_laws_def chat_scenario_env_def scenario_env_def sample_env_def sample_libs_def)
  have types: "cm_task_supported_types (sig_common (set_chat_types (snd responder_finished))) = Some chat_supported_types"
    by (cases "snd responder_finished") simp_all
  have sent: "send_msg chat_scenario_env True ''gone'' ''hi'' ?task =
      (Ok (), ?task\<lparr>ct_outgoing := [TaskValue (msg_entries chat_scenario_env ''hi'')]\<rparr>)"
    by (simp add: send_msg_def send_outgoing_def proc_defs chat_task_new_def)
  have codec: "rmps_to_vec_value chat_scenario_env (value_message chat_scenario_env (msg_entries chat_scenario_env ''hi'')) = Inr [21]"
    "rmps_from_slice_value chat_scenario_env [21] = Inr (value_message chat_scenario_env (msg_entries chat_scenario_env ''hi''))"
    by code_simp+
  have spawned: "ct_spawned (chat_task_new ''bob'') = []" by (simp add: chat_task_new_def)
  from chat_message_arrives [OF chat_scenario_linked [unfolded One_nat_def] laws types sent codec,
      of True "chat_task_new ''bob''", unfolded spawned append_Nil]
  show ?thesis by blast
qed

text \<open>
  The nickname is exchanged with the task data: initializing the chat task with the data of
  the peer's chat task sets the name of the peer to its nickname, and nothing else; without
  data, or without a nickname that is a string, initialization fails and changes nothing.
\<close>

theorem chat_init_nickname:
  assumes "value_laws E" "\<And>x. value_is_string E (value_string E x)"
  shows "chat_init E (chat_data E peer) task = (Ok (), task\<lparr>ct_peer_name := Some (ct_our_name peer)\<rparr>) \<and>
    (\<forall>data. (\<nexists>entries val. data = Some entries \<and> hm_get entries ''nickname'' = Some val \<and> value_is_string E val) \<longrightarrow>
      (\<exists>e. chat_init E data task = (Err e, task)))"
  using assms
  by (auto simp: chat_init_def chat_data_def value_laws_def proc_defs split: option.split)

definition chat_sample :: "(string, sample_value) chat_env" where
  "chat_sample = env.extend chat_scenario_env
     (chat_env.fields (\<lambda>v. case v of SampleString _ \<Rightarrow> True | _ \<Rightarrow> False) (\<lambda>_. ''value''))"

theorem chat_init_nickname_witness:
  "chat_init chat_sample (chat_data chat_sample (chat_task_new ''alice'')) (chat_task_new ''bob'') =
     (Ok (), (chat_task_new ''bob'')\<lparr>ct_peer_name := Some ''alice''\<rparr>)"
proof -
  have "value_laws chat_sample" "value_is_string chat_sample (value_string chat_sample x)" for x
    by (simp_all add: value_laws_def chat_sample_def env.defs chat_env.defs chat_scenario_env_def scenario_env_def
        sample_env_def sample_libs_def)
  from chat_init_nickname [OF this, of "chat_task_new ''alice''" "chat_task_new ''bob''"]
  show ?thesis by (simp add: chat_task_new_def)
qed

end
