(* ===== verification/Chat_Main.thy ===== *)
theory Chat_Main
  imports Chat_Task Client_Laws
begin

text \<open>
  The chat program (\<open>examples/chat/main.rs\<close>): from the subcommand and its arguments to the
  client, the lines the user types, the messages and events that come in, and the exit status.
  What \<open>clap\<close> makes of the command line is the argument \<open>args\<close>, a value for each argument
  that has one. The text view of the user interface is a list of lines; it runs in a thread of
  its own, and writing to it panics once that thread has ended. Strings are sequences of the
  bytes of their UTF-8 encoding. The rest of \<open>main\<close> is in the theory \<open>Chat_App\<close>.
\<close>

section \<open>From the command line to the client\<close>

definition unwrapS :: "string \<Rightarrow> ('e1, 'a) outcome \<Rightarrow> ('s, 'e, 'a) proc" where
  "unwrapS msg r = (case r of Ok x \<Rightarrow> returnS x | Err e \<Rightarrow> panicS msg | Panic m \<Rightarrow> panicS m)"

definition unwrap_optionS :: "string \<Rightarrow> 'a option \<Rightarrow> ('s, 'e, 'a) proc" where
  "unwrap_optionS msg x = (case x of Some y \<Rightarrow> returnS y | None \<Rightarrow> panicS msg)"

definition m_unwrap_none :: string where
  "m_unwrap_none = ''called `Option::unwrap()` on a `None` value''"

definition m_unwrap_err :: string where
  "m_unwrap_err = ''called `Result::unwrap()` on an `Err` value''"

text \<open>The exit status of the process, where the code calls \<open>process::exit\<close>.\<close>

datatype exit_status = ExitStatus nat

definition subcommand_role :: "string \<Rightarrow> (exit_status, role \<times> bool) outcome" where
  "subcommand_role name =
     (if name = ''initiator'' then Ok (RoleInitiator, False)
      else if name = ''initiator_trusted'' then Ok (RoleInitiator, True)
      else if name = ''responder'' then Ok (RoleResponder, False)
      else if name = ''responder_trusted'' then Ok (RoleResponder, True)
      else Err (ExitStatus 1))"

type_synonym args = "string \<Rightarrow> string option"

definition chat_keypair :: "'z libs_scheme \<Rightarrow> bool \<Rightarrow> args \<Rightarrow> (nat, 'e, key_pair) proc" where
  "chat_keypair L is_trusted args =
     (if is_trusted then
        bindS (unwrap_optionS m_unwrap_none (args ''private_key'')) (\<lambda>private_key_hex.
        bindS (unwrapS m_unwrap_err (private_key_from_hex_str L private_key_hex)) (\<lambda>private_key.
          returnS (key_pair_from_private_key L private_key)))
      else new_key_pair L)"

text \<open>
  \<open>str::to_lowercase\<close> on the letters of ASCII. No other character becomes a hexadecimal digit,
  and a path with one of them is refused in any case.
\<close>

definition to_lowercase :: "string \<Rightarrow> string" where
  "to_lowercase s = map (\<lambda>c. if 65 \<le> (of_char c :: nat) \<and> (of_char c :: nat) \<le> 90
     then char_of ((of_char c :: nat) + 32) else c) s"

definition chat_path :: "'z libs_scheme \<Rightarrow> role \<Rightarrow> key_pair \<Rightarrow> args \<Rightarrow> ('s, 'e, string) proc" where
  "chat_path L role keypair args =
     (case role of
        RoleInitiator \<Rightarrow> returnS (public_key_hex L keypair)
      | RoleResponder \<Rightarrow>
          bindS (unwrap_optionS ''Path not supplied'' (args ''path'')) (\<lambda>path. returnS (to_lowercase path)))"

text \<open>\<open>str::parse::<u64>\<close>: an optional plus sign and at least one digit, without overflow.\<close>

definition is_digit :: "char \<Rightarrow> bool" where
  "is_digit c \<longleftrightarrow> 48 \<le> (of_char c :: nat) \<and> (of_char c :: nat) \<le> 57"

definition parse_u64 :: "string \<Rightarrow> u64 option" where
  "parse_u64 s =
     (let digits = (if take 1 s = ''+'' then drop 1 s else s);
          n = foldl (\<lambda>acc c. 10 * acc + (of_char c - 48)) (0 :: int) digits in
      if digits = [] \<or> \<not> list_all is_digit digits \<or> n \<ge> 2 ^ 64 then None else Some (of_int n))"

definition chat_ping_interval :: "args \<Rightarrow> ('s, 'e, u64) proc" where
  "chat_ping_interval args =
     bindS (unwrap_optionS ''Ping interval not supplied'' (args ''ping_interval'')) (\<lambda>seconds.
       unwrap_optionS ''Could not parse interval seconds to a number'' (parse_u64 seconds))"

text \<open>\<open>unwrap\<close> and \<open>expect\<close> on what the builder returns.\<close>

definition expectS :: "string \<Rightarrow> ('s, 'e1, 'a) proc \<Rightarrow> ('s, 'e, 'a) proc" where
  "expectS msg m s = (case m s of (r, s') \<Rightarrow> unwrapS msg r s')"

definition chat_client ::
  "'z libs_scheme \<Rightarrow> role \<Rightarrow> bool \<Rightarrow> args \<Rightarrow> key_pair \<Rightarrow> string \<Rightarrow> u64 \<Rightarrow>
   (nat, 'e, 'v chat_task salty_client \<times> string option) proc" where
  "chat_client L role is_trusted args keypair path ping_interval =
     (case role of
        RoleInitiator \<Rightarrow>
          (let builder = with_ping_interval (Some ping_interval)
                 (builder_add_task (chat_task_new ''initiat0r'') (builder_new keypair)) in
           bindS (if is_trusted then
                    bindS (unwrap_optionS m_unwrap_none (args ''responder_key'')) (\<lambda>trusted_key.
                    bindS (unwrapS m_unwrap_err (public_key_from_hex_str L trusted_key)) (\<lambda>key.
                      expectS ''Could not create SaltyClient instance'' (builder_initiator_trusted L key builder)))
                  else expectS ''Could not create SaltyClient instance'' (builder_initiator L builder)) (\<lambda>salty.
             returnS (salty, map_option (hexlower_encode L) (client_auth_token salty))))
      | RoleResponder \<Rightarrow>
          bindS (unwrapS m_unwrap_err (public_key_from_hex_str L path)) (\<lambda>initiator_pubkey.
          let builder = with_ping_interval (Some ping_interval)
                (builder_add_task (chat_task_new ''r3spond3r'') (builder_new keypair)) in
          if is_trusted then
            bindS (expectS m_unwrap_err (builder_responder_trusted L initiator_pubkey builder)) (\<lambda>salty.
              returnS (salty, None))
          else
            bindS (unwrap_optionS m_unwrap_none (args ''authtoken'')) (\<lambda>auth_token_hex.
            bindS (unwrapS ''Invalid auth token hex string'' (auth_token_from_hex_str L auth_token_hex)) (\<lambda>auth_token.
            bindS (expectS m_unwrap_err (builder_responder L initiator_pubkey auth_token builder)) (\<lambda>salty.
              returnS (salty, Some auth_token_hex))))))"

record 'v chat_setup =
  su_role :: role
  su_is_trusted :: bool
  su_own_pubkey_hex :: string
  su_own_privkey_hex :: string
  su_path :: string
  su_client :: "'v chat_task salty_client"
  su_auth_token_hex :: "string option"

definition chat_setup_for ::
  "'z libs_scheme \<Rightarrow> role \<Rightarrow> bool \<Rightarrow> args \<Rightarrow> (nat, 'e, 'v chat_setup) proc" where
  "chat_setup_for L role is_trusted args =
     bindS (chat_keypair L is_trusted args) (\<lambda>keypair.
     bindS (chat_path L role keypair args) (\<lambda>path.
     bindS (chat_ping_interval args) (\<lambda>ping_interval.
     bindS (chat_client L role is_trusted args keypair path ping_interval) (\<lambda>(salty, auth_token_hex).
       returnS \<lparr>su_role = role, su_is_trusted = is_trusted, su_own_pubkey_hex = public_key_hex L keypair,
         su_own_privkey_hex = private_key_hex L keypair, su_path = path,
         su_client = salty, su_auth_token_hex = auth_token_hex\<rparr>))))"

text \<open>The command line to connect with, as it is printed for the user.\<close>

definition connect_command :: "'v chat_setup \<Rightarrow> string" where
  "connect_command su =
     (let nl = [CHR 0x5C, CHR 0x0A] in
      case (su_role su, su_auth_token_hex su) of
        (RoleInitiator, Some ath) \<Rightarrow> ''cargo run --example chat -- responder '' @ nl @ ''    --path '' @ su_path su @
          '' '' @ nl @ ''    --auth-token '' @ ath
      | (RoleInitiator, None) \<Rightarrow> ''cargo run --example chat -- responder_trusted '' @ nl @ ''    --path '' @ su_path su @
          '' '' @ nl @ ''    --private-key XXX''
      | (RoleResponder, Some _) \<Rightarrow> ''cargo run --example chat -- initiator''
      | (RoleResponder, None) \<Rightarrow> ''cargo run --example chat -- initiator_trusted '' @ nl @ ''    --responder-key '' @
          su_own_pubkey_hex su @ '' '' @ nl @ ''    --private-key XXX'')"

section \<open>White space\<close>

text \<open>
  The length in bytes of the white space character at the front, 0 if there is none: the
  characters with the property \<open>White_Space\<close>, in UTF-8.
\<close>

definition white_space :: "string \<Rightarrow> nat" where
  "white_space s =
     (case map of_char (take 3 s) :: nat list of
        [] \<Rightarrow> 0
      | b # bs \<Rightarrow>
          if b = 32 \<or> 9 \<le> b \<and> b \<le> 13 then 1
          else (case bs of
            [] \<Rightarrow> 0
          | c # cs \<Rightarrow>
              if b = 0xC2 \<and> (c = 0x85 \<or> c = 0xA0) then 2
              else (case cs of
                [] \<Rightarrow> 0
              | d # _ \<Rightarrow>
                  if b = 0xE1 \<and> c = 0x9A \<and> d = 0x80 \<or>
                     b = 0xE2 \<and> c = 0x80 \<and> (0x80 \<le> d \<and> d \<le> 0x8A \<or> d = 0xA8 \<or> d = 0xA9 \<or> d = 0xAF) \<or>
                     b = 0xE2 \<and> c = 0x81 \<and> d = 0x9F \<or>
                     b = 0xE3 \<and> c = 0x80 \<and> d = 0x80
                  then 3 else 0)))"

text \<open>\<open>str::split_whitespace\<close>; \<open>word\<close> is the word that is being read, in reverse.\<close>

function split_words :: "string \<Rightarrow> string \<Rightarrow> string list" where
  "split_words word [] = (if word = [] then [] else [rev word])"
| "split_words word (c # cs) =
     (case white_space (c # cs) of
        0 \<Rightarrow> split_words (c # word) cs
      | Suc k \<Rightarrow> (if word = [] then [] else [rev word]) @ split_words [] (drop k cs))"
  by pat_completeness auto
termination by (relation "measure (\<lambda>(w, s). length s)") auto

definition split_whitespace :: "string \<Rightarrow> string list" where
  "split_whitespace s = split_words [] s"

section \<open>The loops\<close>

text \<open>What the user sees, and the task behind it.\<close>

record 'v chat_ui =
  ui_lines :: "string list"
  ui_running :: bool
  ui_quit :: bool
  ui_task :: "'v chat_task"

text \<open>
  The error values of the closures: \<open>Err(Ok(()))\<close> stops a loop without, \<open>Err(Err(()))\<close> with an
  error.
\<close>

datatype stop = StopOk | StopErr

text \<open>Handing a callback to the thread of the user interface.\<close>

definition tui_send :: "('v chat_ui \<Rightarrow> 'v chat_ui) \<Rightarrow> ('v chat_ui, 'e, unit) proc" where
  "tui_send callback =
     bindS (getS ui_running) (\<lambda>running.
       if running then modifyS callback else panicS m_unwrap_err)"

definition log_line :: "string \<Rightarrow> ('v chat_ui, 'e, unit) proc" where
  "log_line text = tui_send (ui_lines_update (\<lambda>ls. ls @ [text]))"

definition on_task :: "('v chat_task, 'e, 'a) proc \<Rightarrow> ('v chat_ui, 'e, 'a) proc" where
  "on_task m = zoomS ui_task ui_task_update m"

text \<open>\<open>match chat_task.send_msg(..)\<close>: an error is shown and ends the loop.\<close>

definition or_stop :: "('v chat_task, string, unit) proc \<Rightarrow> ('v chat_ui, stop, unit) proc" where
  "or_stop m s =
     (case on_task m s of
        (Ok u, s') \<Rightarrow> (Ok u, s')
      | (Err e, s') \<Rightarrow> thenS (log_line (''*** Error: '' @ e)) (failS StopErr) s'
      | (Panic p, s') \<Rightarrow> (Panic p, s'))"

definition send_input ::
  "('t, 'v, 'z) env_scheme \<Rightarrow> bool \<Rightarrow> string \<Rightarrow> string \<Rightarrow> ('v chat_ui, stop, unit) proc" where
  "send_input E is_open gone msg =
     (if take 1 msg = ''/'' then
        (case split_whitespace msg of
           [] \<Rightarrow> panicS m_unwrap_none
         | command # parts \<Rightarrow>
             if command = ''/help'' then log_line ''*** Available commands: /help /nick /quit''
             else if command = ''/quit'' then
               thenS (log_line ''*** Exiting'')
               (thenS (tui_send (ui_quit_update (\<lambda>_. True)))
               (thenS (on_task (chat_close WsGoingAway))
               (failS StopOk)))
             else if command = ''/nick'' then
               (case parts of
                  nick # _ \<Rightarrow>
                    thenS (log_line (''*** Changing nickname to '' @ nick))
                    (or_stop (change_nick E is_open gone nick))
                | [] \<Rightarrow> log_line ''*** Usage: /nick <new-nickname>'')
             else log_line (''*** Unknown command: '' @ command))
      else
        bindS (getS (\<lambda>s. ct_our_name (ui_task s))) (\<lambda>our_name.
        thenS (log_line (our_name @ ''> '' @ msg))
        (or_stop (send_msg E is_open gone msg))))"

definition receive_message :: "chat_message \<Rightarrow> ('v chat_ui, stop, unit) proc" where
  "receive_message msg =
     (case msg of
        Msg text \<Rightarrow>
          bindS (getS (\<lambda>s. ct_peer_name (ui_task s))) (\<lambda>peer_name.
            log_line ((case peer_name of Some pn \<Rightarrow> pn | None \<Rightarrow> ''?'') @ ''> '' @ text))
      | NickChange new_nick \<Rightarrow> log_line (''*** Partner nick changed to '' @ new_nick)
      | Disconnect reason \<Rightarrow>
          thenS (log_line (''*** Connection with peer closed, reason: '' @ fmt_close_code reason))
          (thenS (log_line ''*** Use Ctrl+C to exit'')
          (failS StopOk)))"

definition receive_event :: "event \<Rightarrow> ('v chat_ui, stop, unit) proc" where
  "receive_event ev =
     (case ev of
        EventDisconnected addr \<Rightarrow>
          thenS (log_line (''*** Peer with address '' @ fmt_nat (unat addr) @ '' disconnected''))
          (thenS (log_line ''*** Use Ctrl+C to exit'')
          (failS StopOk))
      | _ \<Rightarrow> returnS ())"

text \<open>\<open>Stream::for_each\<close> on the items that arrive, and the \<open>or_else\<close> that ends each loop.\<close>

primrec for_each :: "('a \<Rightarrow> ('s, 'e, unit) proc) \<Rightarrow> 'a list \<Rightarrow> ('s, 'e, unit) proc" where
  "for_each f [] = returnS ()"
| "for_each f (x # xs) = thenS (f x) (for_each f xs)"

definition end_loop :: "string \<Rightarrow> ('s, stop, unit) proc \<Rightarrow> ('s, salty_error, unit) proc" where
  "end_loop msg m s =
     (case m s of
        (Ok u, s') \<Rightarrow> (Ok (), s')
      | (Err StopOk, s') \<Rightarrow> (Ok (), s')
      | (Err StopErr, s') \<Rightarrow> (Err (SaltyCrash msg), s')
      | (Panic p, s') \<Rightarrow> (Panic p, s'))"

definition send_loop ::
  "('t, 'v, 'z) env_scheme \<Rightarrow> bool \<Rightarrow> string \<Rightarrow> string list \<Rightarrow> ('v chat_ui, salty_error, unit) proc" where
  "send_loop E is_open gone msgs =
     end_loop ''Something went wrong when forwarding messages to task'' (for_each (send_input E is_open gone) msgs)"

definition receive_loop :: "chat_message list \<Rightarrow> ('v chat_ui, salty_error, unit) proc" where
  "receive_loop msgs = end_loop ''Something went wrong in message receive loop'' (for_each receive_message msgs)"

definition event_loop :: "event list \<Rightarrow> ('v chat_ui, salty_error, unit) proc" where
  "event_loop evs = end_loop ''Something went wrong in event loop'' (for_each receive_event evs)"

text \<open>\<open>join_all\<close> of the loops: the first error ends the program with status 1.\<close>

fun main_exit :: "(salty_error, unit) outcome list \<Rightarrow> (exit_status, unit) outcome" where
  "main_exit [] = Ok ()"
| "main_exit (Ok u # rs) = main_exit rs"
| "main_exit (Err e # rs) = Err (ExitStatus 1)"
| "main_exit (Panic p # rs) = Panic p"

section \<open>Typed lines\<close>

lemma split_words_nonempty: "word \<noteq> [] \<Longrightarrow> split_words word cs \<noteq> []"
  by (induction word cs rule: split_words.induct) (auto split: nat.split)

text \<open>A line that starts with a slash has a first word, so that \<open>parts.next().unwrap()\<close> is safe.\<close>

lemma command_word:
  assumes "take 1 msg = ''/''"
  shows "split_whitespace msg \<noteq> []"
proof -
  obtain cs where "msg = CHR ''/'' # cs" using assms by (cases msg) auto
  moreover have "white_space (CHR ''/'' # cs) = 0"
    by (simp add: white_space_def split: list.split)
  ultimately show ?thesis using split_words_nonempty [of "''/''" cs] by (simp add: split_whitespace_def)
qed

definition command_of :: "string \<Rightarrow> string list" where
  "command_of msg = (if take 1 msg = ''/'' then split_whitespace msg else [])"

definition is_quit :: "string \<Rightarrow> bool" where
  "is_quit msg \<longleftrightarrow> take 1 (command_of msg) = [''/quit'']"

definition nick_entries :: "('t, 'v, 'z) env_scheme \<Rightarrow> string \<Rightarrow> (string, 'v) hashmap" where
  "nick_entries E nick =
     hm_insert KEY_NICK (value_string E nick) (hm_insert KEY_TYPE (value_string E TYPE_NICK_CHANGE) hm_empty)"

text \<open>What a line makes the chat task send: a text, a change of the nickname, or nothing.\<close>

definition sent_for :: "('t, 'v, 'z) env_scheme \<Rightarrow> string \<Rightarrow> 'v task_message list" where
  "sent_for E msg =
     (case command_of msg of
        [] \<Rightarrow> [TaskValue (msg_entries E msg)]
      | command # parts \<Rightarrow>
          if command = ''/nick'' \<and> parts \<noteq> [] then [TaskValue (nick_entries E (hd parts))] else [])"

definition chatting :: "'v chat_ui \<Rightarrow> bool" where
  "chatting s \<longleftrightarrow> ui_running s \<and> ct_has_outgoing_tx (ui_task s)"

lemmas input_defs = log_line_def tui_send_def on_task_def or_stop_def zoomS_def proc_defs

lemma send_input_open:
  assumes "chatting s" "\<not> is_quit msg"
  shows "\<exists>s'. send_input E True gone msg s = (Ok (), s') \<and> chatting s' \<and> ui_quit s' = ui_quit s \<and>
    (\<exists>l. ui_lines s' = ui_lines s @ [l]) \<and>
    ct_outgoing (ui_task s') = ct_outgoing (ui_task s) @ sent_for E msg"
proof (cases "take 1 msg = ''/''")
  case False
  with assms show ?thesis
    by (simp add: send_input_def chatting_def sent_for_def command_of_def send_msg_def send_outgoing_def input_defs)
next
  case True
  with command_word obtain command parts where w: "split_whitespace msg = command # parts" by (metis list.exhaust)
  with True assms(2) have "command \<noteq> ''/quit''" by (simp add: is_quit_def command_of_def)
  with True w assms(1) show ?thesis
    by (cases "command = ''/nick''"; cases parts)
      (auto simp: send_input_def chatting_def sent_for_def command_of_def change_nick_def send_outgoing_def nick_entries_def
        Let_def input_defs)
qed

lemma send_input_quit:
  assumes "chatting s" "is_quit msg"
  shows "\<exists>s'. send_input E is_open gone msg s = (Err StopOk, s') \<and> chatting s' \<and> ui_quit s' \<and>
    ct_outgoing (ui_task s') = ct_outgoing (ui_task s)"
proof -
  have w: "take 1 msg = ''/''" "take 1 (split_whitespace msg) = [''/quit'']"
    using assms(2) by (auto simp: is_quit_def command_of_def split: if_splits)
  then obtain parts where "split_whitespace msg = ''/quit'' # parts" by (cases "split_whitespace msg") auto
  with w(1) assms(1) show ?thesis
    by (simp add: send_input_def chatting_def chat_close_def input_defs)
qed

text \<open>
  As long as the channel to the client is open and the user interface runs, the send loop never
  panics or fails; it sends one message for each text and each change of the nickname, in the
  order they were typed, nothing for other commands, and stops at the first \<open>/quit\<close>.
\<close>

lemma send_loop_sends:
  assumes "chatting s"
  shows "\<exists>s'. send_loop E True gone msgs s = (Ok (), s') \<and>
    ct_outgoing (ui_task s') = ct_outgoing (ui_task s) @ concat (map (sent_for E) (takeWhile (\<lambda>m. \<not> is_quit m) msgs)) \<and>
    (ui_quit s' \<longleftrightarrow> ui_quit s \<or> list_ex is_quit msgs)"
proof -
  have "\<exists>s'. (for_each (send_input E True gone) msgs s = (Ok (), s') \<or>
        for_each (send_input E True gone) msgs s = (Err StopOk, s')) \<and>
    ct_outgoing (ui_task s') = ct_outgoing (ui_task s) @ concat (map (sent_for E) (takeWhile (\<lambda>m. \<not> is_quit m) msgs)) \<and>
    (ui_quit s' \<longleftrightarrow> ui_quit s \<or> list_ex is_quit msgs)"
    using assms
  proof (induction msgs arbitrary: s)
    case Nil
    then show ?case by (simp add: returnS_def)
  next
    case (Cons m msgs)
    show ?case
    proof (cases "is_quit m")
      case True
      from send_input_quit [OF Cons.prems this, of E True gone] True show ?thesis
        by (auto simp: thenS_def bindS_def)
    next
      case False
      from send_input_open [OF Cons.prems this, of E gone] obtain s1 where s1: "send_input E True gone m s = (Ok (), s1)"
        "chatting s1" "ui_quit s1 = ui_quit s" "ct_outgoing (ui_task s1) = ct_outgoing (ui_task s) @ sent_for E m" by blast
      from Cons.IH [OF s1(2)] s1 False show ?thesis by (auto simp: thenS_def bindS_def)
    qed
  qed
  then show ?thesis by (auto simp: send_loop_def end_loop_def)
qed

section \<open>From one screen to the other\<close>

text \<open>
  The messages of one chat task on their way through two clients to the chat task of the other.
\<close>

fun carry_over ::
  "('t, 'v, 'z) env_scheme \<Rightarrow> 'v task_message list \<Rightarrow> 't signaling \<Rightarrow> 't signaling \<Rightarrow> 'v chat_task \<Rightarrow> 'v chat_task" where
  "carry_over E (TaskValue entries # ms) s t task =
     (case encode_task_message E (value_message E entries) s of
        (Ok bbox, s') \<Rightarrow>
          (case handle_message E bbox t of
             (Ok [ActionTaskMessage m], t') \<Rightarrow> carry_over E ms s' t' (snd (chat_receive E True m task))
           | _ \<Rightarrow> task)
      | _ \<Rightarrow> task)"
| "carry_over E ms s t task = task"

definition received_for :: "string \<Rightarrow> chat_message list" where
  "received_for msg =
     (case command_of msg of
        [] \<Rightarrow> [Msg msg]
      | command # parts \<Rightarrow> if command = ''/nick'' \<and> parts \<noteq> [] then [NickChange (hd parts)] else [])"

text \<open>The encodings of the values that are sent survive.\<close>

definition values_carried :: "('t, 'v, 'z) env_scheme \<Rightarrow> 'v task_message list \<Rightarrow> bool" where
  "values_carried E ms \<longleftrightarrow> list_all (\<lambda>m. case m of
     TaskValue entries \<Rightarrow>
       (case rmps_to_vec_value E (value_message E entries) of
          Inr bs \<Rightarrow> rmps_from_slice_value E bs = Inr (value_message E entries) | Inl e \<Rightarrow> False)
   | _ \<Rightarrow> False) ms"

lemma entries_arrive:
  assumes link: "linked E s t (Suc room)" and laws: "value_laws E" "hm_wf entries"
    and types: "cm_task_supported_types (sig_common t) = Some chat_supported_types"
    and ty: "hm_get entries ''type'' = Some (value_string E ty)" "ty \<in> set chat_supported_types"
    and codec: "values_carried E [TaskValue entries]"
  shows "\<exists>bbox s' t' m. encode_task_message E (value_message E entries) s = (Ok bbox, s') \<and>
    handle_message E bbox t = (Ok [ActionTaskMessage (TaskValue m)], t') \<and> linked E s' t' room \<and>
    cm_task_supported_types (sig_common t') = Some chat_supported_types \<and> (\<forall>k. hm_get m k = hm_get entries k)"
proof -
  have "ty \<noteq> ''application''" "ty \<noteq> ''close''"
    using ty(2) by (auto simp: chat_supported_types_def TYPE_MSG_def TYPE_NICK_CHANGE_def)
  from interpret_value_message [OF laws ty(1) this ty(2)] obtain m where
    m: "interpret_task_message E (Some chat_supported_types) (value_message E entries) = Ok [ActionTaskMessage (TaskValue m)]"
    "\<forall>k. hm_get m k = hm_get entries k" by blast
  from codec obtain bs where bs: "rmps_to_vec_value E (value_message E entries) = Inr bs"
    "rmps_from_slice_value E bs = Inr (value_message E entries)" by (auto simp: values_carried_def split: sum.splits)
  from linked_send [OF link bs] m types show ?thesis by auto
qed

text \<open>One message, sent for a line.\<close>

lemma line_arrives:
  assumes link: "linked E s t (Suc room)" and laws: "value_laws E"
    and types: "cm_task_supported_types (sig_common t) = Some chat_supported_types"
    and "sent_for E msg = [m]" "values_carried E [m]"
  shows "\<exists>s' t' task'. carry_over E (m # ms) s t task = carry_over E ms s' t' task' \<and> linked E s' t' room \<and>
    cm_task_supported_types (sig_common t') = Some chat_supported_types \<and>
    ct_spawned task' = ct_spawned task @ received_for msg"
proof (cases "command_of msg")
  case Nil
  have m: "m = TaskValue (msg_entries E msg)" using assms(4) Nil by (simp add: sent_for_def)
  have "hm_wf (msg_entries E msg)" unfolding msg_entries_def by (intro hm.wf_insert hm.wf_empty)
  from entries_arrive [OF link laws this types, of TYPE_MSG] assms(5) m
  obtain bbox s' t' n where a: "encode_task_message E (value_message E (msg_entries E msg)) s = (Ok bbox, s')"
    "handle_message E bbox t = (Ok [ActionTaskMessage (TaskValue n)], t')" "linked E s' t' room"
    "cm_task_supported_types (sig_common t') = Some chat_supported_types" "\<forall>k. hm_get n k = hm_get (msg_entries E msg) k"
    by (auto simp: msg_entries_def KEY_TYPE_def KEY_TEXT_def chat_supported_types_def)
  have "ct_spawned (snd (chat_receive E True (TaskValue n) task)) = ct_spawned task @ [Msg msg]"
    using laws a(5) by (simp add: chat_receive_def value_laws_def msg_entries_def KEY_TYPE_def KEY_TEXT_def TYPE_MSG_def modifyS_def)
  with a(1-4) m Nil show ?thesis by (simp add: received_for_def) blast
next
  case (Cons command parts)
  then have c: "command = ''/nick''" "parts \<noteq> []" "m = TaskValue (nick_entries E (hd parts))"
    using assms(4) by (auto simp: sent_for_def split: if_splits)
  have "hm_wf (nick_entries E (hd parts))" unfolding nick_entries_def by (intro hm.wf_insert hm.wf_empty)
  from entries_arrive [OF link laws this types, of TYPE_NICK_CHANGE] assms(5) c(3)
  obtain bbox s' t' n where a: "encode_task_message E (value_message E (nick_entries E (hd parts))) s = (Ok bbox, s')"
    "handle_message E bbox t = (Ok [ActionTaskMessage (TaskValue n)], t')" "linked E s' t' room"
    "cm_task_supported_types (sig_common t') = Some chat_supported_types" "\<forall>k. hm_get n k = hm_get (nick_entries E (hd parts)) k"
    by (auto simp: nick_entries_def KEY_TYPE_def KEY_NICK_def chat_supported_types_def)
  have "ct_spawned (snd (chat_receive E True (TaskValue n) task)) = ct_spawned task @ [NickChange (hd parts)]"
    using laws a(5) by (simp add: chat_receive_def value_laws_def nick_entries_def KEY_TYPE_def KEY_NICK_def TYPE_MSG_def
        TYPE_NICK_CHANGE_def proc_defs)
  with a(1-4) c Cons show ?thesis by (simp add: received_for_def) blast
qed

lemma sent_for_cases:
  obtains m where "sent_for E msg = [m]" | "sent_for E msg = []" "received_for msg = []"
proof (cases "command_of msg")
  case Nil
  then show ?thesis using that(1) by (simp add: sent_for_def)
next
  case (Cons command parts)
  then show ?thesis
    using that by (cases "command = ''/nick'' \<and> parts \<noteq> []") (simp_all add: sent_for_def received_for_def)
qed

lemma linked_less: "linked E s t (Suc n) \<Longrightarrow> linked E s t n"
  unfolding linked_def by (metis Suc_lessD add_Suc_right)

lemma linked_less_eq: "linked E s t (n + k) \<Longrightarrow> linked E s t n"
  by (induction k) (auto dest: linked_less)

lemma lines_arrive:
  "linked E s t (length msgs) \<Longrightarrow> value_laws E \<Longrightarrow>
   cm_task_supported_types (sig_common t) = Some chat_supported_types \<Longrightarrow>
   values_carried E (concat (map (sent_for E) msgs)) \<Longrightarrow>
   ct_spawned (carry_over E (concat (map (sent_for E) msgs)) s t task) = ct_spawned task @ concat (map received_for msgs)"
proof (induction msgs arbitrary: s t task)
  case (Cons msg msgs)
  show ?case
  proof (cases rule: sent_for_cases [of E msg])
    case (1 m)
    have carried: "values_carried E [m]" "values_carried E (concat (map (sent_for E) msgs))"
      using Cons.prems(4) 1 by (auto simp: values_carried_def)
    from line_arrives [OF Cons.prems(1) [simplified] Cons.prems(2,3) 1 carried(1)] obtain s' t' task' where
      "carry_over E (m # concat (map (sent_for E) msgs)) s t task = carry_over E (concat (map (sent_for E) msgs)) s' t' task'"
      "linked E s' t' (length msgs)" "cm_task_supported_types (sig_common t') = Some chat_supported_types"
      "ct_spawned task' = ct_spawned task @ received_for msg" by blast
    with Cons.IH [of s' t' task'] Cons.prems(2) carried(2) 1 show ?thesis by simp
  next
    case 2
    have "linked E s t (length msgs)" using Cons.prems(1) linked_less by simp
    with Cons.IH [of s t task] Cons.prems(2-) 2 show ?thesis by simp
  qed
qed simp

text \<open>The line that a received message adds to the text view.\<close>

fun shown_line :: "'v chat_ui \<Rightarrow> chat_message \<Rightarrow> string" where
  "shown_line u (Msg text) = (case ct_peer_name (ui_task u) of Some pn \<Rightarrow> pn | None \<Rightarrow> ''?'') @ ''> '' @ text"
| "shown_line u (NickChange nick) = ''*** Partner nick changed to '' @ nick"
| "shown_line u (Disconnect reason) = ''*** Connection with peer closed, reason: '' @ fmt_close_code reason"

lemma received_shown:
  assumes "ui_running u" "list_all (\<lambda>m. \<nexists>r. m = Disconnect r) ms"
  shows "receive_loop ms u = (Ok (), u\<lparr>ui_lines := ui_lines u @ map (shown_line u) ms\<rparr>)"
proof -
  have "for_each receive_message ms u = (Ok (), u\<lparr>ui_lines := ui_lines u @ map (shown_line u) ms\<rparr>)"
    using assms
  proof (induction ms arbitrary: u)
    case (Cons m ms)
    let ?u = "u\<lparr>ui_lines := ui_lines u @ [shown_line u m]\<rparr>"
    have "receive_message m u = (Ok (), ?u)"
      using Cons.prems by (cases m) (auto simp: receive_message_def input_defs)
    moreover have "shown_line ?u = shown_line u"
    proof
      fix n show "shown_line ?u n = shown_line u n" by (cases n) simp_all
    qed
    ultimately show ?case using Cons.IH [of ?u] Cons.prems by (simp add: thenS_def bindS_def)
  qed (simp add: returnS_def)
  then show ?thesis by (simp add: receive_loop_def end_loop_def)
qed

lemma received_no_disconnect: "list_all (\<lambda>m. \<nexists>r. m = Disconnect r) (concat (map received_for msgs))"
  by (induction msgs) (auto simp: received_for_def split: list.split)


definition chat_ui_of :: "string \<Rightarrow> string \<Rightarrow> sample_value chat_ui" where
  "chat_ui_of own other = \<lparr>ui_lines = [], ui_running = True, ui_quit = False,
     ui_task = (chat_task_new own)\<lparr>ct_has_outgoing_tx := True, ct_peer_name := Some other\<rparr>\<rparr>"


text \<open>
  After \<open>/quit\<close> the thread of the user interface ends, but the receive loop and the event loop
  go on: whatever they would show next makes them panic.
\<close>

lemma closed_ui_panics:
  assumes "\<not> ui_running u"
  shows "receive_loop (m # ms) u = (Panic m_unwrap_err, u)"
    "event_loop (EventDisconnected a # evs) u = (Panic m_unwrap_err, u)"
  using assms by (cases m; simp add: receive_loop_def event_loop_def end_loop_def receive_message_def receive_event_def input_defs)+

section \<open>The invitation\<close>

text \<open>What \<open>HEXLOWER\<close> encodes is in lowercase, two digits for a byte, and \<open>HEXLOWER_PERMISSIVE\<close> decodes it.\<close>

definition hex_digits :: string where
  "hex_digits = ''0123456789abcdef''"

definition hex_laws :: "'z libs_scheme \<Rightarrow> bool" where
  "hex_laws L \<longleftrightarrow> (\<forall>bs. hexlower_permissive_decode L (hexlower_encode L bs) = Inr bs \<and>
     set (hexlower_encode L bs) \<subseteq> set hex_digits \<and> length (hexlower_encode L bs) = 2 * length bs)"

text \<open>Keys and tokens have the length of their types.\<close>

definition key_length_laws :: "'z libs_scheme \<Rightarrow> bool" where
  "key_length_laws L \<longleftrightarrow> (\<forall>i. length (fst (gen_keypair L i)) = 32 \<and> length (gen_key L i) = 32)"

lemma hex_lowercase:
  assumes "hex_laws L"
  shows "to_lowercase (hexlower_encode L bs) = hexlower_encode L bs"
proof -
  have "list_all (\<lambda>c. \<not> (65 \<le> (of_char c :: nat) \<and> (of_char c :: nat) \<le> 90)) hex_digits" by code_simp
  then have "\<not> (65 \<le> (of_char c :: nat) \<and> (of_char c :: nat) \<le> 90)" if "c \<in> set (hexlower_encode L bs)" for c
    using assms that unfolding hex_laws_def list_all_iff by blast
  then show ?thesis unfolding to_lowercase_def by (intro map_idI) (simp only: if_False)
qed

lemma unwrap_eq_Ok_iff:
  "unwrapS msg r s = (Ok x, s') \<longleftrightarrow> r = Ok x \<and> s' = s"
  "unwrap_optionS msg y s = (Ok z, s') \<longleftrightarrow> y = Some z \<and> s' = s"
  "expectS msg m s = (Ok w, s') \<longleftrightarrow> m s = (Ok w, s')"
  by (auto simp: unwrapS_def unwrap_optionS_def expectS_def returnS_def panicS_def split: outcome.splits option.splits prod.splits)

text \<open>The client of the subcommand \<open>initiator\<close>: the path is its key, and it has a new token.\<close>

lemma chat_initiator_OkD:
  assumes "(chat_setup_for L RoleInitiator False args i :: ('e, _) outcome \<times> _) = (Ok su, j)" and laws: "key_length_laws L"
  shows "\<exists>pk tok. length pk = 32 \<and> length tok = 32 \<and> su_path su = hexlower_encode L pk \<and>
    client_initiator_pubkey (su_client su) = pk \<and> client_auth_token (su_client su) = Some tok \<and>
    su_auth_token_hex su = Some (hexlower_encode L tok)"
proof -
  obtain kp n q salty where parts: "(new_key_pair L i :: ('e, _) outcome \<times> _) = (Ok kp, n)" "su_path su = public_key_hex L kp"
    "builder_initiator L \<lparr>bd_permanent_key = kp, bd_tasks = [chat_task_new ''initiat0r''], bd_ping_interval = Some q,
       bd_server_public_permanent_key = None\<rparr> n = (Ok salty, j)"
    "su_client su = salty" "su_auth_token_hex su = map_option (hexlower_encode L) (client_auth_token salty)"
    using assms(1)
    by (auto simp: chat_setup_for_def chat_keypair_def chat_path_def chat_client_def chat_ping_interval_def
        ok_iffs unwrap_eq_Ok_iff Let_def with_ping_interval_def builder_add_task_def builder_new_def)
  have "public_key kp = fst (gen_keypair L i)"
    using parts(1) by (auto simp: new_key_pair_def libsodium_init_or_panic_def ok_iffs split: if_splits prod.splits)
  then have pk: "length (public_key kp) = 32" using laws by (simp add: key_length_laws_def)
  obtain sg where sg: "(initiator_new L kp [chat_task_new ''initiat0r''] None None (Some q) n :: (builder_error, _) outcome \<times> _) = (Ok sg, j)"
    "cl_signaling salty = SignalingInitiator sg"
    using parts(3) by (auto simp: builder_initiator_def builder_tasks_def tasks_from_vec_def ok_iffs)
  obtain k where k: "cm_auth_provider (isg_common sg) = Some (AuthProviderToken (gen_key L k))" "cm_permanent_keypair (isg_common sg) = kp"
    using sg(1) by (auto simp: initiator_new_def new_auth_token_def libsodium_init_or_panic_def ok_iffs split: if_splits)
  have tok: "length (gen_key L k) = 32" "auth_token_of (sig_common (cl_signaling salty)) = Some (gen_key L k)"
    "initiator_pubkey (cl_signaling salty) = public_key kp"
    using laws sg(2) k by (simp_all add: key_length_laws_def auth_token_of_def initiator_pubkey_initiator_def)
  from parts pk tok show ?thesis by (simp add: public_key_hex_def client_initiator_pubkey_def client_auth_token_def)
qed

text \<open>The client of the subcommand \<open>responder\<close>: it expects the key in the path, and holds the token.\<close>

lemma chat_responder_Ok:
  assumes laws: "random_laws L" "from_slice_laws L" "hex_laws L" and len: "length pk = 32" "length tok = 32"
    and args: "args ''path'' = Some (hexlower_encode L pk)" "args ''authtoken'' = Some (hexlower_encode L tok)"
      "args ''ping_interval'' = Some secs" "parse_u64 secs = Some q"
  shows "\<exists>(su :: 'v chat_setup) j. (chat_setup_for L RoleResponder False args i :: ('e, _) outcome \<times> _) = (Ok su, j) \<and> su_path su = hexlower_encode L pk \<and>
    client_initiator_pubkey (su_client su) = pk \<and> client_auth_token (su_client su) = Some tok"
proof -
  have hex: "hexlower_permissive_decode L (hexlower_encode L bs) = Inr bs" for bs using laws(3) by (simp add: hex_laws_def)
  obtain kp n where kp: "(new_key_pair L i :: ('e, _) outcome \<times> _) = (Ok kp, n)"
    using laws(1) by (simp add: new_key_pair_def random_laws_def libsodium_init_or_panic_def proc_defs case_prod_beta)
  have "draws (responder_new L kp pk (Some tok) None [chat_task_new ''r3spond3r'' :: 'v chat_task] (Some q))"
    using laws(1) by (rule responder_new_draws)
  then obtain sg j where sg: "(responder_new L kp pk (Some tok) None [chat_task_new ''r3spond3r'' :: 'v chat_task] (Some q) n ::
      (builder_error, _) outcome \<times> _) = (Ok sg, j)" unfolding draws_def by metis
  have "auth_token_of (rsg_common sg) = Some tok" "ic_permanent_key (rsg_initiator sg) = pk"
    using sg by (auto simp: responder_new_def initiator_context_new_def ok_iffs auth_token_of_def)
  moreover have "(chat_setup_for L RoleResponder False args i :: ('e, _) outcome \<times> _) = (Ok \<lparr>su_role = RoleResponder, su_is_trusted = False,
      su_own_pubkey_hex = public_key_hex L kp, su_own_privkey_hex = private_key_hex L kp, su_path = hexlower_encode L pk, su_client = \<lparr>cl_signaling = SignalingResponder sg\<rparr>,
      su_auth_token_hex = Some (hexlower_encode L tok)\<rparr>, j)"
    using args kp sg hex len laws(2) hex_lowercase [OF laws(3)]
    by (simp add: chat_setup_for_def chat_keypair_def chat_path_def chat_client_def chat_ping_interval_def
        unwrap_optionS_def unwrapS_def expectS_def public_key_from_hex_str_def auth_token_from_hex_str_def from_slice_laws_def
        builder_responder_def builder_tasks_def tasks_from_vec_def with_ping_interval_def builder_add_task_def builder_new_def
        Let_def proc_defs)
  ultimately show ?thesis by (auto simp: client_initiator_pubkey_def client_auth_token_def initiator_pubkey_responder_def)
qed

text \<open>The sample library with a decoder for hexadecimal strings.\<close>

definition hex_value :: "char \<Rightarrow> nat" where
  "hex_value c = (let n = of_char c in if n < 58 then n - 48 else n - 87)"

fun hex_decode :: "string \<Rightarrow> byte list" where
  "hex_decode (a # b # cs) = of_nat (16 * hex_value a + hex_value b) # hex_decode cs"
| "hex_decode cs = []"

definition hex_libs :: libs where
  "hex_libs = (sample_libs ())\<lparr>hexlower_permissive_decode := \<lambda>s. Inr (hex_decode s)\<rparr>"

lemma hex_digit_value:
  assumes "n < 16"
  shows "hex_value (hex_digit n) = n" "hex_digit n \<in> set hex_digits"
proof -
  have "list_all (\<lambda>n. hex_value (hex_digit n) = n \<and> hex_digit n \<in> set hex_digits) [0..<16]" by code_simp
  with assms show "hex_value (hex_digit n) = n" "hex_digit n \<in> set hex_digits" unfolding list_all_iff by auto
qed

lemma hex_libs_laws: "random_laws hex_libs" "from_slice_laws hex_libs" "hex_laws hex_libs" "key_length_laws hex_libs"
proof -
  show "random_laws hex_libs" "from_slice_laws hex_libs"
    using sample_libs_laws(2,3) [of "()"] by (simp_all add: hex_libs_def random_laws_def from_slice_laws_def)
  show "key_length_laws hex_libs" by (simp add: hex_libs_def key_length_laws_def sample_libs_def)
  have unat: "unat b div 16 < 16" "unat b mod 16 < 16" for b :: byte using unat_byte_less [of b] by simp_all
  have "hex_decode (hexlower_encode hex_libs bs) = bs" for bs
    by (induction bs) (simp_all add: hex_libs_def sample_libs_def hex_digit_value(1) unat)
  moreover have "set (hexlower_encode hex_libs bs) \<subseteq> set hex_digits" for bs
    by (induction bs) (simp_all add: hex_libs_def sample_libs_def hex_digit_value(2) unat)
  moreover have "length (hexlower_encode hex_libs bs) = 2 * length bs" for bs
    by (induction bs) (simp_all add: hex_libs_def sample_libs_def)
  ultimately show "hex_laws hex_libs" unfolding hex_laws_def by (simp add: hex_libs_def)
qed

end
