(* ===== verification/Chat_App.thy ===== *)
theory Chat_App
  imports Chat_Main
begin

text \<open>
  The function \<open>main\<close> of the chat program (\<open>examples/chat/main.rs\<close>) around the set-up of the client:
  the declared command line, logging, the certificate, the text that is printed, connecting, the
  handshake, and the start of the user interface. The libraries it calls (\<open>clap\<close>, \<open>log4rs\<close>,
  \<open>native_tls\<close>, \<open>url\<close>, \<open>cursive\<close>), the file system and the network are the fields of a record.
\<close>

section \<open>The command line\<close>

text \<open>What the builder methods of \<open>clap::Arg\<close>, \<open>SubCommand\<close> and \<open>App\<close> record.\<close>

record clap_arg =
  ca_name :: string
  ca_short :: "string option"
  ca_long :: "string option"
  ca_aliases :: "string list"
  ca_takes_value :: bool
  ca_value_name :: string
  ca_required :: bool
  ca_default_value :: "string option"
  ca_help :: string

record clap_subcommand =
  sc_name :: string
  sc_about :: string
  sc_args :: "clap_arg list"

record clap_app =
  app_name :: string
  app_version :: string
  app_author :: string
  app_about :: string
  app_subcommands :: "clap_subcommand list"

definition ARG_PATH :: string where "ARG_PATH = ''path''"
definition ARG_RESPONDER_KEY :: string where "ARG_RESPONDER_KEY = ''responder_key''"
definition ARG_PRIVATE_KEY :: string where "ARG_PRIVATE_KEY = ''private_key''"
definition ARG_AUTHTOKEN :: string where "ARG_AUTHTOKEN = ''authtoken''"
definition ARG_PING_INTERVAL :: string where "ARG_PING_INTERVAL = ''ping_interval''"

definition arg_ping_interval :: clap_arg where
  "arg_ping_interval =
     \<lparr>ca_name = ARG_PING_INTERVAL, ca_short = Some ''i'', ca_long = None, ca_aliases = [], ca_takes_value = True,
      ca_value_name = ''SECONDS'', ca_required = False, ca_default_value = Some ''60'',
      ca_help = ''The WebSocket ping interval (set to 0 to disable pings)''\<rparr>"

text \<open>A required argument with a long name and a value.\<close>

definition required_arg :: "string \<Rightarrow> string \<Rightarrow> string list \<Rightarrow> string \<Rightarrow> string \<Rightarrow> clap_arg" where
  "required_arg name long aliases value_name help =
     \<lparr>ca_name = name, ca_short = None, ca_long = Some long, ca_aliases = aliases, ca_takes_value = True,
      ca_value_name = value_name, ca_required = True, ca_default_value = None, ca_help = help\<rparr>"

definition arg_private_key :: clap_arg where
  "arg_private_key = required_arg ARG_PRIVATE_KEY ''private-key'' [] ''PRIVATE_KEY'' ''The own private key (hex encoded)''"

definition arg_responder_key :: clap_arg where
  "arg_responder_key =
     required_arg ARG_RESPONDER_KEY ''responder-key'' [] ''RESPONDER_KEY'' ''The trusted responder public key (hex encoded)''"

definition arg_path :: clap_arg where
  "arg_path =
     required_arg ARG_PATH ''path'' [] ''PATH'' ''The websocket path (hex encoded public key of the initiator)''"

definition arg_authtoken :: clap_arg where
  "arg_authtoken =
     required_arg ARG_AUTHTOKEN ''auth-token'' [''token'', ''authtoken''] ''AUTHTOKEN'' ''The auth token (hex encoded)''"

definition chat_app :: "string \<Rightarrow> clap_app" where
  "chat_app version =
     \<lparr>app_name = ''SaltyRTC Test Client'', app_version = version, app_author = ''Danilo Bargen <mail@dbrgn.ch>'',
      app_about = ''Test client for SaltyRTC.'',
      app_subcommands =
        [\<lparr>sc_name = ''initiator'', sc_about = ''Start chat as initiator'', sc_args = [arg_ping_interval]\<rparr>,
         \<lparr>sc_name = ''initiator_trusted'', sc_about = ''Start chat as initiator with a trusted responder key'',
          sc_args = [arg_private_key, arg_responder_key, arg_ping_interval]\<rparr>,
         \<lparr>sc_name = ''responder'', sc_about = ''Start chat as responder'',
          sc_args = [arg_path, arg_authtoken, arg_ping_interval]\<rparr>,
         \<lparr>sc_name = ''responder_trusted'', sc_about = ''Start chat as responder with a trusted initiator key'',
          sc_args = [arg_path, arg_private_key, arg_ping_interval]\<rparr>]\<rparr>"

text \<open>
  \<open>get_matches\<close> ends the process itself after a wrong command line or a request for help;
  otherwise it yields the subcommand, if there is one, and the values of its arguments.
\<close>

datatype clap_matches = ClapExit exit_status | NoSubcommand | Subcommand string args

section \<open>Logging and TLS\<close>

datatype level_filter = LevelInfo | LevelTrace
datatype log_target = ConsoleTarget | FileTarget string

record log_appender =
  la_name :: string
  la_target :: log_target
  la_pattern :: string
  la_threshold :: "level_filter option"

record log_config =
  lc_appenders :: "log_appender list"
  lc_loggers :: "(string \<times> level_filter) list"
  lc_root_appenders :: "string list"
  lc_root_level :: level_filter

datatype file_read = OpenError | ReadError | FileBytes "byte list"
datatype tls_protocol = Tlsv10

record 'c tls_settings =
  tls_min_protocol :: "tls_protocol option"
  tls_max_protocol :: "tls_protocol option"
  tls_root_certificates :: "'c list"

text \<open>
  The libraries and the system. A \<open>string\<close> in the result of a call is the text of its error.
  The answer of the network to \<open>async_connect_secure\<close> is \<open>None\<close> as long as there is none.
\<close>

record ('c, 'k, 'u) chat_os =
  os_version :: string
  os_get_matches :: "clap_app \<Rightarrow> string list \<Rightarrow> clap_matches"
  os_log_file :: "string \<Rightarrow> bool"
  os_log_build :: "log_config \<Rightarrow> bool"
  os_log_init :: "log_config \<Rightarrow> bool"
  os_core_new :: bool
  os_read_file :: "string \<Rightarrow> file_read"
  os_from_pem :: "byte list \<Rightarrow> string + 'c"
  os_tls_build :: "'c tls_settings \<Rightarrow> string + 'k"
  os_url_parse :: "string \<Rightarrow> string + 'u"
  os_connect :: "'u \<Rightarrow> string \<Rightarrow> 'k option \<Rightarrow> ((string \<times> string option) + string list option) option"
  os_ncurses :: bool

text \<open>The process: draws from the random number generator, its standard output, the log configuration.\<close>

record chat_process =
  cp_entropy :: nat
  cp_stdout :: string
  cp_log :: "log_config option"

text \<open>The process ends with a status, or waits for the network.\<close>

datatype chat_end = ProcessExit exit_status | Waiting

definition println :: "string \<Rightarrow> (chat_process, 'e, unit) proc" where
  "println text = modifyS (cp_stdout_update (\<lambda>out. out @ text @ [CHR 0x0A]))"

definition exit_failure :: "(chat_process, chat_end, 'a) proc" where
  "exit_failure = failS (ProcessExit (ExitStatus 1))"

definition unwrap_okS :: "string \<Rightarrow> bool \<Rightarrow> ('s, 'e, unit) proc" where
  "unwrap_okS msg ok = (if ok then returnS () else panicS msg)"

definition log_format :: string where
  "log_format = ''{d(%Y-%m-%dT%H:%M:%S%.3f)} [{l:<5}] {m} (({f}:{L})){n}''"

definition log_file_of :: "role \<Rightarrow> string" where
  "log_file_of role = (case role of RoleInitiator \<Rightarrow> ''chat.initiator.log'' | RoleResponder \<Rightarrow> ''chat.responder.log'')"

definition log_config_for :: "role \<Rightarrow> bool \<Rightarrow> log_config" where
  "log_config_for role log_to_stdout =
     \<lparr>lc_appenders =
        [\<lparr>la_name = ''stdout'', la_target = ConsoleTarget, la_pattern = log_format, la_threshold = Some LevelInfo\<rparr>,
         \<lparr>la_name = ''file'', la_target = FileTarget (log_file_of role), la_pattern = log_format, la_threshold = None\<rparr>],
      lc_loggers = [(''saltyrtc_client'', LevelTrace), (''chat'', LevelTrace)],
      lc_root_appenders = (if log_to_stdout then [''stdout'', ''file''] else [''file'']),
      lc_root_level = LevelInfo\<rparr>"

definition setup_logging :: "('c, 'k, 'u) chat_os \<Rightarrow> role \<Rightarrow> bool \<Rightarrow> ('s, 'e, log_config) proc" where
  "setup_logging OS role log_to_stdout =
     thenS (unwrap_okS m_unwrap_err (os_log_file OS (log_file_of role)))
     (thenS (unwrap_okS m_unwrap_err (os_log_build OS (log_config_for role log_to_stdout)))
     (returnS (log_config_for role log_to_stdout)))"

definition read_certificate :: "('c, 'k, 'u) chat_os \<Rightarrow> ('s, 'e, 'c) proc" where
  "read_certificate OS =
     (case os_read_file OS ''saltyrtc.crt'' of
        OpenError \<Rightarrow> panicS ''Could not open saltyrtc.crt''
      | ReadError \<Rightarrow> panicS ''Could not read saltyrtc.crt''
      | FileBytes server_cert_bytes \<Rightarrow>
          (case os_from_pem OS server_cert_bytes of
             Inr server_cert \<Rightarrow> returnS server_cert
           | Inl e \<Rightarrow> panicS (''Problem with CA cert: '' @ e)))"

definition tls_connector :: "('c, 'k, 'u) chat_os \<Rightarrow> 'c \<Rightarrow> ('s, 'e, 'k) proc" where
  "tls_connector OS server_cert =
     (case os_tls_build OS \<lparr>tls_min_protocol = Some Tlsv10, tls_max_protocol = None, tls_root_certificates = [server_cert]\<rparr> of
        Inr connector \<Rightarrow> returnS connector
      | Inl e \<Rightarrow> panicS (''Could not initialize TlsConnector: '' @ e))"

section \<open>The function \<open>main\<close> up to the loops\<close>

definition chat_arguments :: "('c, 'k, 'u) chat_os \<Rightarrow> string list \<Rightarrow> (chat_process, chat_end, string \<times> args) proc" where
  "chat_arguments OS argv =
     (case os_get_matches OS (chat_app (os_version OS)) argv of
        ClapExit status \<Rightarrow> failS (ProcessExit status)
      | NoSubcommand \<Rightarrow>
          thenS (println ''Missing subcommand.'')
          (thenS (println ''Use -h or --help to see usage.'')
          exit_failure)
      | Subcommand name args \<Rightarrow> returnS (name, args))"

definition chat_role :: "string \<Rightarrow> (chat_process, chat_end, role \<times> bool) proc" where
  "chat_role name =
     (case subcommand_role name of
        Ok r \<Rightarrow> returnS r
      | Err status \<Rightarrow> thenS (println (''Invalid subcommand: '' @ name)) (failS (ProcessExit status))
      | Panic m \<Rightarrow> panicS m)"

definition init_logging :: "('c, 'k, 'u) chat_os \<Rightarrow> role \<Rightarrow> (chat_process, 'e, unit) proc" where
  "init_logging OS role =
     bindS (setup_logging OS role True) (\<lambda>config.
     thenS (unwrap_okS m_unwrap_err (os_log_init OS config))
     (modifyS (cp_log_update (\<lambda>_. Some config))))"

text \<open>The lines about the connection, with the colour codes of the terminal.\<close>

definition banner_lines :: "'v chat_setup \<Rightarrow> string list" where
  "banner_lines su =
     [[CHR 0x0A, CHR 0x1B] @ ''[32m******************************'',
      ''Connecting as '' @ fmt_role (su_role su) @ '' ('' @ (if su_is_trusted su then ''trusted'' else ''not trusted'') @ '')'',
      [],
      ''   Own permanent public key: '' @ su_own_pubkey_hex su,
      ''  Own permanent private key: '' @ su_own_privkey_hex su,
      ''             Signaling path: '' @ su_path su,
      (case su_auth_token_hex su of
         Some auth_token \<Rightarrow> ''                 Auth token: '' @ auth_token
       | None \<Rightarrow> ''Using trusted key''),
      [],
      ''To connect with a peer:'',
      connect_command su,
      ''******************************'' @ [CHR 0x1B] @ ''[0m'' @ [CHR 0x0A]]"

definition chat_banner :: "'v chat_setup \<Rightarrow> (chat_process, 'e, unit) proc" where
  "chat_banner su = for_each println (banner_lines su)"

text \<open>The part of \<open>main\<close> that prepares the client: its result also holds the TLS connector.\<close>

definition chat_prepare ::
  "'z libs_scheme \<Rightarrow> ('c, 'k, 'u) chat_os \<Rightarrow> string list \<Rightarrow> (chat_process, chat_end, 'k \<times> 'v chat_setup) proc" where
  "chat_prepare L OS argv =
     bindS (chat_arguments OS argv) (\<lambda>(name, args).
     bindS (chat_role name) (\<lambda>(role, is_trusted).
     thenS (init_logging OS role)
     (thenS (unwrap_okS m_unwrap_err (os_core_new OS))
     (bindS (read_certificate OS) (\<lambda>server_cert.
      bindS (tls_connector OS server_cert) (\<lambda>connector.
      bindS (zoomS cp_entropy cp_entropy_update (chat_setup_for L role is_trusted args)) (\<lambda>su.
      thenS (chat_banner su)
      (returnS (connector, su)))))))))"

text \<open>
  Connecting and the handshake, run to their end by \<open>core.run\<close>; \<open>turns\<close> is what the network
  delivers during the handshake.
\<close>

definition handshake_success ::
  "'t handshake \<Rightarrow> (chat_process, chat_end, 't handshake) proc" where
  "handshake_success s =
     thenS (println ''Handshake done'')
     (thenS (println ''Handshake success.'')
     (returnS s))"

definition handshake_failed :: "salty_error \<Rightarrow> (chat_process, chat_end, 'a) proc" where
  "handshake_failed e =
     thenS (println (''Handshake failed: '' @ fmt_salty_error e))
     exit_failure"

definition chat_connect ::
  "('v chat_task, 'v, 'z) env_scheme \<Rightarrow> ('c, 'k, 'u) chat_os \<Rightarrow> turn list \<Rightarrow> 'k \<Rightarrow> 'v chat_setup \<Rightarrow>
   (chat_process, chat_end, 'v chat_task handshake) proc" where
  "chat_connect E OS turns connector su =
     (let salty = \<lparr>sh_client = su_client su, sh_poisoned = False\<rparr> in
      bindS (unwrapS m_unwrap_err (connect E (os_url_parse OS) ''localhost'' 8765 salty)) (\<lambda>ws_url.
      case os_connect OS ws_url subprotocol (Some connector) of
        None \<Rightarrow> failS Waiting
      | Some answer \<Rightarrow>
          (case connect_result ''localhost'' 8765 answer of
             Err e \<Rightarrow> handshake_failed e
           | Panic m \<Rightarrow> panicS m
           | Ok _ \<Rightarrow>
               thenS (println ''Connected to server'')
               (case do_handshake E None turns \<lparr>hs_shared = salty, hs_sent = [], hs_events = []\<rparr> of
                  (HandshakePending, s) \<Rightarrow> failS Waiting
                | (HandshakeCompleted, s) \<Rightarrow> handshake_success s
                | (HandshakeFailed e, s) \<Rightarrow> handshake_failed e
                | (HandshakePanicked m, s) \<Rightarrow> panicS m))))"

text \<open>
  The user interface: its text view starts with a welcome. The main thread waits for the sender
  of callbacks, which the thread of the interface hands over unless it cannot start.
\<close>

definition welcome_lines :: "string list" where
  "welcome_lines = [''=== Welcome to SaltyChat! ==='', ''Type /quit to exit.'', ''Type /help to list available commands.'', '''']"

definition start_tui :: "('c, 'k, 'u) chat_os \<Rightarrow> 'v chat_task \<Rightarrow> (chat_process, 'e, 'v chat_ui) proc" where
  "start_tui OS task =
     (if os_ncurses OS
      then returnS \<lparr>ui_lines = welcome_lines, ui_running = True, ui_quit = False, ui_task = task\<rparr>
      else panicS ''Could not get sender from TUI thread'')"

text \<open>
  The task loop and the user interface. \<open>task_loop\<close> calls \<open>start\<close> of the task; the only task that
  was proposed is a chat task, so that \<open>downcast_mut\<close> succeeds.
\<close>

definition chat_start_loops ::
  "('c, 'k, 'u) chat_os \<Rightarrow> role \<Rightarrow> 'v chat_task handshake \<Rightarrow>
   (chat_process, chat_end, ('v chat_task, 'v) task_loop_state \<times> 'v chat_ui) proc" where
  "chat_start_loops OS role s =
     bindS (case task_loop (hs_shared s) of
         Ok r \<Rightarrow> returnS r
       | Err e \<Rightarrow> thenS (println (''Creating task loop failed: '' @ fmt_salty_error e)) exit_failure
       | Panic m \<Rightarrow> panicS m) (\<lambda>(task, loop).
     thenS (println (''Starting TUI and disabling logging to stdout. See `chat.'' @ to_lowercase (fmt_role role) @
       ''.log` for logs.''))
     (bindS (setup_logging OS role False) (\<lambda>config.
      thenS (modifyS (cp_log_update (\<lambda>_. Some config)))
      (bindS (start_tui OS (snd (chat_start task :: (chat_end, unit) outcome \<times> 'v chat_task))) (\<lambda>ui.
       returnS (loop, ui))))))"

definition chat_main ::
  "('v chat_task, 'v, 'z) env_scheme \<Rightarrow> ('c, 'k, 'u) chat_os \<Rightarrow> string list \<Rightarrow> turn list \<Rightarrow>
   (chat_process, chat_end, ('v chat_task, 'v) task_loop_state \<times> 'v chat_ui) proc" where
  "chat_main E OS argv turns =
     bindS (chat_prepare E OS argv) (\<lambda>(connector, su).
     bindS (chat_connect E OS turns connector su) (\<lambda>s.
       chat_start_loops OS (su_role su) s))"

text \<open>
  The end of \<open>main\<close>, with the results of the four loops that \<open>join_all\<close> has run. The thread of the
  user interface is joined last; it may have panicked.
\<close>

definition chat_finish ::
  "bool \<Rightarrow> (salty_error, unit) outcome list \<Rightarrow> (chat_process, chat_end, unit) proc" where
  "chat_finish tui_panicked results =
     (case main_exit results of
        Ok _ \<Rightarrow> thenS (println ''Success.'') (unwrap_okS m_unwrap_err (\<not> tui_panicked))
      | Err status \<Rightarrow>
          thenS (println ''Main loop exited with an error: ()'') (failS (ProcessExit status))
      | Panic m \<Rightarrow> panicS m)"

section \<open>Every command line\<close>

text \<open>
  What is documented of \<open>clap\<close>. A subcommand that \<open>get_matches\<close> returns was declared, and each of its
  arguments that is required or has a default value has a value.
\<close>

definition clap_sound :: "(clap_app \<Rightarrow> string list \<Rightarrow> clap_matches) \<Rightarrow> bool" where
  "clap_sound get_matches \<longleftrightarrow>
     (\<forall>app argv name args. get_matches app argv = Subcommand name args \<longrightarrow>
        (\<exists>sc\<in>set (app_subcommands app). sc_name sc = name \<and>
           (\<forall>a\<in>set (sc_args sc). ca_required a \<or> ca_default_value a \<noteq> None \<longrightarrow> args (ca_name a) \<noteq> None)))"

definition option_names :: "clap_arg \<Rightarrow> string list" where
  "option_names a =
     (case ca_short a of Some s \<Rightarrow> [''-'' @ s] | None \<Rightarrow> []) @
     (case ca_long a of Some l \<Rightarrow> [''--'' @ l] | None \<Rightarrow> []) @ map (\<lambda>l. ''--'' @ l) (ca_aliases a)"

definition default_of :: "clap_arg list \<Rightarrow> string \<Rightarrow> string option" where
  "default_of args name = Option.bind (find (\<lambda>a. ca_name a = name \<and> ca_default_value a \<noteq> None) args) ca_default_value"

definition matched :: "clap_arg list \<Rightarrow> (string \<times> string) list \<Rightarrow> args" where
  "matched args given name = (case map_of given name of Some v \<Rightarrow> Some v | None \<Rightarrow> default_of args name)"

text \<open>
  A command line with the name of a subcommand and options in their long form, all required ones
  among them, is accepted; the arguments that are not given have their default values.
\<close>

definition clap_app_ok :: "clap_app \<Rightarrow> bool" where
  "clap_app_ok app \<longleftrightarrow> distinct (map sc_name (app_subcommands app)) \<and>
     list_all (\<lambda>sc. distinct (map ca_name (sc_args sc)) \<and> distinct (concat (map option_names (sc_args sc)))) (app_subcommands app)"

definition options_ok :: "clap_arg list \<Rightarrow> (clap_arg \<times> string) list \<Rightarrow> bool" where
  "options_ok args given \<longleftrightarrow> set (map fst given) \<subseteq> set args \<and> distinct (map fst given) \<and>
     list_all (\<lambda>(a, v). ca_takes_value a \<and> ca_long a \<noteq> None \<and> v \<noteq> [] \<and> hd v \<noteq> CHR ''-'') given \<and>
     list_all (\<lambda>a. ca_required a \<longrightarrow> a \<in> set (map fst given)) args"

definition option_words :: "(clap_arg \<times> string) list \<Rightarrow> string list" where
  "option_words given = concat (map (\<lambda>(a, v). [''--'' @ the (ca_long a), v]) given)"

definition clap_complete :: "(clap_app \<Rightarrow> string list \<Rightarrow> clap_matches) \<Rightarrow> bool" where
  "clap_complete get_matches \<longleftrightarrow>
     (\<forall>app sc given. clap_app_ok app \<longrightarrow> sc \<in> set (app_subcommands app) \<longrightarrow> options_ok (sc_args sc) given \<longrightarrow>
        get_matches app (sc_name sc # option_words given) =
          Subcommand (sc_name sc) (matched (sc_args sc) (map (\<lambda>(a, v). (ca_name a, v)) given)))"

text \<open>
  A log configuration that \<open>log4rs\<close> accepts: names are used once, and the appenders of the root
  logger exist.
\<close>

definition log_config_ok :: "log_config \<Rightarrow> bool" where
  "log_config_ok config \<longleftrightarrow> distinct (map la_name (lc_appenders config)) \<and> distinct (map fst (lc_loggers config)) \<and>
     set (lc_root_appenders config) \<subseteq> set (map la_name (lc_appenders config))"

text \<open>Everything outside the program works: the log file, the reactor, the certificate, TLS.\<close>

definition os_ready :: "('c, 'k, 'u) chat_os \<Rightarrow> bool" where
  "os_ready OS \<longleftrightarrow> (\<forall>path. os_log_file OS path) \<and> 
     (\<forall>config. log_config_ok config \<longrightarrow> os_log_build OS config \<and> os_log_init OS config) \<and>
     os_core_new OS \<and> (\<exists>bytes cert k. os_read_file OS ''saltyrtc.crt'' = FileBytes bytes \<and> os_from_pem OS bytes = Inr cert \<and>
       os_tls_build OS \<lparr>tls_min_protocol = Some Tlsv10, tls_max_protocol = None, tls_root_certificates = [cert]\<rparr> = Inr k)"

text \<open>The values of the arguments can be decoded.\<close>

definition valued :: "args \<Rightarrow> string \<Rightarrow> (string \<Rightarrow> bool) \<Rightarrow> bool" where
  "valued args name P = (case args name of Some v \<Rightarrow> P v | None \<Rightarrow> False)"

definition is_ok :: "('e, 'a) outcome \<Rightarrow> bool" where
  "is_ok r = (case r of Ok _ \<Rightarrow> True | _ \<Rightarrow> False)"

definition values_ok :: "'z libs_scheme \<Rightarrow> role \<Rightarrow> bool \<Rightarrow> args \<Rightarrow> bool" where
  "values_ok L role is_trusted args \<longleftrightarrow>
     (is_trusted \<longrightarrow> valued args ''private_key'' (\<lambda>h. is_ok (private_key_from_hex_str L h))) \<and>
     valued args ''ping_interval'' (\<lambda>s. parse_u64 s \<noteq> None) \<and>
     (case role of
        RoleInitiator \<Rightarrow> is_trusted \<longrightarrow> valued args ''responder_key'' (\<lambda>h. is_ok (public_key_from_hex_str L h))
      | RoleResponder \<Rightarrow>
          valued args ''path'' (\<lambda>p. is_ok (public_key_from_hex_str L (to_lowercase p))) \<and>
          (is_trusted \<or> valued args ''authtoken'' (\<lambda>h. is_ok (auth_token_from_hex_str L h))))"

definition arguments_present :: "role \<Rightarrow> bool \<Rightarrow> args \<Rightarrow> bool" where
  "arguments_present role is_trusted args \<longleftrightarrow>
     args ''ping_interval'' \<noteq> None \<and> (is_trusted \<longrightarrow> args ''private_key'' \<noteq> None) \<and>
     (case role of
        RoleInitiator \<Rightarrow> is_trusted \<longrightarrow> args ''responder_key'' \<noteq> None
      | RoleResponder \<Rightarrow> args ''path'' \<noteq> None \<and> (is_trusted \<or> args ''authtoken'' \<noteq> None))"

text \<open>How the program complains about a value.\<close>

definition value_complaints :: "string set" where
  "value_complaints =
     {m_unwrap_err, ''Could not parse interval seconds to a number'', ''Invalid auth token hex string''}"

lemma declared_arguments:
  assumes "clap_sound get_matches" "get_matches (chat_app version) argv = Subcommand name args"
  obtains role is_trusted where "subcommand_role name = Ok (role, is_trusted)" "arguments_present role is_trusted args"
proof -
  from assms obtain sc where sc: "sc \<in> set (app_subcommands (chat_app version))" "sc_name sc = name"
    "\<forall>a\<in>set (sc_args sc). ca_required a \<or> ca_default_value a \<noteq> None \<longrightarrow> args (ca_name a) \<noteq> None"
    unfolding clap_sound_def by blast
  have "\<exists>role is_trusted. subcommand_role name = Ok (role, is_trusted) \<and> arguments_present role is_trusted args"
    using sc unfolding chat_app_def
    by (auto simp: subcommand_role_def arguments_present_def arg_ping_interval_def arg_private_key_def
        arg_responder_key_def arg_path_def arg_authtoken_def required_arg_def ARG_PATH_def ARG_RESPONDER_KEY_def
        ARG_PRIVATE_KEY_def ARG_AUTHTOKEN_def ARG_PING_INTERVAL_def)
  then show thesis using that by blast
qed

lemma builders_draw:
  assumes "random_laws L" "bd_tasks b \<noteq> []"
  shows "draws (builder_initiator L b)" "draws (builder_initiator_trusted L key b)"
    "draws (builder_responder L key token b)" "draws (builder_responder_trusted L key b)"
  using assms
  by (auto simp: builder_initiator_def builder_initiator_trusted_def builder_responder_def builder_responder_trusted_def
      builder_tasks_def tasks_from_vec_def liftO_Ok intro!: draws_rules initiator_new_draws responder_new_draws)

text \<open>A step of the set-up: it succeeds exactly if its condition holds, and otherwise complains.\<close>

definition settles :: "bool \<Rightarrow> ('a \<Rightarrow> bool) \<Rightarrow> (nat, 'e, 'a) proc \<Rightarrow> bool" where
  "settles good P m \<longleftrightarrow> (\<forall>i. \<exists>j. if good then \<exists>x. m i = (Ok x, j) \<and> P x else \<exists>p\<in>value_complaints. m i = (Panic p, j))"

lemma settles_return: "P x \<Longrightarrow> settles True P (returnS x)"
  by (simp add: settles_def returnS_def)

lemma settles_bind:
  assumes "settles a P m" "\<And>x. a \<Longrightarrow> P x \<Longrightarrow> settles b Q (k x)"
  shows "settles (a \<and> b) Q (bindS m k)"
  unfolding settles_def
proof
  fix i
  show "\<exists>j. if a \<and> b then \<exists>x. bindS m k i = (Ok x, j) \<and> Q x else \<exists>p\<in>value_complaints. bindS m k i = (Panic p, j)"
  proof (cases a)
    case True
    with assms(1) obtain x j where x: "m i = (Ok x, j)" "P x" unfolding settles_def by metis
    have "\<exists>j'. if b then \<exists>y. k x j = (Ok y, j') \<and> Q y else \<exists>p\<in>value_complaints. k x j = (Panic p, j')"
      using assms(2) [OF True x(2)] unfolding settles_def by blast
    with x(1) True show ?thesis by (cases b) (auto simp: bindS_def)
  next
    case False
    with assms(1) obtain p j where "p \<in> value_complaints" "m i = (Panic p, j)" unfolding settles_def by metis
    with False show ?thesis by (auto simp: bindS_def)
  qed
qed

lemma settles_draws: "draws m \<Longrightarrow> settles True (\<lambda>_. True) (expectS msg m)"
  unfolding draws_def settles_def expectS_def by (metis case_prod_conv outcome.simps(10) unwrap_eq_Ok_iff(1))

lemma settles_unwrap:
  assumes "\<And>m. r \<noteq> Panic m" "msg \<in> value_complaints"
  shows "settles (is_ok r) (\<lambda>_. True) (unwrapS msg r)"
  using assms by (cases r) (auto simp: settles_def is_ok_def unwrapS_def returnS_def panicS_def)

lemma settles_value: "x = Some v \<Longrightarrow> settles True (\<lambda>w. w = v) (unwrap_optionS msg x)"
  by (simp add: settles_def unwrap_optionS_def returnS_def)

lemma hex_no_panic [simp]:
  "private_key_from_hex_str L h \<noteq> Panic m" "public_key_from_hex_str L h \<noteq> Panic m" "auth_token_from_hex_str L h \<noteq> Panic m"
  by (auto simp: private_key_from_hex_str_def public_key_from_hex_str_def auth_token_from_hex_str_def ok_or_eq_iff
      split: sum.splits)

lemma complaints [simp]:
  "m_unwrap_err \<in> value_complaints" "''Could not parse interval seconds to a number'' \<in> value_complaints"
  "''Invalid auth token hex string'' \<in> value_complaints"
  by (simp_all add: value_complaints_def)

lemma settles_weaken: "settles a P m \<Longrightarrow> a = b \<Longrightarrow> (\<And>x. P x \<Longrightarrow> Q x) \<Longrightarrow> settles b Q m"
  unfolding settles_def by metis

lemma keypair_settles:
  assumes "random_laws L" "is_trusted \<longrightarrow> args ''private_key'' \<noteq> None"
  shows "settles (is_trusted \<longrightarrow> valued args ''private_key'' (\<lambda>h. is_ok (private_key_from_hex_str L h))) (\<lambda>_. True)
    (chat_keypair L is_trusted args)"
proof (cases is_trusted)
  case True
  with assms(2) obtain h where h: "args ''private_key'' = Some h" by auto
  have "settles (True \<and> is_ok (private_key_from_hex_str L h) \<and> True) (\<lambda>_. True) (chat_keypair L True args)"
    unfolding chat_keypair_def if_True
    by (rule settles_bind [OF settles_value [OF h]], clarify, rule settles_bind [OF settles_unwrap]) (simp_all add: settles_return)
  then show ?thesis using True h by (simp add: valued_def)
next
  case False
  then show ?thesis
    using assms(1) by (simp add: settles_def chat_keypair_def new_key_pair_def random_laws_def libsodium_init_or_panic_def
        proc_defs case_prod_beta)
qed

lemma ping_settles:
  assumes "args ''ping_interval'' \<noteq> None"
  shows "settles (valued args ''ping_interval'' (\<lambda>s. parse_u64 s \<noteq> None)) (\<lambda>_. True) (chat_ping_interval args)"
  using assms by (auto simp: settles_def chat_ping_interval_def unwrap_optionS_def valued_def proc_defs split: option.split)

lemma initiator_settles:
  assumes "random_laws L" "is_trusted \<longrightarrow> args ''responder_key'' \<noteq> None"
  shows "settles (is_trusted \<longrightarrow> valued args ''responder_key'' (\<lambda>h. is_ok (public_key_from_hex_str L h))) (\<lambda>_. True)
    (chat_client L RoleInitiator is_trusted args keypair path ping :: (nat, 'e, 'v chat_task salty_client \<times> _) proc)"
proof -
  let ?m = "\<lambda>t. chat_client L RoleInitiator t args keypair path ping :: (nat, 'e, 'v chat_task salty_client \<times> _) proc"
  define b :: "'v chat_task salty_client_builder" where "b = with_ping_interval (Some ping) (builder_add_task (chat_task_new ''initiat0r'') (builder_new keypair))"
  have "bd_tasks b \<noteq> []" by (simp add: b_def with_ping_interval_def builder_add_task_def builder_new_def)
  note draw = settles_draws [OF builders_draw(1) [OF assms(1) this]] settles_draws [OF builders_draw(2) [OF assms(1) this]]
  show ?thesis
  proof (cases is_trusted)
    case True
    with assms(2) obtain h where h: "args ''responder_key'' = Some h" by auto
    have "settles ((True \<and> is_ok (public_key_from_hex_str L h) \<and> True) \<and> True) (\<lambda>_. True)
(?m True)"
      unfolding chat_client_def role.case Let_def b_def [symmetric] if_True
      by (rule settles_bind [where P = "\<lambda>_. True"], rule settles_bind [OF settles_value [OF h]], clarify,
          rule settles_bind [OF settles_unwrap]) (simp_all add: settles_return draw)
    then show ?thesis using True h by (simp add: valued_def)
  next
    case False
    have "settles (True \<and> True) (\<lambda>_. True) (?m False)"
      unfolding chat_client_def role.case Let_def b_def [symmetric] if_False
      by (rule settles_bind [OF draw(1)]) (simp add: settles_return)
    then show ?thesis using False by simp
  qed
qed

lemma responder_settles:
  assumes "random_laws L" "is_trusted \<or> args ''authtoken'' \<noteq> None"
  shows "settles (is_ok (public_key_from_hex_str L path) \<and>
      (is_trusted \<or> valued args ''authtoken'' (\<lambda>h. is_ok (auth_token_from_hex_str L h)))) (\<lambda>_. True)
    (chat_client L RoleResponder is_trusted args keypair path ping :: (nat, 'e, 'v chat_task salty_client \<times> _) proc)"
proof -
  let ?m = "\<lambda>t. chat_client L RoleResponder t args keypair path ping :: (nat, 'e, 'v chat_task salty_client \<times> _) proc"
  define b :: "'v chat_task salty_client_builder" where
    "b = with_ping_interval (Some ping) (builder_add_task (chat_task_new ''r3spond3r'') (builder_new keypair))"
  have "bd_tasks b \<noteq> []" by (simp add: b_def with_ping_interval_def builder_add_task_def builder_new_def)
  note draw = settles_draws [OF builders_draw(3) [OF assms(1) this]] settles_draws [OF builders_draw(4) [OF assms(1) this]]
  show ?thesis
  proof (cases is_trusted)
    case True
    have "settles (is_ok (public_key_from_hex_str L path) \<and> True \<and> True) (\<lambda>_. True) (?m True)"
      unfolding chat_client_def role.case Let_def b_def [symmetric] if_True
      by (rule settles_bind [OF settles_unwrap]; (rule settles_bind [OF draw(2)])?; simp add: settles_return)
    then show ?thesis using True by simp
  next
    case False
    with assms(2) obtain h where h: "args ''authtoken'' = Some h" by auto
    have "settles (is_ok (public_key_from_hex_str L path) \<and> True \<and> is_ok (auth_token_from_hex_str L h) \<and> True \<and> True) (\<lambda>_. True) (?m False)"
      unfolding chat_client_def role.case Let_def b_def [symmetric] if_False
      by (rule settles_bind [OF settles_unwrap]; (rule settles_bind [OF settles_value [OF h]], clarify,
        rule settles_bind [OF settles_unwrap])?; (rule settles_bind [OF draw(1)])?; simp add: settles_return)
    then show ?thesis using False h by (simp add: valued_def)
  qed
qed

lemma setup_settles:
  assumes laws: "random_laws L" and present: "arguments_present role is_trusted args"
  shows "settles (values_ok L role is_trusted args) (\<lambda>su. su_role su = role \<and> su_is_trusted su = is_trusted)
    (chat_setup_for L role is_trusted args :: (nat, 'e, 'v chat_setup) proc)"
proof -
  have args: "args ''ping_interval'' \<noteq> None" "is_trusted \<longrightarrow> args ''private_key'' \<noteq> None"
    using present by (simp_all add: arguments_present_def)
  obtain path where path: "settles True (\<lambda>p. role = RoleResponder \<longrightarrow> p = path) (chat_path L role kp args :: (nat, 'e, string) proc)"
    "role = RoleResponder \<longrightarrow> (\<exists>p. args ''path'' = Some p \<and> path = to_lowercase p)" for kp
    using present
    by (cases role) (auto simp: settles_def arguments_present_def chat_path_def unwrap_optionS_def proc_defs)
  define good where "good = (case role of
      RoleInitiator \<Rightarrow> is_trusted \<longrightarrow> valued args ''responder_key'' (\<lambda>h. is_ok (public_key_from_hex_str L h))
    | RoleResponder \<Rightarrow> is_ok (public_key_from_hex_str L path) \<and>
        (is_trusted \<or> valued args ''authtoken'' (\<lambda>h. is_ok (auth_token_from_hex_str L h))))"
  have client: "settles good (\<lambda>_. True) (chat_client L role is_trusted args kp p ping :: (nat, 'e, 'v chat_task salty_client \<times> _) proc)"
    if "role = RoleResponder \<longrightarrow> p = path" for kp p ping
    using that present initiator_settles [OF laws, of is_trusted args] responder_settles [OF laws, of is_trusted args]
    unfolding good_def by (cases role) (auto simp: arguments_present_def)
  have "settles ((is_trusted \<longrightarrow> valued args ''private_key'' (\<lambda>h. is_ok (private_key_from_hex_str L h))) \<and> True \<and>
      valued args ''ping_interval'' (\<lambda>s. parse_u64 s \<noteq> None) \<and> good \<and> True)
    (\<lambda>su. su_role su = role \<and> su_is_trusted su = is_trusted) (chat_setup_for L role is_trusted args :: (nat, 'e, 'v chat_setup) proc)"
    unfolding chat_setup_for_def
    by (rule settles_bind [OF keypair_settles [of L is_trusted args, OF laws args(2)]], rule settles_bind [OF path(1)],
        rule settles_bind [OF ping_settles [of args, OF args(1)]], rule settles_bind [OF client])
      (auto intro!: settles_return split: prod.split)
  then show ?thesis
    by (rule settles_weaken) (use path(2) in \<open>auto simp: values_ok_def good_def valued_def split: role.splits\<close>)
qed

lemma log_config_for_ok: "log_config_ok (log_config_for role log_to_stdout)"
  by (simp add: log_config_ok_def log_config_for_def)

lemma system_starts:
  assumes "os_ready OS"
  obtains connector where "\<And>role p. (thenS (init_logging OS role) (thenS (unwrap_okS m_unwrap_err (os_core_new OS))
    (bindS (read_certificate OS) (\<lambda>cert. bindS (tls_connector OS cert) k)))) p =
      k connector (p\<lparr>cp_log := Some (log_config_for role True)\<rparr>)"
  using assms log_config_for_ok
  by (auto simp: os_ready_def init_logging_def setup_logging_def unwrap_okS_def read_certificate_def tls_connector_def proc_defs)

lemma prepare_runs:
  fixes OS :: "('c, 'k, 'u) chat_os"
  assumes "os_ready OS" "os_get_matches OS (chat_app (os_version OS)) argv = Subcommand name args"
    "subcommand_role name = Ok (role, is_trusted)"
  obtains connector :: 'k where "\<And>p. (chat_prepare L OS argv p :: (chat_end, 'k \<times> 'v chat_setup) outcome \<times> _) =
    bindS (zoomS cp_entropy cp_entropy_update (chat_setup_for L role is_trusted args)) (\<lambda>su.
      thenS (chat_banner su) (returnS (connector, su))) (p\<lparr>cp_log := Some (log_config_for role True)\<rparr>)"
proof -
  define k where "k = (\<lambda>connector :: 'k. bindS (zoomS cp_entropy cp_entropy_update (chat_setup_for L role is_trusted args)) (\<lambda>su.
    thenS (chat_banner su) (returnS (connector, su :: 'v chat_setup))) :: (chat_process, chat_end, _) proc)"
  obtain connector where c: "\<And>role p. (thenS (init_logging OS role) (thenS (unwrap_okS m_unwrap_err (os_core_new OS))
      (bindS (read_certificate OS) (\<lambda>cert. bindS (tls_connector OS cert) k)))) p =
        k connector (p\<lparr>cp_log := Some (log_config_for role True)\<rparr>)"
    by (rule system_starts [OF assms(1), of k]) blast
  have "(chat_prepare L OS argv p :: (chat_end, 'k \<times> 'v chat_setup) outcome \<times> _) =
      k connector (p\<lparr>cp_log := Some (log_config_for role True)\<rparr>)" for p
    unfolding c [symmetric] by (simp add: chat_prepare_def chat_arguments_def chat_role_def assms(2,3) k_def)
  then show thesis using that unfolding k_def by blast
qed

definition printed :: "string list \<Rightarrow> string" where
  "printed lines = concat (map (\<lambda>l. l @ [CHR 0x0A]) lines)"

lemma lines_printed: "for_each println lines p = (Ok (), p\<lparr>cp_stdout := cp_stdout p @ printed lines\<rparr>)"
  by (induction lines arbitrary: p) (simp_all add: printed_def println_def proc_defs)

text \<open>
  C29. Whatever the command line, the program never stumbles over a missing argument: the unwrapped
  \<open>value_of\<close> calls are safe because of the way the arguments are declared, and the branch for an
  invalid subcommand is not reached. When the system is in order and \<open>clap\<close> accepts the command
  line, the client is set up exactly if every value can be decoded; otherwise the program panics with a
  complaint about the value. Without a subcommand it exits with status 1.
\<close>

theorem command_line_outcome:
  fixes OS :: "('c, 'k, 'u) chat_os"
  assumes clap: "clap_sound (os_get_matches OS)" and sys: "os_ready OS" and laws: "random_laws L"
  shows "let r = (chat_prepare L OS argv p :: (chat_end, 'k \<times> 'v chat_setup) outcome \<times> _) in
    case os_get_matches OS (chat_app (os_version OS)) argv of
      ClapExit status \<Rightarrow> r = (Err (ProcessExit status), p)
    | NoSubcommand \<Rightarrow> \<exists>p'. r = (Err (ProcessExit (ExitStatus 1)), p')
    | Subcommand name args \<Rightarrow> \<exists>role is_trusted. subcommand_role name = Ok (role, is_trusted) \<and>
        (if values_ok L role is_trusted args
         then \<exists>connector su p'. r = (Ok (connector, su), p') \<and>
           su_role su = role \<and> su_is_trusted su = is_trusted \<and> cp_stdout p' = cp_stdout p @ printed (banner_lines su)
         else \<exists>m p'. r = (Panic m, p') \<and> m \<in> value_complaints)"
proof (cases "os_get_matches OS (chat_app (os_version OS)) argv")
  case (Subcommand name args)
  obtain role is_trusted where name: "subcommand_role name = Ok (role, is_trusted)" "arguments_present role is_trusted args"
    by (rule declared_arguments [OF clap Subcommand])
  obtain connector where "(chat_prepare L OS argv p :: (chat_end, 'k \<times> 'v chat_setup) outcome \<times> _) =
      bindS (zoomS cp_entropy cp_entropy_update (chat_setup_for L role is_trusted args)) (\<lambda>su.
        thenS (chat_banner su) (returnS (connector, su))) (p\<lparr>cp_log := Some (log_config_for role True)\<rparr>)"
    by (rule prepare_runs [OF sys Subcommand name(1), where L = L and 'v = 'v]) blast
  moreover obtain j where "if values_ok L role is_trusted args
      then \<exists>su :: 'v chat_setup. (chat_setup_for L role is_trusted args (cp_entropy p) :: (chat_end, _) outcome \<times> _) = (Ok su, j) \<and>
        su_role su = role \<and> su_is_trusted su = is_trusted
      else \<exists>m\<in>value_complaints. (chat_setup_for L role is_trusted args (cp_entropy p) :: (chat_end, 'v chat_setup) outcome \<times> _) = (Panic m, j)"
    using setup_settles [OF laws name(2), where 'e = chat_end and 'v = 'v] unfolding settles_def by metis
  ultimately show ?thesis
    using Subcommand name(1)
    by (cases "values_ok L role is_trusted args") (auto simp: zoomS_def proc_defs Let_def chat_banner_def lines_printed)
qed (simp_all add: chat_prepare_def chat_arguments_def exit_failure_def println_def Let_def proc_defs)

section \<open>A small \<open>clap\<close>\<close>

text \<open>
  An implementation for which what is documented holds: options with their values, in any order,
  and default values.
\<close>

fun parse_options :: "clap_arg list \<Rightarrow> string list \<Rightarrow> (string \<times> string) list option" where
  "parse_options args [] = Some []"
| "parse_options args [w] = None"
| "parse_options args (w # v # ws) =
     (case find (\<lambda>a. w \<in> set (option_names a)) args of
        Some a \<Rightarrow> map_option (Cons (ca_name a, v)) (parse_options args ws)
      | None \<Rightarrow> None)"

definition sample_get_matches :: "clap_app \<Rightarrow> string list \<Rightarrow> clap_matches" where
  "sample_get_matches app argv =
     (case argv of
        [] \<Rightarrow> NoSubcommand
      | name # ws \<Rightarrow>
          (case find (\<lambda>sc. sc_name sc = name) (app_subcommands app) of
             None \<Rightarrow> ClapExit (ExitStatus 1)
           | Some sc \<Rightarrow>
               (case parse_options (sc_args sc) ws of
                  None \<Rightarrow> ClapExit (ExitStatus 1)
                | Some given \<Rightarrow>
                    if list_all (\<lambda>a. ca_required a \<longrightarrow> map_of given (ca_name a) \<noteq> None) (sc_args sc)
                    then Subcommand name (matched (sc_args sc) given) else ClapExit (ExitStatus 1))))"

lemma sample_clap_sound: "clap_sound sample_get_matches"
  unfolding clap_sound_def
proof (intro allI impI)
  fix app argv name args
  assume "sample_get_matches app argv = Subcommand name args"
  then obtain sc given where sc: "find (\<lambda>sc. sc_name sc = name) (app_subcommands app) = Some sc"
    "args = matched (sc_args sc) given" "\<forall>a\<in>set (sc_args sc). ca_required a \<longrightarrow> map_of given (ca_name a) \<noteq> None"
    by (auto simp: sample_get_matches_def list_all_iff split: list.splits option.splits if_splits)
  moreover have "default_of (sc_args sc) (ca_name a) \<noteq> None" if "a \<in> set (sc_args sc)" "ca_default_value a \<noteq> None" for a
    using that by (cases "find (\<lambda>b. ca_name b = ca_name a \<and> ca_default_value b \<noteq> None) (sc_args sc)")
      (auto simp: default_of_def find_None_iff dest: find_SomeD)
  ultimately show "\<exists>sc\<in>set (app_subcommands app). sc_name sc = name \<and>
      (\<forall>a\<in>set (sc_args sc). ca_required a \<or> ca_default_value a \<noteq> None \<longrightarrow> args (ca_name a) \<noteq> None)"
    by (intro bexI [of _ sc]) (auto simp: matched_def dest: find_SomeD split: option.split)
qed

lemma find_key: "distinct (map f xs) \<Longrightarrow> x \<in> set xs \<Longrightarrow> find (\<lambda>y. f y = f x) xs = Some x"
  by (induction xs) force+

lemma find_option:
  assumes "distinct (concat (map option_names args))" "a \<in> set args" "w \<in> set (option_names a)"
  shows "find (\<lambda>b. w \<in> set (option_names b)) args = Some a"
  using assms by (induction args) auto

lemma parse_option_words:
  assumes "distinct (concat (map option_names args))" "set (map fst given) \<subseteq> set args"
    "list_all (\<lambda>(a, v). ca_long a \<noteq> None) given"
  shows "parse_options args (option_words given) = Some (map (\<lambda>(a, v). (ca_name a, v)) given)"
  using assms(2,3)
proof (induction given)
  case (Cons g given)
  obtain a v l where g: "g = (a, v)" "ca_long a = Some l" using Cons.prems(2) by (cases g) auto
  then have "''--'' @ l \<in> set (option_names a)" by (simp add: option_names_def)
  from find_option [OF assms(1) _ this] Cons.prems(1) g have "find (\<lambda>b. ''--'' @ l \<in> set (option_names b)) args = Some a" by simp
  with Cons g show ?case by (simp add: option_words_def)
qed (simp add: option_words_def)

lemma sample_clap_complete: "clap_complete sample_get_matches"
  unfolding clap_complete_def
proof (intro allI impI)
  fix app sc given
  assume ok: "clap_app_ok app" "sc \<in> set (app_subcommands app)" "options_ok (sc_args sc) given"
  let ?given = "map (\<lambda>(a, v). (ca_name a, v)) given"
  have names: "distinct (map sc_name (app_subcommands app))" "distinct (concat (map option_names (sc_args sc)))"
    using ok(1,2) by (auto simp: clap_app_ok_def list_all_iff)
  have "find (\<lambda>c. sc_name c = sc_name sc) (app_subcommands app) = Some sc"
    by (rule find_key [OF names(1) ok(2)])
  moreover have "parse_options (sc_args sc) (option_words given) = Some ?given"
    by (rule parse_option_words [OF names(2)]) (use ok(3) in \<open>auto simp: options_ok_def list_all_iff\<close>)
  moreover have "map_of ?given (ca_name a) \<noteq> None" if "a \<in> set (sc_args sc)" "ca_required a" for a
  proof -
    have "a \<in> fst ` set given" using that ok(3) by (simp add: options_ok_def list_all_iff)
    then obtain v where "(a, v) \<in> set given" by auto
    then have "(ca_name a, v) \<in> set ?given" unfolding set_map by (rule rev_image_eqI) simp
    from weak_map_of_SomeI [OF this] show ?thesis by simp
  qed
  then have "list_all (\<lambda>a. ca_required a \<longrightarrow> map_of ?given (ca_name a) \<noteq> None) (sc_args sc)" unfolding list_all_iff by blast
  ultimately show "sample_get_matches app (sc_name sc # option_words given) =
      Subcommand (sc_name sc) (matched (sc_args sc) ?given)"
    by (simp only: sample_get_matches_def list.case option.case if_True)
qed

definition sample_os :: "(byte list, unit, string) chat_os" where
  "sample_os =
     \<lparr>os_version = ''0.7.0'', os_get_matches = sample_get_matches, os_log_file = (\<lambda>_. True), os_log_build = (\<lambda>_. True),
      os_log_init = (\<lambda>_. True), os_core_new = True, os_read_file = (\<lambda>_. FileBytes [1]), os_from_pem = Inr,
      os_tls_build = (\<lambda>_. Inr ()), os_url_parse = Inr, os_connect = (\<lambda>_ _ _. Some (Inr (Some [subprotocol]))),
      os_ncurses = True\<rparr>"

definition new_process :: chat_process where
  "new_process = \<lparr>cp_entropy = 0, cp_stdout = [], cp_log = None\<rparr>"

text \<open>A responder with a token, but a path that is not a key.\<close>

theorem command_line_outcome_witness:
  "\<exists>m p'. (chat_prepare hex_libs sample_os [''responder'', ''--auth-token'', ''00'', ''--path'', ''00''] new_process ::
      (chat_end, _ \<times> unit chat_setup) outcome \<times> _) = (Panic m, p') \<and> m \<in> value_complaints"
proof -
  let ?argv = "[''responder'', ''--auth-token'', ''00'', ''--path'', ''00'']"
  have ready: "clap_sound (os_get_matches sample_os)" "os_ready sample_os"
    by (simp_all add: sample_os_def sample_clap_sound os_ready_def)
  define args where "args = matched [arg_path, arg_authtoken, arg_ping_interval] [(''authtoken'', ''00''), (''path'', ''00'')]"
  have "os_get_matches sample_os (chat_app (os_version sample_os)) ?argv = Subcommand ''responder'' args"
    unfolding args_def by (simp add: sample_os_def sample_get_matches_def chat_app_def option_names_def arg_path_def
        arg_authtoken_def required_arg_def arg_ping_interval_def ARG_PATH_def ARG_AUTHTOKEN_def)
  moreover have "\<not> values_ok hex_libs RoleResponder False args" unfolding args_def by code_simp
  ultimately show ?thesis
    using command_line_outcome [OF ready hex_libs_laws(1), of ?argv new_process, where 'v = unit]
    by (auto simp: subcommand_role_def Let_def)
qed

end
