(* ===== verification/Invitation.thy ===== *)
theory Invitation
  imports Chat_App
begin

text \<open>
  The command that the chat program of an initiator prints, started by the user of the responder:
  as words of a shell, as arguments that \<open>clap\<close> accepts, and as a client that fits.
\<close>

section \<open>The printed command\<close>

text \<open>
  The words of a command without quotes, as a shell reads them: a backslash at the end of a line
  joins it with the next one, and blanks separate words.
\<close>

fun join_lines :: "string \<Rightarrow> string" where
  "join_lines (c # d # cs) = (if c = CHR 0x5C \<and> d = CHR 0x0A then join_lines cs else c # join_lines (d # cs))"
| "join_lines cs = cs"

definition shell_words :: "string \<Rightarrow> string list" where
  "shell_words text = split_whitespace (join_lines text)"

definition plain_char :: "char \<Rightarrow> bool" where
  "plain_char c \<longleftrightarrow> 32 < (of_char c :: nat) \<and> (of_char c :: nat) < 128 \<and> c \<noteq> CHR 0x5C"

definition plain_word :: "string \<Rightarrow> bool" where
  "plain_word w \<longleftrightarrow> w \<noteq> [] \<and> list_all plain_char w"

lemma join_plain: "list_all (\<lambda>c. c \<noteq> CHR 0x5C) xs \<Longrightarrow> join_lines (xs @ ys) = xs @ join_lines ys"
proof (induction xs)
  case (Cons c xs)
  then show ?case by (cases "xs @ ys") auto
qed simp

lemma join_newline: "join_lines (CHR 0x5C # CHR 0x0A # cs) = join_lines cs"
  by simp

lemma plain_not_white: "plain_char c \<Longrightarrow> white_space (c # cs) = 0"
  by (auto simp: plain_char_def white_space_def split: list.split)

lemma split_plain: "list_all plain_char xs \<Longrightarrow> split_words w (xs @ ys) = split_words (rev xs @ w) ys"
  by (induction xs arbitrary: w) (simp_all add: plain_not_white)

lemma split_blank: "split_words w (CHR '' '' # cs) = (if w = [] then [] else [rev w]) @ split_words [] cs"
  by (simp add: white_space_def)

lemma split_word:
  assumes "plain_word x"
  shows "split_words [] (x @ CHR '' '' # cs) = x # split_words [] cs" "split_words [] x = [x]"
  using assms split_plain [of x "[]" "CHR '' '' # cs"] split_plain [of x "[]" "[]"]
  by (simp_all add: plain_word_def split_blank del: split_words.simps(2))

lemma invitation_words:
  assumes "su_role su = RoleInitiator" "su_auth_token_hex su = Some tok" "plain_word (su_path su)" "plain_word tok"
  shows "shell_words (connect_command su) =
    [''cargo'', ''run'', ''--example'', ''chat'', ''--'', ''responder'', ''--path'', su_path su, ''--auth-token'', tok]"
proof -
  let ?A = "''cargo run --example chat -- responder ''" and ?B = "''    --path '' @ su_path su @ '' ''"
    and ?C = "''    --auth-token '' @ tok"
  have "connect_command su = ?A @ CHR 0x5C # CHR 0x0A # ?B @ CHR 0x5C # CHR 0x0A # ?C"
    using assms(1,2) by (simp add: connect_command_def Let_def)
  moreover have "list_all (\<lambda>c. c \<noteq> CHR 0x5C) ?A" by simp
  moreover have "list_all (\<lambda>c. c \<noteq> CHR 0x5C) ?B" "list_all (\<lambda>c. c \<noteq> CHR 0x5C) ?C"
    using assms(3,4) by (auto simp: plain_word_def plain_char_def list_all_iff)
  moreover from this(2) have "join_lines ?C = ?C" using join_plain [of ?C "[]"] by simp
  ultimately have "join_lines (connect_command su) = ?A @ ?B @ ?C" by (simp only: join_plain join_newline)
  also have "\<dots> = ''cargo'' @ CHR '' '' # ''run'' @ CHR '' '' # ''--example'' @ CHR '' '' # ''chat'' @ CHR '' '' # ''--'' @ CHR '' '' #
      ''responder'' @ CHR '' '' # CHR '' '' # CHR '' '' # CHR '' '' # CHR '' '' # ''--path'' @ CHR '' '' # su_path su @ CHR '' '' #
      CHR '' '' # CHR '' '' # CHR '' '' # CHR '' '' # ''--auth-token'' @ CHR '' '' # tok" by simp
  finally have j: "join_lines (connect_command su) = \<dots>" .
  have "plain_word ''cargo''" "plain_word ''run''" "plain_word ''--example''" "plain_word ''chat''" "plain_word ''--''"
    "plain_word ''responder''" "plain_word ''--path''" "plain_word ''--auth-token''" by (simp_all add: plain_word_def plain_char_def)
  note words = this [THEN split_word(1)] split_word(1) [OF assms(3)] split_word(2) [OF assms(4)] split_blank [of "[]"]
  show ?thesis by (simp only: shell_words_def j split_whitespace_def words simp_thms if_True append_Nil)
qed

lemma hex_plain:
  assumes "hex_laws L" "length bs = 32"
  shows "plain_word (hexlower_encode L bs)" "hexlower_encode L bs \<noteq> []" "hd (hexlower_encode L bs) \<noteq> CHR ''-''"
proof -
  have "list_all (\<lambda>c. plain_char c \<and> c \<noteq> CHR ''-'') hex_digits" by code_simp
  moreover have h: "set (hexlower_encode L bs) \<subseteq> set hex_digits" "length (hexlower_encode L bs) = 64"
    using assms by (simp_all add: hex_laws_def)
  ultimately have all: "\<forall>c\<in>set (hexlower_encode L bs). plain_char c \<and> c \<noteq> CHR ''-''" by (auto simp: list_all_iff)
  show "hexlower_encode L bs \<noteq> []" using h(2) by auto
  with all show "plain_word (hexlower_encode L bs)" "hd (hexlower_encode L bs) \<noteq> CHR ''-''"
    by (auto simp: plain_word_def list_all_iff)
qed

lemmas arg_defs = arg_path_def arg_authtoken_def arg_private_key_def arg_responder_key_def arg_ping_interval_def required_arg_def
  ARG_PATH_def ARG_AUTHTOKEN_def ARG_PRIVATE_KEY_def ARG_RESPONDER_KEY_def ARG_PING_INTERVAL_def

lemma option_names_of:
  "option_names arg_path = [''--path'']" "option_names arg_private_key = [''--private-key'']"
  "option_names arg_responder_key = [''--responder-key'']" "option_names arg_ping_interval = [''-i'']"
  "option_names arg_authtoken = [''--auth-token'', ''--token'', ''--authtoken'']"
  by (simp_all add: option_names_def arg_defs)

lemma arg_names:
  "ca_name arg_path = ''path''" "ca_name arg_private_key = ''private_key''" "ca_name arg_responder_key = ''responder_key''"
  "ca_name arg_ping_interval = ''ping_interval''" "ca_name arg_authtoken = ''authtoken''"
  by (simp_all add: arg_defs)

lemma chat_app_ok: "clap_app_ok (chat_app version)"
  by (simp add: clap_app_ok_def chat_app_def option_names_of arg_names)

lemma invitation_parsed:
  assumes "clap_complete get_matches" "path \<noteq> []" "hd path \<noteq> CHR ''-''" "tok \<noteq> []" "hd tok \<noteq> CHR ''-''"
  shows "get_matches (chat_app version) [''responder'', ''--path'', path, ''--auth-token'', tok] = Subcommand ''responder''
    (matched [arg_path, arg_authtoken, arg_ping_interval] [(''path'', path), (''authtoken'', tok)])"
proof -
  let ?sc = "\<lparr>sc_name = ''responder'', sc_about = ''Start chat as responder'', sc_args = [arg_path, arg_authtoken, arg_ping_interval]\<rparr>"
  have "ca_name arg_path \<noteq> ca_name arg_authtoken" by (simp add: arg_names)
  then have "arg_path \<noteq> arg_authtoken" by auto
  moreover have "ca_takes_value arg_path" "ca_takes_value arg_authtoken" "ca_long arg_path = Some ''path''"
    "ca_long arg_authtoken = Some ''auth-token''" "\<not> ca_required arg_ping_interval" by (simp_all add: arg_defs)
  note args = this arg_names
  ultimately have "options_ok (sc_args ?sc) [(arg_path, path), (arg_authtoken, tok)]"
    using assms(2-) by (simp add: options_ok_def)
  moreover have "?sc \<in> set (app_subcommands (chat_app version))" by (simp add: chat_app_def)
  note clap = assms(1) [unfolded clap_complete_def, rule_format, OF chat_app_ok this]
  ultimately have "get_matches (chat_app version) (sc_name ?sc # option_words [(arg_path, path), (arg_authtoken, tok)]) =
      Subcommand (sc_name ?sc) (matched (sc_args ?sc) (map (\<lambda>(a, v). (ca_name a, v)) [(arg_path, path), (arg_authtoken, tok)]))"
    by (intro clap)
  then show ?thesis by (simp add: option_words_def args)
qed

lemma setup_role:
  assumes "chat_setup_for L role is_trusted args i = (Ok su, j)"
  shows "su_role su = role" "su_is_trusted su = is_trusted"
  using assms by (auto simp: chat_setup_for_def ok_iffs)

text \<open>What a successful preparation has done: the client was set up and the lines about it were printed.\<close>

lemma prepare_OkD:
  assumes "chat_prepare L OS argv p = (Ok (connector, su), p')"
  obtains args i j where "(chat_setup_for L (su_role su) (su_is_trusted su) args i :: (chat_end, _) outcome \<times> _) = (Ok su, j)"
    "\<exists>out. cp_stdout p' = out @ printed (banner_lines su)"
proof -
  have "\<exists>args role is_trusted i j q. (chat_setup_for L role is_trusted args i :: (chat_end, _) outcome \<times> _) = (Ok su, j) \<and>
      (chat_banner su q :: (chat_end, _) outcome \<times> _) = (Ok (), p')"
    using assms by (auto simp: chat_prepare_def ok_iffs) blast
  then obtain args role is_trusted i j q where
    q: "(chat_setup_for L role is_trusted args i :: (chat_end, _) outcome \<times> _) = (Ok su, j)"
      "(chat_banner su q :: (chat_end, _) outcome \<times> _) = (Ok (), p')" by blast
  with setup_role [OF q(1)] that show thesis by (auto simp: chat_banner_def lines_printed)
qed

lemma prepare_Ok:
  fixes OS :: "('c, 'k, 'u) chat_os" and P :: "'v chat_setup \<Rightarrow> bool"
  assumes "os_ready OS" "os_get_matches OS (chat_app (os_version OS)) argv = Subcommand name args"
    "subcommand_role name = Ok (role, is_trusted)"
    "\<And>i. \<exists>su j. (chat_setup_for L role is_trusted args i :: (chat_end, _) outcome \<times> _) = (Ok su, j) \<and> P su"
  shows "\<exists>connector su p'. chat_prepare L OS argv p = (Ok (connector, su), p') \<and> P su"
proof -
  obtain connector where "(chat_prepare L OS argv p :: (chat_end, 'k \<times> 'v chat_setup) outcome \<times> _) =
      bindS (zoomS cp_entropy cp_entropy_update (chat_setup_for L role is_trusted args)) (\<lambda>su.
        thenS (chat_banner su) (returnS (connector, su))) (p\<lparr>cp_log := Some (log_config_for role True)\<rparr>)"
    by (rule prepare_runs [OF assms(1-3), where L = L and 'v = 'v]) blast
  moreover from assms(4) obtain su j where
    "(chat_setup_for L role is_trusted args (cp_entropy p) :: (chat_end, _) outcome \<times> _) = (Ok su, j)" "P su" by blast
  ultimately show ?thesis by (auto simp: zoomS_def proc_defs chat_banner_def lines_printed)
qed

text \<open>
  C26. The invitation works. The chat program of an initiator prints a command; when its words are the
  command line of a chat program on a system that is in order, this program gets a client that expects the
  key of the initiator, holds the same token, and connects to the same path of the server. The layout of the
  printed text, the declared options, the hexadecimal encoding, the change to lowercase and the decoding lose
  nothing, and with these two clients the condition of the peer handshake that both sides hold the same
  token is met.
\<close>

theorem printed_command_accepted:
  fixes OS :: "('c, 'k, 'u) chat_os" and OS' :: "('c1, 'k1, 'u1) chat_os"
  assumes laws: "random_laws L" "from_slice_laws L" "hex_laws L" "key_length_laws L"
    and run: "chat_prepare L OS argv p = (Ok (connector, su :: 'v chat_setup), p1)"
    and role: "su_role su = RoleInitiator" "\<not> su_is_trusted su"
    and sys: "clap_complete (os_get_matches OS')" "os_ready OS'"
    and words: "shell_words (connect_command su) = [''cargo'', ''run'', ''--example'', ''chat'', ''--''] @ argv'"
  shows "(\<exists>upper lower. cp_stdout p1 = upper @ connect_command su @ lower) \<and>
    (\<exists>connector' (su' :: 'v chat_setup) p1'. chat_prepare L OS' argv' p' = (Ok (connector', su'), p1') \<and>
      su_role su' = RoleResponder \<and> client_initiator_pubkey (su_client su') = client_initiator_pubkey (su_client su) \<and>
      client_auth_token (su_client su') = client_auth_token (su_client su) \<and> client_auth_token (su_client su) \<noteq> None \<and>
      connect_url L host port (su_client su') = connect_url L host port (su_client su))"
proof -
  obtain args i j where su0: "(chat_setup_for L RoleInitiator False args i :: (chat_end, _) outcome \<times> _) = (Ok su, j)"
    and out: "\<exists>out. cp_stdout p1 = out @ printed (banner_lines su)"
    using prepare_OkD [OF run] role by metis
  from chat_initiator_OkD [OF su0 laws(4)] obtain pk tok where su: "length pk = 32" "length tok = 32"
    "su_path su = hexlower_encode L pk" "client_initiator_pubkey (su_client su) = pk"
    "client_auth_token (su_client su) = Some tok" "su_auth_token_hex su = Some (hexlower_encode L tok)" by blast
  note hex = hex_plain [OF laws(3) su(1)] hex_plain [OF laws(3) su(2)]
  have argv: "argv' = [''responder'', ''--path'', hexlower_encode L pk, ''--auth-token'', hexlower_encode L tok]"
    using invitation_words [OF role(1) su(6)] words su(3) hex by simp
  define args' where "args' = matched [arg_path, arg_authtoken, arg_ping_interval]
    [(''path'', hexlower_encode L pk), (''authtoken'', hexlower_encode L tok)]"
  have m: "os_get_matches OS' (chat_app (os_version OS')) argv' = Subcommand ''responder'' args'"
    unfolding argv args'_def by (rule invitation_parsed [OF sys(1)]) (use hex in simp_all)
  have a: "args' ''path'' = Some (hexlower_encode L pk)" "args' ''authtoken'' = Some (hexlower_encode L tok)"
    "args' ''ping_interval'' = Some ''60''" "parse_u64 ''60'' = Some 60"
    by (simp add: args'_def matched_def, simp add: args'_def matched_def,
        simp add: args'_def matched_def default_of_def arg_names, simp add: arg_defs, code_simp)
  have "\<exists>connector' (su' :: 'v chat_setup) p1'. chat_prepare L OS' argv' p' = (Ok (connector', su'), p1') \<and>
      su_role su' = RoleResponder \<and> client_initiator_pubkey (su_client su') = pk \<and> client_auth_token (su_client su') = Some tok"
    by (rule prepare_Ok [OF sys(2) m, of RoleResponder False])
      (simp add: subcommand_role_def, use chat_responder_Ok [OF laws(1-3) su(1,2) a] setup_role in blast)
  moreover have "printed (banner_lines su) =
      printed (take 9 (banner_lines su)) @ connect_command su @ CHR 0x0A # printed (drop 10 (banner_lines su))"
    by (simp add: printed_def banner_lines_def)
  then have "\<exists>upper lower. cp_stdout p1 = upper @ connect_command su @ lower" using out by (metis append_assoc)
  ultimately show ?thesis using su(4,5) by (auto simp: connect_url_def)
qed

theorem printed_command_accepted_witness:
  "\<exists>(su :: unit chat_setup) (su' :: unit chat_setup) p1 p2.
    chat_prepare hex_libs sample_os [''initiator''] new_process = (Ok ((), su), p1) \<and>
    chat_prepare hex_libs sample_os (drop 5 (shell_words (connect_command su))) new_process = (Ok ((), su'), p2) \<and>
    client_auth_token (su_client su') = client_auth_token (su_client su)"
proof -
  let ?r = "chat_prepare hex_libs sample_os [''initiator''] new_process :: (chat_end, unit \<times> unit chat_setup) outcome \<times> _"
  have "case fst ?r of Ok (_, su) \<Rightarrow> su_role su = RoleInitiator \<and> \<not> su_is_trusted su \<and>
      take 5 (shell_words (connect_command su)) = [''cargo'', ''run'', ''--example'', ''chat'', ''--''] | _ \<Rightarrow> False" by code_simp
  then obtain su p1 where su: "?r = (Ok ((), su), p1)" "su_role su = RoleInitiator" "\<not> su_is_trusted su"
    "take 5 (shell_words (connect_command su)) = [''cargo'', ''run'', ''--example'', ''chat'', ''--'']"
    by (cases ?r) (auto split: outcome.splits)
  have sys: "clap_complete (os_get_matches sample_os)" "os_ready sample_os"
    by (simp_all add: sample_os_def sample_clap_complete os_ready_def)
  have "shell_words (connect_command su) =
      [''cargo'', ''run'', ''--example'', ''chat'', ''--''] @ drop 5 (shell_words (connect_command su))"
    unfolding su(4) [symmetric] by simp
  from printed_command_accepted [OF hex_libs_laws su(1-3) sys this, of new_process "''localhost''" 8765] su(1)
  show ?thesis by auto
qed

end

