(* ===== verification/Chat_Loops.thy ===== *)
theory Chat_Loops
  imports Chat_App
begin

text \<open>
  The loops of the chat program (\<open>examples/chat/main.rs\<close>) running together: the input field, the send
  loop, the receiving future of the chat task, the receive loop and the event loop share the text view
  and the task. What happens is a sequence of actions in any order.
\<close>

section \<open>The running program\<close>

text \<open>
  The channel of submitted lines and the content of the input field; whether each future runs. The
  channel of incoming messages is part of the task.
\<close>

record 'v chat_run =
  cr_ui :: "'v chat_ui"
  cr_input :: string
  cr_submitted :: "string list"
  cr_task_loop :: future_state
  cr_send :: future_state
  cr_receive :: future_state
  cr_events :: future_state
  cr_incoming :: future_state

datatype 'v chat_action =
    Edited string
  | Submitted
  | LineTaken
  | Arrives "'v task_message"
  | SpawnedRuns nat
  | MessageTaken
  | EventTaken event
  | TaskLoopEnds "(salty_error, unit) outcome"
  | UiEnds

text \<open>One item of a stream in the closure of \<open>for_each\<close>, and the \<open>or_else\<close> behind it.\<close>

definition loop_item :: "string \<Rightarrow> ('s, stop, unit) proc \<Rightarrow> 's \<Rightarrow> future_state \<times> 's" where
  "loop_item msg m s =
     (case m s of
        (Ok _, s') \<Rightarrow> (Running, s')
      | (Err StopOk, s') \<Rightarrow> (Finished (Ok ()), s')
      | (Err StopErr, s') \<Rightarrow> (Finished (Err (SaltyCrash msg)), s')
      | (Panic p, s') \<Rightarrow> (Finished (Panic p), s'))"

definition m_send_loop :: string where
  "m_send_loop = ''Something went wrong when forwarding messages to task''"

definition m_receive_loop :: string where
  "m_receive_loop = ''Something went wrong in message receive loop''"

definition m_event_loop :: string where
  "m_event_loop = ''Something went wrong in event loop''"

text \<open>\<open>on_submit\<close>: the content of the input field is sent to the send loop, and the field is cleared.\<close>

definition on_submit :: "'v chat_run \<Rightarrow> 'v chat_run" where
  "on_submit s = s\<lparr>cr_submitted := cr_submitted s @ [cr_input s], cr_input := []\<rparr>"

definition take_line :: "('t, 'v, 'z) env_scheme \<Rightarrow> string \<Rightarrow> 'v chat_run \<Rightarrow> 'v chat_run" where
  "take_line E gone s =
     (case cr_submitted s of
        [] \<Rightarrow> s
      | line # rest \<Rightarrow>
          (case loop_item m_send_loop (send_input E (cr_task_loop s = Running) gone line) (cr_ui s) of
             (f, u) \<Rightarrow> s\<lparr>cr_ui := u, cr_submitted := rest, cr_send := f\<rparr>))"

text \<open>The receiving future that \<open>start\<close> of the task has spawned; an error ends it without a trace.\<close>

definition task_arrives :: "('t, 'v, 'z) env_scheme \<Rightarrow> 'v task_message \<Rightarrow> 'v chat_run \<Rightarrow> 'v chat_run" where
  "task_arrives E m s =
     (case chat_receive E (cr_receive s = Running) m (ui_task (cr_ui s)) of
        (r, t) \<Rightarrow> s\<lparr>cr_ui := (cr_ui s)\<lparr>ui_task := t\<rparr>,
          cr_incoming := (case r of Ok _ \<Rightarrow> Running | Err _ \<Rightarrow> Finished (Ok ()) | Panic p \<Rightarrow> Finished (Panic p))\<rparr>)"

text \<open>One of the futures that send to the user runs; its message is lost if nobody receives.\<close>

definition spawned_runs :: "nat \<Rightarrow> 'v chat_run \<Rightarrow> 'v chat_run" where
  "spawned_runs k s =
     (let t = ui_task (cr_ui s) in
      if k < length (ct_spawned t)
      then s\<lparr>cr_ui := (cr_ui s)\<lparr>ui_task := t\<lparr>
          ct_spawned := take k (ct_spawned t) @ drop (Suc k) (ct_spawned t),
          ct_incoming := ct_incoming t @ (if cr_receive s = Running then [ct_spawned t ! k] else [])\<rparr>\<rparr>\<rparr>
      else s)"

definition take_message :: "'v chat_run \<Rightarrow> 'v chat_run" where
  "take_message s =
     (case ct_incoming (ui_task (cr_ui s)) of
        [] \<Rightarrow> s
      | m # rest \<Rightarrow>
          (case loop_item m_receive_loop (receive_message m) ((cr_ui s)\<lparr>ui_task := (ui_task (cr_ui s))\<lparr>ct_incoming := rest\<rparr>\<rparr>) of
             (f, u) \<Rightarrow> s\<lparr>cr_ui := u, cr_receive := f\<rparr>))"

definition take_event :: "event \<Rightarrow> 'v chat_run \<Rightarrow> 'v chat_run" where
  "take_event ev s =
     (case loop_item m_event_loop (receive_event ev) (cr_ui s) of (f, u) \<Rightarrow> s\<lparr>cr_ui := u, cr_events := f\<rparr>)"

text \<open>
  \<open>join_all\<close> ends with the first failure, or when the four futures have finished; a panic of the
  receiving future, which runs in the same reactor, ends the program as well.
\<close>

definition chat_futures :: "'v chat_run \<Rightarrow> future_state list" where
  "chat_futures s = [cr_task_loop s, cr_send s, cr_receive s, cr_events s]"

definition chat_over :: "'v chat_run \<Rightarrow> bool" where
  "chat_over s \<longleftrightarrow> list_ex (\<lambda>f. failure f \<noteq> None) (cr_incoming s # chat_futures s) \<or>
     list_all (\<lambda>f. f \<noteq> Running) (chat_futures s)"

definition chat_act :: "('t, 'v, 'z) env_scheme \<Rightarrow> string \<Rightarrow> 'v chat_action \<Rightarrow> 'v chat_run \<Rightarrow> 'v chat_run" where
  "chat_act E gone a s =
     (if chat_over s then s
      else case a of
        Edited text \<Rightarrow> if ui_running (cr_ui s) then s\<lparr>cr_input := text\<rparr> else s
      | Submitted \<Rightarrow> if ui_running (cr_ui s) then on_submit s else s
      | LineTaken \<Rightarrow> if cr_send s = Running then take_line E gone s else s
      | Arrives m \<Rightarrow> if cr_incoming s = Running then task_arrives E m s else s
      | SpawnedRuns k \<Rightarrow> spawned_runs k s
      | MessageTaken \<Rightarrow> if cr_receive s = Running then take_message s else s
      | EventTaken ev \<Rightarrow> if cr_events s = Running then take_event ev s else s
      | TaskLoopEnds r \<Rightarrow> if cr_task_loop s = Running then s\<lparr>cr_task_loop := Finished r\<rparr> else s
      | UiEnds \<Rightarrow> s\<lparr>cr_ui := (cr_ui s)\<lparr>ui_running := False\<rparr>\<rparr>)"

definition chat_acts :: "('t, 'v, 'z) env_scheme \<Rightarrow> string \<Rightarrow> 'v chat_action list \<Rightarrow> 'v chat_run \<Rightarrow> 'v chat_run" where
  "chat_acts E gone acts s = foldl (\<lambda>s a. chat_act E gone a s) s acts"

text \<open>The start of the loops, with what \<open>main\<close> has prepared.\<close>

definition start_run :: "'v chat_ui \<Rightarrow> 'v chat_run" where
  "start_run u = \<lparr>cr_ui = u, cr_input = [], cr_submitted = [], cr_task_loop = Running, cr_send = Running,
     cr_receive = Running, cr_events = Running, cr_incoming = Running\<rparr>"

lemma chat_acts_simps [simp]:
  "chat_acts E gone [] s = s"
  "chat_acts E gone (acts @ [a]) s = chat_act E gone a (chat_acts E gone acts s)"
  by (simp_all add: chat_acts_def)

text \<open>Item by item, a loop does what the loops of \<open>Chat_Main\<close> do with the whole stream.\<close>

lemma end_loop_items:
  "end_loop msg (for_each f (x # xs)) s =
     (case loop_item msg (f x) s of (Running, s') \<Rightarrow> end_loop msg (for_each f xs) s' | (Finished r, s') \<Rightarrow> (r, s'))"
  by (auto simp: end_loop_def loop_item_def thenS_def bindS_def split: outcome.splits stop.splits prod.splits)

section \<open>What the loops share\<close>

text \<open>
  The user's side of the state and the side of the peer: in each view the fields that the other side
  changes are blank, and the text view is empty.
\<close>

definition user_ui :: "'v chat_ui \<Rightarrow> 'v chat_ui" where
  "user_ui u = u\<lparr>ui_lines := [], ui_task := (ui_task u)\<lparr>ct_peer_name := None, ct_spawned := [], ct_incoming := []\<rparr>\<rparr>"

definition peer_ui :: "'v chat_ui \<Rightarrow> 'v chat_ui" where
  "peer_ui u = u\<lparr>ui_lines := [], ui_quit := False, ui_task := (ui_task u)\<lparr>ct_our_name := [], ct_has_disconnect_tx := False,
     ct_outgoing := [], ct_disconnect := None\<rparr>\<rparr>"

definition user_view :: "'v chat_run \<Rightarrow> 'v chat_run" where
  "user_view s = s\<lparr>cr_ui := user_ui (cr_ui s), cr_receive := Running, cr_events := Running, cr_incoming := Running\<rparr>"

definition peer_view :: "'v chat_run \<Rightarrow> 'v chat_run" where
  "peer_view s = s\<lparr>cr_ui := peer_ui (cr_ui s), cr_input := [], cr_submitted := [], cr_send := Running\<rparr>"

definition screen :: "'v chat_run \<Rightarrow> string list" where
  "screen s = ui_lines (cr_ui s)"

text \<open>The loops run, the user interface too, and nothing has failed.\<close>

definition no_failure :: "future_state \<Rightarrow> bool" where
  "no_failure f \<longleftrightarrow> failure f = None"

definition talking :: "'v chat_run \<Rightarrow> bool" where
  "talking s \<longleftrightarrow> chatting (cr_ui s) \<and> cr_task_loop s = Running \<and> no_failure (cr_send s) \<and> no_failure (cr_receive s) \<and>
     no_failure (cr_events s) \<and> no_failure (cr_incoming s)"

lemma no_failure_simps [simp]: "no_failure Running" "no_failure (Finished (Ok u))"
  by (simp_all add: no_failure_def)

lemma talking_goes_on: "talking s \<Longrightarrow> \<not> chat_over s"
  by (simp add: talking_def chat_over_def chat_futures_def no_failure_def)

lemma talking_views: "talking s \<Longrightarrow> talking (user_view s)" "talking s \<Longrightarrow> talking (peer_view s)"
  by (simp_all add: talking_def user_view_def peer_view_def user_ui_def peer_ui_def chatting_def)

text \<open>When \<open>main\<close> reaches the loops, they start in such a state, with the welcome on the screen.\<close>

lemma main_talking:
  assumes "chat_main E OS argv turns p = (Ok (loop, ui), p')"
  shows "talking (start_run ui)" "screen (start_run ui) = welcome_lines"
  using assms
  by (auto simp: chat_main_def chat_start_loops_def start_tui_def chat_start_def talking_def chatting_def start_run_def screen_def
      ok_iffs modifyS_def split: if_splits)

text \<open>The actions of the user, and those of the peer; the messages that arrive have a type.\<close>

definition user_action :: "'v chat_action \<Rightarrow> bool" where
  "user_action a = (case a of Edited _ \<Rightarrow> True | Submitted \<Rightarrow> True | LineTaken \<Rightarrow> True | _ \<Rightarrow> False)"

definition typed_message :: "('t, 'v, 'z) env_scheme \<Rightarrow> 'v task_message \<Rightarrow> bool" where
  "typed_message E m =
     (case m of TaskValue entries \<Rightarrow> (case hm_get entries KEY_TYPE of Some v \<Rightarrow> value_as_str E v \<noteq> None | None \<Rightarrow> False) | _ \<Rightarrow> True)"

definition peer_action :: "('t, 'v, 'z) env_scheme \<Rightarrow> 'v chat_action \<Rightarrow> bool" where
  "peer_action E a =
     (case a of Arrives m \<Rightarrow> typed_message E m | SpawnedRuns _ \<Rightarrow> True | MessageTaken \<Rightarrow> True | EventTaken _ \<Rightarrow> True | _ \<Rightarrow> False)"

lemmas view_defs = user_view_def peer_view_def user_ui_def peer_ui_def screen_def

lemma line_sides:
  assumes "chatting u"
  shows "fst (loop_item m (send_input E True gone l) u) = fst (loop_item m (send_input E True gone l) (user_ui u))"
    "ui_lines (snd (loop_item m (send_input E True gone l) u)) =
       ui_lines u @ ui_lines (snd (loop_item m (send_input E True gone l) (user_ui u)))"
    "user_ui (snd (loop_item m (send_input E True gone l) u)) = user_ui (snd (loop_item m (send_input E True gone l) (user_ui u)))"
    "peer_ui (snd (loop_item m (send_input E True gone l) u)) = peer_ui u"
    "no_failure (fst (loop_item m (send_input E True gone l) u))" "chatting (snd (loop_item m (send_input E True gone l) u))"
proof -
  have u: "ui_running u" "ct_has_outgoing_tx (ui_task u)" using assms by (simp_all add: chatting_def)
  note defs = loop_item_def send_input_def user_ui_def peer_ui_def chatting_def send_msg_def change_nick_def send_outgoing_def
    chat_close_def Let_def input_defs u
  consider (spoken) "take 1 l \<noteq> ''/''" | (command) command parts where "take 1 l = ''/''" "split_whitespace l = command # parts"
    using command_word by (metis list.exhaust)
  then show "fst (loop_item m (send_input E True gone l) u) = fst (loop_item m (send_input E True gone l) (user_ui u))"
    "ui_lines (snd (loop_item m (send_input E True gone l) u)) =
       ui_lines u @ ui_lines (snd (loop_item m (send_input E True gone l) (user_ui u)))"
    "user_ui (snd (loop_item m (send_input E True gone l) u)) = user_ui (snd (loop_item m (send_input E True gone l) (user_ui u)))"
    "peer_ui (snd (loop_item m (send_input E True gone l) u)) = peer_ui u"
    "no_failure (fst (loop_item m (send_input E True gone l) u))" "chatting (snd (loop_item m (send_input E True gone l) u))"
    by (cases; auto simp: defs split: list.split)+
qed

lemma message_sides:
  assumes "ui_running u"
  shows "fst (loop_item n (receive_message m) u) = fst (loop_item n (receive_message m) (peer_ui u))"
    "ui_lines (snd (loop_item n (receive_message m) u)) = ui_lines u @ ui_lines (snd (loop_item n (receive_message m) (peer_ui u)))"
    "peer_ui (snd (loop_item n (receive_message m) u)) = peer_ui (snd (loop_item n (receive_message m) (peer_ui u)))"
    "user_ui (snd (loop_item n (receive_message m) u)) = user_ui u"
    "no_failure (fst (loop_item n (receive_message m) u))" "chatting (snd (loop_item n (receive_message m) u)) = chatting u"
  by (cases m; simp add: assms loop_item_def receive_message_def user_ui_def peer_ui_def chatting_def input_defs)+

lemma event_sides:
  assumes "ui_running u"
  shows "fst (loop_item n (receive_event e) u) = fst (loop_item n (receive_event e) (peer_ui u))"
    "ui_lines (snd (loop_item n (receive_event e) u)) = ui_lines u @ ui_lines (snd (loop_item n (receive_event e) (peer_ui u)))"
    "peer_ui (snd (loop_item n (receive_event e) u)) = peer_ui (snd (loop_item n (receive_event e) (peer_ui u)))"
    "user_ui (snd (loop_item n (receive_event e) u)) = user_ui u"
    "no_failure (fst (loop_item n (receive_event e) u))" "chatting (snd (loop_item n (receive_event e) u)) = chatting u"
  by (cases e; simp add: assms loop_item_def receive_event_def user_ui_def peer_ui_def chatting_def input_defs)+

text \<open>
  An action of the user depends on the user's side only, adds its lines at the end of the screen, and
  leaves the side of the peer alone.
\<close>

lemma user_step:
  assumes "talking s" "user_action a"
  shows "talking (chat_act E gone a s) \<and> peer_view (chat_act E gone a s) = peer_view s \<and>
    user_view (chat_act E gone a s) = user_view (chat_act E gone a (user_view s)) \<and>
    screen (chat_act E gone a s) = screen s @ screen (chat_act E gone a (user_view s))"
proof -
  note on = talking_goes_on [OF assms(1)] talking_goes_on [OF talking_views(1) [OF assms(1)]]
  have t: "chatting (cr_ui s)" "cr_task_loop s = Running" "ui_running (cr_ui s)"
    using assms(1) by (simp_all add: talking_def chatting_def)
  show ?thesis
  proof (cases a)
    case LineTaken
    note sides = line_sides [OF t(1), of m_send_loop E gone]
    show ?thesis
    proof (cases "cr_send s = Running \<and> cr_submitted s \<noteq> []")
      case True
      then obtain l ls where l: "cr_submitted s = l # ls" "cr_send s = Running" by (cases "cr_submitted s") auto
      obtain f u where u: "loop_item m_send_loop (send_input E True gone l) (cr_ui s) = (f, u)" by fastforce
      obtain f' u' where u': "loop_item m_send_loop (send_input E True gone l) (user_ui (cr_ui s)) = (f', u')" by fastforce
      from sides [of l, unfolded u u'] LineTaken l on t assms(1) u u' show ?thesis
        by (simp add: chat_act_def take_line_def user_view_def peer_view_def screen_def talking_def)
    next
      case False
      with LineTaken on assms(1) show ?thesis
        by (auto simp: chat_act_def take_line_def view_defs split: list.split)
    qed
  qed (use assms on t in \<open>simp_all add: user_action_def chat_act_def on_submit_def view_defs talking_def chatting_def\<close>)
qed

lemma arrives_ok:
  assumes "typed_message E m"
  shows "\<not> is_panic (fst (chat_receive E is_open m t))"
  using assms by (auto simp: typed_message_def chat_receive_def proc_defs split: task_message.splits option.splits)

text \<open>The same for the peer.\<close>

lemma arrives_sides:
  assumes "talking s" "typed_message E m"
  shows "talking (task_arrives E m s) \<and> user_view (task_arrives E m s) = user_view s \<and>
    peer_view (task_arrives E m s) = peer_view (task_arrives E m (peer_view s)) \<and>
    screen (task_arrives E m s) = screen s @ screen (task_arrives E m (peer_view s))"
  using assms
  by (auto simp: task_arrives_def typed_message_def chat_receive_def view_defs talking_def chatting_def proc_defs
      split: task_message.splits option.splits)

lemma peer_step:
  assumes "talking s" "peer_action E a"
  shows "talking (chat_act E gone a s) \<and> user_view (chat_act E gone a s) = user_view s \<and>
    peer_view (chat_act E gone a s) = peer_view (chat_act E gone a (peer_view s)) \<and>
    screen (chat_act E gone a s) = screen s @ screen (chat_act E gone a (peer_view s))"
proof -
  note on = talking_goes_on [OF assms(1)] talking_goes_on [OF talking_views(2) [OF assms(1)]]
  have t: "chatting (cr_ui s)" "ui_running (cr_ui s)" using assms(1) by (simp_all add: talking_def chatting_def)
  show ?thesis
  proof (cases a)
    case (Arrives m)
    with assms arrives_sides [OF assms(1), of E m] on show ?thesis
      by (auto simp: chat_act_def peer_action_def) (simp_all add: view_defs)
  next
    case (SpawnedRuns k)
    with on assms(1) show ?thesis
      by (simp add: chat_act_def spawned_runs_def Let_def view_defs talking_def chatting_def)
  next
    case MessageTaken
    show ?thesis
    proof (cases "cr_receive s = Running \<and> ct_incoming (ui_task (cr_ui s)) \<noteq> []")
      case True
      then obtain m ms where m: "ct_incoming (ui_task (cr_ui s)) = m # ms" "cr_receive s = Running"
        by (cases "ct_incoming (ui_task (cr_ui s))") auto
      let ?u = "(cr_ui s)\<lparr>ui_task := (ui_task (cr_ui s))\<lparr>ct_incoming := ms\<rparr>\<rparr>"
      obtain f u where u: "loop_item m_receive_loop (receive_message m) ?u = (f, u)" by fastforce
      obtain f' u' where u': "loop_item m_receive_loop (receive_message m) (peer_ui ?u) = (f', u')" by fastforce
      have "peer_ui ?u = (peer_ui (cr_ui s))\<lparr>ui_task := (ui_task (peer_ui (cr_ui s)))\<lparr>ct_incoming := ms\<rparr>\<rparr>"
        "ct_incoming (ui_task (peer_ui (cr_ui s))) = m # ms" "user_ui ?u = user_ui (cr_ui s)" "chatting ?u = chatting (cr_ui s)"
        using m by (simp_all add: user_ui_def peer_ui_def chatting_def)
      with message_sides [of ?u m_receive_loop m, unfolded u u'] MessageTaken m on t assms(1) u u' show ?thesis
        by (simp add: chat_act_def take_message_def user_view_def peer_view_def screen_def talking_def)
    next
      case False
      with MessageTaken on assms(1) show ?thesis
        by (auto simp: chat_act_def take_message_def view_defs split: list.split)
    qed
  next
    case (EventTaken e)
    show ?thesis
    proof (cases "cr_events s = Running")
      case True
      obtain f u where u: "loop_item m_event_loop (receive_event e) (cr_ui s) = (f, u)" by fastforce
      obtain f' u' where u': "loop_item m_event_loop (receive_event e) (peer_ui (cr_ui s)) = (f', u')" by fastforce
      from event_sides [OF t(2), of m_event_loop e, unfolded u u'] EventTaken True on t assms(1) u u' show ?thesis
        by (simp add: chat_act_def take_event_def user_view_def peer_view_def screen_def talking_def)
    qed (use EventTaken on assms(1) in \<open>simp add: chat_act_def view_defs\<close>)
  qed (use assms(2) in \<open>simp_all add: peer_action_def\<close>)
qed

lemma shuffles_append: "zs \<in> shuffles xs ys \<Longrightarrow> zs @ ls \<in> shuffles (xs @ ls) ys"
proof (induction zs arbitrary: xs ys)
  case Nil
  then show ?case by simp
next
  case (Cons z zs)
  from Cons.prems consider "xs \<noteq> []" "hd xs = z" "zs \<in> shuffles (tl xs) ys" | "ys \<noteq> []" "hd ys = z" "zs \<in> shuffles xs (tl ys)"
    by (auto simp only: Cons_in_shuffles_iff)
  then show ?case
  proof cases
    case 1
    with Cons.IH [OF 1(3)] show ?thesis by (simp only: append_Cons Cons_in_shuffles_iff) simp
  next
    case 2
    with Cons.IH [OF 2(3)] show ?thesis by (simp only: append_Cons Cons_in_shuffles_iff) simp
  qed
qed

text \<open>
  C27. The loops do not disturb each other. As long as the user interface and the task loop run, and
  whatever the order of the actions: nothing fails; the user's side of the state is what the actions of
  the user alone would make of it, and the peer's side is what the actions of the peer alone would; and the
  lines on the screen are those of both, each in its own order, merged.
\<close>

theorem loops_independent:
  assumes "talking s" "list_all (\<lambda>a. user_action a \<or> peer_action E a) acts"
  shows "let s' = chat_acts E gone acts s;
      su = chat_acts E gone (filter user_action acts) s; sp = chat_acts E gone (filter (\<lambda>a. \<not> user_action a) acts) s in
    \<not> chat_over s' \<and> user_view s' = user_view su \<and> peer_view s' = peer_view sp \<and>
    (\<exists>own other. screen su = screen s @ own \<and> screen sp = screen s @ other \<and>
      (\<exists>merged\<in>shuffles own other. screen s' = screen s @ merged))"
proof -
  have "talking (chat_acts E gone acts s) \<and> talking (chat_acts E gone (filter user_action acts) s) \<and>
    talking (chat_acts E gone (filter (\<lambda>a. \<not> user_action a) acts) s) \<and>
    user_view (chat_acts E gone acts s) = user_view (chat_acts E gone (filter user_action acts) s) \<and>
    peer_view (chat_acts E gone acts s) = peer_view (chat_acts E gone (filter (\<lambda>a. \<not> user_action a) acts) s) \<and>
    (\<exists>own other. screen (chat_acts E gone (filter user_action acts) s) = screen s @ own \<and>
      screen (chat_acts E gone (filter (\<lambda>a. \<not> user_action a) acts) s) = screen s @ other \<and>
      (\<exists>merged\<in>shuffles own other. screen (chat_acts E gone acts s) = screen s @ merged))"
    using assms(2)
  proof (induction acts rule: rev_induct)
    case Nil
    with assms(1) show ?case by simp
  next
    case (snoc a acts)
    define s1 su sp where "s1 = chat_acts E gone acts s" "su = chat_acts E gone (filter user_action acts) s"
      "sp = chat_acts E gone (filter (\<lambda>a. \<not> user_action a) acts) s"
    note ih = snoc.IH [folded this]
    from ih snoc.prems obtain own other merged where t: "talking s1" "talking su" "talking sp" "user_view s1 = user_view su"
      "peer_view s1 = peer_view sp" "screen su = screen s @ own" "screen sp = screen s @ other"
      "merged \<in> shuffles own other" "screen s1 = screen s @ merged" by auto
    show ?case
    proof (cases "user_action a")
      case True
      from user_step [OF t(1) True, of E gone] user_step [OF t(2) True, of E gone] t True
        shuffles_append [OF t(8), of "screen (chat_act E gone a (user_view su))"] show ?thesis
        by (simp add: s1_su_sp_def [symmetric])
    next
      case False
      then have p: "peer_action E a" using snoc.prems by simp
      from peer_step [OF t(1) p, of gone] peer_step [OF t(3) p, of gone] t False
        shuffles_append [OF t(8) [unfolded shuffles_commutes [of own]], of "screen (chat_act E gone a (peer_view sp))"] show ?thesis
        by (simp add: s1_su_sp_def [symmetric] shuffles_commutes [of own])
    qed
  qed
  then show ?thesis using talking_goes_on by (auto simp: Let_def)
qed

text \<open>A scenario: the user says hello while a message of the peer comes in.\<close>

definition peer_says :: "string \<Rightarrow> sample_value task_message" where
  "peer_says msg = TaskValue (msg_entries chat_scenario_env msg)"

definition sample_actions :: "sample_value chat_action list" where
  "sample_actions = [Edited ''hi'', Arrives (peer_says ''ho''), Submitted, SpawnedRuns 0, MessageTaken, LineTaken]"

theorem loops_independent_witness:
  "\<exists>merged\<in>shuffles [''alice> hi''] [''bob> ho''].
    screen (chat_acts chat_scenario_env ''gone'' sample_actions (start_run (chat_ui_of ''alice'' ''bob''))) = merged"
proof -
  let ?s = "start_run (chat_ui_of ''alice'' ''bob'')"
  have "talking ?s" by (simp add: talking_def start_run_def chatting_def chat_ui_of_def)
  moreover have "list_all (\<lambda>a. user_action a \<or> peer_action chat_scenario_env a) sample_actions" by code_simp
  moreover have "screen ?s = []" "screen (chat_acts chat_scenario_env ''gone'' (filter user_action sample_actions) ?s) = [''alice> hi'']"
    "screen (chat_acts chat_scenario_env ''gone'' (filter (\<lambda>a. \<not> user_action a) sample_actions) ?s) = [''bob> ho'']" by code_simp+
  ultimately show ?thesis
    using loops_independent [of ?s chat_scenario_env sample_actions "''gone''"] by (simp add: Let_def)
qed

section \<open>What is sent\<close>

text \<open>The lines that the actions submit, with the content of the input field at the start.\<close>

fun submissions :: "string \<Rightarrow> 'v chat_action list \<Rightarrow> string list" where
  "submissions input [] = []"
| "submissions input (Edited text # acts) = submissions text acts"
| "submissions input (Submitted # acts) = input # submissions [] acts"
| "submissions input (_ # acts) = submissions input acts"

definition outgoing_of :: "'v chat_run \<Rightarrow> 'v task_message list" where
  "outgoing_of s = ct_outgoing (ui_task (cr_ui s))"

fun input_after :: "string \<Rightarrow> 'v chat_action list \<Rightarrow> string" where
  "input_after input [] = input"
| "input_after input (Edited text # acts) = input_after text acts"
| "input_after input (Submitted # acts) = input_after [] acts"
| "input_after input (_ # acts) = input_after input acts"

lemma submissions_snoc:
  "submissions i (acts @ [a]) = submissions i acts @ (if a = Submitted then [input_after i acts] else [])"
  "input_after i (acts @ [a]) = (case a of Edited t \<Rightarrow> t | Submitted \<Rightarrow> [] | _ \<Rightarrow> input_after i acts)"
  by (induction i acts rule: submissions.induct; cases a; simp)+

lemma user_view_eqD:
  assumes "user_view s = user_view t"
  shows "cr_input s = cr_input t" "cr_submitted s = cr_submitted t" "cr_send s = cr_send t" "outgoing_of s = outgoing_of t"
proof -
  have "outgoing_of (user_view r) = outgoing_of r" "cr_input (user_view r) = cr_input r" "cr_submitted (user_view r) = cr_submitted r"
    "cr_send (user_view r) = cr_send r" for r :: "'a chat_run"
    by (simp_all add: outgoing_of_def user_view_def user_ui_def)
  with assms show "cr_input s = cr_input t" "cr_submitted s = cr_submitted t" "cr_send s = cr_send t" "outgoing_of s = outgoing_of t"
    by metis+
qed

text \<open>The send loop takes a line.\<close>

lemma line_taken:
  assumes "talking s" "cr_send s = Running" "cr_submitted s = l # ls"
  shows "cr_submitted (chat_act E gone LineTaken s) = ls" "cr_input (chat_act E gone LineTaken s) = cr_input s"
    "cr_send (chat_act E gone LineTaken s) = Running \<longleftrightarrow> \<not> is_quit l"
    "outgoing_of (chat_act E gone LineTaken s) = outgoing_of s @ (if is_quit l then [] else sent_for E l)"
proof -
  have t: "chatting (cr_ui s)" "cr_task_loop s = Running" using assms(1) by (simp_all add: talking_def)
  obtain f u where u: "loop_item m_send_loop (send_input E True gone l) (cr_ui s) = (f, u)" by fastforce
  have act: "chat_act E gone LineTaken s = s\<lparr>cr_ui := u, cr_submitted := ls, cr_send := f\<rparr>"
    using talking_goes_on [OF assms(1)] assms(2,3) t(2) u by (simp add: chat_act_def take_line_def)
  have "(f = Running \<longleftrightarrow> \<not> is_quit l) \<and> ct_outgoing (ui_task u) = outgoing_of s @ (if is_quit l then [] else sent_for E l)"
    using send_input_quit [OF t(1), of l E True gone] send_input_open [OF t(1), of l E gone] u
    by (cases "is_quit l") (auto simp: loop_item_def outgoing_of_def)
  with act show "cr_submitted (chat_act E gone LineTaken s) = ls" "cr_input (chat_act E gone LineTaken s) = cr_input s"
    "cr_send (chat_act E gone LineTaken s) = Running \<longleftrightarrow> \<not> is_quit l"
    "outgoing_of (chat_act E gone LineTaken s) = outgoing_of s @ (if is_quit l then [] else sent_for E l)"
    by (simp_all add: outgoing_of_def)
qed

definition lines_accounted :: "('t, 'v, 'z) env_scheme \<Rightarrow> string list \<Rightarrow> 'v task_message list \<Rightarrow> 'v chat_run \<Rightarrow> bool" where
  "lines_accounted E lines out s \<longleftrightarrow> (\<exists>taken. lines = taken @ cr_submitted s \<and>
     outgoing_of s = out @ concat (map (sent_for E) (takeWhile (\<lambda>l. \<not> is_quit l) taken)) \<and>
     (cr_send s = Running \<longleftrightarrow> \<not> list_ex is_quit taken))"

lemma accounted_step:
  assumes s: "talking s" "lines_accounted E lines out s" and a: "user_action a \<or> peer_action E a"
  shows "lines_accounted E (lines @ (if a = Submitted then [cr_input s] else [])) out (chat_act E gone a s) \<and>
    cr_input (chat_act E gone a s) = (case a of Edited t \<Rightarrow> t | Submitted \<Rightarrow> [] | _ \<Rightarrow> cr_input s)"
proof (cases "a = LineTaken \<and> cr_send s = Running \<and> cr_submitted s \<noteq> []")
  case True
  then obtain l ls where l: "cr_submitted s = l # ls" by (cases "cr_submitted s") auto
  from s(2) obtain taken where taken: "lines = taken @ l # ls" "\<not> list_ex is_quit taken"
    "outgoing_of s = out @ concat (map (sent_for E) (takeWhile (\<lambda>l. \<not> is_quit l) taken))"
    using True l by (auto simp: lines_accounted_def)
  have all: "takeWhile (\<lambda>l. \<not> is_quit l) taken = taken" using taken(2) by (simp add: takeWhile_eq_all_conv list_ex_iff)
  from line_taken [OF s(1) _ l, of E gone] True taken all show ?thesis
    by (auto simp: lines_accounted_def takeWhile_append intro!: exI [of _ "taken @ [l]"])
next
  case False
  have on: "\<not> chat_over s" "ui_running (cr_ui s)" using s(1) talking_goes_on by (auto simp: talking_def chatting_def)
  show ?thesis
  proof (cases "user_action a")
    case True
    with False s(2) on show ?thesis
      by (cases a) (auto simp: user_action_def chat_act_def take_line_def on_submit_def lines_accounted_def outgoing_of_def split: list.split)
  next
    case peer: False
    with a peer_step [OF s(1), of E a gone] have "user_view (chat_act E gone a s) = user_view s" by simp
    note eq = user_view_eqD [OF this]
    from peer a have "a \<noteq> Submitted" "(case a of Edited t \<Rightarrow> t | Submitted \<Rightarrow> [] | _ \<Rightarrow> cr_input s) = cr_input s"
      by (auto simp: user_action_def split: chat_action.splits)
    with s(2) eq show ?thesis by (simp add: lines_accounted_def)
  qed
qed



section \<open>Panics\<close>

text \<open>
  Without any assumption on the actions: the three loops of \<open>main\<close> panic only once the thread of the user
  interface has ended.
\<close>

definition panicked :: "future_state \<Rightarrow> bool" where
  "panicked f = (case f of Finished r \<Rightarrow> is_panic r | Running \<Rightarrow> False)"

definition calm :: "'v chat_run \<Rightarrow> bool" where
  "calm s \<longleftrightarrow> ct_has_outgoing_tx (ui_task (cr_ui s)) \<and>
     (ui_running (cr_ui s) \<longrightarrow> \<not> panicked (cr_send s) \<and> \<not> panicked (cr_receive s) \<and> \<not> panicked (cr_events s))"

lemma send_input_calm:
  assumes "ct_has_outgoing_tx (ui_task u)" "loop_item m (send_input E is_open gone l) u = (f, u')"
  shows "ct_has_outgoing_tx (ui_task u') \<and> ui_running u' = ui_running u \<and> (ui_running u \<longrightarrow> \<not> panicked f)"
proof -
  consider (spoken) "take 1 l \<noteq> ''/''" | (command) command parts where "take 1 l = ''/''" "split_whitespace l = command # parts"
    using command_word by (metis list.exhaust)
  then show ?thesis
    using assms
    by cases (cases "ui_running u"; cases is_open; auto simp: loop_item_def send_input_def send_msg_def change_nick_def
        send_outgoing_def chat_close_def panicked_def Let_def input_defs split: if_splits list.splits)+
qed

lemma receive_calm:
  assumes "loop_item n (receive_message m) u = (f, u')"
  shows "ui_task u' = ui_task u \<and> ui_running u' = ui_running u \<and> (ui_running u \<longrightarrow> \<not> panicked f)"
  using assms by (cases m; cases "ui_running u") (auto simp: loop_item_def receive_message_def panicked_def input_defs)

lemma event_calm:
  assumes "loop_item n (receive_event e) u = (f, u')"
  shows "ui_task u' = ui_task u \<and> ui_running u' = ui_running u \<and> (ui_running u \<longrightarrow> \<not> panicked f)"
  using assms by (cases e; cases "ui_running u") (auto simp: loop_item_def receive_event_def panicked_def input_defs)

lemma chat_receive_keeps: "ct_has_outgoing_tx (snd (chat_receive E is_open m t)) = ct_has_outgoing_tx t"
  by (auto simp: chat_receive_def proc_defs split: task_message.split option.split)

lemma calm_step:
  assumes "calm s"
  shows "calm (chat_act E gone a s)"
proof (cases a)
  case LineTaken
  with assms show ?thesis
    by (auto simp: chat_act_def take_line_def calm_def dest: send_input_calm [rotated] split: list.splits prod.splits)
next
  case (Arrives m)
  with assms chat_receive_keeps [of E _ m "ui_task (cr_ui s)"] show ?thesis
    by (auto simp: chat_act_def task_arrives_def calm_def split: prod.splits) (metis snd_conv)+
next
  case MessageTaken
  with assms show ?thesis
    by (auto simp: chat_act_def take_message_def calm_def dest: receive_calm split: list.splits prod.splits)
next
  case (EventTaken e)
  with assms show ?thesis
    by (auto simp: chat_act_def take_event_def calm_def dest: event_calm split: prod.splits)
qed (use assms in \<open>auto simp: chat_act_def calm_def on_submit_def spawned_runs_def Let_def\<close>)

lemma panics_after_end:
  assumes "ct_has_outgoing_tx (ui_task u)" "ui_running (cr_ui (chat_acts E gone acts (start_run u)))"
  shows "\<not> panicked (cr_send (chat_acts E gone acts (start_run u)))" "\<not> panicked (cr_receive (chat_acts E gone acts (start_run u)))"
    "\<not> panicked (cr_events (chat_acts E gone acts (start_run u)))"
proof -
  have "calm (chat_acts E gone acts (start_run u))"
  proof (induction acts rule: rev_induct)
    case Nil
    then show ?case using assms(1) by (simp add: calm_def start_run_def panicked_def)
  next
    case (snoc a acts)
    then show ?case by (simp add: calm_step)
  qed
  with assms(2) show "\<not> panicked (cr_send (chat_acts E gone acts (start_run u)))"
    "\<not> panicked (cr_receive (chat_acts E gone acts (start_run u)))" "\<not> panicked (cr_events (chat_acts E gone acts (start_run u)))"
    by (simp_all add: calm_def)
qed

end
