(* ===== verification/Chat_Meeting.thy ===== *)
theory Chat_Meeting
  imports Rendezvous Invitation Chat_Loops
begin

text \<open>
  Two chat programs, from their command lines to the running loops: what \<open>Chat_App\<close> shows of the start
  of a program, put together with the meeting of two clients in \<open>Rendezvous\<close>.
\<close>

section \<open>One program\<close>

text \<open>The server can be reached and chooses the subprotocol, and the user interface can start.\<close>

definition online :: "'z libs_scheme \<Rightarrow> ('c, 'k, 'u) chat_os \<Rightarrow> 'k \<Rightarrow> 'v chat_setup \<Rightarrow> bool" where
  "online L OS connector su \<longleftrightarrow> os_ready OS \<and> os_ncurses OS \<and>
     (\<exists>url. os_url_parse OS (connect_url L ''localhost'' 8765 (su_client su)) = Inr url \<and>
        os_connect OS url subprotocol (Some connector) = Some (Inr (Some [subprotocol])))"

definition started :: "'v chat_task \<Rightarrow> 'v chat_task" where
  "started t = t\<lparr>ct_has_outgoing_tx := True, ct_has_disconnect_tx := True\<rparr>"

definition loop_signaling :: "('t, 'v) task_loop_state \<Rightarrow> 't signaling" where
  "loop_signaling l = cl_signaling (sh_client (tl_shared l))"

lemma connect_Ok:
  assumes "random_laws E" "online E OS connector su" "loop_follows E (cl_signaling (su_client su)) n"
    and "list_all2 (arrives E) turns (nd_got n)"
  shows "\<exists>q s. chat_connect E OS turns connector su p = (Ok s, q) \<and>
    hs_shared s = \<lparr>sh_client = (su_client su)\<lparr>cl_signaling := nd_signaling n\<rparr>, sh_poisoned = False\<rparr>"
proof -
  let ?hs = "\<lparr>hs_shared = \<lparr>sh_client = su_client su, sh_poisoned = False\<rparr>, hs_sent = [], hs_events = []\<rparr>"
  obtain url where url: "os_url_parse OS (connect_url E ''localhost'' 8765 (su_client su)) = Inr url"
    "os_connect OS url subprotocol (Some connector) = Some (Inr (Some [subprotocol]))"
    using assms(2) by (auto simp: online_def)
  have "do_handshake E None turns ?hs = (HandshakeCompleted, looped E (nd_actions n) (nd_signaling n) ?hs)"
    using assms(3,4) unfolding loop_follows_def by simp
  then show ?thesis
    using url assms(1)
    by (simp add: chat_connect_def connect_def libsodium_init_def random_laws_def connect_result_def handshake_success_def
        println_def unwrapS_def looped_def Let_def proc_defs)
qed

lemma start_loops_Ok:
  assumes "os_ready OS" "os_ncurses OS" "\<not> sh_poisoned (hs_shared s)" "client_task (sh_client (hs_shared s)) = Some t"
  shows "\<exists>loop ui q. chat_start_loops OS role s p = (Ok (loop, ui), q) \<and> tl_shared loop = hs_shared s \<and> ui_task ui = started t"
  using assms log_config_for_ok [of role False]
  by (simp add: chat_start_loops_def task_loop_def setup_logging_def unwrap_okS_def os_ready_def println_def start_tui_def
      chat_start_def started_def proc_defs)

text \<open>A program whose client is prepared and gets the messages of a node reaches its loops.\<close>

lemma main_runs:
  assumes "random_laws E" "chat_prepare E OS argv p = (Ok (connector, su), p1)" "online E OS connector su"
    and "loop_follows E (cl_signaling (su_client su)) n" "list_all2 (arrives E) turns (nd_got n)"
    and "cm_task (sig_common (nd_signaling n)) = Some t"
  shows "\<exists>loop ui q. chat_main E OS argv turns p = (Ok (loop, ui), q) \<and> loop_signaling loop = nd_signaling n \<and>
    ui_task ui = started t \<and> talking (start_run ui) \<and> screen (start_run ui) = welcome_lines"
proof -
  obtain q s where s: "chat_connect E OS turns connector su p1 = (Ok s, q)"
    "hs_shared s = \<lparr>sh_client = (su_client su)\<lparr>cl_signaling := nd_signaling n\<rparr>, sh_poisoned = False\<rparr>"
    using connect_Ok [OF assms(1,3-5)] by blast
  have "client_task (sh_client (hs_shared s)) = Some t" using s(2) assms(6) by (simp add: client_task_def)
  then obtain loop ui q' where "chat_start_loops OS (su_role su) s q = (Ok (loop, ui), q')" "tl_shared loop = hs_shared s"
    "ui_task ui = started t"
    using start_loops_Ok [of OS s t "su_role su" q] assms(3) s(2) by (auto simp: online_def)
  then have "chat_main E OS argv turns p = (Ok (loop, ui), q')" "loop_signaling loop = nd_signaling n" "ui_task ui = started t"
    using assms(2) s by (simp_all add: chat_main_def loop_signaling_def bindS_def)
  with main_talking [OF this(1)] show ?thesis by blast
qed

section \<open>Two programs\<close>

text \<open>The trait object of the client is a \<open>ChatTask\<close>.\<close>

definition is_chat_task :: "('v chat_task, 'v, 'z) chat_env_scheme \<Rightarrow> bool" where
  "is_chat_task E \<longleftrightarrow> (\<forall>t. task_name E t = chat_name \<and> task_data E t = chat_data E t \<and>
     task_supported_types E t = chat_supported_types \<and> (\<forall>d. task_init E t d = chat_init E d t))"

lemma setup_initiator:
  assumes "chat_setup_for L RoleInitiator is_trusted args i = (Ok su, j)"
  obtains sg where "cl_signaling (su_client su) = SignalingInitiator sg" "cm_tasks (isg_common sg) = Some [chat_task_new ''initiat0r'']"
  using assms
  by (auto simp: chat_setup_for_def chat_client_def builder_initiator_def builder_initiator_trusted_def builder_tasks_def
      tasks_from_vec_def with_ping_interval_def builder_add_task_def builder_new_def initiator_new_def Let_def
      ok_iffs unwrap_eq_Ok_iff split: if_splits)

lemma setup_responder:
  assumes "chat_setup_for L RoleResponder is_trusted args i = (Ok su, j)"
  obtains sg where "cl_signaling (su_client su) = SignalingResponder sg" "cm_tasks (rsg_common sg) = Some [chat_task_new ''r3spond3r'']"
  using assms
  by (auto simp: chat_setup_for_def chat_client_def builder_responder_def builder_responder_trusted_def builder_tasks_def
      tasks_from_vec_def with_ping_interval_def builder_add_task_def builder_new_def responder_new_def Let_def
      ok_iffs unwrap_eq_Ok_iff split: if_splits)

lemma prepared_tasks:
  assumes "chat_prepare L OS argv p = (Ok (connector, su), p')"
  shows "cl_signaling (su_client su) = SignalingInitiator i \<Longrightarrow> cm_tasks (isg_common i) = Some [chat_task_new ''initiat0r'']"
    "cl_signaling (su_client su) = SignalingResponder r \<Longrightarrow> cm_tasks (rsg_common r) = Some [chat_task_new ''r3spond3r'']"
proof -
  obtain args k j where "(chat_setup_for L (su_role su) (su_is_trusted su) args k :: (chat_end, _) outcome \<times> _) = (Ok su, j)"
    by (rule prepare_OkD [OF assms])
  then show "cl_signaling (su_client su) = SignalingInitiator i \<Longrightarrow> cm_tasks (isg_common i) = Some [chat_task_new ''initiat0r'']"
    "cl_signaling (su_client su) = SignalingResponder r \<Longrightarrow> cm_tasks (rsg_common r) = Some [chat_task_new ''r3spond3r'']"
    by (cases "su_role su"; auto elim: setup_initiator setup_responder)+
qed

text \<open>The names are exchanged with the task data of the handshake.\<close>

lemma names_exchanged:
  assumes laws: "value_laws E" "\<And>x. value_is_string E (value_string E x)" "is_chat_task E"
    and fit: "tasks_fit E i p r t u" and tasks: "cm_tasks (isg_common i) = Some [t0]" "cm_tasks (rsg_common p) = Some [u0]"
  shows "t = t0\<lparr>ct_peer_name := Some (ct_our_name u0)\<rparr>" "u = u0\<lparr>ct_peer_name := Some (ct_our_name t0)\<rparr>"
proof -
  have init: "task_init E x (task_data E y) = (Ok (), x\<lparr>ct_peer_name := Some (ct_our_name y)\<rparr>)" for x y
    using laws by (simp add: is_chat_task_def chat_init_def chat_data_def value_laws_def proc_defs)
  obtain t1 u1 where f: "choose_shared_task E [t0] (map (task_name E) [u0]) = Some t1"
    "find (\<lambda>x. task_name E x = task_name E t1) [u0] = Some u1" "task_init E t1 (task_data E u1) = (Ok (), t)"
    "task_init E u1 (task_data E t) = (Ok (), u)"
    using fit tasks by (auto simp: tasks_fit_def)
  have "t1 = t0" "u1 = u0" using f(1,2) by (auto simp: split: if_splits)
  with f(3,4) show "t = t0\<lparr>ct_peer_name := Some (ct_our_name u0)\<rparr>" "u = u0\<lparr>ct_peer_name := Some (ct_our_name t0)\<rparr>"
    by (auto simp: init)
qed

text \<open>
  C5. Two chat programs meet. One is started as an initiator, the other one as a responder that fits, for example
  with the command the first one prints; an honest server is between them. Whatever the order in which the
  clients take their messages, all runs end in the same state; and both programs, run on the messages
  their clients got, reach their loops: the channel between the clients is open, the user interfaces run, and
  either task knows the nickname of the other.
\<close>

theorem chat_programs_meet:
  fixes E :: "('v chat_task, 'v, 'z) chat_env_scheme"
  assumes laws: "random_laws E" "order_laws E" "from_slice_laws E" "value_laws E" "\<And>x. value_is_string E (value_string E x)"
    "is_chat_task E"
    and prepared: "chat_prepare E OS argv q = (Ok (c, su), q1)" "chat_prepare E OS' argv' q' = (Ok (c', su'), q1')"
    and online: "online E OS c su" "online E OS' c' su'"
    and roles: "cl_signaling (su_client su) = SignalingInitiator i" "cl_signaling (su_client su') = SignalingResponder p"
    and suits: "suits E a i p rs r t u" and serves: "serves_both E a i p rs to_i to_r" and room: "room \<le> 2 ^ 47"
    and start: "x = (start_node (SignalingInitiator i) to_i, start_node (SignalingResponder p) to_r)"
  shows "\<exists>steps n m. (\<forall>k y. (net_step E ^^ k) x y \<longrightarrow> k \<le> steps \<and> (net_step E ^^ (steps - k)) y (n, m)) \<and>
    (\<forall>turns turns'. list_all2 (arrives E) turns (nd_got n) \<longrightarrow> list_all2 (arrives E) turns' (nd_got m) \<longrightarrow>
      (\<exists>loop ui q2 loop' ui' q2'. chat_main E OS argv turns q = (Ok (loop, ui), q2) \<and>
        chat_main E OS' argv' turns' q' = (Ok (loop', ui'), q2') \<and>
        linked E (loop_signaling loop) (loop_signaling loop') room \<and> talking (start_run ui) \<and> talking (start_run ui') \<and>
        ct_peer_name (ui_task ui) = Some ''r3spond3r'' \<and> ct_peer_name (ui_task ui') = Some ''initiat0r''))"
proof -
  obtain n m i' p' where run: "(net_step E)\<^sup>*\<^sup>* x (n, m)" "nd_inbox n = []" "nd_inbox m = []"
    "nd_signaling n = SignalingInitiator i'" "nd_signaling m = SignalingResponder p'"
    "linked E (SignalingInitiator i') (SignalingResponder p') room"
    "cm_task (isg_common i') = Some t" "cm_task (rsg_common p') = Some u"
    "loop_follows E (SignalingInitiator i) n" "loop_follows E (SignalingResponder p) m"
    by (rule clients_run [OF laws(1-3) suits serves room, folded start])
  then obtain steps where "(net_step E ^^ steps) x (n, m)" using rtranclp_imp_relpowp by metis
  note all = net.every_run_ends [OF this net_stuck [OF run(2,3)]]
  have "tasks_fit E i p r t u" using suits by (simp add: suits_def)
  from names_exchanged [OF laws(4-6) this prepared_tasks(1) [OF prepared(1) roles(1)] prepared_tasks(2) [OF prepared(2) roles(2)]]
  have names: "ct_peer_name (started t) = Some ''r3spond3r''" "ct_peer_name (started u) = Some ''initiat0r''"
    by (simp_all add: started_def chat_task_new_def)
  have "\<exists>loop ui q2 loop' ui' q2'. chat_main E OS argv turns q = (Ok (loop, ui), q2) \<and>
      chat_main E OS' argv' turns' q' = (Ok (loop', ui'), q2') \<and>
      linked E (loop_signaling loop) (loop_signaling loop') room \<and> talking (start_run ui) \<and> talking (start_run ui') \<and>
      ct_peer_name (ui_task ui) = Some ''r3spond3r'' \<and> ct_peer_name (ui_task ui') = Some ''initiat0r''"
    if turns: "list_all2 (arrives E) turns (nd_got n)" "list_all2 (arrives E) turns' (nd_got m)" for turns turns'
    using main_runs [OF laws(1) prepared(1) online(1) _ turns(1), of t] main_runs [OF laws(1) prepared(2) online(2) _ turns(2), of u]
      run(4-10) roles names by auto
  with all show ?thesis by (intro exI [of _ steps] exI [of _ n] exI [of _ m]) blast
qed

section \<open>A meeting\<close>

text \<open>
  Concrete programs: the transparent crypto library, a table as the codec, and chat tasks. The draws of the two
  processes start at different numbers.
\<close>

definition proto_env :: "(sample_value message \<times> byte list) list \<Rightarrow> (sample_value chat_task, sample_value) chat_env" where
  "proto_env tbl = (sample_libs
     \<lparr>task_name = (\<lambda>t. chat_name), task_data = (\<lambda>t. None), task_supported_types = (\<lambda>t. chat_supported_types),
      task_init = (\<lambda>t d. (Ok (), t)),
      rmps_to_vec_message = table_to_vec tbl,
      rmps_from_slice_message = table_from_slice tbl,
      rmps_to_vec_value = table_to_vec [],
      rmps_from_slice_value = table_from_slice [],
      value_as_map = (\<lambda>v. case v of SampleMap m \<Rightarrow> Some m | _ \<Rightarrow> None),
      value_as_str = (\<lambda>v. case v of SampleString s \<Rightarrow> Some s | _ \<Rightarrow> None),
      value_as_u64 = (\<lambda>v. case v of SampleNumber n \<Rightarrow> Some n | _ \<Rightarrow> None),
      value_map = SampleMap,
      value_string = SampleString,
      address_order = (\<lambda>as. as),
      entry_order = (\<lambda>es. es),
      value_is_string = (\<lambda>v. case v of SampleString _ \<Rightarrow> True | _ \<Rightarrow> False),
      value_debug = (\<lambda>v. ''value'')\<rparr>)\<lparr>hexlower_permissive_decode := \<lambda>s. Inr (hex_decode s)\<rparr>"

definition chat_tasks_env :: "(sample_value message \<times> byte list) list \<Rightarrow> (sample_value chat_task, sample_value) chat_env" where
  "chat_tasks_env tbl = (proto_env tbl)
     \<lparr>task_data := chat_data (proto_env tbl), task_init := (\<lambda>t d. chat_init (proto_env tbl) d t)\<rparr>"

definition process_from :: "nat \<Rightarrow> chat_process" where
  "process_from n = new_process\<lparr>cp_entropy := n\<rparr>"

definition chat_client_auth :: client_auth where
  "chat_client_auth = \<lparr>ca_your_cookie = replicate 16 9, ca_subprotocols = [subprotocol], ca_ping_interval = 60, ca_your_key = None\<rparr>"

definition caller_auth :: server_auth where
  "caller_auth = \<lparr>sa_your_cookie = count_up 13, sa_signed_keys = None, sa_responders = Some [], sa_initiator_connected = None\<rparr>"

definition callee_auth :: server_auth where
  "callee_auth = \<lparr>sa_your_cookie = count_up 42, sa_signed_keys = None, sa_responders = None, sa_initiator_connected = Some True\<rparr>"

definition meeting_env :: "(sample_value chat_task, sample_value) chat_env" where
  "meeting_env = chat_tasks_env
     [(ServerHello (scenario_key 4), [1]), (ClientHello (scenario_key 40), [2]), (ClientAuth chat_client_auth, [3]),
      (ServerAuth caller_auth, [4]), (ServerAuth callee_auth, [5]), (NewResponder 2, [6]), (Token (scenario_key 40), [7]),
      (Key (scenario_key 43), [8]), (Key (scenario_key 14), [9]),
      (Auth \<lparr>au_your_cookie = count_up 16, au_tasks = Some [chat_name], au_task = None,
         au_data = [(chat_name, Some [(''nickname'', SampleString ''r3spond3r'')])]\<rparr>, [10]),
      (Auth \<lparr>au_your_cookie = count_up 45, au_tasks = None, au_task = Some chat_name,
         au_data = [(chat_name, Some [(''nickname'', SampleString ''initiat0r'')])]\<rparr>, [11])]"

text \<open>The clients of the two programs.\<close>

definition waiting_server :: "byte \<Rightarrow> u32 \<Rightarrow> server_context" where
  "waiting_server cookie n = \<lparr>sc_handshake_state = ServerNew, sc_permanent_key = None, sc_session_key = None,
     sc_csn_pair = \<lparr>csn_ours = \<lparr>cs_overflow = 0, cs_sequence = n\<rparr>, csn_theirs = None\<rparr>,
     sc_cookie_pair = \<lparr>cookie_ours = count_up cookie, cookie_theirs = None\<rparr>\<rparr>"

definition waiting_common :: "role \<Rightarrow> byte \<Rightarrow> server_context \<Rightarrow> string \<Rightarrow> nat \<Rightarrow> sample_value chat_task common" where
  "waiting_common role key server name entropy = \<lparr>cm_signaling_state = ServerHandshake, cm_permanent_keypair = sample_key_pair key,
     cm_auth_provider = Some (AuthProviderToken (scenario_key 11)), cm_role = role, cm_identity = ClientUnknown, cm_server = server,
     cm_tasks = Some [chat_task_new name], cm_task = None, cm_task_supported_types = None, cm_ping_interval = Some 60,
     cm_entropy = entropy\<rparr>"

definition caller :: "sample_value chat_task initiator_signaling" where
  "caller = \<lparr>isg_common = waiting_common RoleInitiator 10 (waiting_server 13 202182159) ''initiat0r'' 14,
     isg_responders = [], isg_responder = None, isg_responder_counter = 0\<rparr>"

definition callee :: "sample_value chat_task responder_signaling" where
  "callee = \<lparr>rsg_common = waiting_common RoleResponder 40 (waiting_server 42 690629420) ''r3spond3r'' 46,
     rsg_initiator = \<lparr>ic_handshake_state = InitiatorNew, ic_permanent_key = scenario_key 10, ic_session_key = None,
       ic_keypair = sample_key_pair 43, ic_csn_pair = \<lparr>csn_ours = \<lparr>cs_overflow = 0, cs_sequence = 741158447\<rparr>, csn_theirs = None\<rparr>,
       ic_cookie_pair = \<lparr>cookie_ours = count_up 45, cookie_theirs = None\<rparr>\<rparr>\<rparr>"

definition called :: responder_context where
  "called = \<lparr>rc_handshake_state = ResponderNew, rc_counter = 0, rc_address = 2, rc_permanent_key = None, rc_session_key = None,
     rc_keypair = sample_key_pair 14, rc_csn_pair = \<lparr>csn_ours = \<lparr>cs_overflow = 0, cs_sequence = 252711186\<rparr>, csn_theirs = None\<rparr>,
     rc_cookie_pair = \<lparr>cookie_ours = count_up 16, cookie_theirs = None\<rparr>\<rparr>"

definition invitation :: "string list" where
  "invitation = [''responder'', ''--path'', concat (replicate 32 ''0a''), ''--auth-token'', concat (replicate 32 ''0b'')]"

lemma programs_prepared:
  obtains su q1 su' q1' where
    "chat_prepare meeting_env sample_os [''initiator''] (process_from 10) = (Ok ((), su), q1)"
    "cl_signaling (su_client su) = SignalingInitiator caller" "drop 5 (shell_words (connect_command su)) = invitation"
    "chat_prepare meeting_env sample_os invitation (process_from 40) = (Ok ((), su'), q1')"
    "cl_signaling (su_client su') = SignalingResponder callee"
proof -
  let ?r = "chat_prepare meeting_env sample_os [''initiator''] (process_from 10) :: (chat_end, unit \<times> sample_value chat_setup) outcome \<times> _"
    and ?q = "chat_prepare meeting_env sample_os invitation (process_from 40) :: (chat_end, unit \<times> sample_value chat_setup) outcome \<times> _"
  have "case fst ?r of Ok (_, su) \<Rightarrow> cl_signaling (su_client su) = SignalingInitiator caller \<and>
      drop 5 (shell_words (connect_command su)) = invitation | _ \<Rightarrow> False" by code_simp
  moreover have "case fst ?q of Ok (_, su) \<Rightarrow> cl_signaling (su_client su) = SignalingResponder callee | _ \<Rightarrow> False" by code_simp
  ultimately show thesis using that by (cases ?r; cases ?q) (auto split: outcome.splits)
qed

lemma tasks_env_laws:
  "random_laws (chat_tasks_env tbl)" "order_laws (chat_tasks_env tbl)" "from_slice_laws (chat_tasks_env tbl)"
  "value_laws (chat_tasks_env tbl)" "value_is_string (chat_tasks_env tbl) (value_string (chat_tasks_env tbl) x)"
  "is_chat_task (chat_tasks_env tbl)" "box_correct (chat_tasks_env tbl) k l" "secretbox_correct (chat_tasks_env tbl) key"
proof -
  note env = chat_tasks_env_def proto_env_def
  show "random_laws (chat_tasks_env tbl)" "from_slice_laws (chat_tasks_env tbl)"
    using sample_libs_laws(2,3) [of "()"] by (simp_all add: env random_laws_def from_slice_laws_def sample_libs_def)
  show "order_laws (chat_tasks_env tbl)" by (simp add: env order_laws_def sample_libs_def)
  show "value_laws (chat_tasks_env tbl)" "value_is_string (chat_tasks_env tbl) (value_string (chat_tasks_env tbl) x)"
    by (simp_all add: env value_laws_def sample_libs_def)
  have "chat_data (E\<lparr>task_data := d, task_init := f\<rparr>) = chat_data E" "chat_init (E\<lparr>task_data := d, task_init := f\<rparr>) = chat_init E"
    for E :: "(sample_value chat_task, sample_value) chat_env" and d f
    by (simp_all add: fun_eq_iff chat_data_def chat_init_def cong: option.case_cong if_cong)
  moreover have "task_name (proto_env tbl) t = chat_name" "task_supported_types (proto_env tbl) t = chat_supported_types" for t
    by (simp_all add: proto_env_def sample_libs_def)
  ultimately show "is_chat_task (chat_tasks_env tbl)" by (simp add: chat_tasks_env_def is_chat_task_def)
  show "box_correct (chat_tasks_env tbl) k l" "secretbox_correct (chat_tasks_env tbl) key"
    by (simp_all add: env box_correct_def secretbox_correct_def sample_libs_def sample_open_def)
qed

lemma meeting_laws:
  "random_laws meeting_env" "order_laws meeting_env" "from_slice_laws meeting_env" "value_laws meeting_env"
  "value_is_string meeting_env (value_string meeting_env x)" "is_chat_task meeting_env"
  "box_correct meeting_env k l" "secretbox_correct meeting_env key"
  unfolding meeting_env_def by (rule tasks_env_laws)+

lemma caller_served:
  "greets meeting_env (sample_key_pair 4) (isg_common caller) server_hello_box"
  "admits meeting_env (sample_key_pair 4) (isg_common caller) (bb_nonce server_hello_box) 1 caller_auth (server_box 1 6 4)"
  "informs meeting_env 1 caller_auth (SignalingInitiator caller)"
  "announces_responder meeting_env (sample_key_pair 4) (isg_common caller) (bb_nonce (server_box 1 6 4)) 2 (server_box 1 7 6)"
proof -
  let ?c = "isg_common caller" and ?b = "server_box 1 6 4" and ?n = "server_box 1 7 6"
  show "greets meeting_env (sample_key_pair 4) ?c server_hello_box" by code_simp
  have "nonce_source (bb_nonce ?b) = 0" "nonce_destination (bb_nonce ?b) = 1"
    "nonce_cookie (bb_nonce ?b) = nonce_cookie (bb_nonce server_hello_box)"
    "nonce_csn (bb_nonce server_hello_box) < nonce_csn (bb_nonce ?b)" "carried meeting_env (ServerAuth caller_auth)"
    "open_box_encrypt meeting_env (open_box_new (ServerAuth caller_auth) (bb_nonce ?b)) (sample_key_pair 4)
       (public_key (cm_permanent_keypair ?c)) = (Ok ?b :: (signaling_error, _) outcome)"
    "sa_your_cookie caller_auth = cookie_ours (sc_cookie_pair (cm_server ?c))"
    "length (public_key (sample_key_pair 4)) = 32" "length (public_key (cm_permanent_keypair ?c)) = 32"
    "sc_permanent_key (cm_server ?c) = None" by code_simp+
  then show "admits meeting_env (sample_key_pair 4) ?c (bb_nonce server_hello_box) 1 caller_auth ?b"
    unfolding admits_def Let_def using meeting_laws(7) by auto
  show "informs meeting_env 1 caller_auth (SignalingInitiator caller)" by (simp add: caller_auth_def caller_def hm_empty_def)
  have "nonce_source (bb_nonce ?n) = 0" "nonce_destination (bb_nonce ?n) = 1" "nonce_cookie (bb_nonce ?n) = nonce_cookie (bb_nonce ?b)"
    "nonce_csn (bb_nonce ?b) < nonce_csn (bb_nonce ?n)" "carried meeting_env (NewResponder 2)"
    "open_box_encrypt meeting_env (open_box_new (NewResponder 2) (bb_nonce ?n)) (sample_key_pair 4)
       (public_key (cm_permanent_keypair ?c)) = (Ok ?n :: (signaling_error, _) outcome)" by code_simp+
  then show "announces_responder meeting_env (sample_key_pair 4) ?c (bb_nonce ?b) 2 ?n"
    unfolding announces_responder_def Let_def using meeting_laws(7) by blast
qed

lemma callee_served:
  "greets meeting_env (sample_key_pair 4) (rsg_common callee) server_hello_box"
  "admits meeting_env (sample_key_pair 4) (rsg_common callee) (bb_nonce server_hello_box) 2 callee_auth (server_box 2 6 5)"
  "informs meeting_env 2 callee_auth (SignalingResponder callee)"
proof -
  let ?c = "rsg_common callee" and ?b = "server_box 2 6 5"
  show "greets meeting_env (sample_key_pair 4) ?c server_hello_box" by code_simp
  have "nonce_source (bb_nonce ?b) = 0" "nonce_destination (bb_nonce ?b) = 2"
    "nonce_cookie (bb_nonce ?b) = nonce_cookie (bb_nonce server_hello_box)"
    "nonce_csn (bb_nonce server_hello_box) < nonce_csn (bb_nonce ?b)" "carried meeting_env (ServerAuth callee_auth)"
    "open_box_encrypt meeting_env (open_box_new (ServerAuth callee_auth) (bb_nonce ?b)) (sample_key_pair 4)
       (public_key (cm_permanent_keypair ?c)) = (Ok ?b :: (signaling_error, _) outcome)"
    "sa_your_cookie callee_auth = cookie_ours (sc_cookie_pair (cm_server ?c))"
    "length (public_key (sample_key_pair 4)) = 32" "length (public_key (cm_permanent_keypair ?c)) = 32"
    "sc_permanent_key (cm_server ?c) = None" by code_simp+
  then show "admits meeting_env (sample_key_pair 4) ?c (bb_nonce server_hello_box) 2 callee_auth ?b"
    unfolding admits_def Let_def using meeting_laws(7) by auto
  have "is_responder 2" "cm_auth_provider ?c \<noteq> None" "carried meeting_env (Token (public_key (cm_permanent_keypair ?c)))"
    "carried meeting_env (Key (public_key (ic_keypair (rsg_initiator callee))))"
    "combined_sequence_number (csn_ours (ic_csn_pair (rsg_initiator callee))) < 4294967295" by code_simp+
  then show "informs meeting_env 2 callee_auth (SignalingResponder callee)"
    by (simp add: callee_auth_def sent_number_def word_less_nat_alt)
qed

lemma meeting_served:
  "serves_both meeting_env 2 caller callee [] [server_hello_box, server_box 1 6 4, server_box 1 7 6] [server_hello_box, server_box 2 6 5]"
proof -
  have "sa_responders caller_auth = Some []" "sa_initiator_connected callee_auth = Some True"
    by (simp_all add: caller_auth_def callee_auth_def)
  with caller_served callee_served show ?thesis unfolding serves_both_def by blast
qed

lemma meeting_awaits: "awaits_server (isg_common caller)" "awaits_server (rsg_common callee)"
proof -
  have "combined_sequence_number (csn_ours (sc_csn_pair (cm_server (isg_common caller)))) < 4294967295"
    "combined_sequence_number (csn_ours (sc_csn_pair (cm_server (rsg_common callee)))) < 4294967295" by code_simp+
  then show "awaits_server (isg_common caller)" "awaits_server (rsg_common callee)"
    by (simp_all add: awaits_server_def Let_def sent_number_def word_less_nat_alt caller_def callee_def waiting_common_def waiting_server_def)
qed

lemma meeting_welcomes:
  "welcomes meeting_env (isg_common caller) 2 (isg_responder_counter caller) (cm_entropy (isg_common caller)) called"
proof -
  have "responder_context_new meeting_env 2 (isg_responder_counter caller) (cm_entropy (isg_common caller)) =
      (Ok called :: (signaling_error, _) outcome, 17)" "cm_entropy (isg_common caller) = 14" "trusted_key (isg_common caller) = None"
    by code_simp+
  then show ?thesis by (simp add: welcomes_def)
qed

definition caller_task :: "sample_value chat_task" where
  "caller_task = (chat_task_new ''initiat0r'')\<lparr>ct_peer_name := Some ''r3spond3r''\<rparr>"

definition callee_task :: "sample_value chat_task" where
  "callee_task = (chat_task_new ''r3spond3r'')\<lparr>ct_peer_name := Some ''initiat0r''\<rparr>"

lemma meeting_fits:
  "keys_fit meeting_env caller callee called" "tasks_fit meeting_env caller callee called caller_task callee_task"
  "strangers called (rsg_initiator callee)" "introduced meeting_env caller callee called"
proof -
  show "keys_fit meeting_env caller callee called"
    unfolding keys_fit_def Let_def by (intro conjI meeting_laws(7)) code_simp+
  let ?t = "chat_task_new ''initiat0r''" and ?u = "chat_task_new ''r3spond3r''"
  have "case proposal meeting_env [?u] (cookie_ours (rc_cookie_pair called)) of Ok au \<Rightarrow> carried meeting_env (Auth au) | _ \<Rightarrow> True"
    "cm_tasks (isg_common caller) = Some [?t]" "cm_tasks (rsg_common callee) = Some [?u]"
    "choose_shared_task meeting_env [?t] (map (task_name meeting_env) [?u]) = Some ?t"
    "find (\<lambda>x. task_name meeting_env x = task_name meeting_env ?t) [?u] = Some ?u"
    "task_init meeting_env ?t (task_data meeting_env ?u) = (Ok (), caller_task)"
    "task_init meeting_env ?u (task_data meeting_env caller_task) = (Ok (), callee_task)"
    "task_name meeting_env caller_task = task_name meeting_env ?t"
    "carried meeting_env (Auth (chosen_auth meeting_env (cookie_ours (ic_cookie_pair (rsg_initiator callee))) caller_task))"
    "distinct (map (task_name meeting_env) [?u])" by code_simp+
  then show "tasks_fit meeting_env caller callee called caller_task callee_task"
    unfolding tasks_fit_def by (intro exI [of _ "[?t]"] exI [of _ "[?u]"] exI [of _ ?t] exI [of _ ?u]) auto
  have "combined_sequence_number (csn_ours (rc_csn_pair called)) < 4294967295"
    "combined_sequence_number (csn_ours (ic_csn_pair (rsg_initiator callee))) < 4294967295"
    "cookie_ours (rc_cookie_pair called) \<noteq> cookie_ours (ic_cookie_pair (rsg_initiator callee))"
    "csn_theirs (rc_csn_pair called) = None" "cookie_theirs (rc_cookie_pair called) = None"
    "csn_theirs (ic_csn_pair (rsg_initiator callee)) = None" "cookie_theirs (ic_cookie_pair (rsg_initiator callee)) = None"
    "rc_session_key called = None" "ic_session_key (rsg_initiator callee) = None" by code_simp+
  then show "strangers called (rsg_initiator callee)" by (simp add: strangers_def sent_number_def word_less_nat_alt)
  have "cm_auth_provider (rsg_common callee) = Some (AuthProviderToken (scenario_key 11))"
    "cm_auth_provider (isg_common caller) = Some (AuthProviderToken (scenario_key 11))"
    "rc_handshake_state called = ResponderNew" "rc_permanent_key called = None"
    "carried meeting_env (Token (public_key (cm_permanent_keypair (rsg_common callee))))" by code_simp+
  then show "introduced meeting_env caller callee called" using meeting_laws(8) by (simp add: introduced_def Let_def)
qed

lemma meeting_suits: "suits meeting_env 2 caller callee [] called caller_task callee_task"
proof -
  have "cm_role (isg_common caller) = RoleInitiator" "is_responder 2" "isg_responder_counter caller < 4294967295"
    "combined_sequence_number (csn_ours (sc_csn_pair (cm_server (isg_common caller)))) < 4294967295" by code_simp+
  then show ?thesis
    using meeting_awaits meeting_welcomes meeting_fits by (simp add: suits_def sent_number_def word_less_nat_alt)
qed

lemma sample_online: "online E sample_os () su"
  by (simp add: online_def sample_os_def os_ready_def)

text \<open>The second program is started with the command that the first one prints.\<close>

theorem chat_programs_meet_witness:
  "\<exists>steps n m. (\<forall>k y. (net_step meeting_env ^^ k)
        (start_node (SignalingInitiator caller) [server_hello_box, server_box 1 6 4, server_box 1 7 6],
         start_node (SignalingResponder callee) [server_hello_box, server_box 2 6 5]) y \<longrightarrow>
      k \<le> steps \<and> (net_step meeting_env ^^ (steps - k)) y (n, m)) \<and>
    (\<forall>turns turns'. list_all2 (arrives meeting_env) turns (nd_got n) \<longrightarrow> list_all2 (arrives meeting_env) turns' (nd_got m) \<longrightarrow>
      (\<exists>loop ui q2 loop' ui' q2'. chat_main meeting_env sample_os [''initiator''] turns (process_from 10) = (Ok (loop, ui), q2) \<and>
        chat_main meeting_env sample_os invitation turns' (process_from 40) = (Ok (loop', ui'), q2') \<and>
        linked meeting_env (loop_signaling loop) (loop_signaling loop') 1000000 \<and> talking (start_run ui) \<and> talking (start_run ui') \<and>
        ct_peer_name (ui_task ui) = Some ''r3spond3r'' \<and> ct_peer_name (ui_task ui') = Some ''initiat0r''))"
proof -
  obtain su q1 su' q1' where su: "chat_prepare meeting_env sample_os [''initiator''] (process_from 10) = (Ok ((), su), q1)"
    "cl_signaling (su_client su) = SignalingInitiator caller" "drop 5 (shell_words (connect_command su)) = invitation"
    "chat_prepare meeting_env sample_os invitation (process_from 40) = (Ok ((), su'), q1')"
    "cl_signaling (su_client su') = SignalingResponder callee"
    by (rule programs_prepared)
  show ?thesis
    by (rule chat_programs_meet [OF meeting_laws(1-6) su(1,4) sample_online sample_online su(2,5) meeting_suits meeting_served _ refl])
      simp
qed

end

