(* ===== verification/Ffi.thy ===== *)
theory Ffi
  imports Crypto_Types
begin

text \<open>
  The C bindings (\<open>ffi/src/lib.rs\<close>). Each function hands out or takes back a raw pointer to a
  heap cell: \<open>Box::into_raw\<close> allocates, \<open>Box::from_raw\<close> followed by the drop of the box frees.
  The heap is explicit, and using a pointer that is not the address of a live cell of the right
  type is undefined behaviour, an error value of its own. Passing the null pointer is checked
  for in the code. The allocator and the reactor of \<open>tokio_core\<close> are parameters; an address may
  be given out again once it is free.
\<close>

section \<open>Definitions\<close>

record ('c, 'r) ffi_libs = libs +
  heap_address :: "nat list \<Rightarrow> nat"
  reactor_core_new :: "nat \<Rightarrow> string + 'c"
  core_remote :: "'c \<Rightarrow> 'r"

datatype pointer = Null | Pointer nat

datatype ('c, 'r) cell = CellKeyPair key_pair | CellCore 'c | CellRemote 'r

datatype cell_kind = KindKeyPair | KindCore | KindRemote

primrec cell_kind_of :: "('c, 'r) cell \<Rightarrow> cell_kind" where
  "cell_kind_of (CellKeyPair k) = KindKeyPair"
| "cell_kind_of (CellCore c) = KindCore"
| "cell_kind_of (CellRemote r) = KindRemote"

record ('c, 'r) ffi_state =
  ffi_heap :: "(nat, ('c, 'r) cell) hashmap"
  ffi_draws :: nat
  ffi_cores :: nat

datatype ffi_error = UndefinedBehaviour

type_synonym ('c, 'r, 'a) ffi = "(('c, 'r) ffi_state, ffi_error, 'a) proc"

definition box_into_raw :: "('c, 'r, 'z) ffi_libs_scheme \<Rightarrow> ('c, 'r) cell \<Rightarrow> ('c, 'r, pointer) ffi" where
  "box_into_raw L x =
     bindS (getS (\<lambda>s. heap_address L (hm_keys (ffi_heap s)))) (\<lambda>a.
     thenS (modifyS (ffi_heap_update (hm_insert a x)))
     (returnS (Pointer a)))"

text \<open>Reading through a pointer that is taken to be one to a cell of kind \<open>k\<close>.\<close>

definition deref :: "cell_kind \<Rightarrow> pointer \<Rightarrow> ('c, 'r, ('c, 'r) cell) ffi" where
  "deref k ptr =
     (case ptr of
        Null \<Rightarrow> failS UndefinedBehaviour
      | Pointer a \<Rightarrow>
          bindS (getS (\<lambda>s. hm_get (ffi_heap s) a)) (\<lambda>found.
          case found of
            None \<Rightarrow> failS UndefinedBehaviour
          | Some x \<Rightarrow> if cell_kind_of x = k then returnS x else failS UndefinedBehaviour))"

definition drop_box :: "cell_kind \<Rightarrow> pointer \<Rightarrow> ('c, 'r, unit) ffi" where
  "drop_box k ptr =
     thenS (deref k ptr)
     (case ptr of
        Null \<Rightarrow> returnS ()
      | Pointer a \<Rightarrow> modifyS (ffi_heap_update (hm_remove a)))"

definition salty_keypair_new :: "('c, 'r, 'z) ffi_libs_scheme \<Rightarrow> ('c, 'r, pointer) ffi" where
  "salty_keypair_new L =
     bindS (zoomS ffi_draws ffi_draws_update (new_key_pair L)) (\<lambda>k. box_into_raw L (CellKeyPair k))"

definition salty_keypair_free :: "pointer \<Rightarrow> ('c, 'r, unit) ffi" where
  "salty_keypair_free ptr = (if ptr = Null then returnS () else drop_box KindKeyPair ptr)"

definition salty_event_loop_new :: "('c, 'r, 'z) ffi_libs_scheme \<Rightarrow> ('c, 'r, pointer) ffi" where
  "salty_event_loop_new L =
     bindS (getS (\<lambda>s. reactor_core_new L (ffi_cores s))) (\<lambda>created.
     thenS (modifyS (ffi_cores_update Suc))
     (case created of
        Inr reactor \<Rightarrow> box_into_raw L (CellCore reactor)
      | Inl e \<Rightarrow> returnS Null))"

definition salty_event_loop_get_remote ::
  "('c, 'r, 'z) ffi_libs_scheme \<Rightarrow> pointer \<Rightarrow> ('c, 'r, pointer) ffi" where
  "salty_event_loop_get_remote L ptr =
     (if ptr = Null then returnS Null
      else bindS (deref KindCore ptr) (\<lambda>x.
        case x of
          CellCore core \<Rightarrow> box_into_raw L (CellRemote (core_remote L core))
        | _ \<Rightarrow> failS UndefinedBehaviour))"

definition salty_event_loop_free_remote :: "pointer \<Rightarrow> ('c, 'r, unit) ffi" where
  "salty_event_loop_free_remote ptr = (if ptr = Null then returnS () else drop_box KindRemote ptr)"

definition salty_event_loop_free :: "pointer \<Rightarrow> ('c, 'r, unit) ffi" where
  "salty_event_loop_free ptr = (if ptr = Null then returnS () else drop_box KindCore ptr)"

section \<open>Programs that call the bindings\<close>

text \<open>
  A C program is a sequence of calls; what a call returns is stored in the next variable, and
  an argument is the number of a variable.
\<close>

datatype ffi_call =
    CallKeypairNew
  | CallKeypairFree nat
  | CallEventLoopNew
  | CallGetRemote nat
  | CallFreeRemote nat
  | CallEventLoopFree nat

primrec ffi_call_run ::
  "('c, 'r, 'z) ffi_libs_scheme \<Rightarrow> pointer list \<Rightarrow> ffi_call \<Rightarrow> ('c, 'r, pointer list) ffi" where
  "ffi_call_run L vs CallKeypairNew = bindS (salty_keypair_new L) (\<lambda>p. returnS (vs @ [p]))"
| "ffi_call_run L vs (CallKeypairFree i) = thenS (salty_keypair_free (vs ! i)) (returnS vs)"
| "ffi_call_run L vs CallEventLoopNew = bindS (salty_event_loop_new L) (\<lambda>p. returnS (vs @ [p]))"
| "ffi_call_run L vs (CallGetRemote i) = bindS (salty_event_loop_get_remote L (vs ! i)) (\<lambda>p. returnS (vs @ [p]))"
| "ffi_call_run L vs (CallFreeRemote i) = thenS (salty_event_loop_free_remote (vs ! i)) (returnS vs)"
| "ffi_call_run L vs (CallEventLoopFree i) = thenS (salty_event_loop_free (vs ! i)) (returnS vs)"

fun ffi_run ::
  "('c, 'r, 'z) ffi_libs_scheme \<Rightarrow> ffi_call list \<Rightarrow> pointer list \<Rightarrow> ('c, 'r, pointer list) ffi" where
  "ffi_run L [] vs = returnS vs"
| "ffi_run L (c # cs) vs = bindS (ffi_call_run L vs c) (ffi_run L cs)"

text \<open>
  The discipline the documentation of the bindings asks for: a variable is used as what it was
  created as, and not after it was freed. \<open>True\<close> marks a variable that is not freed.
\<close>

type_synonym owned = "(cell_kind \<times> bool) list"

definition use_var :: "cell_kind \<Rightarrow> nat \<Rightarrow> owned \<Rightarrow> bool" where
  "use_var k i vars \<longleftrightarrow> i < length vars \<and> vars ! i = (k, True)"

definition free_var :: "cell_kind \<Rightarrow> nat \<Rightarrow> owned \<Rightarrow> owned option" where
  "free_var k i vars = (if use_var k i vars then Some (vars[i := (k, False)]) else None)"

primrec ffi_call_check :: "owned \<Rightarrow> ffi_call \<Rightarrow> owned option" where
  "ffi_call_check vars CallKeypairNew = Some (vars @ [(KindKeyPair, True)])"
| "ffi_call_check vars (CallKeypairFree i) = free_var KindKeyPair i vars"
| "ffi_call_check vars CallEventLoopNew = Some (vars @ [(KindCore, True)])"
| "ffi_call_check vars (CallGetRemote i) =
     (if use_var KindCore i vars then Some (vars @ [(KindRemote, True)]) else None)"
| "ffi_call_check vars (CallFreeRemote i) = free_var KindRemote i vars"
| "ffi_call_check vars (CallEventLoopFree i) = free_var KindCore i vars"

fun ffi_check :: "ffi_call list \<Rightarrow> owned \<Rightarrow> owned option" where
  "ffi_check [] vars = Some vars"
| "ffi_check (c # cs) vars = Option.bind (ffi_call_check vars c) (ffi_check cs)"

section \<open>Ownership\<close>

text \<open>
  Every cell on the heap belongs to exactly one variable that is not freed, which was created
  with the kind of the cell, and no other address belongs to a variable.
\<close>

definition owners :: "owned \<Rightarrow> pointer list \<Rightarrow> nat \<Rightarrow> nat set" where
  "owners vars vs a = {i. i < length vars \<and> snd (vars ! i) \<and> vs ! i = Pointer a}"

definition owned_at :: "owned \<Rightarrow> pointer list \<Rightarrow> nat \<Rightarrow> ('c, 'r) cell option \<Rightarrow> bool" where
  "owned_at vars vs a found \<longleftrightarrow>
     (case found of
        None \<Rightarrow> owners vars vs a = {}
      | Some x \<Rightarrow> \<exists>i. owners vars vs a = {i} \<and> fst (vars ! i) = cell_kind_of x)"

definition owns :: "owned \<Rightarrow> pointer list \<Rightarrow> ('c, 'r) ffi_state \<Rightarrow> bool" where
  "owns vars vs s \<longleftrightarrow> length vs = length vars \<and> (\<forall>a. owned_at vars vs a (hm_get (ffi_heap s) a))"

definition allocator_laws :: "('c, 'r, 'z) ffi_libs_scheme \<Rightarrow> bool" where
  "allocator_laws L \<longleftrightarrow> (\<forall>as. heap_address L as \<notin> set as)"

lemma owners_less: "i \<in> owners vars vs a \<Longrightarrow> i < length vars"
  by (simp add: owners_def)

lemma owners_snoc:
  assumes "length vs = length vars"
  shows "owners (vars @ [(k, True)]) (vs @ [p]) b = owners vars vs b \<union> (if p = Pointer b then {length vars} else {})"
  using assms by (auto simp: owners_def nth_append less_Suc_eq)

lemma owners_free: "owners (vars[i := (k, False)]) vs b = owners vars vs b - {i}"
  by (cases "i < length vars") (auto simp: owners_def nth_list_update list_update_beyond split: if_splits)

lemma owned_at_snoc:
  assumes "owned_at vars vs b found" "length vs = length vars" "p \<noteq> Pointer b"
  shows "owned_at (vars @ [(k, True)]) (vs @ [p]) b found"
proof -
  have "fst ((vars @ [(k, True)]) ! i) = fst (vars ! i)" if "owners vars vs b = {i}" for i
    using that owners_less [of i vars vs b] by (simp add: nth_append)
  with assms show ?thesis by (cases found) (auto simp: owned_at_def owners_snoc)
qed

lemma owns_used:
  assumes "owns vars vs s" "use_var k i vars" "vs ! i = Pointer a"
  shows "\<exists>x. hm_get (ffi_heap s) a = Some x \<and> cell_kind_of x = k \<and> owners vars vs a = {i}"
proof -
  have i: "i \<in> owners vars vs a" "fst (vars ! i) = k" using assms(2,3) by (auto simp: owners_def use_var_def)
  from assms(1) have "owned_at vars vs a (hm_get (ffi_heap s) a)" by (simp add: owns_def)
  with i show ?thesis by (auto simp: owned_at_def split: option.splits)
qed

lemma owns_null:
  assumes "owns vars vs s" "ffi_heap s' = ffi_heap s"
  shows "owns (vars @ [(k, True)]) (vs @ [Null]) s'"
  using assms by (simp add: owns_def owned_at_snoc)

lemma owns_new:
  assumes inv: "owns vars vs s" and alloc: "allocator_laws L" and heap: "ffi_heap s' = ffi_heap s"
    and x: "cell_kind_of x = k"
  shows "\<exists>a s''. box_into_raw L x s' = (Ok (Pointer a), s'') \<and> owns (vars @ [(k, True)]) (vs @ [Pointer a]) s''"
proof -
  define a where "a = heap_address L (hm_keys (ffi_heap s))"
  let ?s = "s'\<lparr>ffi_heap := hm_insert a x (ffi_heap s)\<rparr>"
  have "hm_get (ffi_heap s) a = None"
    using alloc hm_keys_iff [of a "ffi_heap s"] by (auto simp: allocator_laws_def a_def)
  moreover have at: "owned_at vars vs b (hm_get (ffi_heap s) b)" and len: "length vs = length vars" for b
    using inv by (simp_all add: owns_def)
  ultimately have fresh: "owners vars vs a = {}" using at [of a] by (simp add: owned_at_def)
  have "box_into_raw L x s' = (Ok (Pointer a), ?s)"
    using heap by (simp add: box_into_raw_def proc_defs a_def)
  moreover have "owns (vars @ [(k, True)]) (vs @ [Pointer a]) ?s"
    unfolding owns_def
  proof (intro conjI allI)
    show "owned_at (vars @ [(k, True)]) (vs @ [Pointer a]) b (hm_get (ffi_heap ?s) b)" for b
      using fresh x owned_at_snoc [OF at len]
      by (cases "b = a") (simp_all add: owned_at_def [of _ _ a] owners_snoc [OF len] nth_append len)
  qed (simp add: len)
  ultimately show ?thesis by blast
qed

lemma owns_free:
  assumes inv: "owns vars vs s" and "free_var k i vars = Some vars'"
  shows "\<exists>s'. (if vs ! i = Null then returnS () else drop_box k (vs ! i)) s = (Ok (), s') \<and> owns vars' vs s'"
proof -
  have i: "use_var k i vars" "i < length vars" and vars': "vars' = vars[i := (k, False)]"
    using assms(2) by (auto simp: free_var_def use_var_def split: if_splits)
  have kind: "fst (vars' ! j) = fst (vars ! j)" for j
    using i(1) by (cases "j = i") (simp_all add: vars' use_var_def)
  show ?thesis
  proof (cases "vs ! i")
    case Null
    then have "owners vars' vs b = owners vars vs b" for b
      by (auto simp: vars' owners_free) (simp add: owners_def)
    then have "owns vars' vs s" using inv kind by (simp add: owns_def owned_at_def vars' cong: option.case_cong)
    with Null show ?thesis by (simp add: returnS_def)
  next
    case (Pointer a)
    from owns_used [OF inv i(1) this] obtain x where x: "hm_get (ffi_heap s) a = Some x" "cell_kind_of x = k"
      "owners vars vs a = {i}" by blast
    let ?s = "s\<lparr>ffi_heap := hm_remove a (ffi_heap s)\<rparr>"
    have "owners vars' vs b = (if b = a then {} else owners vars vs b)" for b
      using x(3) Pointer by (auto simp: vars' owners_free) (simp add: owners_def)
    then have "owns vars' vs ?s" using inv kind by (simp add: owns_def owned_at_def vars' cong: option.case_cong)
    moreover have "drop_box k (vs ! i) s = (Ok (), ?s)"
      using Pointer x by (simp add: drop_box_def deref_def proc_defs)
    ultimately show ?thesis using Pointer by simp
  qed
qed

lemma owns_call:
  assumes inv: "owns vars vs s" and alloc: "allocator_laws L" and checked: "ffi_call_check vars c = Some vars'"
  shows "case ffi_call_run L vs c s of
    (Ok vs', s') \<Rightarrow> owns vars' vs' s' | (Err e, s') \<Rightarrow> False | (Panic m, s') \<Rightarrow> \<not> sodium_init L"
proof (cases c)
  case CallKeypairNew
  show ?thesis
  proof (cases "sodium_init L")
    case True
    define k where "k = \<lparr>public_key = fst (gen_keypair L (ffi_draws s)), private_key = snd (gen_keypair L (ffi_draws s))\<rparr>"
    let ?s = "s\<lparr>ffi_draws := Suc (ffi_draws s)\<rparr>"
    have "ffi_call_run L vs c s = bindS (box_into_raw L (CellKeyPair k)) (\<lambda>p. returnS (vs @ [p])) ?s"
      using True CallKeypairNew by (simp add: salty_keypair_new_def new_key_pair_def libsodium_init_or_panic_def zoomS_def
          bindS_assoc proc_defs k_def case_prod_beta)
    then show ?thesis
      using owns_new [OF inv alloc, of ?s "CellKeyPair k" KindKeyPair] CallKeypairNew checked
      by (auto simp: bindS_def returnS_def)
  next
    case False
    then show ?thesis
      using CallKeypairNew by (simp add: salty_keypair_new_def new_key_pair_def libsodium_init_or_panic_def zoomS_def proc_defs)
  qed
next
  case (CallGetRemote i)
  then have i: "use_var KindCore i vars" "vars' = vars @ [(KindRemote, True)]"
    using checked by (auto split: if_splits)
  show ?thesis
  proof (cases "vs ! i")
    case Null
    then show ?thesis
      using owns_null [OF inv refl] CallGetRemote i by (simp add: salty_event_loop_get_remote_def proc_defs)
  next
    case (Pointer a)
    from owns_used [OF inv i(1) this] obtain x where "hm_get (ffi_heap s) a = Some x" "cell_kind_of x = KindCore" by blast
    then obtain core where "hm_get (ffi_heap s) a = Some (CellCore core)" by (cases x) auto
    then show ?thesis
      using owns_new [OF inv alloc refl, of "CellRemote (core_remote L core)" KindRemote] CallGetRemote Pointer i
      by (auto simp: salty_event_loop_get_remote_def deref_def proc_defs)
  qed
next
  case CallEventLoopNew
  let ?s = "ffi_cores_update Suc s"
  show ?thesis
  proof (cases "reactor_core_new L (ffi_cores s)")
    case (Inl e)
    then show ?thesis
      using owns_null [OF inv, of ?s KindCore] CallEventLoopNew checked
      by (auto simp: salty_event_loop_new_def proc_defs)
  next
    case (Inr core)
    then show ?thesis
      using owns_new [OF inv alloc, of ?s "CellCore core" KindCore] CallEventLoopNew checked
      by (auto simp: salty_event_loop_new_def proc_defs)
  qed
qed (use owns_free [OF inv] checked in \<open>fastforce simp: salty_keypair_free_def salty_event_loop_free_remote_def
      salty_event_loop_free_def proc_defs\<close>)+

lemma owns_run:
  assumes "owns vars vs s" "allocator_laws L" "ffi_check cs vars = Some vars'"
  shows "case ffi_run L cs vs s of
    (Ok vs', s') \<Rightarrow> owns vars' vs' s' | (Err e, s') \<Rightarrow> False | (Panic m, s') \<Rightarrow> \<not> sodium_init L"
  using assms
proof (induction cs arbitrary: vars vs s)
  case Nil
  then show ?case by (simp add: returnS_def)
next
  case (Cons c cs)
  then obtain vars1 where vars1: "ffi_call_check vars c = Some vars1" "ffi_check cs vars1 = Some vars'"
    by (auto simp: bind_eq_Some_conv)
  obtain x s1 where r: "ffi_call_run L vs c s = (x, s1)" by fastforce
  show ?case
    using owns_call [OF Cons.prems(1,2) vars1(1)] Cons.IH [OF _ Cons.prems(2) vars1(2), of _ s1]
    by (cases x) (simp_all add: r bindS_def)
qed

text \<open>
  C30. Ownership through the C bindings. A program that uses each pointer as what it was created
  as, and not after freeing it, never runs into undefined behaviour, even though failed
  constructors hand out null pointers and the allocator reuses addresses; at its end the heap
  holds exactly the objects it has not freed, so that nothing leaks once every pointer is freed.
  Only a failure of libsodium can stop it, in \<open>salty_keypair_new\<close>.
\<close>

theorem ffi_ownership:
  assumes "allocator_laws L" "ffi_check cs [] = Some vars" "ffi_heap s = hm_empty"
  shows "case ffi_run L cs [] s of
     (Ok vs, s') \<Rightarrow> length vs = length vars \<and>
       (\<forall>a. hm_get (ffi_heap s') a \<noteq> None \<longleftrightarrow> (\<exists>i < length vars. snd (vars ! i) \<and> vs ! i = Pointer a))
   | (Err e, s') \<Rightarrow> False
   | (Panic m, s') \<Rightarrow> \<not> sodium_init L"
proof -
  have "owns [] [] s" using assms(3) by (simp add: owns_def owned_at_def owners_def)
  from owns_run [OF this assms(1,2)] show ?thesis
  proof (simp split: prod.splits outcome.splits, intro conjI impI allI)
    fix vs s' a assume inv: "owns vars vs s'"
    then show "length vs = length vars" by (simp add: owns_def)
    from inv have "owned_at vars vs a (hm_get (ffi_heap s') a)" by (simp add: owns_def)
    then show "(\<exists>y. hm_get (ffi_heap s') a = Some y) = (\<exists>i < length vars. snd (vars ! i) \<and> vs ! i = Pointer a)"
      by (cases "hm_get (ffi_heap s') a") (auto simp: owned_at_def owners_def)
  qed
qed

text \<open>An allocator that gives out the first free address.\<close>

definition first_free :: "nat list \<Rightarrow> nat" where
  "first_free as = hd (filter (\<lambda>n. n \<notin> set as) [1..<length as + 2])"

definition sample_ffi :: "(unit, unit) ffi_libs" where
  "sample_ffi = sample_libs (ffi_libs.fields first_free (\<lambda>n. Inr ()) (\<lambda>c. ()))"

lemma first_free: "first_free as \<notin> set as"
proof -
  have "\<not> {1..<length as + 2} \<subseteq> set as"
  proof
    assume "{1..<length as + 2} \<subseteq> set as"
    then have "card {1..<length as + 2} \<le> card (set as)" by (rule card_mono [OF finite_set])
    then show False using card_length [of as] by simp
  qed
  then have "filter (\<lambda>n. n \<notin> set as) [1..<length as + 2] \<noteq> []"
    unfolding filter_empty_conv set_upt by blast
  from list.set_sel(1) [OF this] show ?thesis unfolding first_free_def set_filter by blast
qed

lemma sample_allocator: "allocator_laws sample_ffi"
  by (simp add: allocator_laws_def sample_ffi_def sample_libs_def ffi_libs.defs first_free)

definition sample_calls :: "ffi_call list" where
  "sample_calls = [CallKeypairNew, CallEventLoopNew, CallGetRemote 1, CallEventLoopFree 1, CallEventLoopNew,
     CallFreeRemote 2, CallKeypairFree 0]"

theorem ffi_ownership_witness:
  "\<forall>a. (hm_get (ffi_heap (snd (ffi_run sample_ffi sample_calls [] \<lparr>ffi_heap = hm_empty, ffi_draws = 0, ffi_cores = 0\<rparr>))) a \<noteq> None)
     = (a = 2)"
proof -
  let ?r = "ffi_run sample_ffi sample_calls [] \<lparr>ffi_heap = hm_empty, ffi_draws = 0, ffi_cores = 0\<rparr>"
  have "ffi_check sample_calls [] = Some [(KindKeyPair, False), (KindCore, False), (KindRemote, False), (KindCore, True)]"
    by code_simp
  from ffi_ownership [OF sample_allocator this, of "\<lparr>ffi_heap = hm_empty, ffi_draws = 0, ffi_cores = 0\<rparr>"]
  have "case ?r of (Ok vs, s') \<Rightarrow> (\<forall>a. hm_get (ffi_heap s') a \<noteq> None \<longleftrightarrow> vs ! 3 = Pointer a)
    | (Err e, s') \<Rightarrow> False | (Panic m, s') \<Rightarrow> \<not> sodium_init sample_ffi"
    by (auto simp: numeral_eq_Suc less_Suc_eq split: prod.splits outcome.splits)
  moreover have "fst ?r = Ok [Pointer 1, Pointer 2, Pointer 3, Pointer 2]" by code_simp
  ultimately show ?thesis by (cases ?r) auto
qed

text \<open>Freeing twice is not defined, unless the address was given out again in between.\<close>

lemma double_free:
  assumes "hm_get (ffi_heap s) a = Some x" "cell_kind_of x = k"
  shows "thenS (drop_box k (Pointer a)) (drop_box k (Pointer a)) s =
    (Err UndefinedBehaviour, s\<lparr>ffi_heap := hm_remove a (ffi_heap s)\<rparr>)"
  using assms by (simp add: drop_box_def deref_def proc_defs)

end
