(* ===== verification/Spec2Isabelle.thy ===== *)
theory Spec2Isabelle
  imports Task_Loop_Laws Send_All Chat_Meeting Ffi
begin

text \<open>
  Verification of the SaltyRTC client.

  \<^bold>\<open>The program.\<close> The crate lets two peers, an initiator and a responder, negotiate an end-to-end
  encrypted channel over a signaling server. Each peer first does the server handshake
  (\<open>server-hello\<close>, \<open>client-hello\<close>, \<open>client-auth\<close>, \<open>server-auth\<close>), then the peer handshake
  (\<open>token\<close>, \<open>key\<close>, \<open>auth\<close>, relayed by the server), and then hands the channel to a task that both
  support. Every message travels in a box with a nonce of 24 bytes: cookie, source and destination
  address and a combined sequence number. The public entry points are the builder, the
  \<open>connect\<close>, \<open>do_handshake\<close> and \<open>task_loop\<close> futures of \<open>src/lib.rs\<close>; the protocol is in
  \<open>src/protocol/\<close>. The repository also holds a chat program (\<open>examples/chat/\<close>) and C bindings
  (\<open>ffi/\<close>).

  \<^bold>\<open>How the code is modelled.\<close> A struct is a \<open>record\<close>, an enum a \<open>datatype\<close>, an integer a word of
  its width. A fallible call has type \<open>('e, 'a) outcome\<close> with the values \<open>Ok\<close>, \<open>Err\<close> and \<open>Panic\<close>:
  every \<open>unwrap\<close>, \<open>expect\<close>, \<open>panic!\<close>, \<open>assert!\<close> and \<open>unimplemented!\<close> that can be reached is a branch of
  the model. A method with \<open>&mut self\<close> is a \<open>('s, 'e, 'a) proc\<close>, a function from the state to the
  outcome and the state in which the call leaves the object, also when it fails; \<open>bindS\<close> is the
  \<open>?\<close> operator. A method on a field is run with \<open>zoomS\<close>. Hash maps are association lists; where the
  code iterates over one, the order of iteration is a parameter (\<open>address_order\<close>, \<open>entry_order\<close>).

  \<^bold>\<open>Parameters.\<close> Third-party code is an argument of the definitions, a field of one of the records
  \<open>libs\<close> (libsodium, byteorder, data-encoding), \<open>task_libs\<close> (the \<open>Task\<close> trait object of the user),
  \<open>env\<close> (the MessagePack encoding of \<open>rmp-serde\<close> and \<open>rmpv\<close> values), \<open>sink_stream\<close> (the sinks and
  streams of the futures crate), \<open>chat_env\<close>, \<open>chat_os\<close> (\<open>clap\<close>, \<open>log4rs\<close>, \<open>native_tls\<close>, \<open>cursive\<close> and the
  system around the chat program) and \<open>ffi_libs\<close> (the allocator and the reactor). What the
  theorems rely on are named hypotheses: \<open>byteorder_laws\<close>, \<open>random_laws\<close>, \<open>from_slice_laws\<close>,
  \<open>box_open_length\<close>, \<open>box_correct\<close> and \<open>secretbox_correct\<close> (what is sealed can be opened),
  \<open>order_laws\<close>, \<open>value_laws\<close>, \<open>hex_laws\<close>, \<open>key_length_laws\<close>, \<open>sink_laws\<close>, \<open>stream_laws\<close>,
  \<open>allocator_laws\<close>, \<open>clap_sound\<close>, \<open>clap_complete\<close>, \<open>os_ready\<close>. The instances \<open>sample_libs\<close>, \<open>sample_env\<close> and \<open>scenario_env\<close> satisfy them; the
  witnesses are evaluated there.

  \<^bold>\<open>Data\<close> (one theory per file of the sources).
  \<^item> \<open>Prelude\<close>: integers, outcomes and state passing with its weakest preconditions, hash maps,
    the collections of facts. \<open>Libs\<close>: the parameters for libraries, and \<open>helpers.rs\<close>.
  \<^item> \<open>Types\<close> (\<open>protocol/types.rs\<close>), \<open>Errors\<close> (\<open>errors.rs\<close>), \<open>Close_Code\<close> (\<open>close_code.rs\<close>),
    \<open>State\<close> (\<open>protocol/state.rs\<close>).
  \<^item> \<open>Csn\<close> (\<open>protocol/csn.rs\<close>): the 16 bit overflow number and the 32 bit sequence number; an
    increment is the next number of 48 bits, or the overflow error at the last one.
  \<^item> \<open>Cookie\<close>, \<open>Nonce\<close>, \<open>Send_Error\<close> (\<open>protocol/cookie.rs\<close>, \<open>nonce.rs\<close>, \<open>send_error.rs\<close>): byte
    formats and their round trips, over the locale \<open>fixed_width_codec\<close>.
  \<^item> \<open>Crypto_Types\<close> (\<open>crypto_types.rs\<close>), \<open>Tasks\<close> (\<open>tasks.rs\<close>), \<open>Messages\<close> (\<open>protocol/messages.rs\<close>),
    \<open>Boxes\<close> (\<open>boxes.rs\<close>).

  \<^bold>\<open>Signaling\<close> (\<open>protocol/context.rs\<close>, \<open>protocol/mod.rs\<close>).
  \<^item> \<open>Context\<close>: the contexts of the server, the initiator and a responder, and the trait object
    over them (locale \<open>peer_context_ops\<close>).
  \<^item> \<open>Signaling_Common\<close>: the \<open>Common\<close> struct, and the handling of server messages that does not
    depend on the role. \<open>Initiator\<close> and \<open>Responder\<close>: the two structs with all their handlers.
    \<open>Signaling\<close>: the methods of the trait, with \<open>validate_nonce\<close>, \<open>handle_message\<close>,
    \<open>encode_task_message\<close> and \<open>encode_close_message\<close>.
  \<^item> \<open>Validation\<close>: exactly which messages \<open>validate_nonce\<close> accepts, and that it rejects replays, over
    the locale \<open>peer_store\<close>.
  \<^item> \<open>Signaling_Laws\<close>: locales (\<open>common_frame\<close>, \<open>validation_frame\<close>, \<open>handshake_invariant\<close>,
    \<open>common_invariant\<close>) that carry an invariant of \<open>Common\<close> through every handler; \<open>Actions\<close>: the
    same for the actions handlers return (\<open>action_class\<close>). \<open>Initiator_Laws\<close>, \<open>Responder_Laws\<close>,
    \<open>Signaling_Inv\<close>: the invariant of each role and that every call keeps it.
  \<^item> \<open>Scenario\<close>: a handshake at concrete inputs. \<open>Runs\<close>: sessions as sequences of calls in any order;
    invariant, progress and replay protection along every session.
  \<^item> \<open>Authentication\<close>: what was checked when a handshake is reported as done. \<open>Channel\<close>: two clients
    in the task phase understand each other under every interleaving. \<open>Handshake\<close>: two honest peers
    complete the peer handshake and are then in the relation \<open>linked\<close> of \<open>Channel\<close>.
    \<open>Server_Handshake\<close>: a client completes the handshake with an honest server. \<open>Network\<close>: two clients
    with the messages on their way; the steps of the two commute (locale \<open>strong_diamond\<close>), so that one
    run to the end decides all of them. \<open>Rendezvous\<close>: two new clients and an honest server, from the
    constructors to the open channel, in every order of delivery, with their handshake loops.
  \<^item> \<open>Panics\<close>: the only ways in which \<open>handle_message\<close> panics. \<open>Edge_Cases\<close>: full paths, used up
    tokens, reconnecting initiators.

  \<^bold>\<open>The client\<close> (\<open>lib.rs\<close>, \<open>send_all.rs\<close>).
  \<^item> \<open>Client\<close>: the builder, \<open>SaltyClient\<close>, the lock around it, which a panic poisons, \<open>connect\<close>, the
    decoding of WebSocket messages, and the loop of \<open>do_handshake\<close>, driven by what the runtime
    delivers in each round. \<open>Client_Laws\<close>: the loop is a session, waits only before the task state,
    and executes the actions of each message in order.
  \<^item> \<open>Task_Loop\<close>: the reader, transformer and writer futures as functions that make one step, and the
    relation \<open>loop_step\<close> that interleaves them with the task, the user and the connection.
    \<open>Task_Loop_Laws\<close>: what holds under every interleaving, and that the loop comes to rest.
  \<^item> \<open>Send_All\<close>: the future that sends a stream; the last section of this theory shows that it
    implements the sending step of the handshake loop.

  \<^bold>\<open>Chat program and C bindings.\<close>
  \<^item> \<open>Chat_Task\<close> (\<open>examples/chat/chat_task.rs\<close>): an implementation of the \<open>Task\<close> trait.
  \<^item> \<open>Chat_Main\<close> (\<open>examples/chat/main.rs\<close>): from the arguments to the client and the command shown to
    the user; the closures of the loops for typed lines, messages and events. \<open>Chat_App\<close>: the function
    \<open>main\<close> around it, with the declared command line, logging, certificate and TLS, the printed lines,
    connecting, the handshake and the start of the user interface; every command line either sets up the
    client or ends in a way that is stated. \<open>Invitation\<close>: the printed command, started on another
    machine, leads to a client that fits.
  \<^item> \<open>Chat_Loops\<close>: the input field, the loops and the chat task on one state, as sequences of actions in any
    order; the loops do not disturb each other, and panic only when the user interface has ended.
  \<^item> \<open>Chat_Meeting\<close>: two whole programs, the one an initiator and the other one started with a command
    that fits; with an honest server between them both get from \<open>main\<close> to their loops over an open channel.
  \<^item> \<open>Ffi\<close> (\<open>ffi/src/lib.rs\<close>): the six functions over an explicit heap; undefined behaviour is an
    error value, and a caller that respects ownership never meets it.

  \<^bold>\<open>Bounds and termination.\<close> Nothing runs on fuel. The loop of \<open>SendAll::poll\<close> is a
  \<open>partial_function\<close>, since a stream may yield items forever; for finite streams it is shown to
  return. The handshake loop is recursive on the list of rounds, so it waits at the end of what
  the runtime has delivered. The task loop is a relation with a measure that decreases when there
  is no new input. Theorems about messages that are sent require that sequence numbers remain:
  fewer than \<open>2^48\<close> have been used, and the first message of a peer has overflow number 0. The
  number of new responders is bounded by the 32 bit serial number the initiator gives them.

  \<^bold>\<open>Not modelled.\<close>
  \<^item> The MessagePack format and the \<open>Serialize\<close> and \<open>Deserialize\<close> implementations that are derived or
    forward to it, beyond the byte visitors: the format belongs to \<open>rmp-serde\<close>.
  \<^item> The cryptography of libsodium, and with it secrecy and unforgeability: the theorems say what was
    decrypted with which key, not who can produce such a box.
  \<^item> The WebSocket protocol, TLS and certificates, the tokio reactor, and time: the code calls
    libraries and passes on their results. Polling is represented by the steps of the relations.
  \<^item> Of the chat program, the layout of the views, which the code hands to \<open>cursive\<close>. Of every file, log
    output, tests, and accessors that return a field.
\<close>

section \<open>Sending during the handshake\<close>

text \<open>
  C24. The loop of \<open>do_handshake\<close> sends with \<open>send_all\<close>. When the sink has taken what was sent
  before and the stream holds the messages, then a \<open>SendAll\<close> future that is polled until it is
  ready does what \<open>ws_send\<close> says: the sink has taken the messages as well, in order and once.
\<close>

theorem ws_send_implemented:
  assumes "sink_laws P accepted" "stream_laws P remaining"
    and "accepted k = hs_sent s" "remaining u = messages"
    and "completes P accepted remaining (send_all_new k u) k'"
  shows "ws_send what None messages s = (Ok (), s\<lparr>hs_sent := accepted k'\<rparr>)"
proof -
  have "items accepted remaining (send_all_new k u) = Some (hs_sent s @ messages)"
    using assms(3,4) by (simp add: items_def send_all_new_def fuse_remaining_def)
  from completes_items [OF assms(1,2,5) this] show ?thesis
    by (simp add: ws_send_def proc_defs)
qed

theorem ws_send_implemented_witness:
  "ws_send ''Could not send message: '' None [WsPong [7]] (scenario_handshake scenario_initiator) =
     (Ok (), (scenario_handshake scenario_initiator)\<lparr>hs_sent := [WsPong [7]]\<rparr>)"
proof -
  let ?P = "sample_sink_stream :: (_, _, owned_message, _) sink_stream"
    and ?acc = "\<lambda>(out, buf). out @ buf"
  let ?s = "\<lparr>sa_sink = Some ([WsPong [7]], []), sa_stream = Some \<lparr>fuse_stream = [], fuse_done = True\<rparr>,
    sa_buffered = None\<rparr>"
  note eval = send_all_poll_def poll_loop.simps stream_mut_def fuse_poll_def sink_mut_def try_start_send_def
    take_result_def send_all_new_def sample_sink_stream_def proc_defs
  have 1: "send_all_poll ?P (send_all_new ([], []) [WsPong [7]]) = Some (Ok NotReady, ?s)"
    by (simp add: eval)
  have 2: "send_all_poll ?P ?s = Some (Ok (Ready (([WsPong [7]], []), [])),
      \<lparr>sa_sink = None, sa_stream = None, sa_buffered = None\<rparr>)"
    by (simp add: eval)
  have "completes ?P ?acc (\<lambda>xs. xs) (send_all_new ([], []) [WsPong [7]]) ([WsPong [7]], [])"
    using 1 refl completes.ready [OF 2] by (rule completes.again)
  with ws_send_implemented [OF sample_sink_stream_laws, of "([], [])" "scenario_handshake scenario_initiator"
      "[WsPong [7]]" "[WsPong [7]]" "([WsPong [7]], [])" "''Could not send message: ''"]
  show ?thesis by (simp add: scenario_handshake_def)
qed

end
